(* ===== verification/Prelude.thy ===== *)
theory Prelude
  imports Main
begin

text \<open>
  What every theory of the development shares: Go's error values with their wrapping chain
  (\<open>fmt.Errorf\<close> with \<open>%w\<close>, \<open>errors.Is\<close>, \<open>errors.As\<close>), the type abbreviations for
  operations that act on an environment, the \<open>named_theorems\<close> collections that carry the
  component proofs, and a few lemmas on lists and folds over fallible steps.

  An operation of the Go code that reaches outside the process (the network, the disk, Docker,
  the clock) is a function of an environment \<open>'e\<close> that returns its result with the environment
  after the call. \<open>error\<close>-only results are \<open>goerr option\<close> (\<open>None\<close> is \<open>nil\<close>), \<open>(T, error)\<close>
  results are \<open>goerr + T\<close> where the code never uses the value beside an error, and pairs
  \<open>T \<times> goerr option\<close> where it does.
\<close>

section \<open>Go errors\<close>

text \<open>
  \<open>Wrapped pre e post\<close> is \<open>fmt.Errorf(pre + "%w" + post, e)\<close>; \<open>Plain\<close> is \<open>errors.New\<close>, or
  \<open>fmt.Errorf\<close> without \<open>%w\<close>. The other constructors are the sentinel and struct errors the
  code compares against with \<open>errors.Is\<close> and \<open>errors.As\<close>.
\<close>

datatype goerr =
    Plain string
  | Wrapped string goerr string
  | ContextCanceled
  | ContextDeadlineExceeded
  | ErrImageExists
  | ErrUnsupportedPlatform
  | TerminalError string
  | StatusError int

fun err_leaf :: "goerr \<Rightarrow> goerr" where
  "err_leaf (Wrapped pre e post) = err_leaf e"
| "err_leaf e = e"

fun err_is :: "goerr \<Rightarrow> goerr \<Rightarrow> bool" where
  "err_is (Wrapped pre e post) t = (Wrapped pre e post = t \<or> err_is e t)"
| "err_is e t = (e = t)"

fun err_as_terminal :: "goerr \<Rightarrow> string option" where
  "err_as_terminal (Wrapped pre e post) = err_as_terminal e"
| "err_as_terminal (TerminalError code) = Some code"
| "err_as_terminal _ = None"

fun err_as_status :: "goerr \<Rightarrow> int option" where
  "err_as_status (Wrapped pre e post) = err_as_status e"
| "err_as_status (StatusError n) = Some n"
| "err_as_status _ = None"

abbreviation is_cancellation :: "goerr \<Rightarrow> bool" where
  "is_cancellation e \<equiv> err_is e ContextCanceled \<or> err_is e ContextDeadlineExceeded"

lemma err_is_leaf:
  assumes "err_is e t" and "\<And>p a q. t \<noteq> Wrapped p a q"
  shows "err_leaf e = t"
  using assms by (induction e) auto

lemma err_as_terminal_leaf: "err_as_terminal e = Some c \<longleftrightarrow> err_leaf e = TerminalError c"
  by (induction e) auto

lemma err_as_status_leaf: "err_as_status e = Some n \<longleftrightarrow> err_leaf e = StatusError n"
  by (induction e) auto

section \<open>Operations on an environment\<close>

type_synonym ('e, 'a) op = "'e \<Rightarrow> 'a \<times> 'e"
type_synonym 'e err_op = "'e \<Rightarrow> goerr option \<times> 'e"
type_synonym ('e, 'a) res_op = "'e \<Rightarrow> (goerr + 'a) \<times> 'e"

named_theorems step_splits \<open>case splits for chains of early returns\<close>
named_theorems step_defs \<open>definitions of the operations a component proof unfolds\<close>

declare prod.splits [step_splits] option.splits [step_splits] sum.splits [step_splits]
declare if_splits [step_splits]

text \<open>
  Sequencing: \<open>op_bind\<close> runs one operation after another; \<open>try_err\<close> is
  \<open>if err := m; err != nil { return wrap(err) }\<close> before the rest of a handler that returns an error,
  \<open>try_res\<close> the same for an operation that returns a value or an error.
\<close>

definition op_return :: "'a \<Rightarrow> ('e, 'a) op" where
  "op_return x e = (x, e)"

definition op_bind :: "('e, 'a) op \<Rightarrow> ('a \<Rightarrow> ('e, 'b) op) \<Rightarrow> ('e, 'b) op" where
  "op_bind m f e = (case m e of (x, e') \<Rightarrow> f x e')"

definition try_err :: "'e err_op \<Rightarrow> (goerr \<Rightarrow> goerr) \<Rightarrow> 'e err_op \<Rightarrow> 'e err_op" where
  "try_err m wrap k = op_bind m (\<lambda>r. case r of Some x \<Rightarrow> op_return (Some (wrap x)) | None \<Rightarrow> k)"

definition try_res :: "('e, 'a) res_op \<Rightarrow> (goerr \<Rightarrow> goerr) \<Rightarrow> ('a \<Rightarrow> 'e err_op) \<Rightarrow> 'e err_op" where
  "try_res m wrap k = op_bind m (\<lambda>r. case r of Inl x \<Rightarrow> op_return (Some (wrap x)) | Inr v \<Rightarrow> k v)"

definition wrap :: "string \<Rightarrow> goerr \<Rightarrow> goerr" where
  "wrap pre e = Wrapped pre e []"

definition same :: "goerr \<Rightarrow> goerr" where
  "same e = e"

lemmas op_defs = op_return_def op_bind_def try_err_def try_res_def

text \<open>
  \<open>guards\<close>: a chain of early returns succeeds exactly when no guard fires and the rest succeeds;
  rewriting with it turns "the handler returned no error" into the conjunction of what it checked.
\<close>

text \<open>
  Running a handler on a concrete environment: one call at a time, the rest untouched until the
  call's result is known (\<open>run_cong\<close> keeps the simplifier out of it).
\<close>

lemma run_steps:
  "op_return x e = (x, e)"
  "m e = (y, e') \<Longrightarrow> op_bind m f e = f y e'"
  "n e = (None, e') \<Longrightarrow> try_err n w k e = k e'"
  "n e = (Some a, e') \<Longrightarrow> try_err n w k e = (Some (w a), e')"
  "q e = (Inl a, e') \<Longrightarrow> try_res q w g e = (Some (w a), e')"
  "q e = (Inr b, e') \<Longrightarrow> try_res q w g e = g b e'"
  by (simp_all add: op_defs)

lemma run_cong:
  "m = m' \<Longrightarrow> e = e' \<Longrightarrow> op_bind m f e = op_bind m' f e'"
  "n = n' \<Longrightarrow> e = e' \<Longrightarrow> try_err n w k e = try_err n' w k e'"
  "q = q' \<Longrightarrow> e = e' \<Longrightarrow> try_res q w g e = try_res q' w g e'"
  by simp_all

lemma if_either: "(if b then x else y) = r \<Longrightarrow> (x = r \<Longrightarrow> P) \<Longrightarrow> (y = r \<Longrightarrow> P) \<Longrightarrow> P"
  by (simp split: if_splits)

named_theorems guards \<open>success of chains of early returns\<close>

lemma guard_Inr [guards]: "(if b then Inl e else x) = Inr y \<longleftrightarrow> \<not> b \<and> x = Inr y"
  by simp

lemma guard_None [guards]: "(if b then Some e else x) = None \<longleftrightarrow> \<not> b \<and> x = None"
  by simp

lemma bind_Inr [guards]:
  "(case s of Inl e \<Rightarrow> Inl (f e) | Inr v \<Rightarrow> g v) = Inr y \<longleftrightarrow> (\<exists>v. s = Inr v \<and> g v = Inr y)"
  by (auto split: sum.splits)

lemma bind_Inr_None [guards]:
  "(case s of Inl e \<Rightarrow> Some (f e) | Inr v \<Rightarrow> g v) = None \<longleftrightarrow> (\<exists>v. s = Inr v \<and> g v = None)"
  by (auto split: sum.splits)

lemma check_Inr [guards]:
  "(case w of None \<Rightarrow> x | Some e \<Rightarrow> Inl (f e)) = Inr y \<longleftrightarrow> w = None \<and> x = Inr y"
  by (auto split: option.splits)

lemma check_None [guards]:
  "(case w of None \<Rightarrow> x | Some e \<Rightarrow> Some (f e)) = None \<longleftrightarrow> w = None \<and> x = None"
  by (auto split: option.splits)

lemma need_Inr [guards]:
  "(case w of None \<Rightarrow> Inl e | Some v \<Rightarrow> g v) = Inr y \<longleftrightarrow> (\<exists>v. w = Some v \<and> g v = Inr y)"
  by (auto split: option.splits)

lemma need_None [guards]:
  "(case w of None \<Rightarrow> Some e | Some v \<Rightarrow> g v) = None \<longleftrightarrow> (\<exists>v. w = Some v \<and> g v = None)"
  by (auto split: option.splits)

section \<open>64-bit integers\<close>

text \<open>The value of an \<open>int64\<close> after an operation that may overflow.\<close>

definition wrap64 :: "int \<Rightarrow> int" where
  "wrap64 n = (n + 2 ^ 63) mod 2 ^ 64 - 2 ^ 63"

lemma wrap64_id: "- (2 ^ 63) \<le> n \<Longrightarrow> n < 2 ^ 63 \<Longrightarrow> wrap64 n = n"
  by (simp add: wrap64_def)

lemma wrap64_range: "- (2 ^ 63) \<le> wrap64 n \<and> wrap64 n < 2 ^ 63"
  by (simp add: wrap64_def)

section \<open>Lists\<close>

fun all_distinct_by :: "('a \<Rightarrow> 'k) \<Rightarrow> 'a list \<Rightarrow> bool" where
  "all_distinct_by f [] = True"
| "all_distinct_by f (x # xs) = (f x \<notin> f ` set xs \<and> all_distinct_by f xs)"

lemma all_distinct_by_map [simp]: "all_distinct_by f xs \<longleftrightarrow> distinct (map f xs)"
  by (induction xs) auto

lemma one_or_two: "n \<in> {1, 2::nat} \<longleftrightarrow> \<not> (n < 1 \<or> n > 2)"
  by auto

lemma drop_while_suffix: "\<exists>ys. xs = ys @ dropWhile P xs"
  by (rule exI [of _ "takeWhile P xs"]) simp

lemma takeWhile_id: "list_all P xs \<Longrightarrow> takeWhile P xs = xs"
  by (induction xs) auto

lemma dropWhile_nil: "list_all P xs \<Longrightarrow> dropWhile P xs = []"
  by (induction xs) auto

text \<open>A prefix of a list of labels: what a process has done when it stops half way.\<close>

definition is_prefix :: "'a list \<Rightarrow> 'a list \<Rightarrow> bool" where
  "is_prefix p xs \<longleftrightarrow> (\<exists>q. xs = p @ q)"

lemma is_prefix_refl [simp]: "is_prefix xs xs"
  by (simp add: is_prefix_def)

lemma is_prefix_nil [simp]: "is_prefix [] xs" "is_prefix p [] \<longleftrightarrow> p = []"
  by (auto simp: is_prefix_def)

lemma is_prefix_Cons: "is_prefix p (x # xs) \<longleftrightarrow> p = [] \<or> (\<exists>p'. p = x # p' \<and> is_prefix p' xs)"
  by (cases p) (auto simp: is_prefix_def)

lemma is_prefix_Cons_Cons [simp]: "is_prefix (y # p) (x # xs) \<longleftrightarrow> y = x \<and> is_prefix p xs"
  by (auto simp: is_prefix_Cons)

lemma is_prefix_set: "is_prefix p xs \<Longrightarrow> set p \<subseteq> set xs"
  by (auto simp: is_prefix_def)

end
