(* ===== verification/GoText.thy ===== *)
theory GoText
  imports Prelude
begin

text \<open>
  Go strings and the standard-library text functions the source uses. A Go string is a list of
  bytes, here Isabelle's \<open>string\<close> (a \<open>char\<close> is a byte). The theory has byte classes, the
  functions of package \<open>strings\<close>, decimal formatting (\<open>%d\<close>, \<open>strconv.Itoa\<close>), and a small
  regular-expression matcher (Brzozowski derivatives) so that the patterns of the source can be
  written down as the source writes them. A Go pattern \<open>^...$\<close> without flags matches the whole
  text, so \<open>rx_match\<close> is a whole-text match; its correctness against the usual language
  semantics is \<open>rx_match_lang\<close>.
\<close>

section \<open>Bytes\<close>

abbreviation byte :: "char \<Rightarrow> nat" where
  "byte c \<equiv> of_char c"

definition in_range :: "char \<Rightarrow> char \<Rightarrow> char \<Rightarrow> bool" where
  "in_range lo hi c \<longleftrightarrow> byte lo \<le> byte c \<and> byte c \<le> byte hi"

definition is_digit :: "char \<Rightarrow> bool" where
  "is_digit c = in_range (CHR ''0'') (CHR ''9'') c"

definition is_lower :: "char \<Rightarrow> bool" where
  "is_lower c = in_range (CHR ''a'') (CHR ''z'') c"

definition is_upper :: "char \<Rightarrow> bool" where
  "is_upper c = in_range (CHR ''A'') (CHR ''Z'') c"

definition is_alnum :: "char \<Rightarrow> bool" where
  "is_alnum c = (is_digit c \<or> is_lower c \<or> is_upper c)"

definition is_lower_hex :: "char \<Rightarrow> bool" where
  "is_lower_hex c = (is_digit c \<or> in_range (CHR ''a'') (CHR ''f'') c)"

definition is_hex :: "char \<Rightarrow> bool" where
  "is_hex c = (is_lower_hex c \<or> in_range (CHR ''A'') (CHR ''F'') c)"

definition one_of :: "string \<Rightarrow> char \<Rightarrow> bool" where
  "one_of cs c = (c \<in> set cs)"

lemmas byte_class_defs = in_range_def is_digit_def is_lower_def is_upper_def is_alnum_def
  is_lower_hex_def is_hex_def one_of_def

section \<open>Package \<open>strings\<close>\<close>

fun has_prefix :: "string \<Rightarrow> string \<Rightarrow> bool" where
  "has_prefix s [] = True"
| "has_prefix [] (p # ps) = False"
| "has_prefix (c # s) (p # ps) = (c = p \<and> has_prefix s ps)"

lemma has_prefix_iff: "has_prefix s p \<longleftrightarrow> (\<exists>r. s = p @ r)"
  by (induction s p rule: has_prefix.induct) auto

definition trim_prefix :: "string \<Rightarrow> string \<Rightarrow> string" where
  "trim_prefix s p = (if has_prefix s p then drop (length p) s else s)"

fun contains_str :: "string \<Rightarrow> string \<Rightarrow> bool" where
  "contains_str [] sub = (sub = [])"
| "contains_str (c # s) sub = (has_prefix (c # s) sub \<or> contains_str s sub)"

lemma contains_str_iff: "contains_str s sub \<longleftrightarrow> (\<exists>a b. s = a @ sub @ b)"
proof (induction s)
  case (Cons c s)
  have "(\<exists>a b. c # s = a @ sub @ b) \<longleftrightarrow>
      (\<exists>b. c # s = sub @ b) \<or> (\<exists>a b. s = a @ sub @ b)"
    by (metis append_Cons append_Nil list.sel(3) neq_Nil_conv)
  then show ?case using Cons by (simp add: has_prefix_iff)
qed simp

definition contains_any :: "string \<Rightarrow> string \<Rightarrow> bool" where
  "contains_any s cs = list_ex (\<lambda>c. c \<in> set cs) s"

fun split_on :: "char \<Rightarrow> string \<Rightarrow> string list" where
  "split_on d [] = [[]]"
| "split_on d (c # s) =
     (if c = d then [] # split_on d s
      else case split_on d s of [] \<Rightarrow> [[c]] | w # ws \<Rightarrow> (c # w) # ws)"

fun join_with :: "string \<Rightarrow> string list \<Rightarrow> string" where
  "join_with d [] = []"
| "join_with d [w] = w"
| "join_with d (w # v # ws) = w @ d @ join_with d (v # ws)"

lemma split_on_not_nil [simp]: "split_on d s \<noteq> []"
  by (induction s) (auto split: list.splits)

lemma join_split: "join_with [d] (split_on d s) = s"
proof (induction s)
  case (Cons c s)
  obtain w ws where "split_on d s = w # ws"
    by (meson split_on_not_nil neq_Nil_conv)
  with Cons show ?case by (cases ws) auto
qed simp

lemma split_on_no_sep: "w \<in> set (split_on d s) \<Longrightarrow> d \<notin> set w"
  by (induction s arbitrary: w) (auto split: if_splits list.splits)

lemma split_on_single: "d \<notin> set w \<Longrightarrow> split_on d w = [w]"
  by (induction w) auto

lemma split_on_append: "d \<notin> set w \<Longrightarrow> split_on d (w @ d # s) = w # split_on d s"
  by (induction w) auto

lemma split_join:
  "ws \<noteq> [] \<Longrightarrow> \<forall>w\<in>set ws. d \<notin> set w \<Longrightarrow> split_on d (join_with [d] ws) = ws"
  by (induction "[d]" ws rule: join_with.induct) (auto simp: split_on_single split_on_append)

definition to_lower_byte :: "char \<Rightarrow> char" where
  "to_lower_byte c = (if is_upper c then char_of (byte c + 32) else c)"

definition to_lower :: "string \<Rightarrow> string" where
  "to_lower s = map to_lower_byte s"

definition to_upper_byte :: "char \<Rightarrow> char" where
  "to_upper_byte c = (if is_lower c then char_of (byte c - 32) else c)"

definition to_upper :: "string \<Rightarrow> string" where
  "to_upper s = map to_upper_byte s"

fun replace_byte :: "char \<Rightarrow> string \<Rightarrow> string \<Rightarrow> string" where
  "replace_byte c new [] = []"
| "replace_byte c new (x # s) = (if x = c then new else [x]) @ replace_byte c new s"

section \<open>Decimal numbers\<close>

definition digit_char :: "nat \<Rightarrow> char" where
  "digit_char n = char_of (48 + n mod 10)"

fun nat_str :: "nat \<Rightarrow> string" where
  "nat_str n = (if n < 10 then [digit_char n] else nat_str (n div 10) @ [digit_char n])"

declare nat_str.simps [simp del]

definition int_str :: "int \<Rightarrow> string" where
  "int_str i = (if i < 0 then CHR ''-'' # nat_str (nat (- i)) else nat_str (nat i))"

definition digit_val :: "char \<Rightarrow> nat" where
  "digit_val c = byte c - 48"

definition val_of :: "string \<Rightarrow> nat" where
  "val_of s = foldl (\<lambda>a c. a * 10 + digit_val c) 0 s"

lemma digit_val_char [simp]: "digit_val (digit_char n) = n mod 10"
  by (simp add: digit_val_def digit_char_def)

lemma is_digit_digit_char [simp]: "is_digit (digit_char n)"
proof -
  have "n mod 10 < 10" by simp
  then show ?thesis by (simp add: byte_class_defs digit_char_def)
qed

lemma val_of_nat_str [simp]: "val_of (nat_str n) = n"
proof (induction n rule: nat_str.induct)
  case (1 n)
  show ?case
  proof (cases "n < 10")
    case True
    then show ?thesis by (simp add: nat_str.simps [of n] val_of_def)
  next
    case False
    with 1 show ?thesis by (simp add: nat_str.simps [of n] val_of_def)
  qed
qed

lemma nat_str_digits: "list_all is_digit (nat_str n)"
proof (induction n rule: nat_str.induct)
  case (1 n)
  then show ?case by (cases "n < 10") (simp_all add: nat_str.simps [of n])
qed

lemma nat_str_not_nil [simp]: "nat_str n \<noteq> []"
  by (subst nat_str.simps) simp

lemma nat_str_inj: "nat_str m = nat_str n \<longleftrightarrow> m = n"
  by (metis val_of_nat_str)

lemma nat_str_hd_not_minus: "nat_str n \<noteq> CHR ''-'' # s"
proof
  assume "nat_str n = CHR ''-'' # s"
  with nat_str_digits [of n] have "is_digit (CHR ''-'')" by simp
  then show False by (simp add: byte_class_defs)
qed

lemma int_str_inj: "int_str i = int_str j \<longleftrightarrow> i = j"
proof -
  have "int_str i = int_str j \<Longrightarrow> i = j"
    by (auto simp: int_str_def nat_str_inj nat_str_hd_not_minus
        nat_str_hd_not_minus [THEN not_sym] split: if_splits)
  then show ?thesis by auto
qed

lemma int_str_chars: "c \<in> set (int_str i) \<Longrightarrow> is_digit c \<or> c = CHR ''-''"
  using nat_str_digits by (auto simp: int_str_def list_all_iff split: if_splits)

section \<open>Regular expressions\<close>

datatype rx =
    RxNone
  | RxEps
  | RxCls "char \<Rightarrow> bool"
  | RxSeq rx rx
  | RxAlt rx rx
  | RxStar rx

fun rx_nullable :: "rx \<Rightarrow> bool" where
  "rx_nullable RxNone = False"
| "rx_nullable RxEps = True"
| "rx_nullable (RxCls p) = False"
| "rx_nullable (RxSeq a b) = (rx_nullable a \<and> rx_nullable b)"
| "rx_nullable (RxAlt a b) = (rx_nullable a \<or> rx_nullable b)"
| "rx_nullable (RxStar a) = True"

fun rx_seq :: "rx \<Rightarrow> rx \<Rightarrow> rx" where
  "rx_seq RxNone b = RxNone"
| "rx_seq RxEps b = b"
| "rx_seq a b = RxSeq a b"

fun rx_alt :: "rx \<Rightarrow> rx \<Rightarrow> rx" where
  "rx_alt RxNone b = b"
| "rx_alt a RxNone = a"
| "rx_alt a b = RxAlt a b"

fun rx_deriv :: "char \<Rightarrow> rx \<Rightarrow> rx" where
  "rx_deriv c RxNone = RxNone"
| "rx_deriv c RxEps = RxNone"
| "rx_deriv c (RxCls p) = (if p c then RxEps else RxNone)"
| "rx_deriv c (RxSeq a b) =
     (if rx_nullable a then rx_alt (rx_seq (rx_deriv c a) b) (rx_deriv c b)
      else rx_seq (rx_deriv c a) b)"
| "rx_deriv c (RxAlt a b) = rx_alt (rx_deriv c a) (rx_deriv c b)"
| "rx_deriv c (RxStar a) = rx_seq (rx_deriv c a) (RxStar a)"

fun rx_match :: "rx \<Rightarrow> string \<Rightarrow> bool" where
  "rx_match r [] = rx_nullable r"
| "rx_match r (c # s) = rx_match (rx_deriv c r) s"

text \<open>Counted repetition \<open>r{n}\<close>, \<open>r{m,n}\<close>, \<open>r+\<close>, literal text and sequences of patterns.\<close>

fun rx_rep :: "nat \<Rightarrow> rx \<Rightarrow> rx" where
  "rx_rep 0 r = RxEps"
| "rx_rep (Suc n) r = RxSeq r (rx_rep n r)"

fun rx_upto :: "nat \<Rightarrow> rx \<Rightarrow> rx" where
  "rx_upto 0 r = RxEps"
| "rx_upto (Suc n) r = RxAlt RxEps (RxSeq r (rx_upto n r))"

definition rx_plus :: "rx \<Rightarrow> rx" where
  "rx_plus r = RxSeq r (RxStar r)"

definition rx_lit :: "string \<Rightarrow> rx" where
  "rx_lit s = foldr (\<lambda>c r. RxSeq (RxCls (\<lambda>x. x = c)) r) s RxEps"

definition rx_cat :: "rx list \<Rightarrow> rx" where
  "rx_cat rs = foldr RxSeq rs RxEps"

subsection \<open>Languages\<close>

inductive_set rx_star :: "string set \<Rightarrow> string set" for A where
  star_nil: "[] \<in> rx_star A"
| star_app: "u \<in> A \<Longrightarrow> v \<in> rx_star A \<Longrightarrow> u @ v \<in> rx_star A"

fun rx_lang :: "rx \<Rightarrow> string set" where
  "rx_lang RxNone = {}"
| "rx_lang RxEps = {[]}"
| "rx_lang (RxCls p) = {[c] | c. p c}"
| "rx_lang (RxSeq a b) = {u @ v | u v. u \<in> rx_lang a \<and> v \<in> rx_lang b}"
| "rx_lang (RxAlt a b) = rx_lang a \<union> rx_lang b"
| "rx_lang (RxStar a) = rx_star (rx_lang a)"

lemma rx_nullable_lang: "rx_nullable r \<longleftrightarrow> [] \<in> rx_lang r"
  by (induction r) (auto intro: rx_star.star_nil)

lemma rx_seq_lang [simp]: "rx_lang (rx_seq a b) = rx_lang (RxSeq a b)"
  by (cases a) auto

lemma rx_alt_lang [simp]: "rx_lang (rx_alt a b) = rx_lang (RxAlt a b)"
  by (cases a; cases b) auto

lemma rx_star_Cons: "c # s \<in> rx_star A \<longleftrightarrow> (\<exists>u v. s = u @ v \<and> c # u \<in> A \<and> v \<in> rx_star A)"
proof
  assume "c # s \<in> rx_star A"
  then show "\<exists>u v. s = u @ v \<and> c # u \<in> A \<and> v \<in> rx_star A"
  proof (induction "c # s" arbitrary: s)
    case (star_app u v)
    then show ?case by (cases u) auto
  qed
next
  assume "\<exists>u v. s = u @ v \<and> c # u \<in> A \<and> v \<in> rx_star A"
  then show "c # s \<in> rx_star A"
    by (metis append_Cons rx_star.star_app)
qed

lemma rx_deriv_lang: "s \<in> rx_lang (rx_deriv c r) \<longleftrightarrow> c # s \<in> rx_lang r"
proof (induction r arbitrary: s)
  case (RxSeq a b)
  have "c # s \<in> rx_lang (RxSeq a b) \<longleftrightarrow>
     (\<exists>u v. s = u @ v \<and> c # u \<in> rx_lang a \<and> v \<in> rx_lang b) \<or>
     ([] \<in> rx_lang a \<and> c # s \<in> rx_lang b)"
    by (auto simp: Cons_eq_append_conv)
  with RxSeq show ?case by (auto simp: rx_nullable_lang)
next
  case (RxStar a)
  then show ?case by (auto simp: rx_star_Cons)
qed auto

theorem rx_match_lang: "rx_match r s \<longleftrightarrow> s \<in> rx_lang r"
  by (induction s arbitrary: r) (auto simp: rx_nullable_lang rx_deriv_lang)

subsection \<open>What a match says about the text\<close>

fun rx_over :: "(char \<Rightarrow> bool) \<Rightarrow> rx \<Rightarrow> bool" where
  "rx_over P (RxCls p) = (\<forall>c. p c \<longrightarrow> P c)"
| "rx_over P (RxSeq a b) = (rx_over P a \<and> rx_over P b)"
| "rx_over P (RxAlt a b) = (rx_over P a \<and> rx_over P b)"
| "rx_over P (RxStar a) = rx_over P a"
| "rx_over P _ = True"

lemma rx_star_all: "s \<in> rx_star A \<Longrightarrow> (\<And>u. u \<in> A \<Longrightarrow> list_all P u) \<Longrightarrow> list_all P s"
  by (induction rule: rx_star.induct) auto

lemma rx_lang_over: "s \<in> rx_lang r \<Longrightarrow> rx_over P r \<Longrightarrow> list_all P s"
  by (induction r arbitrary: s) (auto intro: rx_star_all)

lemma rx_match_over: "rx_match r s \<Longrightarrow> rx_over P r \<Longrightarrow> list_all P s"
  by (simp add: rx_match_lang rx_lang_over)

lemma rx_over_rep [simp]: "rx_over P r \<Longrightarrow> rx_over P (rx_rep n r)"
  by (induction n) auto

lemma rx_over_upto [simp]: "rx_over P r \<Longrightarrow> rx_over P (rx_upto n r)"
  by (induction n) auto

lemma rx_over_plus [simp]: "rx_over P (rx_plus r) = rx_over P r"
  by (simp add: rx_plus_def)

lemma rx_over_lit [simp]: "rx_over P (rx_lit s) = list_all P s"
  by (induction s) (auto simp: rx_lit_def)

lemma rx_over_cat [simp]: "rx_over P (rx_cat rs) = list_all (rx_over P) rs"
  by (induction rs) (auto simp: rx_cat_def)

text \<open>Patterns of one length: the bytes of a match, one class for each position.\<close>

fun rx_fixed :: "rx \<Rightarrow> (char \<Rightarrow> bool) list option" where
  "rx_fixed RxEps = Some []"
| "rx_fixed (RxCls p) = Some [p]"
| "rx_fixed (RxSeq a b) =
     (case rx_fixed a of None \<Rightarrow> None
      | Some ps \<Rightarrow> (case rx_fixed b of None \<Rightarrow> None | Some qs \<Rightarrow> Some (ps @ qs)))"
| "rx_fixed _ = None"

lemma rx_fixed_lang:
  "rx_fixed r = Some ps \<Longrightarrow> s \<in> rx_lang r \<longleftrightarrow> list_all2 (\<lambda>p c. p c) ps s"
proof (induction r arbitrary: ps s)
  case (RxSeq a b)
  then obtain pa pb where "rx_fixed a = Some pa" "rx_fixed b = Some pb" "ps = pa @ pb"
    by (auto split: option.splits)
  with RxSeq.IH show ?case
    by (auto simp: list_all2_append1 dest: list_all2_lengthD) (metis list_all2_lengthD)
qed (auto simp: list_all2_Cons1)

lemma rx_match_fixed:
  "rx_fixed r = Some ps \<Longrightarrow> rx_match r s \<longleftrightarrow> list_all2 (\<lambda>p c. p c) ps s"
  by (simp add: rx_match_lang rx_fixed_lang)

lemma rx_fixed_rep: "rx_fixed (rx_rep n (RxCls p)) = Some (replicate n p)"
  by (induction n) auto

lemma rx_fixed_lit: "rx_fixed (rx_lit s) = Some (map (\<lambda>c x. x = c) s)"
  by (induction s) (auto simp: rx_lit_def)

lemma list_all2_pred_replicate:
  "list_all2 (\<lambda>p c. p c) (replicate n p) s \<longleftrightarrow> length s = n \<and> list_all p s"
proof (induction n arbitrary: s)
  case (Suc n)
  then show ?case by (cases s) auto
qed auto

lemma rx_lang_rep: "rx_lang (rx_rep n (RxCls p)) = {s. length s = n \<and> list_all p s}"
  using rx_fixed_lang [OF rx_fixed_rep] by (auto simp: list_all2_pred_replicate)

lemma rx_cls_seq: "s \<in> rx_lang (RxSeq (RxCls p) b) \<longleftrightarrow> s \<noteq> [] \<and> p (hd s) \<and> tl s \<in> rx_lang b"
proof (cases s)
  case (Cons c t)
  have "p c \<Longrightarrow> t \<in> rx_lang b \<Longrightarrow> \<exists>u v. c # t = u @ v \<and> (\<exists>d. u = [d] \<and> p d) \<and> v \<in> rx_lang b"
    by (intro exI [of _ "[c]"] exI [of _ t]) simp
  with Cons show ?thesis by auto
qed simp

lemma rx_lang_upto: "s \<in> rx_lang (rx_upto n (RxCls p)) \<longleftrightarrow> length s \<le> n \<and> list_all p s"
proof (induction n arbitrary: s)
  case (Suc n)
  have "s \<in> rx_lang (rx_upto (Suc n) (RxCls p)) \<longleftrightarrow> s = [] \<or> s \<in> rx_lang (RxSeq (RxCls p) (rx_upto n (RxCls p)))"
    by simp
  also have "\<dots> \<longleftrightarrow> length s \<le> Suc n \<and> list_all p s"
    unfolding rx_cls_seq Suc.IH by (cases s) auto
  finally show ?case .
qed auto

lemma rx_seq_eps: "s \<in> rx_lang (RxSeq a RxEps) \<longleftrightarrow> s \<in> rx_lang a"
  by simp

lemma rx_match_head_tail:
  "rx_match (rx_cat [RxCls p, rx_upto n (RxCls q)]) s \<longleftrightarrow> s \<noteq> [] \<and> length s \<le> Suc n \<and> p (hd s) \<and> list_all q (tl s)"
  unfolding rx_match_lang rx_cat_def foldr.simps comp_def id_def rx_cls_seq rx_seq_eps rx_lang_upto
  by (cases s) auto

lemma rx_rep_seq: "s \<in> rx_lang (RxSeq (rx_rep m (RxCls q)) b) \<longleftrightarrow>
    m \<le> length s \<and> list_all q (take m s) \<and> drop m s \<in> rx_lang b"
proof
  assume "s \<in> rx_lang (RxSeq (rx_rep m (RxCls q)) b)"
  then show "m \<le> length s \<and> list_all q (take m s) \<and> drop m s \<in> rx_lang b" by (auto simp: rx_lang_rep)
next
  assume "m \<le> length s \<and> list_all q (take m s) \<and> drop m s \<in> rx_lang b"
  then have "take m s \<in> rx_lang (rx_rep m (RxCls q))" "drop m s \<in> rx_lang b" "s = take m s @ drop m s"
    by (simp_all add: rx_lang_rep)
  then show "s \<in> rx_lang (RxSeq (rx_rep m (RxCls q)) b)"
    unfolding rx_lang.simps mem_Collect_eq by blast
qed

lemma rx_match_head_range:
  "rx_match (rx_cat [RxCls p, rx_rep m (RxCls q), rx_upto n (RxCls q)]) s \<longleftrightarrow>
     s \<noteq> [] \<and> Suc m \<le> length s \<and> length s \<le> Suc (m + n) \<and> p (hd s) \<and> list_all q (tl s)"
proof -
  have all: "list_all q t \<longleftrightarrow> list_all q (take m t) \<and> list_all q (drop m t)" for t
    by (metis append_take_drop_id list_all_append)
  show ?thesis
    unfolding rx_match_lang rx_cat_def foldr.simps comp_def id_def rx_cls_seq rx_rep_seq rx_seq_eps rx_lang_upto
    using all [of "tl s"] by (cases s) auto
qed

end
