(* ===== verification/GoUrl.thy ===== *)
theory GoUrl
  imports GoText
begin

text \<open>
  \<open>net/url.Parse\<close> and the accessors the source calls on its result (\<open>Hostname\<close>, \<open>Port\<close>,
  \<open>EscapedPath\<close>), following the parser step by step: control bytes, fragment, scheme, query,
  opaque part, authority with user information and host, and the percent-decoding of each part
  with the byte sets of its mode. User information is kept as a flag, since the source only
  asks whether it is there.
\<close>

datatype url_mode = EncodePath | EncodeHost | EncodeZone | EncodeFragment | EncodeUser

record url =
  u_scheme :: string
  u_opaque :: string
  u_user :: bool
  u_host :: string
  u_path :: string
  u_raw_path :: string
  u_force_query :: bool
  u_raw_query :: string
  u_fragment :: string

definition empty_url :: url where
  "empty_url = \<lparr>u_scheme = [], u_opaque = [], u_user = False, u_host = [], u_path = [],
     u_raw_path = [], u_force_query = False, u_raw_query = [], u_fragment = []\<rparr>"

section \<open>Percent encoding\<close>

definition should_escape :: "url_mode \<Rightarrow> char \<Rightarrow> bool" where
  "should_escape m c =
     (if is_alnum c then False
      else if (m = EncodeHost \<or> m = EncodeZone) \<and> one_of (''!$&()*+,;=:[]<>'' @ [CHR 0x22, CHR 0x27]) c then False
      else if one_of ''-_.~'' c then False
      else if one_of ''$&+,/:;=?@'' c then
        (case m of EncodePath \<Rightarrow> c = CHR ''?''
         | EncodeUser \<Rightarrow> one_of ''@/?:'' c
         | EncodeFragment \<Rightarrow> False
         | _ \<Rightarrow> True)
      else if m = EncodeFragment \<and> one_of ''!()*'' c then False
      else True)"

definition hex_val :: "char \<Rightarrow> nat" where
  "hex_val c = (if is_digit c then byte c - 48
                else if is_lower c then byte c - 97 + 10 else byte c - 65 + 10)"

fun url_unescape :: "url_mode \<Rightarrow> string \<Rightarrow> string option" where
  "url_unescape m [] = Some []"
| "url_unescape m (c # s) =
     (if c = CHR ''%'' then
        (case s of
           h # l # r \<Rightarrow>
             (let v = char_of (16 * hex_val h + hex_val l) :: char in
              if \<not> (is_hex h \<and> is_hex l) then None
              else if m = EncodeHost \<and> hex_val h < 8 \<and> [h, l] \<noteq> ''25'' then None
              else if m = EncodeZone \<and> [h, l] \<noteq> ''25'' \<and> v \<noteq> CHR '' '' \<and> should_escape EncodeHost v then None
              else map_option (\<lambda>t. v # t) (url_unescape m r))
         | _ \<Rightarrow> None)
      else if (m = EncodeHost \<or> m = EncodeZone) \<and> byte c < 128 \<and> should_escape m c then None
      else map_option (\<lambda>t. c # t) (url_unescape m s))"

definition upper_hex_digit :: "nat \<Rightarrow> char" where
  "upper_hex_digit n = (if n < 10 then char_of (48 + n) else char_of (55 + n))"

fun url_escape :: "url_mode \<Rightarrow> string \<Rightarrow> string" where
  "url_escape m [] = []"
| "url_escape m (c # s) =
     (if should_escape m c
      then [CHR ''%'', upper_hex_digit (byte c div 16), upper_hex_digit (byte c mod 16)]
      else [c]) @ url_escape m s"

definition valid_encoded :: "url_mode \<Rightarrow> string \<Rightarrow> bool" where
  "valid_encoded m s =
     list_all (\<lambda>c. one_of (''!$&()*+,;=:@[]%'' @ [CHR 0x27]) c \<or> \<not> should_escape m c) s"

section \<open>Cutting a URL apart\<close>

text \<open>\<open>strings.Cut\<close> at a byte, and the last occurrence of a byte.\<close>

definition cut_at :: "char \<Rightarrow> string \<Rightarrow> string \<times> string" where
  "cut_at d s = (takeWhile (\<lambda>c. c \<noteq> d) s, drop 1 (dropWhile (\<lambda>c. c \<noteq> d) s))"

definition cut_last :: "char \<Rightarrow> string \<Rightarrow> (string \<times> string) option" where
  "cut_last d s =
     (if d \<in> set s
      then let t = takeWhile (\<lambda>c. c \<noteq> d) (rev s) in Some (take (length s - length t - 1) s, rev t)
      else None)"

definition is_letter :: "char \<Rightarrow> bool" where
  "is_letter c = (is_lower c \<or> is_upper c)"

text \<open>\<open>getScheme\<close>: \<open>None\<close> is the error "missing protocol scheme".\<close>

definition get_scheme :: "string \<Rightarrow> (string \<times> string) option" where
  "get_scheme s =
     (let w = takeWhile (\<lambda>c. is_letter c \<or> is_digit c \<or> one_of ''+-.'' c) s;
          r = dropWhile (\<lambda>c. is_letter c \<or> is_digit c \<or> one_of ''+-.'' c) s in
      if w = [] then (if r \<noteq> [] \<and> hd r = CHR '':'' then None else Some ([], s))
      else if \<not> is_letter (hd w) then Some ([], s)
      else if r \<noteq> [] \<and> hd r = CHR '':'' then Some (w, tl r)
      else Some ([], s))"

definition valid_optional_port :: "string \<Rightarrow> bool" where
  "valid_optional_port p = (p = [] \<or> (hd p = CHR '':'' \<and> list_all is_digit (tl p)))"

definition valid_userinfo :: "string \<Rightarrow> bool" where
  "valid_userinfo s =
     list_all (\<lambda>c. is_alnum c \<or> one_of (''-._:~!$&()*+,;=%@'' @ [CHR 0x27]) c) s"

definition index_of :: "string \<Rightarrow> string \<Rightarrow> nat option" where
  "index_of s sub = find (\<lambda>i. has_prefix (drop i s) sub) [0..<Suc (length s)]"

definition parse_host :: "string \<Rightarrow> string option" where
  "parse_host h =
     (if has_prefix h ''['' then
        (case cut_last (CHR '']'') h of
           None \<Rightarrow> None
         | Some (inner, colon_port) \<Rightarrow>
             if \<not> valid_optional_port colon_port then None
             else (case index_of inner ''%25'' of
                 Some z \<Rightarrow>
                   (case (url_unescape EncodeHost (take z h), url_unescape EncodeZone (drop z inner),
                          url_unescape EncodeHost (drop (length inner) h)) of
                      (Some a, Some b, Some c) \<Rightarrow> Some (a @ b @ c)
                    | _ \<Rightarrow> None)
               | None \<Rightarrow> url_unescape EncodeHost h))
      else case cut_last (CHR '':'') h of
          Some (_, port) \<Rightarrow>
            if \<not> valid_optional_port (CHR '':'' # port) then None else url_unescape EncodeHost h
        | None \<Rightarrow> url_unescape EncodeHost h)"

definition parse_authority :: "string \<Rightarrow> (bool \<times> string) option" where
  "parse_authority a =
     (case cut_last (CHR ''@'') a of
        None \<Rightarrow> map_option (\<lambda>h. (False, h)) (parse_host a)
      | Some (info, host) \<Rightarrow>
          (case parse_host host of None \<Rightarrow> None
           | Some h \<Rightarrow>
               if \<not> valid_userinfo info then None
               else if url_unescape EncodeUser (fst (cut_at (CHR '':'') info)) = None
                  \<or> url_unescape EncodeUser (snd (cut_at (CHR '':'') info)) = None then None
               else Some (True, h)))"

definition set_path :: "string \<Rightarrow> url \<Rightarrow> url option" where
  "set_path p u =
     (case url_unescape EncodePath p of None \<Rightarrow> None
      | Some path \<Rightarrow>
          Some (u\<lparr>u_path := path, u_raw_path := (if p = url_escape EncodePath path then [] else p)\<rparr>))"

definition parse_rest :: "url \<Rightarrow> string \<Rightarrow> url option" where
  "parse_rest u rest =
     (if \<not> has_prefix rest ''/'' \<and> u_scheme u \<noteq> [] then Some (u\<lparr>u_opaque := rest\<rparr>)
      else if \<not> has_prefix rest ''/'' \<and> CHR '':'' \<in> set (fst (cut_at (CHR ''/'') rest)) then None
      else if (u_scheme u \<noteq> [] \<or> \<not> has_prefix rest ''///'') \<and> has_prefix rest ''//'' then
        (case parse_authority (takeWhile (\<lambda>c. c \<noteq> CHR ''/'') (drop 2 rest)) of
           None \<Rightarrow> None
         | Some (user, host) \<Rightarrow>
             set_path (dropWhile (\<lambda>c. c \<noteq> CHR ''/'') (drop 2 rest)) (u\<lparr>u_user := user, u_host := host\<rparr>))
      else set_path rest u)"

definition url_parse_nofrag :: "string \<Rightarrow> url option" where
  "url_parse_nofrag raw =
     (if list_ex (\<lambda>c. byte c < 32 \<or> byte c = 127) raw then None
      else if raw = ''*'' then Some (empty_url\<lparr>u_path := ''*''\<rparr>)
      else case get_scheme raw of None \<Rightarrow> None
        | Some (scheme, rest) \<Rightarrow>
            (let u = empty_url\<lparr>u_scheme := to_lower scheme\<rparr> in
             if rest \<noteq> [] \<and> last rest = CHR ''?'' \<and> CHR ''?'' \<notin> set (butlast rest)
             then parse_rest (u\<lparr>u_force_query := True\<rparr>) (butlast rest)
             else parse_rest (u\<lparr>u_raw_query := snd (cut_at (CHR ''?'') rest)\<rparr>) (fst (cut_at (CHR ''?'') rest))))"

definition url_parse :: "string \<Rightarrow> url option" where
  "url_parse raw =
     (case cut_at (CHR ''#'') raw of (u, frag) \<Rightarrow>
       (case url_parse_nofrag u of None \<Rightarrow> None
        | Some v \<Rightarrow>
            if frag = [] then Some v
            else (case url_unescape EncodeFragment frag of None \<Rightarrow> None
                  | Some f \<Rightarrow> Some (v\<lparr>u_fragment := f\<rparr>))))"

section \<open>Accessors\<close>

definition split_host_port :: "string \<Rightarrow> string \<times> string" where
  "split_host_port hp =
     (let (h, p) = (case cut_last (CHR '':'') hp of
                      Some (a, b) \<Rightarrow> if list_all is_digit b then (a, b) else (hp, [])
                    | None \<Rightarrow> (hp, []))
      in if has_prefix h ''['' \<and> h \<noteq> [] \<and> last h = CHR '']'' then (butlast (tl h), p) else (h, p))"

definition hostname :: "url \<Rightarrow> string" where
  "hostname u = fst (split_host_port (u_host u))"

definition url_port :: "url \<Rightarrow> string" where
  "url_port u = snd (split_host_port (u_host u))"

definition escaped_path :: "url \<Rightarrow> string" where
  "escaped_path u =
     (if u_raw_path u \<noteq> [] \<and> valid_encoded EncodePath (u_raw_path u)
         \<and> url_unescape EncodePath (u_raw_path u) = Some (u_path u) then u_raw_path u
      else if u_path u = ''*'' then ''*'' else url_escape EncodePath (u_path u))"

lemmas url_eval = url_parse_def url_parse_nofrag_def parse_rest_def set_path_def parse_authority_def
  parse_host_def get_scheme_def cut_at_def cut_last_def split_host_port_def hostname_def url_port_def
  escaped_path_def should_escape_def is_letter_def empty_url_def to_lower_def to_lower_byte_def
  valid_optional_port_def char_of_eq_iff byte_class_defs

end
