(* ===== verification/GoPath.thy ===== *)
theory GoPath
  imports GoText
begin

text \<open>
  The lexical path functions of packages \<open>path\<close> and (on Linux, where the agent runs)
  \<open>path/filepath\<close>: \<open>Clean\<close>, \<open>Join\<close>, \<open>IsAbs\<close>, \<open>Base\<close>, \<open>Dir\<close>, \<open>Rel\<close>, \<open>IsLocal\<close>.
  A path is split at \<open>/\<close>; \<open>Clean\<close> runs a stack over the elements (empty elements and \<open>.\<close>
  vanish, \<open>..\<close> removes the element before it). The lemmas say what a cleaned relative path
  looks like: every \<open>..\<close> it has is at its front. The path checks of the program rest on them.
\<close>

section \<open>Clean\<close>

definition dot :: string where "dot = ''.''"
definition dotdot :: string where "dotdot = ''..''"

fun clean_step :: "bool \<Rightarrow> string list \<Rightarrow> string \<Rightarrow> string list" where
  "clean_step rooted st e =
     (if e = [] \<or> e = dot then st
      else if e = dotdot then
        (case st of
           [] \<Rightarrow> if rooted then [] else [dotdot]
         | t # st' \<Rightarrow> if t = dotdot then dotdot # st else st')
      else e # st)"

definition is_abs :: "string \<Rightarrow> bool" where
  "is_abs p = has_prefix p ''/''"

text \<open>The elements of the cleaned path, first element first.\<close>

definition clean_elems :: "string \<Rightarrow> string list" where
  "clean_elems p = rev (foldl (clean_step (is_abs p)) [] (split_on (CHR ''/'') p))"

definition join_slash :: "string list \<Rightarrow> string" where
  "join_slash = join_with ''/''"

definition path_clean :: "string \<Rightarrow> string" where
  "path_clean p =
     (if p = [] then dot
      else if is_abs p then CHR ''/'' # join_slash (clean_elems p)
      else if clean_elems p = [] then dot
      else join_slash (clean_elems p))"

text \<open>\<open>Join\<close> drops empty elements, joins the rest with \<open>/\<close> and cleans the result.\<close>

definition path_join :: "string list \<Rightarrow> string" where
  "path_join es =
     (let es' = filter (\<lambda>e. e \<noteq> []) es
      in if es' = [] then [] else path_clean (join_slash es'))"

text \<open>\<open>Base\<close>: the last element, trailing slashes stripped first; \<open>.\<close> for the empty path.\<close>

definition strip_trailing :: "char \<Rightarrow> string \<Rightarrow> string" where
  "strip_trailing c s = rev (dropWhile (\<lambda>x. x = c) (rev s))"

definition path_base :: "string \<Rightarrow> string" where
  "path_base p =
     (if p = [] then dot
      else let q = strip_trailing (CHR ''/'') p
           in if q = [] then ''/'' else last (split_on (CHR ''/'') q))"

text \<open>\<open>Dir\<close>: everything up to the last slash, cleaned.\<close>

definition path_dir :: "string \<Rightarrow> string" where
  "path_dir p = path_clean (rev (dropWhile (\<lambda>x. x \<noteq> CHR ''/'') (rev p)))"

section \<open>Rel and IsLocal\<close>

fun strip_common :: "string list \<Rightarrow> string list \<Rightarrow> string list \<times> string list" where
  "strip_common (b # bs) (t # ts) =
     (if b = t then strip_common bs ts else (b # bs, t # ts))"
| "strip_common bs ts = (bs, ts)"

text \<open>
  \<open>Rel(base, targ)\<close>: both cleaned; equal paths give \<open>.\<close>; an absolute and a relative path have no
  answer; after the common elements, one \<open>..\<close> for each element left of the base (an error when
  what is left of the base starts with \<open>..\<close>), then what is left of the target.
\<close>

definition path_rel :: "string \<Rightarrow> string \<Rightarrow> string option" where
  "path_rel base targ =
     (if path_clean base = path_clean targ then Some dot
      else if is_abs base \<noteq> is_abs targ then None
      else case strip_common (clean_elems base) (clean_elems targ) of
        (bs, ts) \<Rightarrow>
          if (\<exists>bs'. bs = dotdot # bs') then None
          else Some (join_slash (replicate (length bs) dotdot @ ts)))"

definition escapes :: "string \<Rightarrow> bool" where
  "escapes p = (p = dotdot \<or> has_prefix p ''../'')"

text \<open>\<open>filepath.IsLocal\<close> on Unix; \<open>Clean\<close> is only called when an element is \<open>.\<close> or \<open>..\<close>.\<close>

definition path_is_local :: "string \<Rightarrow> bool" where
  "path_is_local p =
     (if is_abs p \<or> p = [] then False
      else let q = (if dot \<in> set (split_on (CHR ''/'') p) \<or> dotdot \<in> set (split_on (CHR ''/'') p)
                    then path_clean p else p)
           in \<not> escapes q)"

lemma path_rel_code [code]:
  "path_rel base targ =
     (if path_clean base = path_clean targ then Some dot
      else if is_abs base \<noteq> is_abs targ then None
      else case strip_common (clean_elems base) (clean_elems targ) of
        (bs, ts) \<Rightarrow>
          if bs \<noteq> [] \<and> hd bs = dotdot then None
          else Some (join_slash (replicate (length bs) dotdot @ ts)))"
  by (auto simp: path_rel_def neq_Nil_conv split: prod.splits)

section \<open>What cleaned paths look like\<close>

text \<open>An element of a cleaned path: not empty, not \<open>.\<close>, without a slash.\<close>

definition clean_elem :: "string \<Rightarrow> bool" where
  "clean_elem e \<longleftrightarrow> e \<noteq> [] \<and> e \<noteq> dot \<and> CHR ''/'' \<notin> set e"

text \<open>
  The stack of \<open>Clean\<close>, top first: proper elements, then the leading \<open>..\<close> elements, which a
  rooted path does not have.
\<close>

fun clean_stack :: "bool \<Rightarrow> string list \<Rightarrow> bool" where
  "clean_stack rooted [] = True"
| "clean_stack rooted (e # st) =
     (clean_elem e \<and> clean_stack rooted st \<and>
      (e = dotdot \<longrightarrow> \<not> rooted \<and> (\<forall>t\<in>set st. t = dotdot)))"

lemma clean_step_stack:
  "clean_stack rooted st \<Longrightarrow> CHR ''/'' \<notin> set e \<Longrightarrow> clean_stack rooted (clean_step rooted st e)"
  by (cases st) (auto simp: clean_elem_def dotdot_def dot_def)

lemma clean_fold_stack:
  "clean_stack rooted st \<Longrightarrow> \<forall>e\<in>set es. CHR ''/'' \<notin> set e \<Longrightarrow>
   clean_stack rooted (foldl (clean_step rooted) st es)"
  by (induction es arbitrary: st) (auto simp del: clean_step.simps intro: clean_step_stack)

lemma clean_elems_stack: "clean_stack (is_abs p) (rev (clean_elems p))"
  unfolding clean_elems_def rev_rev_ident
  by (rule clean_fold_stack) (auto dest: split_on_no_sep)

lemma clean_stack_elem: "clean_stack rooted st \<Longrightarrow> e \<in> set st \<Longrightarrow> clean_elem e"
  by (induction st) auto

lemma clean_elems_elem: "e \<in> set (clean_elems p) \<Longrightarrow> clean_elem e"
  using clean_stack_elem [OF clean_elems_stack [of p]] by simp

lemma clean_stack_rooted: "clean_stack True st \<Longrightarrow> dotdot \<notin> set st"
  by (induction st) auto

lemma clean_elems_abs: "is_abs p \<Longrightarrow> dotdot \<notin> set (clean_elems p)"
  using clean_elems_stack [of p] clean_stack_rooted [of "rev (clean_elems p)"] by simp

lemma clean_stack_last:
  "clean_stack rooted st \<Longrightarrow> st \<noteq> [] \<Longrightarrow> last st \<noteq> dotdot \<Longrightarrow> dotdot \<notin> set st"
proof (induction st)
  case (Cons e st)
  show ?case
  proof (cases "st = []")
    case False
    with Cons have "dotdot \<notin> set st" "last st \<in> set st" by auto
    with Cons.prems False show ?thesis by auto
  qed (use Cons in auto)
qed simp

lemma clean_elems_hd:
  "clean_elems p \<noteq> [] \<Longrightarrow> hd (clean_elems p) \<noteq> dotdot \<Longrightarrow> dotdot \<notin> set (clean_elems p)"
  using clean_stack_last [OF clean_elems_stack [of p]] by (simp add: last_rev)

text \<open>Cleaning a path that is already a list of proper elements changes nothing.\<close>

lemma clean_fold_proper:
  "\<forall>e\<in>set es. clean_elem e \<and> e \<noteq> dotdot \<Longrightarrow> foldl (clean_step rooted) st es = rev es @ st"
  by (induction es arbitrary: st) (auto simp: clean_elem_def)

lemma join_slash_hd: "es \<noteq> [] \<Longrightarrow> hd es \<noteq> [] \<Longrightarrow> join_slash es \<noteq> [] \<and> hd (join_slash es) = hd (hd es)"
  by (cases es rule: remdups_adj.cases) (auto simp: join_slash_def)

lemma join_slash_not_abs:
  assumes "\<forall>e\<in>set es. clean_elem e"
  shows "\<not> is_abs (join_slash es)"
proof (cases "es = []")
  case False
  then have he: "hd es \<in> set es" by simp
  with assms have "hd es \<noteq> []" "CHR ''/'' \<notin> set (hd es)" by (auto simp: clean_elem_def)
  then have "hd (hd es) \<noteq> CHR ''/''" by (metis hd_in_set)
  with join_slash_hd [OF False \<open>hd es \<noteq> []\<close>] show ?thesis
    by (cases "join_slash es") (auto simp: is_abs_def)
qed (simp add: join_slash_def is_abs_def)

lemma split_join_slash:
  "es \<noteq> [] \<Longrightarrow> \<forall>e\<in>set es. clean_elem e \<Longrightarrow> split_on (CHR ''/'') (join_slash es) = es"
  unfolding join_slash_def by (rule split_join) (auto simp: clean_elem_def)

lemma clean_elems_join:
  assumes "\<forall>e\<in>set es. clean_elem e \<and> e \<noteq> dotdot"
  shows "clean_elems (join_slash es) = es"
proof (cases "es = []")
  case True
  then show ?thesis by (simp add: join_slash_def clean_elems_def is_abs_def dot_def dotdot_def)
next
  case False
  with assms show ?thesis
    by (simp add: clean_elems_def split_join_slash clean_fold_proper)
qed

text \<open>
  A path equal to its own cleaning is the join of its elements: the elements of the path are
  the elements of the cleaned path.
\<close>

lemma clean_fixed_elems:
  assumes fixed: "path_clean p = p" and rel: "\<not> is_abs p" and nd: "p \<noteq> dot"
  shows "split_on (CHR ''/'') p = clean_elems p" and "clean_elems p \<noteq> []"
proof -
  from fixed rel nd have p: "p = join_slash (clean_elems p)" and ne: "clean_elems p \<noteq> []"
    by (auto simp: path_clean_def split: if_splits)
  then show "clean_elems p \<noteq> []" by simp
  from p ne show "split_on (CHR ''/'') p = clean_elems p"
    by (metis split_join_slash clean_elems_elem)
qed

text \<open>A path escapes its base lexically exactly when its first element is \<open>..\<close>.\<close>

lemma split_on_hd: "hd (split_on d s) = takeWhile (\<lambda>c. c \<noteq> d) s"
  by (induction s) (auto split: list.splits)

lemma escapes_hd: "escapes p \<longleftrightarrow> hd (split_on (CHR ''/'') p) = dotdot"
proof -
  have "takeWhile (\<lambda>c. c \<noteq> CHR ''/'') p = ''..'' \<longleftrightarrow> p = ''..'' \<or> has_prefix p ''../''"
  proof
    assume tw: "takeWhile (\<lambda>c. c \<noteq> CHR ''/'') p = ''..''"
    have p: "p = ''..'' @ dropWhile (\<lambda>c. c \<noteq> CHR ''/'') p"
      using takeWhile_dropWhile_id [of "\<lambda>c. c \<noteq> CHR ''/''" p] tw by simp
    show "p = ''..'' \<or> has_prefix p ''../''"
    proof (cases "dropWhile (\<lambda>c. c \<noteq> CHR ''/'') p")
      case (Cons c r)
      then have "c = CHR ''/''" using hd_dropWhile [of "\<lambda>c. c \<noteq> CHR ''/''" p] by simp
      with p Cons show ?thesis by (metis append_Cons append_Nil has_prefix_iff)
    next
      case Nil
      then have "p = ''..''" using p by (metis append_Nil2)
      then show ?thesis ..
    qed
  qed (auto simp: has_prefix_iff)
  then show ?thesis by (simp add: split_on_hd escapes_def dotdot_def)
qed

lemma escapes_join:
  assumes "\<forall>e\<in>set es. clean_elem e"
  shows "escapes (join_slash es) \<longleftrightarrow> es \<noteq> [] \<and> hd es = dotdot"
proof (cases "es = []")
  case True
  then show ?thesis by (simp add: join_slash_def escapes_def dotdot_def)
next
  case False
  with assms show ?thesis by (simp add: escapes_hd split_join_slash)
qed

text \<open>
  The fact the callers need: a relative path that \<open>Clean\<close> leaves alone and that does not escape
  has no \<open>..\<close> element, no \<open>.\<close> element and no empty element.
\<close>

lemma clean_local_elems:
  assumes "path_clean p = p" "\<not> is_abs p" "p \<noteq> dot" "\<not> escapes p"
    and "e \<in> set (split_on (CHR ''/'') p)"
  shows "clean_elem e \<and> e \<noteq> dotdot"
proof -
  note ce = clean_fixed_elems [OF assms(1-3)]
  from assms(4) ce have "hd (clean_elems p) \<noteq> dotdot" by (simp add: escapes_hd)
  then have "dotdot \<notin> set (clean_elems p)" using clean_elems_hd ce(2) by blast
  with assms(5) ce(1) show ?thesis using clean_elems_elem by auto
qed

end
