(* ===== verification/GoUtf8.thy ===== *)
theory GoUtf8
  imports GoText
begin

text \<open>
  Runes. A Go string is decoded the way \<open>range\<close> decodes it: a maximal valid UTF-8 sequence
  gives its code point, any other byte gives U+FFFD and one byte of width. The theory has the
  decoder, the encoder, \<open>unicode.IsControl\<close> and \<open>unicode.IsSpace\<close>, \<open>strings.TrimSpace\<close>,
  \<open>strings.Fields\<close>, and the round trip \<open>utf8_decode_encode\<close>.
\<close>

definition rune_error :: nat where "rune_error = 65533"

definition cont :: "nat \<Rightarrow> bool" where
  "cont b = (128 \<le> b \<and> b \<le> 191)"

text \<open>The first rune of a non-empty byte sequence and its width.\<close>

definition byte_at :: "nat list \<Rightarrow> nat \<Rightarrow> nat" where
  "byte_at bs i = (if i < length bs then bs ! i else 0)"

definition utf8_first :: "nat list \<Rightarrow> nat \<times> nat" where
  "utf8_first bs =
     (let b0 = byte_at bs 0; b1 = byte_at bs 1; b2 = byte_at bs 2; b3 = byte_at bs 3; n = length bs in
      if b0 < 128 then (b0, 1)
      else if 194 \<le> b0 \<and> b0 \<le> 223 \<and> n \<ge> 2 \<and> cont b1 then (64 * (b0 - 192) + (b1 - 128), 2)
      else if 224 \<le> b0 \<and> b0 \<le> 239 \<and> n \<ge> 3 \<and> cont b1 \<and> cont b2
              \<and> (b0 = 224 \<longrightarrow> 160 \<le> b1) \<and> (b0 = 237 \<longrightarrow> b1 \<le> 159)
      then (4096 * (b0 - 224) + 64 * (b1 - 128) + (b2 - 128), 3)
      else if 240 \<le> b0 \<and> b0 \<le> 244 \<and> n \<ge> 4 \<and> cont b1 \<and> cont b2 \<and> cont b3
              \<and> (b0 = 240 \<longrightarrow> 144 \<le> b1) \<and> (b0 = 244 \<longrightarrow> b1 \<le> 143)
      then (262144 * (b0 - 240) + 4096 * (b1 - 128) + 64 * (b2 - 128) + (b3 - 128), 4)
      else (rune_error, 1))"

lemma utf8_first_width: "1 \<le> snd (utf8_first bs)"
  by (simp add: utf8_first_def Let_def)

function utf8_runes :: "nat list \<Rightarrow> (nat \<times> nat list) list" where
  "utf8_runes bs =
     (if bs = [] then []
      else (fst (utf8_first bs), take (snd (utf8_first bs)) bs) # utf8_runes (drop (snd (utf8_first bs)) bs))"
  by pat_completeness auto
termination
proof (relation "measure length", goal_cases)
  case (2 bs)
  then show ?case using utf8_first_width [of bs] by (cases bs) auto
qed simp

declare utf8_runes.simps [simp del]

lemma utf8_runes_Nil [simp]: "utf8_runes [] = []"
  by (simp add: utf8_runes.simps)

lemma utf8_runes_step:
  "bs \<noteq> [] \<Longrightarrow> utf8_first bs = (r, w) \<Longrightarrow> utf8_runes bs = (r, take w bs) # utf8_runes (drop w bs)"
  by (simp add: utf8_runes.simps [of bs])

definition utf8_decode :: "string \<Rightarrow> nat list" where
  "utf8_decode s = map fst (utf8_runes (map byte s))"

section \<open>Encoding\<close>

definition valid_rune :: "nat \<Rightarrow> bool" where
  "valid_rune r = (r < 55296 \<or> (57344 \<le> r \<and> r \<le> 1114111))"

definition encode_bytes :: "nat \<Rightarrow> nat list" where
  "encode_bytes r =
     (if r < 128 then [r]
      else if r < 2048 then [192 + r div 64, 128 + r mod 64]
      else if \<not> valid_rune r then [239, 191, 189]
      else if r < 65536 then [224 + r div 4096, 128 + r div 64 mod 64, 128 + r mod 64]
      else [240 + r div 262144, 128 + r div 4096 mod 64, 128 + r div 64 mod 64, 128 + r mod 64])"

definition utf8_encode :: "nat list \<Rightarrow> string" where
  "utf8_encode rs = map char_of (concat (map encode_bytes rs))"

lemma encode_bytes_lt: "b \<in> set (encode_bytes r) \<Longrightarrow> b < 256"
  by (auto simp: encode_bytes_def valid_rune_def split: if_splits)

lemma encode_bytes_not_nil: "encode_bytes r \<noteq> []"
  by (simp add: encode_bytes_def)

lemma utf8_first_encode:
  assumes "valid_rune r"
  shows "utf8_first (encode_bytes r @ bs) = (r, length (encode_bytes r))"
proof -
  have m: "r mod 64 \<le> 63" "r div 64 mod 64 \<le> 63" "r div 4096 mod 64 \<le> 63"
    by linarith+
  consider "r < 128" | "128 \<le> r" "r < 2048" | "2048 \<le> r" "r < 65536" | "65536 \<le> r"
    by linarith
  then show ?thesis
  proof cases
    case 1
    then show ?thesis by (simp add: encode_bytes_def utf8_first_def byte_at_def)
  next
    case 2
    then have "2 \<le> r div 64" "r div 64 \<le> 31" by linarith+
    with 2 m show ?thesis by (simp add: encode_bytes_def utf8_first_def byte_at_def cont_def Let_def)
  next
    case 3
    have d: "r div 4096 \<le> 15" using 3 by linarith
    have lo: "r < 4096 \<Longrightarrow> 32 \<le> r div 64 mod 64" using 3 by simp
    have hi: "r div 64 mod 64 \<le> 31" if "r div 4096 = 13"
    proof -
      have "r < 55296" using that assms unfolding valid_rune_def by linarith
      then have "r div 64 \<le> 863" by linarith
      moreover have "r div 64 div 64 = 13" using that by (simp add: div_mult2_eq [symmetric])
      ultimately show ?thesis using mult_div_mod_eq [of 64 "r div 64"] by linarith
    qed
    have "r div 4096 = r div 64 div 64" by (simp add: div_mult2_eq [symmetric])
    then have r: "4096 * (r div 4096) + 64 * (r div 64 mod 64) + r mod 64 = r"
      using mult_div_mod_eq [of 64 r] mult_div_mod_eq [of 64 "r div 64"] by linarith
    show ?thesis
      using 3 assms d m lo hi r
      by (simp add: encode_bytes_def utf8_first_def byte_at_def cont_def Let_def)
  next
    case 4
    have d: "r div 262144 \<le> 4" using assms unfolding valid_rune_def by linarith
    have lo: "r < 262144 \<Longrightarrow> 16 \<le> r div 4096 mod 64" using 4 by simp
    have hi: "r div 4096 mod 64 \<le> 15" if "r div 262144 = 4"
    proof -
      have "r div 4096 \<le> 271" using assms unfolding valid_rune_def by linarith
      moreover have "r div 4096 div 64 = 4" using that by (simp add: div_mult2_eq [symmetric])
      ultimately show ?thesis using mult_div_mod_eq [of 64 "r div 4096"] by linarith
    qed
    have "r div 4096 = r div 64 div 64" "r div 262144 = r div 4096 div 64"
      by (simp_all add: div_mult2_eq [symmetric])
    then have r: "262144 * (r div 262144) + 4096 * (r div 4096 mod 64) + 64 * (r div 64 mod 64) + r mod 64 = r"
      using mult_div_mod_eq [of 64 r] mult_div_mod_eq [of 64 "r div 64"] mult_div_mod_eq [of 64 "r div 4096"]
      by linarith
    show ?thesis
      using 4 assms d m lo hi r
      by (simp add: encode_bytes_def utf8_first_def byte_at_def cont_def Let_def)
  qed
qed

theorem utf8_decode_encode:
  assumes "list_all valid_rune rs"
  shows "utf8_decode (utf8_encode rs) = rs"
proof -
  have bytes: "map byte (utf8_encode rs) = concat (map encode_bytes rs)"
    by (auto simp: utf8_encode_def o_def intro!: map_idI dest!: encode_bytes_lt)
  have "map fst (utf8_runes (concat (map encode_bytes rs))) = rs"
    using assms
    by (induction rs) (simp_all add: utf8_runes_step utf8_first_encode encode_bytes_not_nil)
  then show ?thesis by (simp add: utf8_decode_def bytes)
qed

lemma valid_rune_3:
  "x \<le> 15 \<Longrightarrow> y \<le> 63 \<Longrightarrow> z \<le> 63 \<Longrightarrow> (x = 13 \<longrightarrow> y \<le> 31) \<Longrightarrow> valid_rune (4096 * x + 64 * y + z)"
  unfolding valid_rune_def by (cases "x \<le> 12"; cases "x = 13"; simp; linarith?)

lemma valid_rune_4:
  "x \<le> 4 \<Longrightarrow> y \<le> 63 \<Longrightarrow> z \<le> 63 \<Longrightarrow> w \<le> 63 \<Longrightarrow> (x = 0 \<longrightarrow> 16 \<le> y) \<Longrightarrow> (x = 4 \<longrightarrow> y \<le> 15) \<Longrightarrow>
   valid_rune (262144 * x + 4096 * y + 64 * z + w)"
  unfolding valid_rune_def by (cases "x = 0"; cases "x = 4"; simp; linarith?)

lemma utf8_first_valid: "valid_rune (fst (utf8_first bs))"
proof -
  define b0 b1 b2 b3 where "b0 = byte_at bs 0" and "b1 = byte_at bs 1"
    and "b2 = byte_at bs 2" and "b3 = byte_at bs 3"
  have v2: "194 \<le> b0 \<Longrightarrow> b0 \<le> 223 \<Longrightarrow> cont b1 \<Longrightarrow> valid_rune (64 * (b0 - 192) + (b1 - 128))"
    unfolding valid_rune_def cont_def by linarith
  have v3: "224 \<le> b0 \<Longrightarrow> b0 \<le> 239 \<Longrightarrow> cont b1 \<Longrightarrow> cont b2 \<Longrightarrow> (b0 = 237 \<longrightarrow> b1 \<le> 159) \<Longrightarrow>
      valid_rune (4096 * (b0 - 224) + 64 * (b1 - 128) + (b2 - 128))"
    by (rule valid_rune_3) (auto simp: cont_def)
  have v4: "240 \<le> b0 \<Longrightarrow> b0 \<le> 244 \<Longrightarrow> cont b1 \<Longrightarrow> cont b2 \<Longrightarrow> cont b3 \<Longrightarrow> (b0 = 240 \<longrightarrow> 144 \<le> b1) \<Longrightarrow>
      (b0 = 244 \<longrightarrow> b1 \<le> 143) \<Longrightarrow>
      valid_rune (262144 * (b0 - 240) + 4096 * (b1 - 128) + 64 * (b2 - 128) + (b3 - 128))"
    by (rule valid_rune_4) (auto simp: cont_def)
  have "valid_rune rune_error" "b0 < 128 \<Longrightarrow> valid_rune b0"
    by (simp_all add: valid_rune_def rune_error_def)
  then show ?thesis
    using v2 v3 v4
    unfolding utf8_first_def Let_def b0_def [symmetric] b1_def [symmetric] b2_def [symmetric] b3_def [symmetric]
    by (simp split: if_split)
qed

lemma utf8_runes_valid: "rw \<in> set (utf8_runes bs) \<Longrightarrow> valid_rune (fst rw)"
proof (induction bs rule: utf8_runes.induct)
  case (1 bs)
  then show ?case
    by (cases "bs = []") (auto simp: utf8_runes.simps [of bs] utf8_first_valid)
qed

lemma utf8_decode_valid: "list_all valid_rune (utf8_decode s)"
  using utf8_runes_valid by (auto simp: utf8_decode_def list_all_iff)

section \<open>Classes of runes, \<open>TrimSpace\<close> and \<open>Fields\<close>\<close>

definition is_control :: "nat \<Rightarrow> bool" where
  "is_control r = (r < 32 \<or> (127 \<le> r \<and> r < 160))"

definition is_space :: "nat \<Rightarrow> bool" where
  "is_space r = ((9 \<le> r \<and> r \<le> 13) \<or> r = 32 \<or> r = 133 \<or> r = 160 \<or> r = 5760
     \<or> (8192 \<le> r \<and> r \<le> 8202) \<or> r = 8232 \<or> r = 8233 \<or> r = 8239 \<or> r = 8287 \<or> r = 12288)"

definition trim_space :: "string \<Rightarrow> string" where
  "trim_space s =
     (let sp = (\<lambda>rw. is_space (fst rw));
          kept = rev (dropWhile sp (rev (dropWhile sp (utf8_runes (map byte s)))))
      in map char_of (concat (map snd kept)))"

text \<open>\<open>Fields\<close>: the maximal runs of runes that are not space.\<close>

function rune_fields :: "nat list \<Rightarrow> nat list list" where
  "rune_fields rs =
     (let r = dropWhile is_space rs in
      if r = [] then []
      else takeWhile (\<lambda>x. \<not> is_space x) r # rune_fields (dropWhile (\<lambda>x. \<not> is_space x) r))"
  by pat_completeness auto
termination
proof (relation "measure length", goal_cases)
  case (2 rs r)
  then have ne: "dropWhile is_space rs \<noteq> []" by simp
  then have "\<not> is_space (hd (dropWhile is_space rs))" by (rule hd_dropWhile)
  with ne have "length (dropWhile (\<lambda>x. \<not> is_space x) (dropWhile is_space rs)) < length (dropWhile is_space rs)"
    by (cases "dropWhile is_space rs") (auto simp: le_imp_less_Suc length_dropWhile_le)
  also have "\<dots> \<le> length rs" by (rule length_dropWhile_le)
  finally show ?case using 2 by simp
qed simp

declare rune_fields.simps [simp del]

fun join_runes :: "nat list list \<Rightarrow> nat list" where
  "join_runes [] = []"
| "join_runes [w] = w"
| "join_runes (w # v # ws) = w @ 32 # join_runes (v # ws)"

lemma rune_fields_words: "w \<in> set (rune_fields rs) \<Longrightarrow> w \<noteq> [] \<and> list_all (\<lambda>r. \<not> is_space r) w \<and> set w \<subseteq> set rs"
proof (induction rs arbitrary: w rule: rune_fields.induct)
  case (1 rs)
  let ?r = "dropWhile is_space rs"
  show ?case
  proof (cases "?r = []")
    case True
    with 1 show ?thesis by (simp add: rune_fields.simps [of rs])
  next
    case False
    have sub: "set ?r \<subseteq> set rs" by (auto dest: set_dropWhileD)
    have "rune_fields rs = takeWhile (\<lambda>x. \<not> is_space x) ?r
        # rune_fields (dropWhile (\<lambda>x. \<not> is_space x) ?r)"
      using False by (simp add: rune_fields.simps [of rs] Let_def del: dropWhile_eq_Nil_conv)
    with 1(2) consider "w = takeWhile (\<lambda>x. \<not> is_space x) ?r"
      | "w \<in> set (rune_fields (dropWhile (\<lambda>x. \<not> is_space x) ?r))"
      by auto
    then show ?thesis
    proof cases
      case 1
      have "\<not> is_space (hd ?r)" using False by (rule hd_dropWhile)
      then have "w \<noteq> []" using 1 False by (cases ?r) auto
      moreover have "list_all (\<lambda>r. \<not> is_space r) w"
        using 1 by (auto simp: list_all_iff dest: set_takeWhileD)
      ultimately show ?thesis using 1 sub by (auto dest!: set_takeWhileD)
    next
      case 2
      then show ?thesis using "1.IH" [OF refl False 2] sub by (auto dest: set_dropWhileD)
    qed
  qed
qed

text \<open>No two adjacent spaces, none at the ends.\<close>

fun single_spaced :: "bool \<Rightarrow> nat list \<Rightarrow> bool" where
  "single_spaced prev [] = True"
| "single_spaced prev (r # rs) = ((is_space r \<longrightarrow> r = 32 \<and> \<not> prev) \<and> single_spaced (is_space r) rs)"

lemma single_spaced_word:
  "list_all (\<lambda>r. \<not> is_space r) w \<Longrightarrow> single_spaced b (w @ rest) = (if w = [] then single_spaced b rest else single_spaced False rest)"
  by (induction w arbitrary: b) auto

lemma single_spaced_join:
  "\<forall>w\<in>set ws. w \<noteq> [] \<and> list_all (\<lambda>r. \<not> is_space r) w \<Longrightarrow> single_spaced True (join_runes ws)"
proof (induction ws rule: join_runes.induct)
  case (2 w)
  then show ?case using single_spaced_word [of w True "[]"] by simp
next
  case (3 w v ws)
  then have "single_spaced True (join_runes (v # ws))" by simp
  with 3 show ?case by (simp add: single_spaced_word is_space_def)
qed simp

lemma single_spaced_take: "single_spaced b rs \<Longrightarrow> single_spaced b (take n rs)"
  by (induction rs arbitrary: b n) (auto simp: take_Cons split: nat.splits)

lemma set_join_runes: "set (join_runes ws) \<subseteq> insert 32 (\<Union> (set ` set ws))"
  by (induction ws rule: join_runes.induct) auto

end
