(* ===== verification/GoTime.thy ===== *)
theory GoTime
  imports GoText
begin

text \<open>
  \<open>time.Time\<close> as the source uses it: an instant in nanoseconds since the zero time
  (year 1, January 1, 00:00:00 UTC) and whether its location is the \<open>time.UTC\<close> pointer.
  The theory has the comparisons, the reading of an RFC 3339 text by \<open>Time.UnmarshalJSON\<close>
  (which yields location UTC exactly for the suffix \<open>Z\<close>), and
  \<open>Format("2006-01-02T15:04:05Z")\<close> of a UTC time. Durations are nanoseconds as \<open>int\<close>.
\<close>

record gotime =
  instant :: int
  utc_loc :: bool

definition zero_time :: gotime where
  "zero_time = \<lparr>instant = 0, utc_loc = True\<rparr>"

definition is_zero :: "gotime \<Rightarrow> bool" where
  "is_zero t = (instant t = 0)"

definition after :: "gotime \<Rightarrow> gotime \<Rightarrow> bool" where
  "after t u = (instant t > instant u)"

definition before :: "gotime \<Rightarrow> gotime \<Rightarrow> bool" where
  "before t u = (instant t < instant u)"

definition second_ns :: int where "second_ns = 1000000000"

definition add_dur :: "gotime \<Rightarrow> int \<Rightarrow> gotime" where
  "add_dur t d = t\<lparr>instant := instant t + d\<rparr>"

definition nanosecond :: "gotime \<Rightarrow> int" where
  "nanosecond t = instant t mod second_ns"

lemmas time_defs = is_zero_def after_def before_def add_dur_def nanosecond_def second_ns_def

section \<open>The calendar\<close>

definition is_leap :: "int \<Rightarrow> bool" where
  "is_leap y = (y mod 4 = 0 \<and> (y mod 100 \<noteq> 0 \<or> y mod 400 = 0))"

definition days_before_year :: "int \<Rightarrow> int" where
  "days_before_year y = 365 * (y - 1) + (y - 1) div 4 - (y - 1) div 100 + (y - 1) div 400"

definition month_lengths :: "int \<Rightarrow> int list" where
  "month_lengths y = [31, if is_leap y then 29 else 28, 31, 30, 31, 30, 31, 31, 30, 31, 30, 31]"

definition days_in :: "int \<Rightarrow> nat \<Rightarrow> int" where
  "days_in y m = (if 1 \<le> m \<and> m \<le> 12 then month_lengths y ! (m - 1) else 0)"

definition days_before_month :: "int \<Rightarrow> nat \<Rightarrow> int" where
  "days_before_month y m = sum_list (take (m - 1) (month_lengths y))"

text \<open>Days since year 1, January 1.\<close>

definition day_number :: "int \<Rightarrow> nat \<Rightarrow> int \<Rightarrow> int" where
  "day_number y m d = days_before_year y + days_before_month y m + (d - 1)"

definition year_of_day :: "int \<Rightarrow> int" where
  "year_of_day n =
     (let y = (n * 400) div 146097 + 1
      in if n < days_before_year y then y - 1
         else if n \<ge> days_before_year (y + 1) then y + 1 else y)"

fun month_day :: "int list \<Rightarrow> int \<Rightarrow> nat \<Rightarrow> nat \<times> int" where
  "month_day [] n m = (m, n + 1)"
| "month_day (l # ls) n m = (if n < l then (m, n + 1) else month_day ls (n - l) (Suc m))"

section \<open>Reading RFC 3339\<close>

definition digits_val :: "string \<Rightarrow> int option" where
  "digits_val s = (if s \<noteq> [] \<and> list_all is_digit s then Some (int (val_of s)) else None)"

text \<open>Nanoseconds of a fraction: at most nine digits count, missing ones are zero.\<close>

definition fraction_ns :: "string \<Rightarrow> int" where
  "fraction_ns ds = int (val_of (take 9 (ds @ replicate 9 (CHR ''0''))))"

text \<open>
  The zone: \<open>Z\<close>, or a sign with \<open>hh:mm\<close>; the offset in seconds and whether the location is UTC.
\<close>

definition parse_zone :: "string \<Rightarrow> (int \<times> bool) option" where
  "parse_zone z =
     (if z = ''Z'' then Some (0, True)
      else if length z = 6 \<and> (z ! 0 = CHR ''+'' \<or> z ! 0 = CHR ''-'') \<and> z ! 3 = CHR '':''
         \<and> list_all is_digit (take 2 (drop 1 z)) \<and> list_all is_digit (drop 4 z)
         \<and> val_of (take 2 (drop 1 z)) \<le> 24 \<and> val_of (drop 4 z) \<le> 60
      then let off = int (val_of (take 2 (drop 1 z))) * 3600 + int (val_of (drop 4 z)) * 60
           in Some (if z ! 0 = CHR ''-'' then - off else off, False)
      else None)"

definition parse_fraction :: "string \<Rightarrow> int \<times> string" where
  "parse_fraction s =
     (case s of
        c # r \<Rightarrow>
          if (c = CHR ''.'' \<or> c = CHR '','') \<and> takeWhile is_digit r \<noteq> []
          then (fraction_ns (takeWhile is_digit r), dropWhile is_digit r) else (0, s)
      | [] \<Rightarrow> (0, s))"

text \<open>
  After the date and the \<open>T\<close>: hours (one or two digits, as \<open>time.Parse\<close> takes them), minutes,
  seconds, an optional fraction and the zone.
\<close>

definition parse_clock :: "string \<Rightarrow> (int \<times> int \<times> bool) option" where
  "parse_clock s =
     (let h = takeWhile is_digit s; r = dropWhile is_digit s;
          mi = take 2 (drop 1 r); se = take 2 (drop 4 r) in
      if length h = 0 \<or> length h > 2 \<or> val_of h \<ge> 24 then None
      else if length r \<ge> 6 \<and> r ! 0 = CHR '':'' \<and> r ! 3 = CHR '':''
         \<and> list_all is_digit mi \<and> list_all is_digit se \<and> val_of mi < 60 \<and> val_of se < 60
      then (case parse_fraction (drop 6 r) of (ns, z) \<Rightarrow>
            (case parse_zone z of None \<Rightarrow> None
             | Some (off, u) \<Rightarrow>
                 Some ((int (val_of h) * 3600 + int (val_of mi) * 60 + int (val_of se)) * second_ns + ns,
                       off, u)))
      else None)"

definition parse_rfc3339 :: "string \<Rightarrow> gotime option" where
  "parse_rfc3339 s =
     (let yy = take 4 s; mm = take 2 (drop 5 s); dd = take 2 (drop 8 s);
          y = int (val_of yy); m = val_of mm; d = int (val_of dd) in
      if length s \<ge> 11 \<and> list_all is_digit (yy @ mm @ dd) \<and> s ! 4 = CHR ''-'' \<and> s ! 7 = CHR ''-''
         \<and> s ! 10 = CHR ''T'' \<and> 1 \<le> m \<and> m \<le> 12 \<and> 1 \<le> d \<and> d \<le> days_in y m
      then (case parse_clock (drop 11 s) of None \<Rightarrow> None
            | Some (ns, off, u) \<Rightarrow>
                Some \<lparr>instant = day_number y m d * 86400 * second_ns + ns - off * second_ns, utc_loc = u\<rparr>)
      else None)"

section \<open>Writing a UTC time\<close>

definition pad :: "nat \<Rightarrow> int \<Rightarrow> string" where
  "pad w n = (if n < 0 then CHR ''-'' # replicate (w - length (nat_str (nat (- n)))) (CHR ''0'') @ nat_str (nat (- n))
              else replicate (w - length (nat_str (nat n))) (CHR ''0'') @ nat_str (nat n))"

definition format_seconds_z :: "gotime \<Rightarrow> string" where
  "format_seconds_z t =
     (let s = instant t div second_ns; n = s div 86400; c = s mod 86400;
          y = year_of_day n;
          md = month_day (month_lengths y) (n - days_before_year y) 1
      in pad 4 y @ ''-'' @ pad 2 (int (fst md)) @ ''-'' @ pad 2 (snd md) @ ''T''
         @ pad 2 (c div 3600) @ '':'' @ pad 2 (c mod 3600 div 60) @ '':'' @ pad 2 (c mod 60) @ ''Z'')"

end
