(* ===== verification/GoJson.thy ===== *)
theory GoJson
  imports GoTime
begin

text \<open>
  JSON documents as \<open>encoding/json\<close> reads them into Go values. An object keeps its fields in
  order and keeps duplicates; a number keeps its literal. Decoding into a struct goes through
  the fields in order: a key is matched exactly, then under case folding (Go folds \<open>K\<close> and
  \<open>S\<close> also from U+212A and U+017F), an unknown key is an error of the strict decoder, \<open>null\<close>
  leaves a field as it is, and a later field overwrites an earlier one. Slice elements are
  decoded from zero values.

  \<open>rejectDuplicateFields\<close> exists three times in the source (packages protocol, client and
  terminal) with the same walk; \<open>dup_free\<close> is that walk on the document.
\<close>

datatype json =
    JNull
  | JBool bool
  | JNum string
  | JStr string
  | JArr "json list"
  | JObj "(string \<times> json) list"

section \<open>Duplicate fields\<close>

text \<open>
  The walk of \<open>rejectDuplicateFields\<close>: at each object the keys seen so far, then the value.
\<close>

fun dup_free :: "json \<Rightarrow> bool"
and dup_free_list :: "json list \<Rightarrow> bool"
and dup_free_fields :: "string list \<Rightarrow> (string \<times> json) list \<Rightarrow> bool" where
  "dup_free (JArr vs) = dup_free_list vs"
| "dup_free (JObj kvs) = dup_free_fields [] kvs"
| "dup_free v = True"
| "dup_free_list [] = True"
| "dup_free_list (v # vs) = (dup_free v \<and> dup_free_list vs)"
| "dup_free_fields seen [] = True"
| "dup_free_fields seen ((k, v) # kvs) =
     (if k \<in> set seen then False else dup_free v \<and> dup_free_fields (k # seen) kvs)"

lemma dup_free_list_iff: "dup_free_list vs \<longleftrightarrow> (\<forall>v\<in>set vs. dup_free v)"
  by (induction vs) auto

lemma dup_free_fields_iff:
  "dup_free_fields seen kvs \<longleftrightarrow>
     distinct (map fst kvs) \<and> set (map fst kvs) \<inter> set seen = {} \<and> (\<forall>v\<in>set (map snd kvs). dup_free v)"
proof (induction kvs arbitrary: seen)
  case (Cons kv kvs)
  obtain k v where kv: "kv = (k, v)" by (cases kv)
  show ?case
    unfolding kv by (simp only: dup_free_fields.simps Cons.IH) (simp, blast)
qed simp

lemma dup_free_obj: "dup_free (JObj kvs) \<longleftrightarrow> distinct (map fst kvs) \<and> (\<forall>v\<in>set (map snd kvs). dup_free v)"
  by (simp add: dup_free_fields_iff)

section \<open>Field names\<close>

fun fold_name :: "string \<Rightarrow> string" where
  "fold_name [] = []"
| "fold_name (c # s) =
     (if byte c = 197 \<and> s \<noteq> [] \<and> byte (hd s) = 191 then CHR ''S'' # fold_name (tl s)
      else if byte c = 226 \<and> length s \<ge> 2 \<and> byte (s ! 0) = 132 \<and> byte (s ! 1) = 170
      then CHR ''K'' # fold_name (drop 2 s)
      else to_upper_byte c # fold_name s)"

definition match_field :: "string list \<Rightarrow> string \<Rightarrow> string option" where
  "match_field names k =
     (if k \<in> set names then Some k
      else find (\<lambda>n. fold_name n = fold_name k) names)"

lemma match_field_in: "match_field names k = Some n \<Longrightarrow> n \<in> set names"
  by (auto simp: match_field_def find_Some_iff split: if_splits)

section \<open>Decoding into Go values\<close>

text \<open>A decoder of a field's value: the value before, the document, and the value after.\<close>

type_synonym 'a json_dec = "json \<Rightarrow> 'a \<Rightarrow> goerr + 'a"

definition unmarshal_error :: goerr where
  "unmarshal_error = Plain ''json: cannot unmarshal value into Go value''"

definition unknown_field :: "string \<Rightarrow> goerr" where
  "unknown_field k = Plain (''json: unknown field \"'' @ k @ ''\"'')"

fun dec_string :: "string json_dec" where
  "dec_string JNull old = Inr old"
| "dec_string (JStr s) old = Inr s"
| "dec_string v old = Inl unmarshal_error"

fun dec_bool :: "bool json_dec" where
  "dec_bool JNull old = Inr old"
| "dec_bool (JBool b) old = Inr b"
| "dec_bool v old = Inl unmarshal_error"

text \<open>An integer literal: no fraction, no exponent, within the signed 64-bit range.\<close>

definition int_literal :: "string \<Rightarrow> int option" where
  "int_literal s =
     (let neg = has_prefix s ''-''; ds = (if neg then drop 1 s else s);
          n = (if neg then - int (val_of ds) else int (val_of ds))
      in if ds \<noteq> [] \<and> list_all is_digit ds \<and> - (2 ^ 63) \<le> n \<and> n < 2 ^ 63 then Some n else None)"

fun dec_int :: "int json_dec" where
  "dec_int JNull old = Inr old"
| "dec_int (JNum s) old = (case int_literal s of None \<Rightarrow> Inl unmarshal_error | Some n \<Rightarrow> Inr n)"
| "dec_int v old = Inl unmarshal_error"

fun dec_time :: "gotime json_dec" where
  "dec_time JNull old = Inr old"
| "dec_time (JStr s) old = (case parse_rfc3339 s of None \<Rightarrow> Inl unmarshal_error | Some t \<Rightarrow> Inr t)"
| "dec_time v old = Inl unmarshal_error"

text \<open>A \<open>json.RawMessage\<close> field keeps the document, \<open>null\<close> included.\<close>

fun dec_raw :: "json option json_dec" where
  "dec_raw v old = Inr (Some v)"

text \<open>The elements of an array; an element the slice already had is decoded in place.\<close>

fun dec_elems :: "'a json_dec \<Rightarrow> 'a \<Rightarrow> 'a list \<Rightarrow> json list \<Rightarrow> goerr + 'a list" where
  "dec_elems d z olds [] = Inr []"
| "dec_elems d z olds (v # vs) =
     (case d v (if olds = [] then z else hd olds) of Inl e \<Rightarrow> Inl e
      | Inr x \<Rightarrow> (case dec_elems d z (tl olds) vs of Inl e \<Rightarrow> Inl e | Inr xs \<Rightarrow> Inr (x # xs)))"

fun dec_list :: "'a json_dec \<Rightarrow> 'a \<Rightarrow> 'a list json_dec" where
  "dec_list d z JNull old = Inr []"
| "dec_list d z (JArr vs) old = dec_elems d z old vs"
| "dec_list d z v old = Inl unmarshal_error"

fun dec_fields :: "string list \<Rightarrow> (string \<Rightarrow> 'a json_dec) \<Rightarrow> (string \<times> json) list \<Rightarrow> 'a \<Rightarrow> goerr + 'a" where
  "dec_fields names set_field [] x = Inr x"
| "dec_fields names set_field ((k, v) # kvs) x =
     (case match_field names k of
        None \<Rightarrow> Inl (unknown_field k)
      | Some n \<Rightarrow> (case set_field n v x of
            Inl e \<Rightarrow> Inl e
          | Inr x' \<Rightarrow> dec_fields names set_field kvs x'))"

text \<open>A struct with \<open>DisallowUnknownFields\<close>; \<open>decodeStrict\<close> of a nil message fails with \<open>io.EOF\<close>.\<close>

fun dec_struct :: "string list \<Rightarrow> (string \<Rightarrow> 'a json_dec) \<Rightarrow> 'a json_dec" where
  "dec_struct names set_field JNull x = Inr x"
| "dec_struct names set_field (JObj kvs) x = dec_fields names set_field kvs x"
| "dec_struct names set_field v x = Inl unmarshal_error"

definition decode_strict :: "'a json_dec \<Rightarrow> 'a \<Rightarrow> json option \<Rightarrow> goerr + 'a" where
  "decode_strict d zero raw = (case raw of None \<Rightarrow> Inl (Plain ''EOF'') | Some v \<Rightarrow> d v zero)"

text \<open>
  \<open>json.Unmarshal\<close> into a struct whose fields are all raw messages, unknown fields skipped:
  the last field that matches the name.
\<close>

definition raw_field :: "string list \<Rightarrow> string \<Rightarrow> (string \<times> json) list \<Rightarrow> json option" where
  "raw_field names n kvs =
     map_option snd (find (\<lambda>kv. match_field names (fst kv) = Some n) (rev kvs))"

end
