(* ===== verification/Protocol.thy ===== *)
theory Protocol
  imports GoUrl GoPath GoUtf8 GoJson
begin

text \<open>
  Package \<open>protocol\<close> (\<open>internal/protocol/command.go\<close>): the command envelope, its typed payloads
  and the checks of \<open>DecodeCommandAt\<close>. Struct fields carry a short prefix of the struct's name.
  \<open>reference.ParseNormalizedNamed\<close> (a third-party package) is the parameter \<open>ref_ok\<close>: its error
  or \<open>None\<close>. A document arrives parsed (\<open>GoJson.json\<close>); the size check on the raw bytes takes
  their number.
\<close>

section \<open>Types\<close>

datatype command_type =
    ShutdownServer
  | CreateTrainingEnvironment | StartTrainingEnvironment | StopTrainingEnvironment
  | RestoreTrainingEnvironment | DeleteTrainingEnvironment
  | CreateCompetitionEnvironment | StartCompetitionEnvironment | StopCompetitionEnvironment
  | RestoreCompetitionEnvironment | DeleteCompetitionEnvironment
  | OpenRootTerminal | UpgradeAgent | ExecuteTerminalInput | DeployImage | TransferFile
  | ModelWorkspace | DockerInventoryAction
  | OtherCommand string

definition command_type_names :: "(string \<times> command_type) list" where
  "command_type_names =
     [(''SHUTDOWN_SERVER'', ShutdownServer),
      (''CREATE_TRAINING_ENVIRONMENT'', CreateTrainingEnvironment),
      (''START_TRAINING_ENVIRONMENT'', StartTrainingEnvironment),
      (''STOP_TRAINING_ENVIRONMENT'', StopTrainingEnvironment),
      (''RESTORE_TRAINING_ENVIRONMENT'', RestoreTrainingEnvironment),
      (''DELETE_TRAINING_ENVIRONMENT'', DeleteTrainingEnvironment),
      (''CREATE_COMPETITION_ENVIRONMENT'', CreateCompetitionEnvironment),
      (''START_COMPETITION_ENVIRONMENT'', StartCompetitionEnvironment),
      (''STOP_COMPETITION_ENVIRONMENT'', StopCompetitionEnvironment),
      (''RESTORE_COMPETITION_ENVIRONMENT'', RestoreCompetitionEnvironment),
      (''DELETE_COMPETITION_ENVIRONMENT'', DeleteCompetitionEnvironment),
      (''OPEN_ROOT_TERMINAL'', OpenRootTerminal),
      (''UPGRADE_AGENT'', UpgradeAgent),
      (''EXECUTE_TERMINAL_INPUT'', ExecuteTerminalInput),
      (''DEPLOY_IMAGE'', DeployImage),
      (''TRANSFER_FILE'', TransferFile),
      (''MODEL_WORKSPACE'', ModelWorkspace),
      (''DOCKER_INVENTORY_ACTION'', DockerInventoryAction)]"

definition command_type_of :: "string \<Rightarrow> command_type" where
  "command_type_of s =
     (case map_of command_type_names s of Some t \<Rightarrow> t | None \<Rightarrow> OtherCommand s)"

record docker_inventory_payload =
  di_action :: string
  di_target :: string

record file_transfer_payload =
  ft_download_path :: string
  ft_target_relative_path :: string
  ft_sha256 :: string

record model_workspace_payload =
  mw_action :: string
  mw_container_name :: string
  mw_model_path :: string
  mw_config_path :: string
  mw_overwrite :: bool

record image_deployment_payload =
  im_agent_id :: string
  im_deployment_id :: string
  im_component_type :: string
  im_registry_digest :: string
  im_update_policy :: string
  im_idempotency_key :: string
  im_image_name :: string
  im_overwrite :: bool

record upgrade_payload =
  up_target_version :: string
  up_download_path :: string
  up_sha256 :: string

record terminal_input_payload =
  ti_session_id :: string
  ti_data :: string

record terminal_payload =
  tp_session_id :: string
  tp_relay_url :: string
  tp_agent_connection_deadline :: gotime
  tp_idle_timeout_seconds :: int
  tp_absolute_expires_at :: gotime

record environment_port =
  ep_container_port :: int
  ep_host_port :: int
  ep_protocol :: string

record environment_component =
  ec_component_type :: string
  ec_container_name :: string
  ec_config_fingerprint :: string
  ec_image_reference :: string
  ec_runtime_name :: string
  ec_restart_policy :: string
  ec_mount_target :: string
  ec_ports :: "environment_port list"
  ec_command :: "string list"
  ec_working_directory :: string
  ec_cpu_limit_millis :: int
  ec_memory_limit_bytes :: int
  ec_gpu_enabled :: bool
  ec_mps_enabled :: bool
  ec_gpu_compute_percent :: int
  ec_gpu_memory_limit_bytes :: int

record environment_payload =
  ev_environment_id :: string
  ev_operation_id :: string
  ev_workspace_relative_path :: string
  ev_components :: "environment_component list"

text \<open>
  The values of a result's \<open>details\<close> map. \<open>DObject\<close> is a struct, its fields in their order, or a map,
  its keys sorted; \<open>DNumber\<close> is a number read back that is not a small integer, by its literal.
\<close>

datatype detail =
    DNull
  | DBool bool
  | DInt int
  | DNumber string
  | DString string
  | DList "detail list"
  | DObject "(string \<times> detail) list"

text \<open>A slice of strings, which may be nil.\<close>

definition string_slice :: "string list option \<Rightarrow> detail" where
  "string_slice xs = (case xs of None \<Rightarrow> DNull | Some l \<Rightarrow> DList (map DString l))"

type_synonym details = "(string \<times> detail) list"

record command_result =
  cr_lease_token :: string
  cr_success :: bool
  cr_code :: string
  cr_message :: string
  cr_details :: details

record command =
  cmd_id :: string
  cmd_type :: command_type
  cmd_version :: int
  cmd_lease_token :: string
  cmd_lease_expires_at :: gotime
  cmd_payload :: "json option"
  cmd_environment :: "environment_payload option"
  cmd_terminal :: "terminal_payload option"
  cmd_upgrade :: "upgrade_payload option"
  cmd_terminal_input :: "terminal_input_payload option"
  cmd_image_deployment :: "image_deployment_payload option"
  cmd_file_transfer :: "file_transfer_payload option"
  cmd_model_workspace :: "model_workspace_payload option"
  cmd_docker_inventory :: "docker_inventory_payload option"

definition max_command_bytes :: nat where "max_command_bytes = 4096"

section \<open>Patterns\<close>

abbreviation "dash \<equiv> rx_lit ''-''"

definition uuid_pattern :: rx where
  "uuid_pattern =
     rx_cat [rx_rep 8 (RxCls is_hex), dash, rx_rep 4 (RxCls is_hex), dash,
             RxCls (in_range (CHR ''1'') (CHR ''5'')), rx_rep 3 (RxCls is_hex), dash,
             RxCls (one_of ''89abAB''), rx_rep 3 (RxCls is_hex), dash, rx_rep 12 (RxCls is_hex)]"

definition canonical_uuid_pattern :: rx where
  "canonical_uuid_pattern =
     rx_cat [rx_rep 8 (RxCls is_lower_hex), dash, rx_rep 4 (RxCls is_lower_hex), dash,
             RxCls (in_range (CHR ''1'') (CHR ''5'')), rx_rep 3 (RxCls is_lower_hex), dash,
             RxCls (one_of ''89ab''), rx_rep 3 (RxCls is_lower_hex), dash, rx_rep 12 (RxCls is_lower_hex)]"

definition canonical_time_pattern :: rx where
  "canonical_time_pattern =
     rx_cat [rx_rep 4 (RxCls is_digit), dash, rx_rep 2 (RxCls is_digit), dash, rx_rep 2 (RxCls is_digit),
             rx_lit ''T'', rx_rep 2 (RxCls is_digit), rx_lit '':'', rx_rep 2 (RxCls is_digit),
             rx_lit '':'', rx_rep 2 (RxCls is_digit), rx_lit ''Z'']"

definition sha256_digest_pattern :: rx where
  "sha256_digest_pattern = rx_cat [rx_lit ''sha256:'', rx_rep 64 (RxCls is_lower_hex)]"

definition lower_hex64_pattern :: rx where
  "lower_hex64_pattern = rx_rep 64 (RxCls is_lower_hex)"

definition inventory_container_pattern :: rx where
  "inventory_container_pattern =
     rx_cat [RxCls is_alnum, rx_upto 255 (RxCls (\<lambda>c. is_alnum c \<or> one_of ''_.-'' c))]"

definition version_pattern :: rx where
  "version_pattern =
     rx_cat [rx_plus (RxCls is_digit), rx_lit ''.'', rx_plus (RxCls is_digit), rx_lit ''.'', rx_plus (RxCls is_digit)]"

definition direct_image_pattern :: rx where
  "direct_image_pattern =
     rx_cat [rx_plus (RxCls (\<lambda>c. is_lower c \<or> is_digit c)),
             RxStar (rx_cat [RxCls (one_of ''._/-''), rx_plus (RxCls (\<lambda>c. is_lower c \<or> is_digit c))]),
             rx_lit '':'', rx_plus (RxCls (\<lambda>c. is_alnum c \<or> one_of ''._-'' c))]"

abbreviation "is_uuid \<equiv> rx_match uuid_pattern"
abbreviation "is_canonical_uuid \<equiv> rx_match canonical_uuid_pattern"

lemmas pattern_defs = uuid_pattern_def canonical_uuid_pattern_def canonical_time_pattern_def
  sha256_digest_pattern_def lower_hex64_pattern_def inventory_container_pattern_def
  version_pattern_def direct_image_pattern_def

section \<open>Field checks\<close>

definition docker_inventory_validate ::
    "(string \<Rightarrow> goerr option) \<Rightarrow> docker_inventory_payload \<Rightarrow> goerr option" where
  "docker_inventory_validate ref_ok p =
     (if length (di_target p) = 0 \<or> length (di_target p) > 512
         \<or> trim_space (di_target p) \<noteq> di_target p \<or> has_prefix (di_target p) ''-''
      then Some (Plain ''Docker target is invalid'')
      else if di_action p = ''INSPECT_IMAGE'' \<or> di_action p = ''DELETE_IMAGE'' then
        (if has_prefix (di_target p) ''sha256:'' then
           (if \<not> rx_match sha256_digest_pattern (di_target p)
            then Some (Plain ''Docker image ID is invalid'') else None)
         else (case ref_ok (di_target p) of
             Some e \<Rightarrow> Some (Wrapped ''Docker image reference is invalid: '' e [])
           | None \<Rightarrow> None))
      else if di_action p = ''DELETE_CONTAINER'' then
        (if \<not> rx_match inventory_container_pattern (di_target p)
         then Some (Plain ''Docker container target is invalid'') else None)
      else Some (Plain ''Docker inventory action is invalid''))"

definition valid_relative_workspace :: "string \<Rightarrow> bool" where
  "valid_relative_workspace v =
     (v \<noteq> [] \<and> \<not> has_prefix v ''/'' \<and> \<not> has_prefix v [CHR 0x5C]
      \<and> path_clean v = v \<and> v \<noteq> dot \<and> v \<noteq> dotdot \<and> \<not> contains_str v '':'')"

definition valid_container_name :: "string \<Rightarrow> bool" where
  "valid_container_name v = (length v \<ge> 3 \<and> length v \<le> 128 \<and> \<not> contains_any v [CHR '' '', CHR ''/'', CHR 0x5C])"

definition valid_model_path :: "string \<Rightarrow> bool" where
  "valid_model_path v =
     (v \<noteq> [] \<and> \<not> is_abs v \<and> path_clean v = v \<and> v \<noteq> dot \<and> v \<noteq> dotdot
      \<and> \<not> has_prefix v ''../'' \<and> \<not> contains_str v [CHR 0x5C] \<and> CHR 0x00 \<notin> set v)"

definition valid_fingerprint :: "string \<Rightarrow> bool" where
  "valid_fingerprint v = (length v = 64 \<and> rx_match (rx_plus (RxCls is_hex)) v)"

definition is_environment_command_type :: "command_type \<Rightarrow> bool" where
  "is_environment_command_type t =
     (t \<in> {CreateTrainingEnvironment, StartTrainingEnvironment, StopTrainingEnvironment,
           RestoreTrainingEnvironment, DeleteTrainingEnvironment, CreateCompetitionEnvironment,
           StartCompetitionEnvironment, StopCompetitionEnvironment, RestoreCompetitionEnvironment,
           DeleteCompetitionEnvironment})"

section \<open>Environment payloads\<close>

definition port_key :: "environment_port \<Rightarrow> string" where
  "port_key p = int_str (ep_host_port p) @ ''/'' @ ep_protocol p"

definition port_valid :: "environment_port \<Rightarrow> bool" where
  "port_valid p =
     (\<not> (ep_container_port p < 1 \<or> ep_container_port p > 65535 \<or> ep_host_port p < 1
         \<or> ep_host_port p > 65535 \<or> (ep_protocol p \<noteq> ''tcp'' \<and> ep_protocol p \<noteq> ''udp'')))"

text \<open>The loop over the ports of a component; the host keys seen so far go through all components.\<close>

fun check_ports :: "string list \<Rightarrow> environment_port list \<Rightarrow> goerr + string list" where
  "check_ports seen [] = Inr seen"
| "check_ports seen (p # ps) =
     (if \<not> port_valid p then Inl (Plain ''component port is invalid'')
      else if port_key p \<in> set seen then Inl (Plain ''host port is duplicated'')
      else check_ports (port_key p # seen) ps)"

definition bool_str :: "bool \<Rightarrow> string" where
  "bool_str b = (if b then ''true'' else ''false'')"

definition cpu_invalid :: "environment_component \<Rightarrow> bool" where
  "cpu_invalid c = (ec_cpu_limit_millis c \<noteq> 0 \<and> (ec_cpu_limit_millis c < 100 \<or> ec_cpu_limit_millis c > 128000))"

definition memory_invalid :: "environment_component \<Rightarrow> bool" where
  "memory_invalid c =
     (ec_memory_limit_bytes c \<noteq> 0 \<and>
      (ec_memory_limit_bytes c < 128*1024*1024 \<or> ec_memory_limit_bytes c > 512*1024*1024*1024))"

definition gpu_limit_invalid :: "environment_component \<Rightarrow> bool" where
  "gpu_limit_invalid c =
     (ec_gpu_enabled c \<and> ec_gpu_compute_percent c \<noteq> 0 \<and>
      (ec_gpu_compute_percent c < 1 \<or> ec_gpu_compute_percent c > 100))"

definition resources_error :: "environment_component \<Rightarrow> goerr" where
  "resources_error c =
     Plain (''component resources are invalid: type='' @ ec_component_type c
            @ '' cpu='' @ int_str (ec_cpu_limit_millis c) @ '' memory='' @ int_str (ec_memory_limit_bytes c)
            @ '' image='' @ bool_str (ec_image_reference c \<noteq> []) @ '' restart='' @ ec_restart_policy c)"

definition check_full_component :: "string list \<Rightarrow> environment_component \<Rightarrow> goerr + string list" where
  "check_full_component hosts c =
     (if ec_image_reference c = [] \<or> ec_restart_policy c \<noteq> ''always'' \<or> cpu_invalid c \<or> memory_invalid c
      then Inl (resources_error c)
      else if ec_component_type c = ''ANNOTATION'' \<and>
              (ec_runtime_name c \<noteq> ''sysbox-runc'' \<or> ec_mount_target c \<noteq> ''/root/data'')
      then Inl (Plain ''annotation component configuration is invalid'')
      else if ec_component_type c = ''EDITOR'' \<and>
              (ec_runtime_name c \<noteq> ''nvidia'' \<or> ec_mount_target c \<noteq> ''/home/student/data'')
      then Inl (Plain ''editor component configuration is invalid'')
      else case check_ports hosts (ec_ports c) of
          Inl e \<Rightarrow> Inl e
        | Inr hosts' \<Rightarrow>
            if gpu_limit_invalid c then Inl (Plain ''GPU limit is invalid'') else Inr hosts')"

fun check_components ::
    "bool \<Rightarrow> string list \<Rightarrow> string list \<Rightarrow> environment_component list \<Rightarrow> goerr option" where
  "check_components full types hosts [] = None"
| "check_components full types hosts (c # cs) =
     (if ec_component_type c \<noteq> ''ANNOTATION'' \<and> ec_component_type c \<noteq> ''EDITOR''
      then Some (Plain ''component type is invalid'')
      else if ec_component_type c \<in> set types then Some (Plain ''component type is duplicated'')
      else if \<not> valid_container_name (ec_container_name c) \<or> \<not> valid_fingerprint (ec_config_fingerprint c)
      then Some (Plain ''component identity is invalid'')
      else if full then
        (case check_full_component hosts c of
           Inl e \<Rightarrow> Some e
         | Inr hosts' \<Rightarrow> check_components full (ec_component_type c # types) hosts' cs)
      else if length (ec_ports c) \<noteq> 0 \<or> ec_image_reference c \<noteq> [] \<or> ec_runtime_name c \<noteq> [] \<or> ec_mount_target c \<noteq> []
      then Some (Plain ''start or stop contains create fields'')
      else check_components full (ec_component_type c # types) hosts cs)"

definition is_full_type :: "command_type \<Rightarrow> bool" where
  "is_full_type t =
     (t = CreateTrainingEnvironment \<or> t = RestoreTrainingEnvironment \<or>
      t = CreateCompetitionEnvironment \<or> t = RestoreCompetitionEnvironment)"

definition validate_environment :: "command_type \<Rightarrow> environment_payload \<Rightarrow> goerr option" where
  "validate_environment t p =
     (if \<not> is_uuid (ev_environment_id p) \<or> \<not> is_uuid (ev_operation_id p)
      then Some (Plain ''environment identifiers are invalid'')
      else if is_full_type t \<and> \<not> valid_relative_workspace (ev_workspace_relative_path p)
      then Some (Plain ''workspace path is invalid'')
      else if \<not> is_full_type t \<and> ev_workspace_relative_path p \<noteq> []
      then Some (Plain ''workspace is not allowed for this command'')
      else if length (ev_components p) < 1 \<or> length (ev_components p) > 2
      then Some (Plain ''environment must contain one or two components'')
      else check_components (is_full_type t) [] [] (ev_components p))"

section \<open>Terminal payloads\<close>

definition is_exact_loopback :: "string \<Rightarrow> bool" where
  "is_exact_loopback host = (to_lower host \<in> {''localhost'', ''127.0.0.1'', ''::1''})"

definition terminal_path :: "string \<Rightarrow> string" where
  "terminal_path session = ''/terminal/v1/agent/'' @ session"

definition validate_terminal_relay_url :: "string \<Rightarrow> string \<Rightarrow> bool \<Rightarrow> goerr option" where
  "validate_terminal_relay_url value session allow =
     (let bad = Some (Plain ''terminal relay URL is invalid'') in
      case url_parse value of None \<Rightarrow> bad
      | Some u \<Rightarrow>
          if u_opaque u \<noteq> [] \<or> hostname u = [] \<or> u_user u \<or> u_raw_query u \<noteq> [] \<or> u_force_query u
             \<or> u_fragment u \<noteq> [] then bad
          else if u_scheme u \<noteq> ''wss'' \<and> (u_scheme u \<noteq> ''ws'' \<or> \<not> allow \<or> \<not> is_exact_loopback (hostname u)) then bad
          else if u_path u \<noteq> terminal_path session \<or> escaped_path u \<noteq> terminal_path session then bad
          else None)"

definition is_canonical_time :: "json option \<Rightarrow> gotime \<Rightarrow> bool" where
  "is_canonical_time raw t =
     (if is_zero t \<or> \<not> utc_loc t then False
      else case raw of
          Some (JStr v) \<Rightarrow> rx_match canonical_time_pattern v \<and> v = format_seconds_z t
        | _ \<Rightarrow> False)"

definition two_hours :: int where "two_hours = 7200 * second_ns"

definition terminal_raw_fields :: "json option \<Rightarrow> json option \<times> json option" where
  "terminal_raw_fields raw =
     (let names = [''agentConnectionDeadline'', ''absoluteExpiresAt''] in
      case raw of Some (JObj kvs) \<Rightarrow> (raw_field names (names ! 0) kvs, raw_field names (names ! 1) kvs)
      | _ \<Rightarrow> (None, None))"

definition validate_terminal ::
    "json option \<Rightarrow> terminal_payload \<Rightarrow> gotime \<Rightarrow> bool \<Rightarrow> goerr option" where
  "validate_terminal raw p now allow =
     (if \<not> is_canonical_uuid (tp_session_id p) \<or> tp_idle_timeout_seconds p \<noteq> 600
      then Some (Plain ''terminal payload identity or idle timeout is invalid'')
      else if \<not> is_canonical_time (fst (terminal_raw_fields raw)) (tp_agent_connection_deadline p)
           \<or> \<not> is_canonical_time (snd (terminal_raw_fields raw)) (tp_absolute_expires_at p)
      then Some (Plain ''terminal deadlines are invalid'')
      else if \<not> before now (tp_agent_connection_deadline p)
           \<or> \<not> after (tp_absolute_expires_at p) (tp_agent_connection_deadline p)
           \<or> after (tp_absolute_expires_at p) (add_dur (tp_agent_connection_deadline p) two_hours)
      then Some (Plain ''terminal deadlines are invalid'')
      else validate_terminal_relay_url (tp_relay_url p) (tp_session_id p) allow)"

end
