(* ===== verification/Executor.thy ===== *)
theory Executor
  imports Protocol
begin

text \<open>
  \<open>internal/container/executor.go\<close>: the states of a container, the results of an operation on a pair,
  and the \<open>Executor\<close> interface as a record of operations on an environment.
\<close>

definition state_missing :: string where "state_missing = ''MISSING''"
definition state_stopped :: string where "state_stopped = ''STOPPED''"
definition state_running :: string where "state_running = ''RUNNING''"

lemmas state_defs = state_missing_def state_stopped_def state_running_def

record component_result =
  cs_component_type :: string
  cs_container_name :: string
  cs_config_fingerprint :: string
  cs_state :: string

record pair_result =
  pr_annotation :: component_result
  pr_editor :: component_result

definition zero_component_result :: component_result where
  "zero_component_result = \<lparr>cs_component_type = [], cs_container_name = [], cs_config_fingerprint = [], cs_state = []\<rparr>"

definition zero_pair :: pair_result where
  "zero_pair = \<lparr>pr_annotation = zero_component_result, pr_editor = zero_component_result\<rparr>"

text \<open>How a result is encoded in the details of a command result.\<close>

definition component_details :: "component_result \<Rightarrow> detail" where
  "component_details c = DObject
     [(''componentType'', DString (cs_component_type c)), (''containerName'', DString (cs_container_name c)),
      (''configFingerprint'', DString (cs_config_fingerprint c)), (''state'', DString (cs_state c))]"

definition pair_details :: "pair_result \<Rightarrow> detail" where
  "pair_details p = DObject
     [(''annotation'', component_details (pr_annotation p)), (''editor'', component_details (pr_editor p))]"

record 'e executor =
  inspect_pair :: "environment_payload \<Rightarrow> ('e, pair_result) res_op"
  create_pair :: "environment_payload \<Rightarrow> ('e, pair_result) res_op"
  start_pair :: "environment_payload \<Rightarrow> ('e, pair_result) res_op"
  stop_pair :: "environment_payload \<Rightarrow> ('e, pair_result) res_op"
  restore_pair :: "environment_payload \<Rightarrow> ('e, pair_result) res_op"
  delete_pair :: "environment_payload \<Rightarrow> ('e, pair_result) res_op"

end
