(* ===== verification/GoErrors.thy ===== *)
theory GoErrors
  imports GoUtf8
begin

text \<open>
  \<open>error.Error()\<close>: the text of the errors of \<open>Prelude\<close>, with the texts of the sentinel errors of
  \<open>context\<close>, \<open>internal/imagedeploy\<close>, \<open>internal/power\<close>, \<open>internal/terminal\<close> and
  \<open>internal/client\<close>; and \<open>boundedPlainMessage\<close> of \<open>internal/runtime/command_dispatcher.go\<close>, which makes
  such a text fit for a command result. A Go literal that is not ASCII is written as the list of
  its runes.
\<close>

definition image_exists_text :: string where
  "image_exists_text = utf8_encode
     [0x955C, 0x50CF, 0x5DF2, 0x5B58, 0x5728, 0xFF0C, 0x8BF7, 0x786E, 0x8BA4, 0x8986, 0x76D6, 0x540E, 0x91CD, 0x8BD5]"

fun err_text :: "goerr \<Rightarrow> string" where
  "err_text (Plain s) = s"
| "err_text (Wrapped pre e post) = pre @ err_text e @ post"
| "err_text ContextCanceled = ''context canceled''"
| "err_text ContextDeadlineExceeded = ''context deadline exceeded''"
| "err_text ErrImageExists = image_exists_text"
| "err_text ErrUnsupportedPlatform = ''power control is unsupported on this platform''"
| "err_text (TerminalError code) = code"
| "err_text (StatusError n) = ''agent request rejected with status '' @ int_str n"

section \<open>Messages of command results\<close>

definition max_command_result_runes :: nat where
  "max_command_result_runes = 512"

definition plain_runes :: "nat list \<Rightarrow> nat list" where
  "plain_runes rs =
     take max_command_result_runes (join_runes (rune_fields (map (\<lambda>r. if is_control r then 32 else r) rs)))"

definition bounded_plain_message :: "string \<Rightarrow> string" where
  "bounded_plain_message s = utf8_encode (plain_runes (utf8_decode s))"

lemma plain_runes_source: "r \<in> set (plain_runes rs) \<Longrightarrow> r = 32 \<or> (r \<in> set rs \<and> \<not> is_control r)"
proof -
  let ?clean = "map (\<lambda>r. if is_control r then 32 else r) rs"
  assume "r \<in> set (plain_runes rs)"
  then have "r \<in> set (join_runes (rune_fields ?clean))"
    by (auto simp: plain_runes_def dest: in_set_takeD)
  with set_join_runes have "r = 32 \<or> (\<exists>w\<in>set (rune_fields ?clean). r \<in> set w)" by blast
  then show ?thesis
  proof
    assume "\<exists>w\<in>set (rune_fields ?clean). r \<in> set w"
    with rune_fields_words [of _ ?clean] have "r \<in> set ?clean" by blast
    then show ?thesis by (auto split: if_splits)
  qed simp
qed

lemma plain_runes_length: "length (plain_runes rs) \<le> max_command_result_runes"
  by (simp add: plain_runes_def)

lemma plain_runes_spaced: "single_spaced True (plain_runes rs)"
  unfolding plain_runes_def
  by (rule single_spaced_take, rule single_spaced_join) (use rune_fields_words in blast)

lemma plain_runes_valid: "list_all valid_rune rs \<Longrightarrow> list_all valid_rune (plain_runes rs)"
  by (auto simp: list_all_iff valid_rune_def dest!: plain_runes_source)

lemma bounded_runes: "utf8_decode (bounded_plain_message s) = plain_runes (utf8_decode s)"
  unfolding bounded_plain_message_def
  by (rule utf8_decode_encode, rule plain_runes_valid, rule utf8_decode_valid)

end
