(* ===== verification/GoJsonText.thy ===== *)
theory GoJsonText
  imports GoJson GoUtf8
begin

text \<open>
  The JSON texts \<open>encoding/json\<close> accepts, as \<open>json_document\<close>: bytes to tokens, tokens to a
  document, with nothing but white space around it. String literals are unescaped rune by rune
  (surrogate pairs joined, a lone surrogate and an invalid byte become U+FFFD, a raw control
  byte is an error); numbers follow the JSON grammar and keep their literal.

  The parser takes fuel, one unit for each value or separator; \<open>parse_value_enough\<close> shows that
  twice the number of tokens is always enough, so \<open>json_document\<close>, which uses it, never fails for
  want of fuel.
\<close>

datatype jtok =
    TLBrace | TRBrace | TLBrack | TRBrack | TColon | TComma
  | TStr string | TNum string | TTrue | TFalse | TNull

section \<open>Literals\<close>

definition json_number :: rx where
  "json_number =
     rx_cat [RxAlt RxEps (rx_lit ''-''),
             RxAlt (rx_lit ''0'') (rx_cat [RxCls (in_range (CHR ''1'') (CHR ''9'')), RxStar (RxCls is_digit)]),
             RxAlt RxEps (rx_cat [rx_lit ''.'', rx_plus (RxCls is_digit)]),
             RxAlt RxEps (rx_cat [RxCls (one_of ''eE''), RxAlt RxEps (RxCls (one_of ''+-'')), rx_plus (RxCls is_digit)])]"

definition rune_hex :: "nat \<Rightarrow> nat option" where
  "rune_hex r =
     (if 48 \<le> r \<and> r \<le> 57 then Some (r - 48)
      else if 97 \<le> r \<and> r \<le> 102 then Some (r - 87)
      else if 65 \<le> r \<and> r \<le> 70 then Some (r - 55) else None)"

text \<open>The four hexadecimal digits at the front, if they are there.\<close>

fun hex_run :: "nat \<Rightarrow> nat \<Rightarrow> nat list \<Rightarrow> nat option" where
  "hex_run 0 acc rs = Some acc"
| "hex_run (Suc n) acc [] = None"
| "hex_run (Suc n) acc (r # rs) =
     (case rune_hex r of None \<Rightarrow> None | Some d \<Rightarrow> hex_run n (16 * acc + d) rs)"

definition simple_escape :: "nat \<Rightarrow> nat option" where
  "simple_escape e = map_of [(34, 34), (92, 92), (47, 47), (98, 8), (102, 12), (110, 10), (114, 13), (116, 9)] e"

definition low_surrogate :: "nat list \<Rightarrow> nat option" where
  "low_surrogate rs =
     (if take 2 rs = [92, 117]
      then (case hex_run 4 0 (drop 2 rs) of
              Some u \<Rightarrow> if 56320 \<le> u \<and> u < 57344 then Some u else None
            | None \<Rightarrow> None)
      else None)"

function unescape :: "nat list \<Rightarrow> nat list option" where
  "unescape [] = Some []"
| "unescape (r # rs) =
     (if r = 92 then
        (if rs = [] then None
         else if hd rs = 117 then
           (case hex_run 4 0 (tl rs) of
              None \<Rightarrow> None
            | Some u \<Rightarrow>
                if 55296 \<le> u \<and> u < 57344 then
                  (case (u < 56320, low_surrogate (drop 4 (tl rs))) of
                     (True, Some l) \<Rightarrow>
                       map_option (\<lambda>t. (65536 + (u - 55296) * 1024 + (l - 56320)) # t) (unescape (drop 10 (tl rs)))
                   | _ \<Rightarrow> map_option (\<lambda>t. rune_error # t) (unescape (drop 4 (tl rs))))
                else map_option (\<lambda>t. u # t) (unescape (drop 4 (tl rs))))
         else (case simple_escape (hd rs) of
             None \<Rightarrow> None
           | Some c \<Rightarrow> map_option (\<lambda>t. c # t) (unescape (tl rs))))
      else if r < 32 \<or> r = 34 then None
      else map_option (\<lambda>t. r # t) (unescape rs))"
  by pat_completeness auto
termination by (relation "measure length") (auto simp: le_imp_less_Suc)

text \<open>The raw text of a literal up to its closing quote, and what follows.\<close>

fun scan_string :: "string \<Rightarrow> (string \<times> string) option" where
  "scan_string [] = None"
| "scan_string (c # s) =
     (if c = CHR 0x22 then Some ([], s)
      else if c = CHR 0x5C then
        (case s of [] \<Rightarrow> None
         | d # s' \<Rightarrow> map_option (\<lambda>(raw, r). (c # d # raw, r)) (scan_string s'))
      else map_option (\<lambda>(raw, r). (c # raw, r)) (scan_string s))"

lemma scan_string_length: "scan_string s = Some (raw, r) \<Longrightarrow> length r < length s"
  by (induction s arbitrary: raw rule: scan_string.induct) (fastforce split: if_splits list.splits)+

definition unquote :: "string \<Rightarrow> string option" where
  "unquote raw = map_option utf8_encode (unescape (utf8_decode raw))"

section \<open>Tokens\<close>

definition json_space :: "char \<Rightarrow> bool" where
  "json_space c = one_of [CHR '' '', CHR 0x09, CHR 0x0A, CHR 0x0D] c"

definition punct :: "char \<Rightarrow> jtok option" where
  "punct c = map_of [(CHR ''{'', TLBrace), (CHR ''}'', TRBrace), (CHR ''['', TLBrack), (CHR '']'', TRBrack),
                     (CHR '':'', TColon), (CHR '','', TComma)] c"

definition word_char :: "char \<Rightarrow> bool" where
  "word_char c = (is_alnum c \<or> one_of ''+-.'' c)"

definition word_token :: "string \<Rightarrow> jtok option" where
  "word_token w =
     (if w = ''true'' then Some TTrue else if w = ''false'' then Some TFalse
      else if w = ''null'' then Some TNull
      else if rx_match json_number w then Some (TNum w) else None)"

function lex :: "string \<Rightarrow> jtok list option" where
  "lex [] = Some []"
| "lex (c # s) =
     (if json_space c then lex s
      else if c = CHR 0x22 then
        (case scan_string s of None \<Rightarrow> None
         | Some (raw, r) \<Rightarrow>
             (case unquote raw of None \<Rightarrow> None
              | Some t \<Rightarrow> map_option (\<lambda>ts. TStr t # ts) (lex r)))
      else (case punct c of
          Some p \<Rightarrow> map_option (\<lambda>ts. p # ts) (lex s)
        | None \<Rightarrow>
            (case word_token (takeWhile word_char (c # s)) of None \<Rightarrow> None
             | Some t \<Rightarrow>
                 if word_char c then map_option (\<lambda>ts. t # ts) (lex (dropWhile word_char s)) else None)))"
  by pat_completeness auto
termination
  by (relation "measure length") (auto dest: scan_string_length simp: le_imp_less_Suc length_dropWhile_le)

section \<open>Values\<close>

text \<open>One value, one array tail, one object tail, over the parsers of what they contain.\<close>

definition value_step ::
    "(jtok list \<Rightarrow> (json list \<times> jtok list) option) \<Rightarrow>
     (jtok list \<Rightarrow> ((string \<times> json) list \<times> jtok list) option) \<Rightarrow> jtok list \<Rightarrow> (json \<times> jtok list) option" where
  "value_step pa pf ts =
     (case ts of
        [] \<Rightarrow> None
      | t # r \<Rightarrow>
          (case t of
             TStr s \<Rightarrow> Some (JStr s, r)
           | TNum s \<Rightarrow> Some (JNum s, r)
           | TTrue \<Rightarrow> Some (JBool True, r)
           | TFalse \<Rightarrow> Some (JBool False, r)
           | TNull \<Rightarrow> Some (JNull, r)
           | TLBrack \<Rightarrow>
               if r \<noteq> [] \<and> hd r = TRBrack then Some (JArr [], tl r)
               else map_option (\<lambda>x. (JArr (fst x), snd x)) (pa r)
           | TLBrace \<Rightarrow>
               if r \<noteq> [] \<and> hd r = TRBrace then Some (JObj [], tl r)
               else map_option (\<lambda>x. (JObj (fst x), snd x)) (pf r)
           | _ \<Rightarrow> None))"

definition array_step ::
    "(jtok list \<Rightarrow> (json \<times> jtok list) option) \<Rightarrow> (jtok list \<Rightarrow> (json list \<times> jtok list) option) \<Rightarrow>
     jtok list \<Rightarrow> (json list \<times> jtok list) option" where
  "array_step pv pa ts =
     (case pv ts of
        None \<Rightarrow> None
      | Some (v, r) \<Rightarrow>
          if r \<noteq> [] \<and> hd r = TRBrack then Some ([v], tl r)
          else if r \<noteq> [] \<and> hd r = TComma then map_option (\<lambda>x. (v # fst x, snd x)) (pa (tl r))
          else None)"

definition token_string :: "jtok \<Rightarrow> string option" where
  "token_string t = (case t of TStr s \<Rightarrow> Some s | _ \<Rightarrow> None)"

definition fields_step ::
    "(jtok list \<Rightarrow> (json \<times> jtok list) option) \<Rightarrow>
     (jtok list \<Rightarrow> ((string \<times> json) list \<times> jtok list) option) \<Rightarrow>
     jtok list \<Rightarrow> ((string \<times> json) list \<times> jtok list) option" where
  "fields_step pv pf ts =
     (if length ts < 2 \<or> token_string (ts ! 0) = None \<or> ts ! 1 \<noteq> TColon then None
      else let k = the (token_string (ts ! 0)) in
        case pv (drop 2 ts) of
          None \<Rightarrow> None
        | Some (v, r) \<Rightarrow>
            if r \<noteq> [] \<and> hd r = TRBrace then Some ([(k, v)], tl r)
            else if r \<noteq> [] \<and> hd r = TComma then map_option (\<lambda>x. ((k, v) # fst x, snd x)) (pf (tl r))
            else None)"

fun parse_value :: "nat \<Rightarrow> jtok list \<Rightarrow> (json \<times> jtok list) option"
and parse_array :: "nat \<Rightarrow> jtok list \<Rightarrow> (json list \<times> jtok list) option"
and parse_fields :: "nat \<Rightarrow> jtok list \<Rightarrow> ((string \<times> json) list \<times> jtok list) option" where
  "parse_value 0 ts = None"
| "parse_value (Suc n) ts = value_step (\<lambda>r. parse_array n r) (\<lambda>r. parse_fields n r) ts"
| "parse_array 0 ts = None"
| "parse_array (Suc n) ts = array_step (\<lambda>r. parse_value n r) (\<lambda>r. parse_array n r) ts"
| "parse_fields 0 ts = None"
| "parse_fields (Suc n) ts = fields_step (\<lambda>r. parse_value n r) (\<lambda>r. parse_fields n r) ts"

subsection \<open>The fuel is enough\<close>

text \<open>\<open>agrees\<close>: a parser reads what another reads, on shorter inputs, and consumes tokens.\<close>

definition agrees :: "nat \<Rightarrow> (jtok list \<Rightarrow> ('a \<times> jtok list) option) \<Rightarrow> (jtok list \<Rightarrow> ('a \<times> jtok list) option) \<Rightarrow> bool" where
  "agrees k p q \<longleftrightarrow> (\<forall>r x. length r \<le> k \<longrightarrow> p r = Some x \<longrightarrow> q r = Some x \<and> length (snd x) < length r)"

lemma agreesD: "agrees k p q \<Longrightarrow> length r \<le> k \<Longrightarrow> p r = Some x \<Longrightarrow> q r = Some x \<and> length (snd x) < length r"
  unfolding agrees_def by blast

lemma value_step_agrees:
  assumes "agrees k pa qa" "agrees k pf qf"
  shows "agrees (Suc k) (value_step pa pf) (value_step qa qf)"
  unfolding agrees_def
proof (intro allI impI)
  fix ts x assume k: "length ts \<le> Suc k" and x: "value_step pa pf ts = Some x"
  then obtain t r where ts: "ts = t # r" "length r \<le> k" by (cases ts) (auto simp: value_step_def)
  show "value_step qa qf ts = Some x \<and> length (snd x) < length ts"
    using x ts agreesD [OF assms(1) ts(2)] agreesD [OF assms(2) ts(2)]
    by (cases t) (fastforce simp: value_step_def less_Suc_eq split: if_splits)+
qed

lemma array_step_agrees:
  assumes "agrees k pv qv" "agrees (k - 2) pa qa"
  shows "agrees k (array_step pv pa) (array_step qv qa)"
  unfolding agrees_def
proof (intro allI impI)
  fix ts x assume k: "length ts \<le> k" and x: "array_step pv pa ts = Some x"
  then obtain v r where v: "pv ts = Some (v, r)" "r \<noteq> []" by (auto simp: array_step_def split: option.splits if_splits)
  have q: "qv ts = Some (v, r)" "length r < length ts" using agreesD [OF assms(1) k v(1)] by auto
  then have tl: "length (tl r) \<le> k - 2" using k by simp
  show "array_step qv qa ts = Some x \<and> length (snd x) < length ts"
    using x v q agreesD [OF assms(2) tl] by (fastforce simp: array_step_def split: if_splits)
qed

lemma fields_step_agrees:
  assumes "agrees k pv qv" "agrees (k - 2) pf qf"
  shows "agrees k (fields_step pv pf) (fields_step qv qf)"
  unfolding agrees_def
proof (intro allI impI)
  fix ts x assume k: "length ts \<le> k" and x: "fields_step pv pf ts = Some x"
  then have two: "length ts \<ge> 2" by (auto simp: fields_step_def split: if_splits)
  with x obtain v r where v: "pv (drop 2 ts) = Some (v, r)" "r \<noteq> []"
    by (auto simp: fields_step_def Let_def split: option.splits if_splits)
  have "length (drop 2 ts) \<le> k" using k by simp
  from agreesD [OF assms(1) this v(1)]
  have q: "qv (drop 2 ts) = Some (v, r)" "length r < length ts - 2" by auto
  then have tl: "length (tl r) \<le> k - 2" using k by simp
  show "fields_step qv qf ts = Some x \<and> length (snd x) < length ts"
    using x v q two agreesD [OF assms(2) tl] by (fastforce simp: fields_step_def Let_def split: if_splits)
qed

lemma parse_agrees:
  "(\<forall>k g. 2 * k \<le> g \<longrightarrow> agrees k (parse_value f) (parse_value g)) \<and>
   (\<forall>k g. 2 * k + 1 \<le> g \<longrightarrow> agrees k (parse_array f) (parse_array g)) \<and>
   (\<forall>k g. 2 * k + 1 \<le> g \<longrightarrow> agrees k (parse_fields f) (parse_fields g))"
proof (induction f)
  case 0
  show ?case by (simp add: agrees_def)
next
  case (Suc f)
  have v: "agrees k (parse_value (Suc f)) (parse_value g)" if "2 * k \<le> g" for k g
  proof (cases k)
    case 0
    then show ?thesis by (auto simp: agrees_def value_step_def)
  next
    case (Suc j)
    with that obtain m where "g = Suc m" "2 * j + 1 \<le> m" by (cases g) auto
    with Suc Suc.IH value_step_agrees [of j "parse_array f" "parse_array m" "parse_fields f" "parse_fields m"]
    show ?thesis by (simp add: agrees_def)
  qed
  have a: "agrees k (parse_array (Suc f)) (parse_array g)" if "2 * k + 1 \<le> g" for k g
  proof -
    from that obtain m where m: "g = Suc m" "2 * k \<le> m" by (cases g) auto
    show ?thesis
    proof (cases "k = 0")
      case True
      have "agrees 0 (parse_value f) (parse_value 0)" using Suc.IH by simp
      then have "parse_value f [] = None" by (cases "parse_value f []") (auto simp: agrees_def)
      then show ?thesis using True by (auto simp: agrees_def array_step_def)
    next
      case False
      with m have "2 * (k - 2) + 1 \<le> m" by auto
      with m Suc.IH array_step_agrees [of k "parse_value f" "parse_value m" "parse_array f" "parse_array m"]
      show ?thesis by (simp add: agrees_def)
    qed
  qed
  have b: "agrees k (parse_fields (Suc f)) (parse_fields g)" if "2 * k + 1 \<le> g" for k g
  proof -
    from that obtain m where m: "g = Suc m" "2 * k \<le> m" by (cases g) auto
    show ?thesis
    proof (cases "k = 0")
      case True
      then show ?thesis by (auto simp: agrees_def fields_step_def)
    next
      case False
      with m have "2 * (k - 2) + 1 \<le> m" by auto
      with m Suc.IH fields_step_agrees [of k "parse_value f" "parse_value m" "parse_fields f" "parse_fields m"]
      show ?thesis by (simp add: agrees_def)
    qed
  qed
  show ?case using v a b by blast
qed

text \<open>Whatever some amount of fuel reads, twice the number of tokens reads.\<close>

lemma parse_value_enough:
  "parse_value f ts = Some x \<Longrightarrow> 2 * length ts \<le> g \<Longrightarrow> parse_value g ts = Some x"
  using parse_agrees [of f] agreesD by blast

text \<open>The nesting limit of the scanner, 10000 open arrays and objects.\<close>

fun nesting_ok :: "nat \<Rightarrow> jtok list \<Rightarrow> bool" where
  "nesting_ok d [] = True"
| "nesting_ok d (t # ts) =
     (if t = TLBrace \<or> t = TLBrack then d < 10000 \<and> nesting_ok (Suc d) ts
      else if t = TRBrace \<or> t = TRBrack then nesting_ok (d - 1) ts
      else nesting_ok d ts)"

definition json_document :: "string \<Rightarrow> json option" where
  "json_document s =
     (case lex s of None \<Rightarrow> None
      | Some ts \<Rightarrow>
          if \<not> nesting_ok 0 ts then None
          else (case parse_value (2 * length ts) ts of
             Some (v, r) \<Rightarrow> if r = [] then Some v else None
           | None \<Rightarrow> None))"

section \<open>The first document of a text\<close>

text \<open>
  \<open>json.Decoder.Decode\<close> reads one document and leaves what follows it, whatever that is:
  \<open>lex_some\<close> has the tokens up to the first place that is not a token.
\<close>

function lex_some :: "string \<Rightarrow> jtok list" where
  "lex_some [] = []"
| "lex_some (c # s) =
     (if json_space c then lex_some s
      else if c = CHR 0x22 then
        (case scan_string s of None \<Rightarrow> []
         | Some (raw, r) \<Rightarrow> (case unquote raw of None \<Rightarrow> [] | Some t \<Rightarrow> TStr t # lex_some r))
      else (case punct c of
          Some p \<Rightarrow> p # lex_some s
        | None \<Rightarrow>
            (case word_token (takeWhile word_char (c # s)) of None \<Rightarrow> []
             | Some t \<Rightarrow> if word_char c then t # lex_some (dropWhile word_char s) else [])))"
  by pat_completeness auto
termination
  by (relation "measure length") (auto dest: scan_string_length simp: le_imp_less_Suc length_dropWhile_le)

lemma lex_some_lex: "lex s = Some ts \<Longrightarrow> lex_some s = ts"
proof (induction s arbitrary: ts rule: lex.induct)
  case (2 c s)
  then show ?case by (auto split: if_splits option.splits)
qed simp

definition json_first :: "string \<Rightarrow> json option" where
  "json_first s =
     (let ts = lex_some s in
      if \<not> nesting_ok 0 ts then None else map_option fst (parse_value (2 * length ts) ts))"

lemma json_first_document: "json_document s = Some v \<Longrightarrow> json_first s = Some v"
  by (auto simp: json_document_def json_first_def lex_some_lex split: option.splits if_splits)

end
