(* ===== verification/Decode.thy ===== *)
theory Decode
  imports Protocol GoJsonText
begin

text \<open>
  \<open>DecodeCommandAt\<close> (\<open>internal/protocol/command.go\<close>): the strict decoding of the envelope and of
  each payload, and the chain of checks that accepts or rejects a command. \<open>decode_command\<close> takes
  the envelope's bytes, the current time and the loopback flag. The checks come in the source's
  order, so that each rejected command is rejected with the source's error; only the text of the
  JSON library's own syntax errors is abbreviated.
\<close>

section \<open>Payload decoders\<close>

definition zero_docker_inventory :: docker_inventory_payload where
  "zero_docker_inventory = \<lparr>di_action = [], di_target = []\<rparr>"

definition dec_docker_inventory :: "docker_inventory_payload json_dec" where
  "dec_docker_inventory = dec_struct [''action'', ''target'']
     (\<lambda>n v x. if n = ''action'' then map_sum id (\<lambda>s. x\<lparr>di_action := s\<rparr>) (dec_string v (di_action x))
              else map_sum id (\<lambda>s. x\<lparr>di_target := s\<rparr>) (dec_string v (di_target x)))"

definition zero_file_transfer :: file_transfer_payload where
  "zero_file_transfer = \<lparr>ft_download_path = [], ft_target_relative_path = [], ft_sha256 = []\<rparr>"

definition dec_file_transfer :: "file_transfer_payload json_dec" where
  "dec_file_transfer = dec_struct [''downloadPath'', ''targetRelativePath'', ''sha256'']
     (\<lambda>n v x. if n = ''downloadPath'' then map_sum id (\<lambda>s. x\<lparr>ft_download_path := s\<rparr>) (dec_string v (ft_download_path x))
              else if n = ''targetRelativePath'' then
                map_sum id (\<lambda>s. x\<lparr>ft_target_relative_path := s\<rparr>) (dec_string v (ft_target_relative_path x))
              else map_sum id (\<lambda>s. x\<lparr>ft_sha256 := s\<rparr>) (dec_string v (ft_sha256 x)))"

definition zero_model_workspace :: model_workspace_payload where
  "zero_model_workspace = \<lparr>mw_action = [], mw_container_name = [], mw_model_path = [], mw_config_path = [], mw_overwrite = False\<rparr>"

definition dec_model_workspace :: "model_workspace_payload json_dec" where
  "dec_model_workspace = dec_struct [''action'', ''containerName'', ''modelPath'', ''configPath'', ''overwrite'']
     (\<lambda>n v x. if n = ''action'' then map_sum id (\<lambda>s. x\<lparr>mw_action := s\<rparr>) (dec_string v (mw_action x))
              else if n = ''containerName'' then map_sum id (\<lambda>s. x\<lparr>mw_container_name := s\<rparr>) (dec_string v (mw_container_name x))
              else if n = ''modelPath'' then map_sum id (\<lambda>s. x\<lparr>mw_model_path := s\<rparr>) (dec_string v (mw_model_path x))
              else if n = ''configPath'' then map_sum id (\<lambda>s. x\<lparr>mw_config_path := s\<rparr>) (dec_string v (mw_config_path x))
              else map_sum id (\<lambda>b. x\<lparr>mw_overwrite := b\<rparr>) (dec_bool v (mw_overwrite x)))"

definition zero_image_deployment :: image_deployment_payload where
  "zero_image_deployment = \<lparr>im_agent_id = [], im_deployment_id = [], im_component_type = [], im_registry_digest = [],
     im_update_policy = [], im_idempotency_key = [], im_image_name = [], im_overwrite = False\<rparr>"

definition dec_image_deployment :: "image_deployment_payload json_dec" where
  "dec_image_deployment = dec_struct
     [''agentId'', ''deploymentId'', ''componentType'', ''registryDigest'', ''updatePolicy'', ''idempotencyKey'', ''imageName'', ''overwrite'']
     (\<lambda>n v x. if n = ''agentId'' then map_sum id (\<lambda>s. x\<lparr>im_agent_id := s\<rparr>) (dec_string v (im_agent_id x))
              else if n = ''deploymentId'' then map_sum id (\<lambda>s. x\<lparr>im_deployment_id := s\<rparr>) (dec_string v (im_deployment_id x))
              else if n = ''componentType'' then map_sum id (\<lambda>s. x\<lparr>im_component_type := s\<rparr>) (dec_string v (im_component_type x))
              else if n = ''registryDigest'' then map_sum id (\<lambda>s. x\<lparr>im_registry_digest := s\<rparr>) (dec_string v (im_registry_digest x))
              else if n = ''updatePolicy'' then map_sum id (\<lambda>s. x\<lparr>im_update_policy := s\<rparr>) (dec_string v (im_update_policy x))
              else if n = ''idempotencyKey'' then map_sum id (\<lambda>s. x\<lparr>im_idempotency_key := s\<rparr>) (dec_string v (im_idempotency_key x))
              else if n = ''imageName'' then map_sum id (\<lambda>s. x\<lparr>im_image_name := s\<rparr>) (dec_string v (im_image_name x))
              else map_sum id (\<lambda>b. x\<lparr>im_overwrite := b\<rparr>) (dec_bool v (im_overwrite x)))"

definition zero_upgrade :: upgrade_payload where
  "zero_upgrade = \<lparr>up_target_version = [], up_download_path = [], up_sha256 = []\<rparr>"

definition dec_upgrade :: "upgrade_payload json_dec" where
  "dec_upgrade = dec_struct [''targetVersion'', ''downloadPath'', ''sha256'']
     (\<lambda>n v x. if n = ''targetVersion'' then map_sum id (\<lambda>s. x\<lparr>up_target_version := s\<rparr>) (dec_string v (up_target_version x))
              else if n = ''downloadPath'' then map_sum id (\<lambda>s. x\<lparr>up_download_path := s\<rparr>) (dec_string v (up_download_path x))
              else map_sum id (\<lambda>s. x\<lparr>up_sha256 := s\<rparr>) (dec_string v (up_sha256 x)))"

definition zero_terminal_input :: terminal_input_payload where
  "zero_terminal_input = \<lparr>ti_session_id = [], ti_data = []\<rparr>"

definition dec_terminal_input :: "terminal_input_payload json_dec" where
  "dec_terminal_input = dec_struct [''sessionId'', ''data'']
     (\<lambda>n v x. if n = ''sessionId'' then map_sum id (\<lambda>s. x\<lparr>ti_session_id := s\<rparr>) (dec_string v (ti_session_id x))
              else map_sum id (\<lambda>s. x\<lparr>ti_data := s\<rparr>) (dec_string v (ti_data x)))"

definition zero_terminal :: terminal_payload where
  "zero_terminal = \<lparr>tp_session_id = [], tp_relay_url = [], tp_agent_connection_deadline = zero_time,
     tp_idle_timeout_seconds = 0, tp_absolute_expires_at = zero_time\<rparr>"

definition dec_terminal :: "terminal_payload json_dec" where
  "dec_terminal = dec_struct [''sessionId'', ''relayUrl'', ''agentConnectionDeadline'', ''idleTimeoutSeconds'', ''absoluteExpiresAt'']
     (\<lambda>n v x. if n = ''sessionId'' then map_sum id (\<lambda>s. x\<lparr>tp_session_id := s\<rparr>) (dec_string v (tp_session_id x))
              else if n = ''relayUrl'' then map_sum id (\<lambda>s. x\<lparr>tp_relay_url := s\<rparr>) (dec_string v (tp_relay_url x))
              else if n = ''agentConnectionDeadline'' then
                map_sum id (\<lambda>t. x\<lparr>tp_agent_connection_deadline := t\<rparr>) (dec_time v (tp_agent_connection_deadline x))
              else if n = ''idleTimeoutSeconds'' then
                map_sum id (\<lambda>i. x\<lparr>tp_idle_timeout_seconds := i\<rparr>) (dec_int v (tp_idle_timeout_seconds x))
              else map_sum id (\<lambda>t. x\<lparr>tp_absolute_expires_at := t\<rparr>) (dec_time v (tp_absolute_expires_at x)))"

definition zero_port :: environment_port where
  "zero_port = \<lparr>ep_container_port = 0, ep_host_port = 0, ep_protocol = []\<rparr>"

definition dec_port :: "environment_port json_dec" where
  "dec_port = dec_struct [''containerPort'', ''hostPort'', ''protocol'']
     (\<lambda>n v x. if n = ''containerPort'' then map_sum id (\<lambda>i. x\<lparr>ep_container_port := i\<rparr>) (dec_int v (ep_container_port x))
              else if n = ''hostPort'' then map_sum id (\<lambda>i. x\<lparr>ep_host_port := i\<rparr>) (dec_int v (ep_host_port x))
              else map_sum id (\<lambda>s. x\<lparr>ep_protocol := s\<rparr>) (dec_string v (ep_protocol x)))"

definition zero_component :: environment_component where
  "zero_component = \<lparr>ec_component_type = [], ec_container_name = [], ec_config_fingerprint = [],
     ec_image_reference = [], ec_runtime_name = [], ec_restart_policy = [], ec_mount_target = [],
     ec_ports = [], ec_command = [], ec_working_directory = [], ec_cpu_limit_millis = 0,
     ec_memory_limit_bytes = 0, ec_gpu_enabled = False, ec_mps_enabled = False,
     ec_gpu_compute_percent = 0, ec_gpu_memory_limit_bytes = 0\<rparr>"

definition component_fields :: "string list" where
  "component_fields = [''componentType'', ''containerName'', ''configFingerprint'', ''imageReference'',
     ''runtimeName'', ''restartPolicy'', ''mountTarget'', ''ports'', ''command'', ''workingDirectory'',
     ''cpuLimitMillis'', ''memoryLimitBytes'', ''gpuEnabled'', ''mpsEnabled'', ''gpuComputePercent'',
     ''gpuMemoryLimitBytes'']"

definition set_component_field :: "string \<Rightarrow> environment_component json_dec" where
  "set_component_field n v x =
     (if n = ''componentType'' then map_sum id (\<lambda>s. x\<lparr>ec_component_type := s\<rparr>) (dec_string v (ec_component_type x))
      else if n = ''containerName'' then map_sum id (\<lambda>s. x\<lparr>ec_container_name := s\<rparr>) (dec_string v (ec_container_name x))
      else if n = ''configFingerprint'' then map_sum id (\<lambda>s. x\<lparr>ec_config_fingerprint := s\<rparr>) (dec_string v (ec_config_fingerprint x))
      else if n = ''imageReference'' then map_sum id (\<lambda>s. x\<lparr>ec_image_reference := s\<rparr>) (dec_string v (ec_image_reference x))
      else if n = ''runtimeName'' then map_sum id (\<lambda>s. x\<lparr>ec_runtime_name := s\<rparr>) (dec_string v (ec_runtime_name x))
      else if n = ''restartPolicy'' then map_sum id (\<lambda>s. x\<lparr>ec_restart_policy := s\<rparr>) (dec_string v (ec_restart_policy x))
      else if n = ''mountTarget'' then map_sum id (\<lambda>s. x\<lparr>ec_mount_target := s\<rparr>) (dec_string v (ec_mount_target x))
      else if n = ''ports'' then map_sum id (\<lambda>ps. x\<lparr>ec_ports := ps\<rparr>) (dec_list dec_port zero_port v (ec_ports x))
      else if n = ''command'' then map_sum id (\<lambda>cs. x\<lparr>ec_command := cs\<rparr>) (dec_list dec_string [] v (ec_command x))
      else if n = ''workingDirectory'' then map_sum id (\<lambda>s. x\<lparr>ec_working_directory := s\<rparr>) (dec_string v (ec_working_directory x))
      else if n = ''cpuLimitMillis'' then map_sum id (\<lambda>i. x\<lparr>ec_cpu_limit_millis := i\<rparr>) (dec_int v (ec_cpu_limit_millis x))
      else if n = ''memoryLimitBytes'' then map_sum id (\<lambda>i. x\<lparr>ec_memory_limit_bytes := i\<rparr>) (dec_int v (ec_memory_limit_bytes x))
      else if n = ''gpuEnabled'' then map_sum id (\<lambda>b. x\<lparr>ec_gpu_enabled := b\<rparr>) (dec_bool v (ec_gpu_enabled x))
      else if n = ''mpsEnabled'' then map_sum id (\<lambda>b. x\<lparr>ec_mps_enabled := b\<rparr>) (dec_bool v (ec_mps_enabled x))
      else if n = ''gpuComputePercent'' then map_sum id (\<lambda>i. x\<lparr>ec_gpu_compute_percent := i\<rparr>) (dec_int v (ec_gpu_compute_percent x))
      else map_sum id (\<lambda>i. x\<lparr>ec_gpu_memory_limit_bytes := i\<rparr>) (dec_int v (ec_gpu_memory_limit_bytes x)))"

definition dec_component :: "environment_component json_dec" where
  "dec_component = dec_struct component_fields set_component_field"

definition zero_environment :: environment_payload where
  "zero_environment = \<lparr>ev_environment_id = [], ev_operation_id = [], ev_workspace_relative_path = [], ev_components = []\<rparr>"

definition dec_environment :: "environment_payload json_dec" where
  "dec_environment = dec_struct [''environmentId'', ''operationId'', ''workspaceRelativePath'', ''components'']
     (\<lambda>n v x. if n = ''environmentId'' then map_sum id (\<lambda>s. x\<lparr>ev_environment_id := s\<rparr>) (dec_string v (ev_environment_id x))
              else if n = ''operationId'' then map_sum id (\<lambda>s. x\<lparr>ev_operation_id := s\<rparr>) (dec_string v (ev_operation_id x))
              else if n = ''workspaceRelativePath'' then
                map_sum id (\<lambda>s. x\<lparr>ev_workspace_relative_path := s\<rparr>) (dec_string v (ev_workspace_relative_path x))
              else map_sum id (\<lambda>cs. x\<lparr>ev_components := cs\<rparr>) (dec_list dec_component zero_component v (ev_components x)))"

section \<open>The envelope\<close>

definition zero_command :: command where
  "zero_command = \<lparr>cmd_id = [], cmd_type = OtherCommand [], cmd_version = 0, cmd_lease_token = [],
     cmd_lease_expires_at = zero_time, cmd_payload = None, cmd_environment = None, cmd_terminal = None,
     cmd_upgrade = None, cmd_terminal_input = None, cmd_image_deployment = None, cmd_file_transfer = None,
     cmd_model_workspace = None, cmd_docker_inventory = None\<rparr>"

definition envelope_fields :: "string list" where
  "envelope_fields = [''commandId'', ''type'', ''version'', ''leaseToken'', ''leaseExpiresAt'', ''payload'']"

fun dec_command_type :: "command_type json_dec" where
  "dec_command_type JNull old = Inr old"
| "dec_command_type (JStr s) old = Inr (command_type_of s)"
| "dec_command_type v old = Inl unmarshal_error"

definition set_envelope_field :: "string \<Rightarrow> command json_dec" where
  "set_envelope_field n v x =
     (if n = ''commandId'' then map_sum id (\<lambda>s. x\<lparr>cmd_id := s\<rparr>) (dec_string v (cmd_id x))
      else if n = ''type'' then map_sum id (\<lambda>t. x\<lparr>cmd_type := t\<rparr>) (dec_command_type v (cmd_type x))
      else if n = ''version'' then map_sum id (\<lambda>i. x\<lparr>cmd_version := i\<rparr>) (dec_int v (cmd_version x))
      else if n = ''leaseToken'' then map_sum id (\<lambda>s. x\<lparr>cmd_lease_token := s\<rparr>) (dec_string v (cmd_lease_token x))
      else if n = ''leaseExpiresAt'' then map_sum id (\<lambda>t. x\<lparr>cmd_lease_expires_at := t\<rparr>) (dec_time v (cmd_lease_expires_at x))
      else map_sum id (\<lambda>p. x\<lparr>cmd_payload := p\<rparr>) (dec_raw v (cmd_payload x)))"

definition dec_envelope :: "command json_dec" where
  "dec_envelope = dec_struct envelope_fields set_envelope_field"

section \<open>The checks of each command type\<close>

definition decode_upgrade :: "command \<Rightarrow> goerr + command" where
  "decode_upgrade c =
     (case decode_strict dec_upgrade zero_upgrade (cmd_payload c) of
        Inl e \<Rightarrow> Inl (Wrapped ''decode upgrade payload: '' e [])
      | Inr u \<Rightarrow>
          if \<not> rx_match version_pattern (up_target_version u) \<or> up_download_path u \<noteq> ''/agent/v1/upgrade-binary''
             \<or> \<not> rx_match lower_hex64_pattern (up_sha256 u)
          then Inl (Plain ''upgrade payload is invalid'')
          else Inr (c\<lparr>cmd_upgrade := Some u\<rparr>))"

definition decode_terminal_input :: "command \<Rightarrow> goerr + command" where
  "decode_terminal_input c =
     (case decode_strict dec_terminal_input zero_terminal_input (cmd_payload c) of
        Inl e \<Rightarrow> Inl (Plain ''terminal input payload is invalid'')
      | Inr i \<Rightarrow>
          if \<not> is_uuid (ti_session_id i) \<or> length (ti_data i) = 0 \<or> length (ti_data i) > 4096
             \<or> CHR 0x00 \<in> set (ti_data i)
          then Inl (Plain ''terminal input payload is invalid'')
          else Inr (c\<lparr>cmd_terminal_input := Some i\<rparr>))"

definition decode_docker_inventory ::
    "(string \<Rightarrow> goerr option) \<Rightarrow> gotime \<Rightarrow> command \<Rightarrow> goerr + command" where
  "decode_docker_inventory ref_ok now c =
     (case decode_strict dec_docker_inventory zero_docker_inventory (cmd_payload c) of
        Inl e \<Rightarrow> Inl e
      | Inr p \<Rightarrow>
          (case docker_inventory_validate ref_ok p of
             Some e \<Rightarrow> Inl e
           | None \<Rightarrow>
               if is_zero (cmd_lease_expires_at c) \<or> \<not> after (cmd_lease_expires_at c) now
               then Inl (Plain ''command lease is expired or missing'')
               else Inr (c\<lparr>cmd_docker_inventory := Some p\<rparr>)))"

definition decode_image_deployment :: "command \<Rightarrow> goerr + command" where
  "decode_image_deployment c =
     (case decode_strict dec_image_deployment zero_image_deployment (cmd_payload c) of
        Inl e \<Rightarrow> Inl (Plain ''image deployment payload is invalid'')
      | Inr d \<Rightarrow>
          (let legacy = (im_component_type d = ''ANNOTATION'' \<or> im_component_type d = ''EDITOR'')
                 \<and> rx_match sha256_digest_pattern (im_registry_digest d)
                 \<and> (im_update_policy d = ''IMAGE_ONLY'' \<or> im_update_policy d = ''UPDATE_CONTAINERS'')
           in if \<not> is_uuid (im_agent_id d) \<or> \<not> is_uuid (im_deployment_id d)
                 \<or> (\<not> rx_match direct_image_pattern (im_image_name d) \<and> \<not> legacy)
                 \<or> length (im_idempotency_key d) = 0 \<or> length (im_idempotency_key d) > 128
              then Inl (Plain ''image deployment payload is invalid'')
              else Inr (c\<lparr>cmd_image_deployment := Some d\<rparr>)))"

definition decode_file_transfer :: "command \<Rightarrow> goerr + command" where
  "decode_file_transfer c =
     (case decode_strict dec_file_transfer zero_file_transfer (cmd_payload c) of
        Inl e \<Rightarrow> Inl (Plain ''file transfer payload is invalid'')
      | Inr t \<Rightarrow>
          if \<not> has_prefix (ft_download_path t) ''/agent/v1/files/'' \<or> ft_target_relative_path t = []
             \<or> is_abs (ft_target_relative_path t) \<or> contains_str (ft_target_relative_path t) ''..''
             \<or> \<not> rx_match lower_hex64_pattern (ft_sha256 t)
          then Inl (Plain ''file transfer payload is invalid'')
          else Inr (c\<lparr>cmd_file_transfer := Some t\<rparr>))"

definition decode_model_workspace :: "command \<Rightarrow> goerr + command" where
  "decode_model_workspace c =
     (case decode_strict dec_model_workspace zero_model_workspace (cmd_payload c) of
        Inl e \<Rightarrow> Inl (Plain ''model workspace payload is invalid'')
      | Inr w \<Rightarrow>
          if \<not> valid_container_name (mw_container_name w)
             \<or> (mw_action w \<noteq> ''LIST'' \<and> mw_action w \<noteq> ''DEPLOY'')
             \<or> (mw_action w = ''LIST'' \<and> (mw_model_path w \<noteq> [] \<or> mw_config_path w \<noteq> [] \<or> mw_overwrite w))
             \<or> (mw_action w = ''DEPLOY'' \<and> (\<not> valid_model_path (mw_model_path w) \<or> \<not> valid_model_path (mw_config_path w)))
          then Inl (Plain ''model workspace payload is invalid'')
          else Inr (c\<lparr>cmd_model_workspace := Some w\<rparr>))"

definition shutdown_payload_ok :: "json option \<Rightarrow> bool" where
  "shutdown_payload_ok p = (p = Some (JObj []))"

definition decode_shutdown :: "command \<Rightarrow> goerr + command" where
  "decode_shutdown c =
     (if \<not> shutdown_payload_ok (cmd_payload c) then Inl (Plain ''shutdown payload must be an empty object'') else Inr c)"

definition decode_terminal :: "gotime \<Rightarrow> bool \<Rightarrow> command \<Rightarrow> goerr + command" where
  "decode_terminal now allow c =
     (case decode_strict dec_terminal zero_terminal (cmd_payload c) of
        Inl e \<Rightarrow> Inl (Wrapped ''decode terminal payload: '' e [])
      | Inr t \<Rightarrow>
          (case validate_terminal (cmd_payload c) t now allow of
             Some e \<Rightarrow> Inl e
           | None \<Rightarrow> Inr (c\<lparr>cmd_terminal := Some t\<rparr>)))"

definition decode_environment :: "command \<Rightarrow> goerr + command" where
  "decode_environment c =
     (case decode_strict dec_environment zero_environment (cmd_payload c) of
        Inl e \<Rightarrow> Inl (Wrapped ''decode environment payload: '' e [])
      | Inr p \<Rightarrow>
          (case validate_environment (cmd_type c) p of
             Some e \<Rightarrow> Inl e
           | None \<Rightarrow> Inr (c\<lparr>cmd_environment := Some p\<rparr>)))"

definition lease_raw :: "json \<Rightarrow> json option" where
  "lease_raw doc = (case doc of JObj kvs \<Rightarrow> raw_field [''leaseExpiresAt''] ''leaseExpiresAt'' kvs | _ \<Rightarrow> None)"

text \<open>The checks after the envelope is decoded; \<open>doc\<close> is the whole document again.\<close>

definition check_command ::
    "(string \<Rightarrow> goerr option) \<Rightarrow> gotime \<Rightarrow> bool \<Rightarrow> json \<Rightarrow> command \<Rightarrow> goerr + command" where
  "check_command ref_ok now allow doc c =
     (let ident = (if cmd_type c = OpenRootTerminal then canonical_uuid_pattern else uuid_pattern) in
      if cmd_type c = UpgradeAgent then decode_upgrade c
      else if cmd_type c = ExecuteTerminalInput then decode_terminal_input c
      else if \<not> rx_match ident (cmd_id c) \<or> \<not> rx_match ident (cmd_lease_token c)
      then Inl (Plain ''command identifiers are invalid'')
      else if cmd_version c \<noteq> 1 then Inl (Plain ''command type or version is unsupported'')
      else if cmd_type c = DockerInventoryAction then decode_docker_inventory ref_ok now c
      else if cmd_type c = DeployImage then decode_image_deployment c
      else if cmd_type c = TransferFile then decode_file_transfer c
      else if cmd_type c = ModelWorkspace then decode_model_workspace c
      else if is_zero (cmd_lease_expires_at c) then Inl (Plain ''command lease expiry is required'')
      else if cmd_type c = OpenRootTerminal \<and> \<not> is_canonical_time (lease_raw doc) (cmd_lease_expires_at c)
      then Inl (Plain ''command lease expiry is invalid'')
      else if cmd_type c = ShutdownServer then decode_shutdown c
      else if cmd_type c = OpenRootTerminal then decode_terminal now allow c
      else if \<not> is_environment_command_type (cmd_type c)
      then Inl (Plain ''command type or version is unsupported'')
      else decode_environment c)"

definition decode_command ::
    "(string \<Rightarrow> goerr option) \<Rightarrow> string \<Rightarrow> gotime \<Rightarrow> bool \<Rightarrow> goerr + command" where
  "decode_command ref_ok data now allow =
     (if length data = 0 \<or> length data > max_command_bytes then Inl (Plain ''command envelope size is invalid'')
      else case json_document data of
          None \<Rightarrow> Inl (Plain ''decode command envelope: invalid JSON'')
        | Some doc \<Rightarrow>
            if \<not> dup_free doc then Inl (Plain ''decode command envelope: duplicate JSON field'')
            else (case dec_envelope doc zero_command of
                Inl e \<Rightarrow> Inl (Wrapped ''decode command envelope: '' e [])
              | Inr c \<Rightarrow> check_command ref_ok now allow doc c))"

end
