(* ===== verification/EnvironmentSpec.thy ===== *)
theory EnvironmentSpec
  imports Protocol
begin

text \<open>
  What an accepted environment payload promises, stated without the loops of
  \<open>validateEnvironment\<close>: \<open>environment_spec\<close> says it by sets and distinctness, and
  \<open>validate_environment_spec\<close> shows that the loops over components and ports, with the maps of seen
  types and seen host ports that run through them, decide exactly that.
\<close>

section \<open>Host port keys\<close>

lemma int_str_no_slash: "CHR ''/'' \<notin> set (int_str i)"
  using int_str_chars [of "CHR ''/''" i] by (auto simp: byte_class_defs)

lemma append_sep_inj:
  "d \<notin> set a \<Longrightarrow> d \<notin> set b \<Longrightarrow> a @ d # s = b @ d # t \<longleftrightarrow> a = b \<and> s = t"
proof (induction a arbitrary: b)
  case Nil
  then show ?case by (cases b) auto
next
  case (Cons x a)
  then show ?case by (cases b) auto
qed

definition port_id :: "environment_port \<Rightarrow> int \<times> string" where
  "port_id p = (ep_host_port p, ep_protocol p)"

lemma port_key_eq: "port_key p = port_key q \<longleftrightarrow> port_id p = port_id q"
  using append_sep_inj [of "CHR ''/''" "int_str (ep_host_port p)" "int_str (ep_host_port q)"]
  by (simp add: port_key_def port_id_def int_str_no_slash int_str_inj)

lemma port_key_image: "port_key p \<in> port_key ` A \<longleftrightarrow> port_id p \<in> port_id ` A"
  by (auto simp: image_iff port_key_eq)

lemma port_key_distinct: "distinct (map port_key ps) \<longleftrightarrow> distinct (map port_id ps)"
  by (induction ps) (auto simp: port_key_image)

section \<open>The loops\<close>

lemma check_ports_spec:
  "check_ports seen ps = Inr seen' \<longleftrightarrow>
     list_all port_valid ps \<and> distinct (map port_key ps) \<and> set (map port_key ps) \<inter> set seen = {}
     \<and> seen' = rev (map port_key ps) @ seen"
  by (induction ps arbitrary: seen) auto

definition full_component_spec :: "environment_component \<Rightarrow> bool" where
  "full_component_spec c \<longleftrightarrow>
     ec_image_reference c \<noteq> [] \<and> ec_restart_policy c = ''always'' \<and>
     (ec_cpu_limit_millis c = 0 \<or> ec_cpu_limit_millis c \<in> {100..128000}) \<and>
     (ec_memory_limit_bytes c = 0 \<or> ec_memory_limit_bytes c \<in> {128 * 2 ^ 20..512 * 2 ^ 30}) \<and>
     (ec_runtime_name c, ec_mount_target c) =
       (if ec_component_type c = ''ANNOTATION'' then (''sysbox-runc'', ''/root/data'')
        else (''nvidia'', ''/home/student/data'')) \<and>
     list_all port_valid (ec_ports c) \<and>
     (ec_gpu_enabled c \<longrightarrow> ec_gpu_compute_percent c \<in> {0..100})"

definition bare_component_spec :: "environment_component \<Rightarrow> bool" where
  "bare_component_spec c \<longleftrightarrow>
     ec_ports c = [] \<and> ec_image_reference c = [] \<and> ec_runtime_name c = [] \<and> ec_mount_target c = []"

definition component_spec :: "bool \<Rightarrow> environment_component \<Rightarrow> bool" where
  "component_spec full c \<longleftrightarrow>
     ec_component_type c \<in> {''ANNOTATION'', ''EDITOR''} \<and>
     valid_container_name (ec_container_name c) \<and> valid_fingerprint (ec_config_fingerprint c) \<and>
     (if full then full_component_spec c else bare_component_spec c)"

definition all_ports :: "environment_component list \<Rightarrow> environment_port list" where
  "all_ports cs = concat (map ec_ports cs)"

lemma all_ports_simps [simp]:
  "all_ports [] = []" "all_ports (c # cs) = ec_ports c @ all_ports cs"
  by (simp_all add: all_ports_def)

lemma check_full_component_spec:
  assumes "ec_component_type c \<in> {''ANNOTATION'', ''EDITOR''}"
  shows "check_full_component hosts c = Inr hosts' \<longleftrightarrow>
     full_component_spec c \<and> distinct (map port_key (ec_ports c)) \<and>
     set (map port_key (ec_ports c)) \<inter> set hosts = {} \<and> hosts' = rev (map port_key (ec_ports c)) @ hosts"
proof -
  have cpu: "\<not> cpu_invalid c \<longleftrightarrow> ec_cpu_limit_millis c = 0 \<or> ec_cpu_limit_millis c \<in> {100..128000}"
    and mem: "\<not> memory_invalid c \<longleftrightarrow>
      ec_memory_limit_bytes c = 0 \<or> ec_memory_limit_bytes c \<in> {128 * 2 ^ 20..512 * 2 ^ 30}"
    and gpu: "\<not> gpu_limit_invalid c \<longleftrightarrow> (ec_gpu_enabled c \<longrightarrow> ec_gpu_compute_percent c \<in> {0..100})"
    by (auto simp: cpu_invalid_def memory_invalid_def gpu_limit_invalid_def)
  from assms consider "ec_component_type c = ''ANNOTATION''" | "ec_component_type c = ''EDITOR''" by blast
  then show ?thesis
    by cases (simp_all add: check_full_component_def full_component_spec_def guards check_ports_spec cpu mem gpu
        conj_ac eq_commute [of hosts'] cong: conj_cong)
qed

text \<open>One component, whatever the command; the keys it adds to those seen.\<close>

definition new_hosts :: "bool \<Rightarrow> environment_component \<Rightarrow> string list \<Rightarrow> string list" where
  "new_hosts full c hosts = (if full then rev (map port_key (ec_ports c)) @ hosts else hosts)"

lemma check_components_Cons:
  "check_components full types hosts (c # cs) = None \<longleftrightarrow>
     component_spec full c \<and> ec_component_type c \<notin> set types \<and>
     (full \<longrightarrow> distinct (map port_key (ec_ports c)) \<and> set (map port_key (ec_ports c)) \<inter> set hosts = {}) \<and>
     check_components full (ec_component_type c # types) (new_hosts full c hosts) cs = None"
proof (cases "ec_component_type c \<in> {''ANNOTATION'', ''EDITOR''}")
  case True
  then have t: "\<not> (ec_component_type c \<noteq> ''ANNOTATION'' \<and> ec_component_type c \<noteq> ''EDITOR'')" by blast
  show ?thesis
  proof (cases full)
    case full: True
    show ?thesis
      unfolding check_components.simps if_not_P [OF t] component_spec_def new_hosts_def guards if_P [OF full]
        check_full_component_spec [OF True]
      using True full by blast
  next
    case False
    then show ?thesis
      unfolding check_components.simps if_not_P [OF t] component_spec_def new_hosts_def guards
        bare_component_spec_def length_0_conv
      using True by (simp only: if_False guards) blast
  qed
next
  case False
  then show ?thesis by (simp add: component_spec_def)
qed

lemma check_components_spec:
  "check_components full types hosts cs = None \<longleftrightarrow>
     list_all (component_spec full) cs \<and> distinct (map ec_component_type cs) \<and>
     set (map ec_component_type cs) \<inter> set types = {} \<and>
     (full \<longrightarrow> distinct (map port_key (all_ports cs)) \<and> set (map port_key (all_ports cs)) \<inter> set hosts = {})"
proof (induction cs arbitrary: types hosts)
  case (Cons c cs)
  show ?case
    unfolding check_components_Cons Cons.IH
    by (cases full) (auto simp: new_hosts_def)
qed simp

section \<open>The payload\<close>

definition environment_spec :: "command_type \<Rightarrow> environment_payload \<Rightarrow> bool" where
  "environment_spec t p \<longleftrightarrow>
     is_uuid (ev_environment_id p) \<and> is_uuid (ev_operation_id p) \<and>
     (if is_full_type t then valid_relative_workspace (ev_workspace_relative_path p)
      else ev_workspace_relative_path p = []) \<and>
     length (ev_components p) \<in> {1, 2} \<and>
     list_all (component_spec (is_full_type t)) (ev_components p) \<and>
     distinct (map ec_component_type (ev_components p)) \<and>
     distinct (map port_id (all_ports (ev_components p)))"

lemma bare_ports: "list_all (component_spec False) cs \<Longrightarrow> all_ports cs = []"
  by (induction cs) (auto simp: component_spec_def bare_component_spec_def)

lemma validate_environment_spec: "validate_environment t p = None \<longleftrightarrow> environment_spec t p"
proof -
  show ?thesis
    using bare_ports [of "ev_components p"]
    unfolding validate_environment_def environment_spec_def guards check_components_spec port_key_distinct one_or_two
    by (cases "is_full_type t") auto
qed

end
