(* ===== verification/CommandSpec.thy ===== *)
theory CommandSpec
  imports Decode EnvironmentSpec
begin

text \<open>
  What \<open>DecodeCommandAt\<close> promises of a command it accepts. A decoded command has one pointer field
  for each payload; \<open>slots\<close> lists those that are set and \<open>slot_of\<close> says which one belongs to a
  command type. The dispatcher dereferences the pointer of the type without a check, so the two
  have to agree.
\<close>

datatype slot =
    SlotEnvironment | SlotTerminal | SlotUpgrade | SlotTerminalInput | SlotImage | SlotFile | SlotModel | SlotInventory

definition slots :: "command \<Rightarrow> slot set" where
  "slots c =
     (if cmd_environment c = None then {} else {SlotEnvironment}) \<union>
     (if cmd_terminal c = None then {} else {SlotTerminal}) \<union>
     (if cmd_upgrade c = None then {} else {SlotUpgrade}) \<union>
     (if cmd_terminal_input c = None then {} else {SlotTerminalInput}) \<union>
     (if cmd_image_deployment c = None then {} else {SlotImage}) \<union>
     (if cmd_file_transfer c = None then {} else {SlotFile}) \<union>
     (if cmd_model_workspace c = None then {} else {SlotModel}) \<union>
     (if cmd_docker_inventory c = None then {} else {SlotInventory})"

definition slot_of :: "command_type \<Rightarrow> slot set" where
  "slot_of t =
     (if t = UpgradeAgent then {SlotUpgrade}
      else if t = ExecuteTerminalInput then {SlotTerminalInput}
      else if t = DockerInventoryAction then {SlotInventory}
      else if t = DeployImage then {SlotImage}
      else if t = TransferFile then {SlotFile}
      else if t = ModelWorkspace then {SlotModel}
      else if t = ShutdownServer then {}
      else if t = OpenRootTerminal then {SlotTerminal}
      else {SlotEnvironment})"

section \<open>The envelope sets no payload pointer\<close>

lemma map_sum_Inr: "map_sum id f r = Inr y \<longleftrightarrow> (\<exists>v. r = Inr v \<and> y = f v)"
  by (cases r) auto

lemma slots_update [simp]:
  "slots (x\<lparr>cmd_id := i\<rparr>) = slots x" "slots (x\<lparr>cmd_type := t\<rparr>) = slots x"
  "slots (x\<lparr>cmd_version := n\<rparr>) = slots x" "slots (x\<lparr>cmd_lease_token := l\<rparr>) = slots x"
  "slots (x\<lparr>cmd_lease_expires_at := e\<rparr>) = slots x" "slots (x\<lparr>cmd_payload := p\<rparr>) = slots x"
  by (simp_all add: slots_def)

lemma slots_payload:
  "slots x = {} \<Longrightarrow> slots (x\<lparr>cmd_environment := Some a1\<rparr>) = {SlotEnvironment}"
  "slots x = {} \<Longrightarrow> slots (x\<lparr>cmd_terminal := Some a2\<rparr>) = {SlotTerminal}"
  "slots x = {} \<Longrightarrow> slots (x\<lparr>cmd_upgrade := Some a3\<rparr>) = {SlotUpgrade}"
  "slots x = {} \<Longrightarrow> slots (x\<lparr>cmd_terminal_input := Some a4\<rparr>) = {SlotTerminalInput}"
  "slots x = {} \<Longrightarrow> slots (x\<lparr>cmd_image_deployment := Some a5\<rparr>) = {SlotImage}"
  "slots x = {} \<Longrightarrow> slots (x\<lparr>cmd_file_transfer := Some a6\<rparr>) = {SlotFile}"
  "slots x = {} \<Longrightarrow> slots (x\<lparr>cmd_model_workspace := Some a7\<rparr>) = {SlotModel}"
  "slots x = {} \<Longrightarrow> slots (x\<lparr>cmd_docker_inventory := Some a8\<rparr>) = {SlotInventory}"
  by (simp_all add: slots_def split: if_splits)

lemma set_envelope_field_slots: "set_envelope_field n v x = Inr y \<Longrightarrow> slots y = slots x"
  unfolding set_envelope_field_def by (elim if_either) (auto simp: map_sum_Inr)

lemma dec_fields_slots: "dec_fields names set_envelope_field kvs x = Inr y \<Longrightarrow> slots y = slots x"
proof (induction kvs arbitrary: x)
  case (Cons kv kvs)
  then show ?case by (cases kv) (auto simp: guards set_envelope_field_slots)
qed simp

lemma slots_zero: "slots zero_command = {}"
  by (simp add: zero_command_def slots_def)

lemma dec_envelope_slots: "dec_envelope doc zero_command = Inr c \<Longrightarrow> slots c = {}"
  unfolding dec_envelope_def by (cases doc) (auto simp: slots_zero dec_fields_slots)

section \<open>One case for each command type\<close>

definition ident_ok :: "command \<Rightarrow> bool" where
  "ident_ok c \<longleftrightarrow>
     (let p = (if cmd_type c = OpenRootTerminal then canonical_uuid_pattern else uuid_pattern)
      in rx_match p (cmd_id c) \<and> rx_match p (cmd_lease_token c)) \<and> cmd_version c = 1"

lemma check_command_cases:
  assumes "check_command ref_ok now allow doc c = Inr c'"
  obtains (upgrade) "cmd_type c = UpgradeAgent" "decode_upgrade c = Inr c'"
  | (terminal_input) "cmd_type c = ExecuteTerminalInput" "decode_terminal_input c = Inr c'"
  | (inventory) "cmd_type c = DockerInventoryAction" "ident_ok c" "decode_docker_inventory ref_ok now c = Inr c'"
  | (image) "cmd_type c = DeployImage" "ident_ok c" "decode_image_deployment c = Inr c'"
  | (transfer) "cmd_type c = TransferFile" "ident_ok c" "decode_file_transfer c = Inr c'"
  | (model) "cmd_type c = ModelWorkspace" "ident_ok c" "decode_model_workspace c = Inr c'"
  | (shutdown) "cmd_type c = ShutdownServer" "ident_ok c" "\<not> is_zero (cmd_lease_expires_at c)" "c' = c"
  | (terminal) "cmd_type c = OpenRootTerminal" "ident_ok c" "\<not> is_zero (cmd_lease_expires_at c)"
      "is_canonical_time (lease_raw doc) (cmd_lease_expires_at c)" "decode_terminal now allow c = Inr c'"
  | (environment) "is_environment_command_type (cmd_type c)" "ident_ok c" "\<not> is_zero (cmd_lease_expires_at c)"
      "decode_environment c = Inr c'"
proof -
  note chain = assms [unfolded check_command_def Let_def]
  show ?thesis
  proof (cases "cmd_type c \<in> {UpgradeAgent, ExecuteTerminalInput}")
    case True
    with chain upgrade terminal_input show ?thesis by auto
  next
    case False
    with chain have ident: "ident_ok c" by (auto simp: ident_ok_def Let_def split: if_splits)
    show ?thesis
    proof (cases "cmd_type c \<in> {DockerInventoryAction, DeployImage, TransferFile, ModelWorkspace}")
      case True
      with chain ident inventory image transfer model show ?thesis by (auto split: if_splits)
    next
      case late: False
      with chain False have lease: "\<not> is_zero (cmd_lease_expires_at c)" by (auto split: if_splits)
      from late chain False ident lease shutdown terminal environment show ?thesis
        by (auto simp: decode_shutdown_def split: if_splits)
    qed
  qed
qed

lemmas decode_payload_defs = decode_upgrade_def decode_terminal_input_def decode_docker_inventory_def
  decode_image_deployment_def decode_file_transfer_def decode_model_workspace_def decode_terminal_def
  decode_environment_def Let_def

lemma env_type_slot: "is_environment_command_type t \<Longrightarrow> slot_of t = {SlotEnvironment}"
  by (auto simp: is_environment_command_type_def slot_of_def)

lemma check_command_envelope:
  assumes "check_command ref_ok now allow doc c = Inr c'"
  shows "cmd_type c' = cmd_type c \<and> cmd_id c' = cmd_id c \<and> cmd_lease_token c' = cmd_lease_token c \<and>
    cmd_version c' = cmd_version c \<and> cmd_lease_expires_at c' = cmd_lease_expires_at c \<and> cmd_payload c' = cmd_payload c"
  using assms by (cases rule: check_command_cases) (auto simp: decode_payload_defs guards)

lemma check_command_slots:
  assumes "check_command ref_ok now allow doc c = Inr c'" "slots c = {}"
  shows "slots c' = slot_of (cmd_type c')"
proof -
  have t: "cmd_type c' = cmd_type c" using check_command_envelope [OF assms(1)] by simp
  note set_one = slots_payload [OF assms(2)]
  from assms(1) have "slots c' = slot_of (cmd_type c)"
  proof (cases rule: check_command_cases)
    case environment
    then show ?thesis by (auto simp: decode_environment_def guards env_type_slot set_one)
  qed (auto simp: decode_payload_defs guards slot_of_def set_one assms(2))
  then show ?thesis by (simp add: t)
qed

lemma decode_command_check:
  assumes "decode_command ref_ok data now allow = Inr c'"
  obtains doc c where "0 < length data" "length data \<le> max_command_bytes" "json_document data = Some doc"
    "dup_free doc" "dec_envelope doc zero_command = Inr c" "check_command ref_ok now allow doc c = Inr c'"
  using assms by (auto simp: decode_command_def guards)

lemma decode_command_cases:
  assumes "decode_command ref_ok data now allow = Inr c'"
  obtains doc c where "json_document data = Some doc" "dup_free doc" "slots c = {}"
    "check_command ref_ok now allow doc c = Inr c'" "length data \<le> max_command_bytes"
  using assms by (rule decode_command_check) (auto dest: dec_envelope_slots)

section \<open>What an accepted command carries\<close>

lemma accepted_slots:
  "decode_command ref_ok data now allow = Inr c \<Longrightarrow> slots c = slot_of (cmd_type c)"
  by (erule decode_command_cases) (auto dest: check_command_slots)

lemma accepted_ident:
  assumes "decode_command ref_ok data now allow = Inr c" "cmd_type c \<notin> {UpgradeAgent, ExecuteTerminalInput}"
  shows "ident_ok c"
  using assms(1)
proof (rule decode_command_cases)
  fix doc b assume b: "check_command ref_ok now allow doc b = Inr c"
  with check_command_envelope [OF b] assms(2) have "cmd_type b \<notin> {UpgradeAgent, ExecuteTerminalInput}" by simp
  with b have "ident_ok b" by (cases rule: check_command_cases) auto
  with check_command_envelope [OF b] show ?thesis by (simp add: ident_ok_def Let_def)
qed

lemma accepted_environment:
  assumes "decode_command ref_ok data now allow = Inr c" "is_environment_command_type (cmd_type c)"
  obtains p where "cmd_environment c = Some p" "environment_spec (cmd_type c) p"
  using assms(1)
proof (rule decode_command_cases)
  fix doc b assume b: "check_command ref_ok now allow doc b = Inr c"
  have t: "cmd_type b = cmd_type c" using check_command_envelope [OF b] by simp
  from assms(2) have other: "cmd_type b \<notin> {UpgradeAgent, ExecuteTerminalInput, DockerInventoryAction,
      DeployImage, TransferFile, ModelWorkspace, ShutdownServer, OpenRootTerminal}"
    unfolding t by (auto simp: is_environment_command_type_def)
  have "decode_environment b = Inr c"
    using b by (cases rule: check_command_cases) (use other in simp_all)
  then obtain p where p: "c = b\<lparr>cmd_environment := Some p\<rparr>" "validate_environment (cmd_type b) p = None"
    unfolding decode_environment_def guards by blast
  show ?thesis
    by (rule that [of p]) (use p in \<open>simp_all add: validate_environment_spec\<close>)
qed

lemma uuid_chars: "is_uuid s \<Longrightarrow> list_all (\<lambda>c. is_alnum c \<or> c = CHR ''-'') s"
  by (erule rx_match_over) (auto simp: uuid_pattern_def byte_class_defs)

lemma canonical_uuid_chars: "is_canonical_uuid s \<Longrightarrow> list_all (\<lambda>c. is_alnum c \<or> c = CHR ''-'') s"
  by (erule rx_match_over) (auto simp: canonical_uuid_pattern_def byte_class_defs)

lemma ident_chars:
  "ident_ok c \<Longrightarrow> list_all (\<lambda>c. is_alnum c \<or> c = CHR ''-'') (cmd_id c)"
  by (auto simp: ident_ok_def Let_def uuid_chars canonical_uuid_chars split: if_splits)

end
