(* ===== verification/Dispatcher.thy ===== *)
theory Dispatcher
  imports Executor GoErrors CommandSpec "HOL-Library.Signed_Division"
begin

text \<open>
  \<open>CommandDispatcher\<close> (\<open>internal/runtime/command_dispatcher.go\<close>, \<open>docker_inventory.go\<close>,
  \<open>operation_grant.go\<close>). The interfaces the dispatcher calls are records of operations on an
  environment \<open>'e\<close>; an interface field that may be nil is an option. Each handler is the source's
  handler, call by call, with its early returns.

  The image deployment manager calls back into the dispatcher to report progress. Its run is a
  \<open>job\<close>: it acts on the environment, reports, is told whether the report went through, and ends with
  its details and error.
\<close>

section \<open>State and interfaces\<close>

record stored_command =
  sc_id :: string
  sc_lease :: string
  sc_result :: "command_result option"

record operation_grant =
  og_allowed :: bool
  og_expires_at :: gotime

definition grant_valid :: "operation_grant \<Rightarrow> gotime \<Rightarrow> bool" where
  "grant_valid g now = (og_allowed g \<and> \<not> is_zero (og_expires_at g) \<and> before now (og_expires_at g))"

datatype 'e job =
    JobDone details "goerr option"
  | JobStep "'e \<Rightarrow> 'e job \<times> 'e"
  | JobReport int int string "goerr option \<Rightarrow> 'e job"

primrec run_job ::
    "'e job \<Rightarrow> (int \<Rightarrow> int \<Rightarrow> string \<Rightarrow> 'e err_op) \<Rightarrow> ('e, details \<times> goerr option) op" where
  "run_job (JobDone d x) = (\<lambda>report. op_return (d, x))"
| "run_job (JobStep f) = (\<lambda>report e. case (map_prod run_job id \<circ> f) e of (g, e') \<Rightarrow> g report e')"
| "run_job (JobReport n whole stage k) =
     (\<lambda>report. op_bind (report n whole stage) (\<lambda>r. (run_job \<circ> k) r report))"

record 'e terminal_manager =
  tm_start :: "command \<Rightarrow> 'e err_op"
  tm_close :: "string \<Rightarrow> 'e err_op"
  tm_record_failure :: "(command \<Rightarrow> string \<Rightarrow> string \<Rightarrow> 'e err_op) option"
  tm_clear_failure :: "'e err_op"

record 'e upgrade_manager =
  um_prepare :: "upgrade_payload \<Rightarrow> 'e err_op"
  um_activate :: "'e err_op"

record 'e model_manager =
  mm_list :: "string \<Rightarrow> ('e, string list option \<times> goerr option) op"
  mm_deploy :: "model_workspace_payload \<Rightarrow> 'e err_op"

record 'e dispatcher =
  d_start :: "string \<Rightarrow> string \<Rightarrow> 'e err_op"
  d_finish :: "string \<Rightarrow> command_result \<Rightarrow> 'e err_op"
  d_shutdown :: "'e err_op"
  d_load :: "('e, stored_command option) res_op"
  d_save :: "stored_command \<Rightarrow> 'e err_op"
  d_clear :: "'e err_op"
  d_executor :: "'e executor option"
  d_grant :: "('e, operation_grant) op option"
  d_terminal :: "'e terminal_manager option"
  d_upgrade :: "'e upgrade_manager option"
  d_image :: "(image_deployment_payload \<Rightarrow> ('e, 'e job) op) option"
  d_transfer :: "(file_transfer_payload \<Rightarrow> 'e err_op) option"
  d_model :: "'e model_manager option"
  d_inventory :: "(docker_inventory_payload \<Rightarrow> ('e, details \<times> goerr option) op) option"
  d_bash :: "string \<Rightarrow> ('e, string \<times> goerr option) op"
  d_now :: "('e, gotime) op"
  d_ref_ok :: "string \<Rightarrow> goerr option"

section \<open>Reporting\<close>

definition unknown_result :: "string \<Rightarrow> string \<Rightarrow> command_result" where
  "unknown_result lease message =
     \<lparr>cr_lease_token = lease, cr_success = False, cr_code = ''EXECUTION_OUTCOME_UNKNOWN'',
      cr_message = message, cr_details = []\<rparr>"

definition restarted_message :: string where
  "restarted_message = ''Agent restarted before command outcome was recorded''"

definition report_stored :: "'e dispatcher \<Rightarrow> stored_command \<Rightarrow> 'e err_op" where
  "report_stored d s =
     (case sc_result s of
        None \<Rightarrow> op_return (Some (Plain ''stored command result is missing''))
      | Some r \<Rightarrow>
          try_err (d_finish d (sc_id s) r) (wrap ''report command result: '')
          (try_err (d_clear d) (wrap ''clear command state: '')
          (op_return None)))"

text \<open>A record found at the start of a command: its result, or that the outcome is unknown.\<close>

definition report_found :: "'e dispatcher \<Rightarrow> string \<Rightarrow> string \<Rightarrow> stored_command \<Rightarrow> 'e err_op" where
  "report_found d lease message s =
     (if sc_result s = None then
        (let s' = s\<lparr>sc_result := Some (unknown_result lease message)\<rparr> in
         try_err (d_save d s') same (report_stored d s'))
      else report_stored d s)"

definition retry_pending :: "'e dispatcher \<Rightarrow> ('e, bool \<times> goerr option) op" where
  "retry_pending d =
     op_bind (d_load d) (\<lambda>r. case r of
        Inl x \<Rightarrow> op_return (False, Some x)
      | Inr found \<Rightarrow>
          (case found of
             None \<Rightarrow> op_return (False, None)
           | Some s \<Rightarrow>
               op_bind (report_found d (sc_lease s) restarted_message s) (\<lambda>x. op_return (True, x))))"

definition pending_error :: goerr where
  "pending_error = Plain ''another command result is pending''"

definition started :: "command \<Rightarrow> stored_command" where
  "started c = \<lparr>sc_id = cmd_id c, sc_lease = cmd_lease_token c, sc_result = None\<rparr>"

section \<open>Environment commands\<close>

definition is_environment_stop :: "command_type \<Rightarrow> bool" where
  "is_environment_stop t = (t = StopTrainingEnvironment \<or> t = StopCompetitionEnvironment)"

definition failed :: "string \<Rightarrow> string \<Rightarrow> command_result" where
  "failed code message =
     \<lparr>cr_lease_token = [], cr_success = False, cr_code = code, cr_message = message, cr_details = []\<rparr>"

definition environment_code :: "command_type \<Rightarrow> string" where
  "environment_code t =
     (if t = CreateTrainingEnvironment \<or> t = CreateCompetitionEnvironment then ''ENVIRONMENT_CREATED''
      else if t = StartTrainingEnvironment \<or> t = StartCompetitionEnvironment then ''ENVIRONMENT_STARTED''
      else if t = StopTrainingEnvironment \<or> t = StopCompetitionEnvironment then ''ENVIRONMENT_STOPPED''
      else if t = RestoreTrainingEnvironment \<or> t = RestoreCompetitionEnvironment then ''ENVIRONMENT_RESTORED''
      else if t = DeleteTrainingEnvironment \<or> t = DeleteCompetitionEnvironment then ''ENVIRONMENT_DELETED''
      else [])"

definition environment_operation ::
    "'e executor \<Rightarrow> command_type \<Rightarrow> (environment_payload \<Rightarrow> ('e, pair_result) res_op) option" where
  "environment_operation x t =
     (if t = CreateTrainingEnvironment \<or> t = CreateCompetitionEnvironment then Some (create_pair x)
      else if t = StartTrainingEnvironment \<or> t = StartCompetitionEnvironment then Some (start_pair x)
      else if t = StopTrainingEnvironment \<or> t = StopCompetitionEnvironment then Some (stop_pair x)
      else if t = RestoreTrainingEnvironment \<or> t = RestoreCompetitionEnvironment then Some (restore_pair x)
      else if t = DeleteTrainingEnvironment \<or> t = DeleteCompetitionEnvironment then Some (delete_pair x)
      else None)"

definition not_granted :: string where
  "not_granted = ''environment operation grant is missing, denied, or expired''"

definition run_environment ::
    "'e executor \<Rightarrow> command \<Rightarrow> environment_payload \<Rightarrow> ('e, command_result \<times> goerr option) op" where
  "run_environment x c p =
     (case environment_operation x (cmd_type c) of
        None \<Rightarrow> op_return (failed ''ENVIRONMENT_COMMAND_UNSUPPORTED'' [], Some (Plain ''unsupported environment command''))
      | Some operate \<Rightarrow>
          op_bind (operate p) (\<lambda>r. case r of
             Inl e \<Rightarrow> op_return
               (failed (if is_cancellation e then ''COMMAND_CANCELLED'' else ''ENVIRONMENT_EXECUTION_FAILED'')
                  (bounded_plain_message (err_text e)), Some e)
           | Inr pair \<Rightarrow> op_return
               (\<lparr>cr_lease_token = [], cr_success = True, cr_code = environment_code (cmd_type c),
                 cr_message = ''environment operation completed'',
                 cr_details = [(''pair'', pair_details pair)]\<rparr>, None)))"

definition execute_environment ::
    "'e dispatcher \<Rightarrow> 'e executor \<Rightarrow> command \<Rightarrow> environment_payload \<Rightarrow> ('e, command_result \<times> goerr option) op" where
  "execute_environment d x c p =
     (case (is_environment_stop (cmd_type c), d_grant d) of
        (False, Some current) \<Rightarrow>
          op_bind current (\<lambda>g. op_bind (d_now d) (\<lambda>now.
            if \<not> grant_valid g now
            then op_return (failed ''ENVIRONMENT_OPERATION_NOT_GRANTED'' not_granted, Some (Plain not_granted))
            else run_environment x c p))
      | _ \<Rightarrow> run_environment x c p)"

definition dispatch_environment :: "'e dispatcher \<Rightarrow> 'e executor \<Rightarrow> command \<Rightarrow> environment_payload \<Rightarrow> 'e err_op" where
  "dispatch_environment d x c p =
     try_res (d_load d) same (\<lambda>found. case found of
       Some s \<Rightarrow>
         if sc_id s \<noteq> cmd_id c \<or> sc_lease s \<noteq> cmd_lease_token c then op_return (Some pending_error)
         else report_found d (cmd_lease_token c) restarted_message s
     | None \<Rightarrow>
         try_err (d_start d (cmd_id c) (cmd_lease_token c)) (wrap ''acknowledge command start: '')
         (try_err (d_save d (started c)) (wrap ''persist command start: '')
         (op_bind (execute_environment d x c p) (\<lambda>(r, failure).
            let s = (started c)\<lparr>sc_result := Some (r\<lparr>cr_lease_token := cmd_lease_token c\<rparr>)\<rparr> in
            try_err (d_save d s) (wrap ''persist command result: '')
            (try_err (report_stored d s) same
            (op_return (case failure of None \<Rightarrow> None | Some e \<Rightarrow> Some (wrap ''execute environment command: '' e))))))))"

section \<open>Shutdown\<close>

definition shutdown_result :: "command \<Rightarrow> goerr option \<Rightarrow> command_result" where
  "shutdown_result c failure =
     (case failure of
        None \<Rightarrow> \<lparr>cr_lease_token = cmd_lease_token c, cr_success = True, cr_code = ''SHUTDOWN_ACCEPTED'',
                 cr_message = ''systemd accepted poweroff'', cr_details = []\<rparr>
      | Some e \<Rightarrow> \<lparr>cr_lease_token = cmd_lease_token c, cr_success = False,
                   cr_code = (if is_cancellation e then ''COMMAND_CANCELLED'' else ''SHUTDOWN_FAILED''),
                   cr_message = bounded_plain_message (err_text e), cr_details = []\<rparr>)"

definition dispatch_shutdown :: "'e dispatcher \<Rightarrow> command \<Rightarrow> 'e err_op" where
  "dispatch_shutdown d c =
     try_res (d_load d) same (\<lambda>found. case found of
       Some s \<Rightarrow>
         if sc_id s \<noteq> cmd_id c \<or> sc_lease s \<noteq> cmd_lease_token c then op_return (Some pending_error)
         else report_found d (cmd_lease_token c) restarted_message s
     | None \<Rightarrow>
         try_err (d_start d (cmd_id c) (cmd_lease_token c)) (wrap ''acknowledge command start: '')
         (try_err (d_save d (started c)) (wrap ''persist command start: '')
         (op_bind (d_shutdown d) (\<lambda>failure.
            let s = (started c)\<lparr>sc_result := Some (shutdown_result c failure)\<rparr> in
            try_err (d_save d s) (wrap ''persist command result: '')
            (try_err (report_stored d s) same
            (op_return (case failure of None \<Rightarrow> None | Some e \<Rightarrow> Some (wrap ''execute shutdown: '' e))))))))"

section \<open>Image deployment\<close>

definition percent :: "int \<Rightarrow> int \<Rightarrow> int" where
  "percent transferred whole = (if whole > 0 then wrap64 (transferred * 100) sdiv whole else 0)"

definition running_result :: "command \<Rightarrow> string \<Rightarrow> details \<Rightarrow> command_result" where
  "running_result c message details =
     \<lparr>cr_lease_token = cmd_lease_token c, cr_success = True, cr_code = ''RUNNING'', cr_message = message,
      cr_details = details\<rparr>"

definition report_progress :: "'e dispatcher \<Rightarrow> command \<Rightarrow> int \<Rightarrow> int \<Rightarrow> string \<Rightarrow> 'e err_op" where
  "report_progress d c transferred whole stage =
     d_finish d (cmd_id c) (running_result c ''image deployment is in progress''
       [(''transferredBytes'', DInt transferred), (''totalBytes'', DInt whole),
        (''percent'', DInt (percent transferred whole)), (''stage'', DString stage)])"

definition image_result :: "command \<Rightarrow> details \<Rightarrow> goerr option \<Rightarrow> command_result" where
  "image_result c details failure =
     (case failure of
        None \<Rightarrow>
          (if map_of details ''alreadyPresent'' = Some (DBool True)
           then \<lparr>cr_lease_token = cmd_lease_token c, cr_success = True, cr_code = ''IMAGE_ALREADY_PRESENT'',
                 cr_message = ''image is already up to date'', cr_details = details\<rparr>
           else \<lparr>cr_lease_token = cmd_lease_token c, cr_success = True, cr_code = ''SUCCEEDED'',
                 cr_message = ''image deployment completed'', cr_details = details\<rparr>)
      | Some e \<Rightarrow> \<lparr>cr_lease_token = cmd_lease_token c, cr_success = False,
                   cr_code = (if err_is e ErrImageExists then ''IMAGE_EXISTS'' else ''IMAGE_DEPLOYMENT_FAILED''),
                   cr_message = bounded_plain_message (err_text e), cr_details = details\<rparr>)"

definition dispatch_image_deployment :: "'e dispatcher \<Rightarrow> command \<Rightarrow> 'e err_op" where
  "dispatch_image_deployment d c =
     (case (cmd_image_deployment c, d_image d) of
        (Some p, Some deploy) \<Rightarrow>
          if cmd_version c \<noteq> 1 then op_return (Some (Plain ''image deployment command is invalid''))
          else try_res (d_load d) same (\<lambda>found. case found of
            Some s \<Rightarrow>
              if sc_id s \<noteq> cmd_id c \<or> sc_lease s \<noteq> cmd_lease_token c then op_return (Some pending_error)
              else report_found d (cmd_lease_token c) ''Agent restarted before image deployment outcome was recorded'' s
          | None \<Rightarrow>
              try_err (d_start d (cmd_id c) (cmd_lease_token c)) (wrap ''acknowledge image deployment: '')
              (try_err (d_save d (started c)) (wrap ''persist image deployment start: '')
              (try_err (d_finish d (cmd_id c) (running_result c ''image archive is downloading and loading'' []))
                 (wrap ''report image deployment progress: '')
              (op_bind (deploy p) (\<lambda>job.
               op_bind (run_job job (report_progress d c)) (\<lambda>(details, failure).
                 let s = (started c)\<lparr>sc_result := Some (image_result c details failure)\<rparr> in
                 try_err (d_save d s) (wrap ''persist image deployment result: '')
                 (try_err (report_stored d s) (wrap ''report image deployment: '')
                 (op_return failure))))))))
      | _ \<Rightarrow> op_return (Some (Plain ''image deployment command is invalid'')))"

section \<open>Docker inventory\<close>

definition inventory_result :: "command \<Rightarrow> details \<Rightarrow> goerr option \<Rightarrow> command_result" where
  "inventory_result c details failure =
     (case failure of
        None \<Rightarrow> \<lparr>cr_lease_token = cmd_lease_token c, cr_success = True, cr_code = ''SUCCEEDED'',
                 cr_message = ''Docker operation completed'', cr_details = details\<rparr>
      | Some e \<Rightarrow> \<lparr>cr_lease_token = cmd_lease_token c, cr_success = False, cr_code = ''DOCKER_INVENTORY_FAILED'',
                   cr_message = bounded_plain_message (err_text e), cr_details = details\<rparr>)"

definition dispatch_docker_inventory :: "'e dispatcher \<Rightarrow> command \<Rightarrow> 'e err_op" where
  "dispatch_docker_inventory d c =
     (case (cmd_docker_inventory c, d_inventory d) of
        (Some p, Some execute) \<Rightarrow>
          if cmd_version c \<noteq> 1 then op_return (Some (Plain ''Docker inventory command is invalid''))
          else (case docker_inventory_validate (d_ref_ok d) p of
            Some e \<Rightarrow> op_return (Some e)
          | None \<Rightarrow>
              try_res (d_load d) same (\<lambda>found. case found of
                Some s \<Rightarrow>
                  if sc_id s \<noteq> cmd_id c \<or> sc_lease s \<noteq> cmd_lease_token c then op_return (Some pending_error)
                  else op_bind (retry_pending d) (\<lambda>(retried, e). op_return e)
              | None \<Rightarrow>
                  try_err (d_start d (cmd_id c) (cmd_lease_token c)) same
                  (try_err (d_save d (started c)) same
                  (op_bind (execute p) (\<lambda>(details, failure).
                     let s = (started c)\<lparr>sc_result := Some (inventory_result c details failure)\<rparr> in
                     try_err (d_save d s) same
                     (try_err (report_stored d s) same
                     (op_return failure)))))))
      | _ \<Rightarrow> op_return (Some (Plain ''Docker inventory command is invalid'')))"

section \<open>Commands without a stored record\<close>

definition transfer_result :: "command \<Rightarrow> goerr option \<Rightarrow> command_result" where
  "transfer_result c failure =
     (case failure of
        None \<Rightarrow> \<lparr>cr_lease_token = cmd_lease_token c, cr_success = True, cr_code = ''FILE_TRANSFER_SUCCEEDED'',
                 cr_message = ''file transferred'', cr_details = []\<rparr>
      | Some e \<Rightarrow> \<lparr>cr_lease_token = cmd_lease_token c, cr_success = False, cr_code = ''FILE_TRANSFER_FAILED'',
                   cr_message = bounded_plain_message (err_text e), cr_details = []\<rparr>)"

definition dispatch_file_transfer :: "'e dispatcher \<Rightarrow> command \<Rightarrow> 'e err_op" where
  "dispatch_file_transfer d c =
     (case (cmd_file_transfer c, d_transfer d) of
        (Some p, Some transfer) \<Rightarrow>
          try_err (d_start d (cmd_id c) (cmd_lease_token c)) same
          (op_bind (transfer p) (\<lambda>failure.
           try_err (d_finish d (cmd_id c) (transfer_result c failure)) same
           (op_return failure)))
      | _ \<Rightarrow> op_return (Some (Plain ''file transfer command is invalid'')))"

definition model_result :: "command \<Rightarrow> string \<Rightarrow> string \<Rightarrow> details \<Rightarrow> goerr option \<Rightarrow> command_result" where
  "model_result c code message details failure =
     (case failure of
        None \<Rightarrow> \<lparr>cr_lease_token = cmd_lease_token c, cr_success = True, cr_code = code, cr_message = message,
                 cr_details = details\<rparr>
      | Some e \<Rightarrow> \<lparr>cr_lease_token = cmd_lease_token c, cr_success = False, cr_code = ''MODEL_WORKSPACE_FAILED'',
                   cr_message = bounded_plain_message (err_text e), cr_details = details\<rparr>)"

definition dispatch_model_workspace :: "'e dispatcher \<Rightarrow> command \<Rightarrow> 'e err_op" where
  "dispatch_model_workspace d c =
     (case (cmd_model_workspace c, d_model d) of
        (Some p, Some m) \<Rightarrow>
          try_err (d_start d (cmd_id c) (cmd_lease_token c)) same
          (if mw_action p = ''LIST'' then
             op_bind (mm_list m (mw_container_name p)) (\<lambda>(files, failure).
             try_err (d_finish d (cmd_id c)
               (model_result c ''MODEL_FILES_LISTED'' ''model files listed'' [(''files'', string_slice files)] failure)) same
             (op_return failure))
           else
             op_bind (mm_deploy m p) (\<lambda>failure.
             try_err (d_finish d (cmd_id c)
               (model_result c ''MODEL_DEPLOYED'' ''model files deployed'' [] failure)) same
             (op_return failure)))
      | _ \<Rightarrow> op_return (Some (Plain ''model workspace command is invalid'')))"

definition last_bytes :: "nat \<Rightarrow> string \<Rightarrow> string" where
  "last_bytes n s = drop (length s - n) s"

definition bash_result :: "command \<Rightarrow> terminal_input_payload \<Rightarrow> string \<Rightarrow> goerr option \<Rightarrow> command_result" where
  "bash_result c p out failure =
     (let details = [(''sessionId'', DString (ti_session_id p)), (''output'', DString (last_bytes 65536 out))] in
      case failure of
        None \<Rightarrow> \<lparr>cr_lease_token = cmd_lease_token c, cr_success = True, cr_code = ''TERMINAL_INPUT_COMPLETED'',
                 cr_message = ''command completed'', cr_details = details\<rparr>
      | Some e \<Rightarrow> \<lparr>cr_lease_token = cmd_lease_token c, cr_success = False, cr_code = ''TERMINAL_INPUT_FAILED'',
                   cr_message = bounded_plain_message (err_text e), cr_details = details\<rparr>)"

text \<open>\<open>d_bash\<close> is the run of \<open>/bin/bash --noprofile --norc -lc\<close> on the text: its output and error.\<close>

definition dispatch_terminal_input :: "'e dispatcher \<Rightarrow> command \<Rightarrow> 'e err_op" where
  "dispatch_terminal_input d c =
     (case cmd_terminal_input c of
        Some p \<Rightarrow>
          if cmd_version c \<noteq> 1 then op_return (Some (Plain ''terminal input command is invalid''))
          else try_err (d_start d (cmd_id c) (cmd_lease_token c)) same
            (op_bind (d_bash d (ti_data p)) (\<lambda>(out, failure).
             try_err (d_finish d (cmd_id c) (bash_result c p out failure)) same
             (op_return failure)))
      | None \<Rightarrow> op_return (Some (Plain ''terminal input command is invalid'')))"

definition upgrade_failed :: "command \<Rightarrow> goerr \<Rightarrow> command_result" where
  "upgrade_failed c e =
     \<lparr>cr_lease_token = cmd_lease_token c, cr_success = False, cr_code = ''AGENT_UPGRADE_FAILED'',
      cr_message = bounded_plain_message (err_text e), cr_details = []\<rparr>"

definition upgrade_staged :: "command \<Rightarrow> command_result" where
  "upgrade_staged c =
     \<lparr>cr_lease_token = cmd_lease_token c, cr_success = True, cr_code = ''AGENT_UPGRADE_STAGED'',
      cr_message = ''Agent upgrade verified and scheduled'', cr_details = []\<rparr>"

definition dispatch_upgrade :: "'e dispatcher \<Rightarrow> command \<Rightarrow> 'e err_op" where
  "dispatch_upgrade d c =
     (case (cmd_upgrade c, d_upgrade d) of
        (Some p, Some u) \<Rightarrow>
          if cmd_version c \<noteq> 1 then op_return (Some (Plain ''upgrade command is invalid''))
          else try_err (d_start d (cmd_id c) (cmd_lease_token c)) same
            (op_bind (um_prepare u p) (\<lambda>failure. case failure of
               Some e \<Rightarrow> op_bind (d_finish d (cmd_id c) (upgrade_failed c e)) (\<lambda>_. op_return (Some e))
             | None \<Rightarrow>
                 try_err (d_finish d (cmd_id c) (upgrade_staged c)) same
                 (um_activate u)))
      | _ \<Rightarrow> op_return (Some (Plain ''upgrade command is invalid'')))"

section \<open>Terminal sessions\<close>

definition terminal_codes :: "string list" where
  "terminal_codes = [''TERMINAL_ALREADY_ACTIVE'', ''TERMINAL_RECOVERY_PENDING'', ''TERMINAL_COMMAND_INVALID'',
     ''TERMINAL_COMMAND_EXPIRED'', ''TERMINAL_START_FAILED'', ''TERMINAL_UNSUPPORTED_PLATFORM'']"

definition terminal_code :: "goerr \<Rightarrow> string" where
  "terminal_code e =
     (case err_as_terminal e of
        Some code \<Rightarrow> if code \<in> set terminal_codes then code else ''TERMINAL_START_FAILED''
      | None \<Rightarrow> ''TERMINAL_START_FAILED'')"

definition terminal_message :: "string \<Rightarrow> string" where
  "terminal_message code =
     (if code = ''TERMINAL_ALREADY_ACTIVE'' then ''another terminal session is already active''
      else if code = ''TERMINAL_RECOVERY_PENDING'' then ''terminal recovery report is pending''
      else if code = ''TERMINAL_COMMAND_INVALID'' then ''terminal command is invalid''
      else if code = ''TERMINAL_COMMAND_EXPIRED'' then ''terminal command has expired''
      else if code = ''TERMINAL_UNSUPPORTED_PLATFORM'' then ''terminal sessions are unsupported on this platform''
      else ''terminal session could not be started'')"

definition terminal_result :: "command \<Rightarrow> string \<Rightarrow> command_result" where
  "terminal_result c code =
     \<lparr>cr_lease_token = cmd_lease_token c, cr_success = False, cr_code = code, cr_message = terminal_message code,
      cr_details = []\<rparr>"

text \<open>The recorder is used when the manager has one and the start failed for no better reason.\<close>

definition recorder_for :: "'e terminal_manager \<Rightarrow> string \<Rightarrow> (command \<Rightarrow> string \<Rightarrow> string \<Rightarrow> 'e err_op) option" where
  "recorder_for m code = (if code = ''TERMINAL_START_FAILED'' then tm_record_failure m else None)"

definition report_start_failure :: "'e dispatcher \<Rightarrow> 'e terminal_manager \<Rightarrow> command \<Rightarrow> goerr \<Rightarrow> 'e err_op" where
  "report_start_failure d m c e =
     (let code = terminal_code e; ended = op_return (Some (Plain (''start terminal session: '' @ code))) in
      case recorder_for m code of
        None \<Rightarrow>
          try_err (d_finish d (cmd_id c) (terminal_result c code)) (wrap ''report terminal start failure: '') ended
      | Some record_failure \<Rightarrow>
          try_err (record_failure c code (terminal_message code)) (wrap ''persist terminal start failure: '')
          (try_err (d_finish d (cmd_id c) (terminal_result c code)) (wrap ''report terminal start failure: '')
          (try_err (tm_clear_failure m) (wrap ''clear terminal start failure: '')
          ended)))"

text \<open>A start refused because a session is active closes that session and tries once more.\<close>

definition start_or_replace :: "'e terminal_manager \<Rightarrow> command \<Rightarrow> 'e err_op" where
  "start_or_replace m c =
     op_bind (tm_start m c) (\<lambda>first.
       if Option.bind first err_as_terminal = Some ''TERMINAL_ALREADY_ACTIVE''
       then op_bind (tm_close m ''operator-request'') (\<lambda>closed.
              if closed = None then tm_start m c else op_return first)
       else op_return first)"

definition dispatch_terminal :: "'e dispatcher \<Rightarrow> command \<Rightarrow> 'e err_op" where
  "dispatch_terminal d c =
     (if cmd_version c \<noteq> 1 \<or> cmd_terminal c = None then op_return (Some (Plain ''terminal command is invalid''))
      else case d_terminal d of
        None \<Rightarrow> op_return (Some (Plain ''terminal manager is not configured''))
      | Some m \<Rightarrow>
          try_err (d_start d (cmd_id c) (cmd_lease_token c)) (wrap ''acknowledge terminal command start: '')
          (op_bind (start_or_replace m c) (\<lambda>r. case r of
             Some e \<Rightarrow> report_start_failure d m c e
           | None \<Rightarrow> op_return None)))"

section \<open>Dispatch\<close>

definition dispatch :: "'e dispatcher \<Rightarrow> command \<Rightarrow> 'e err_op" where
  "dispatch d c =
     (if cmd_type c = DockerInventoryAction then dispatch_docker_inventory d c
      else if cmd_type c = DeployImage then dispatch_image_deployment d c
      else if cmd_type c = TransferFile then dispatch_file_transfer d c
      else if cmd_type c = ModelWorkspace then dispatch_model_workspace d c
      else if cmd_type c = ExecuteTerminalInput then dispatch_terminal_input d c
      else if cmd_type c = UpgradeAgent then dispatch_upgrade d c
      else if cmd_type c = OpenRootTerminal then dispatch_terminal d c
      else if cmd_version c \<noteq> 1 \<or> (cmd_type c \<noteq> ShutdownServer \<and> \<not> is_environment_command_type (cmd_type c))
      then op_return (Some (Plain ''unsupported command type or version''))
      else if cmd_type c \<noteq> ShutdownServer then
        (case (d_executor d, cmd_environment c) of
           (Some x, Some p) \<Rightarrow> dispatch_environment d x c p
         | _ \<Rightarrow> op_return (Some (Plain ''container executor is not configured'')))
      else dispatch_shutdown d c)"

end
