(* ===== verification/Traces.thy ===== *)
theory Traces
  imports Prelude
begin

text \<open>
  Traces of operations. \<open>log_op\<close> makes an operation on an environment append an event to a list it
  carries along; a handler built from logged operations then records every call it makes, in order,
  whatever the operations do. \<open>emits m T\<close> says of a handler that from every environment it appends
  a trace that satisfies \<open>T\<close> together with its result. The rules \<open>emits_intros\<close> execute a handler
  symbolically, one call at a time.
\<close>

definition log_op :: "('a \<Rightarrow> 'v) \<Rightarrow> ('e, 'a) op \<Rightarrow> ('e \<times> 'v list, 'a) op" where
  "log_op ev m s = (case m (fst s) of (x, e') \<Rightarrow> (x, (e', snd s @ [ev x])))"

lemma log_run: "m e = (x, e') \<Longrightarrow> log_op ev m (e, tr) = (x, (e', tr @ [ev x]))"
  by (simp add: log_op_def)

definition emits :: "('e \<times> 'v list, 'r) op \<Rightarrow> ('r \<Rightarrow> 'v list \<Rightarrow> bool) \<Rightarrow> bool" where
  "emits m T \<longleftrightarrow> (\<forall>e tr. \<exists>t. snd (snd (m (e, tr))) = tr @ t \<and> T (fst (m (e, tr))) t)"

lemma emitsD: "emits m T \<Longrightarrow> m (e, tr) = (r, (e', tr')) \<Longrightarrow> \<exists>t. tr' = tr @ t \<and> T r t"
  unfolding emits_def by (metis fst_conv snd_conv)

lemma emitsI: "(\<And>e tr r e' tr'. m (e, tr) = (r, (e', tr')) \<Longrightarrow> \<exists>t. tr' = tr @ t \<and> T r t) \<Longrightarrow> emits m T"
  unfolding emits_def by (metis prod.collapse)

lemma emits_conseq: "emits m S \<Longrightarrow> (\<And>r t. S r t \<Longrightarrow> T r t) \<Longrightarrow> emits m T"
  unfolding emits_def by blast

lemma emits_return: "T x [] \<Longrightarrow> emits (op_return x) T"
  by (simp add: emits_def op_return_def)

lemma emits_log: "(\<And>x. T x [ev x]) \<Longrightarrow> emits (log_op ev m) T"
  by (simp add: emits_def log_op_def split: prod.splits)

lemma emits_bind:
  assumes "emits m S" "\<And>x t. S x t \<Longrightarrow> emits (f x) (\<lambda>y u. T y (t @ u))"
  shows "emits (op_bind m f) T"
proof (rule emitsI)
  fix e tr r e' tr' assume run: "op_bind m f (e, tr) = (r, (e', tr'))"
  obtain x e1 tr1 where m: "m (e, tr) = (x, (e1, tr1))" by (metis prod.collapse)
  with emitsD [OF assms(1)] obtain t where t: "tr1 = tr @ t" "S x t" by blast
  have "f x (e1, tr1) = (r, (e', tr'))" using run m by (simp add: op_bind_def)
  from emitsD [OF assms(2) [OF t(2)] this] t(1) show "\<exists>t. tr' = tr @ t \<and> T r t" by auto
qed

lemma emits_log_bind:
  "(\<And>x. emits (f x) (\<lambda>y u. T y (ev x # u))) \<Longrightarrow> emits (op_bind (log_op ev m) f) T"
  by (rule emits_bind [of _ "\<lambda>x t. t = [ev x]"]) (auto intro: emits_log)

lemma emits_try_err:
  assumes "\<And>x. T (Some (w x)) [ev (Some x)]" "emits k (\<lambda>y u. T y (ev None # u))"
  shows "emits (try_err (log_op ev m) w k) T"
  unfolding try_err_def by (rule emits_log_bind) (auto intro: emits_return assms split: option.split)

lemma emits_try_res:
  assumes "\<And>x. T (Some (w x)) [ev (Inl x)]" "\<And>v. emits (k v) (\<lambda>y u. T y (ev (Inr v) # u))"
  shows "emits (try_res (log_op ev m) w k) T"
  unfolding try_res_def by (rule emits_log_bind) (auto intro: emits_return assms split: sum.split)

lemma emits_if: "(b \<Longrightarrow> emits x T) \<Longrightarrow> (\<not> b \<Longrightarrow> emits y T) \<Longrightarrow> emits (if b then x else y) T"
  by simp

lemma emits_option:
  "(x = None \<Longrightarrow> emits a T) \<Longrightarrow> (\<And>v. x = Some v \<Longrightarrow> emits (b v) T) \<Longrightarrow>
   emits (case x of None \<Rightarrow> a | Some v \<Rightarrow> b v) T"
  by (cases x) auto

lemma emits_sum:
  "(\<And>e. x = Inl e \<Longrightarrow> emits (a e) T) \<Longrightarrow> (\<And>v. x = Inr v \<Longrightarrow> emits (b v) T) \<Longrightarrow>
   emits (case x of Inl e \<Rightarrow> a e | Inr v \<Rightarrow> b v) T"
  by (cases x) auto

lemma emits_prod: "(\<And>a b. x = (a, b) \<Longrightarrow> emits (f a b) T) \<Longrightarrow> emits (case x of (a, b) \<Rightarrow> f a b) T"
  by (cases x) auto

lemma emits_Let: "emits (f v) T \<Longrightarrow> emits (let x = v in f x) T"
  by simp

lemmas emits_intros = emits_Let emits_if emits_option emits_sum emits_prod emits_try_err emits_try_res
  emits_log_bind emits_log emits_return

text \<open>Erasing the log: the logged run is the plain run with a list beside it.\<close>

definition erases :: "('e \<times> 'v list, 'r) op \<Rightarrow> ('e, 'r) op \<Rightarrow> bool" where
  "erases m n \<longleftrightarrow> (\<forall>e tr. fst (m (e, tr)) = fst (n e) \<and> fst (snd (m (e, tr))) = snd (n e))"

lemma erases_log: "erases (log_op ev m) m"
  by (simp add: erases_def log_op_def split: prod.splits)

lemma erases_return: "erases (op_return x) (op_return x)"
  by (simp add: erases_def op_return_def)

lemma erases_bind: "erases m n \<Longrightarrow> (\<And>x. erases (f x) (g x)) \<Longrightarrow> erases (op_bind m f) (op_bind n g)"
  unfolding erases_def op_bind_def by (auto split: prod.splits) (metis fst_conv snd_conv)+

lemma erases_try_err: "erases m n \<Longrightarrow> erases k l \<Longrightarrow> erases (try_err m w k) (try_err n w l)"
  unfolding try_err_def by (rule erases_bind) (auto intro: erases_return split: option.split)

lemma erases_try_res: "erases m n \<Longrightarrow> (\<And>v. erases (k v) (l v)) \<Longrightarrow> erases (try_res m w k) (try_res n w l)"
  unfolding try_res_def by (rule erases_bind) (auto intro: erases_return split: sum.split)

lemma erases_if: "(b \<Longrightarrow> erases x y) \<Longrightarrow> (\<not> b \<Longrightarrow> erases u v) \<Longrightarrow> erases (if b then x else u) (if b then y else v)"
  by simp

lemma erases_option:
  "(x = None \<Longrightarrow> erases a c) \<Longrightarrow> (\<And>v. x = Some v \<Longrightarrow> erases (b v) (d v)) \<Longrightarrow>
   erases (case x of None \<Rightarrow> a | Some v \<Rightarrow> b v) (case x of None \<Rightarrow> c | Some v \<Rightarrow> d v)"
  by (cases x) auto

lemma erases_sum:
  "(\<And>e. x = Inl e \<Longrightarrow> erases (a e) (c e)) \<Longrightarrow> (\<And>v. x = Inr v \<Longrightarrow> erases (b v) (d v)) \<Longrightarrow>
   erases (case x of Inl e \<Rightarrow> a e | Inr v \<Rightarrow> b v) (case x of Inl e \<Rightarrow> c e | Inr v \<Rightarrow> d v)"
  by (cases x) auto

lemma erases_prod:
  "(\<And>a b. x = (a, b) \<Longrightarrow> erases (f a b) (g a b)) \<Longrightarrow>
   erases (case x of (a, b) \<Rightarrow> f a b) (case x of (a, b) \<Rightarrow> g a b)"
  by (cases x) auto

lemma erases_Let: "erases (f v) (g v) \<Longrightarrow> erases (let x = v in f x) (let x = v in g x)"
  by simp

lemmas erases_intros = erases_Let erases_if erases_option erases_sum erases_prod erases_try_err erases_try_res
  erases_bind erases_log erases_return

end
