(* ===== verification/JournalSteps.thy ===== *)
theory JournalSteps
  imports Journal
begin

text \<open>
  The journal as a state machine. A command with identifier \<open>i\<close> and lease \<open>l\<close> moves through phases;
  \<open>jstep i l\<close> is the phase after an event, or \<open>None\<close> when the event is not allowed there. A handler
  follows the journal when its trace is accepted from \<open>Idle\<close>. Every prefix of an accepted trace is
  accepted, so what holds on each step holds wherever the process is stopped.
\<close>

section \<open>Phases and steps\<close>

datatype phase =
    Idle | Retrying | Fresh | Started | Logged | Ran | Pending stored_command | Recorded stored_command | Reported | Stopped

definition effect :: "event \<Rightarrow> bool" where
  "effect ev =
     (case ev of EvShutdown \<Rightarrow> True | EvPair f p \<Rightarrow> True | EvDeploy p \<Rightarrow> True | EvInventory p \<Rightarrow> True | _ \<Rightarrow> False)"

definition progress_result :: "string \<Rightarrow> command_result \<Rightarrow> bool" where
  "progress_result l r = (cr_code r = ''RUNNING'' \<and> cr_success r \<and> cr_lease_token r = l)"

definition outcome_unknown :: "stored_command \<Rightarrow> stored_command \<Rightarrow> bool" where
  "outcome_unknown s s' =
     (sc_result s = None \<and>
      (case sc_result s' of
         None \<Rightarrow> False
       | Some r \<Rightarrow> s' = s\<lparr>sc_result := Some r\<rparr> \<and> cr_lease_token r = sc_lease s \<and> \<not> cr_success r
                  \<and> cr_code r = ''EXECUTION_OUTCOME_UNKNOWN''))"

definition on_load :: "string \<Rightarrow> string \<Rightarrow> goerr + stored_command option \<Rightarrow> phase" where
  "on_load i l found =
     (case found of
        Inl e \<Rightarrow> Stopped
      | Inr None \<Rightarrow> Fresh
      | Inr (Some s) \<Rightarrow> if sc_id s = i \<and> sc_lease s = l then Pending s else Stopped)"

definition on_retry :: "goerr + stored_command option \<Rightarrow> phase" where
  "on_retry found = (case found of Inr (Some s) \<Rightarrow> Pending s | _ \<Rightarrow> Stopped)"

definition done_with :: "string \<Rightarrow> string \<Rightarrow> stored_command \<Rightarrow> bool" where
  "done_with i l s =
     (sc_id s = i \<and> sc_lease s = l \<and> (case sc_result s of None \<Rightarrow> False | Some r \<Rightarrow> cr_lease_token r = l))"

definition on_ok :: "goerr option \<Rightarrow> phase \<Rightarrow> phase" where
  "on_ok r ph = (if r = None then ph else Stopped)"

inductive jstep :: "string \<Rightarrow> string \<Rightarrow> phase \<Rightarrow> event \<Rightarrow> phase \<Rightarrow> bool" for i l where
  load: "jstep i l Idle (EvLoad found) (on_load i l found)"
| retry: "jstep i l Retrying (EvLoad found) (on_retry found)"
| start: "jstep i l Fresh (EvStart i l r) (on_ok r Started)"
| record_start: "jstep i l Started (EvSave \<lparr>sc_id = i, sc_lease = l, sc_result = None\<rparr> r) (on_ok r Logged)"
| read_grant: "jstep i l Logged (EvGrant g) Logged"
| read_clock: "jstep i l Logged (EvNow t) Logged"
| announce: "progress_result l r \<Longrightarrow> jstep i l Logged (EvFinish i r x) (on_ok x Logged)"
| execute: "effect ev \<Longrightarrow> jstep i l Logged ev Ran"
| refuse: "done_with i l s \<Longrightarrow> jstep i l Logged (EvSave s r) (on_ok r (Recorded s))"
| progress: "progress_result l r \<Longrightarrow> jstep i l Ran (EvFinish i r x) Ran"
| record_result: "done_with i l s \<Longrightarrow> jstep i l Ran (EvSave s r) (on_ok r (Recorded s))"
| reload: "jstep i l (Pending s) (EvLoad found) (on_retry found)"
| record_unknown: "outcome_unknown s s' \<Longrightarrow> jstep i l (Pending s) (EvSave s' r) (on_ok r (Recorded s'))"
| report_pending: "sc_result s = Some r \<Longrightarrow> jstep i l (Pending s) (EvFinish (sc_id s) r x) (on_ok x Reported)"
| report: "sc_result s = Some r \<Longrightarrow> jstep i l (Recorded s) (EvFinish (sc_id s) r x) (on_ok x Reported)"
| clear: "jstep i l Reported (EvClear r) Stopped"

inductive follows :: "string \<Rightarrow> string \<Rightarrow> phase \<Rightarrow> event list \<Rightarrow> bool" for i l where
  follows_nil [simp]: "follows i l ph []"
| follows_step: "jstep i l ph ev ph' \<Longrightarrow> follows i l ph' t \<Longrightarrow> follows i l ph (ev # t)"

inductive_simps follows_Cons: "follows i l ph (ev # t)"
inductive_simps jstep_simps:
  "jstep i l Idle ev ph" "jstep i l Retrying ev ph" "jstep i l Fresh ev ph" "jstep i l Started ev ph" "jstep i l Logged ev ph"
  "jstep i l Ran ev ph" "jstep i l (Pending s) ev ph" "jstep i l (Recorded s) ev ph"
  "jstep i l Reported ev ph" "jstep i l Stopped ev ph"

lemma follows_prefix: "follows i l ph t \<Longrightarrow> is_prefix p t \<Longrightarrow> follows i l ph p"
  by (induction arbitrary: p rule: follows.induct) (auto simp: is_prefix_Cons intro: follows_step)

lemma follows_stopped [simp]: "follows i l Stopped t \<longleftrightarrow> t = []"
  by (cases t) (auto simp: follows_Cons jstep_simps)

text \<open>\<open>reaches\<close>: the phase an event list leads to.\<close>

inductive reaches :: "string \<Rightarrow> string \<Rightarrow> phase \<Rightarrow> event list \<Rightarrow> phase \<Rightarrow> bool" for i l where
  reaches_nil [simp, intro]: "reaches i l ph [] ph"
| reaches_step: "jstep i l ph ev ph' \<Longrightarrow> reaches i l ph' t ph'' \<Longrightarrow> reaches i l ph (ev # t) ph''"

lemma reaches_follows: "reaches i l ph t ph' \<Longrightarrow> follows i l ph' u \<Longrightarrow> follows i l ph (t @ u)"
  by (induction rule: reaches.induct) (auto intro: follows_step)

lemma reaches_append: "reaches i l ph t ph' \<Longrightarrow> reaches i l ph' u ph'' \<Longrightarrow> reaches i l ph (t @ u) ph''"
  by (induction rule: reaches.induct) (auto intro: reaches_step)

lemma reaches_one: "jstep i l ph ev ph' \<Longrightarrow> reaches i l ph [ev] ph'"
  by (blast intro: reaches_step)

section \<open>The handlers follow the journal\<close>

text \<open>
  \<open>keeps\<close>: whatever a handler does from a phase, the journal allows; \<open>leads\<close>: it does, and it ends in one
  of the phases \<open>P\<close>.
\<close>

definition keeps :: "string \<Rightarrow> string \<Rightarrow> phase \<Rightarrow> ('e \<times> event list, 'r) op \<Rightarrow> bool" where
  "keeps i l ph m = emits m (\<lambda>r t. follows i l ph t)"

definition leads :: "string \<Rightarrow> string \<Rightarrow> phase \<Rightarrow> ('e \<times> event list, 'r) op \<Rightarrow> phase set \<Rightarrow> bool" where
  "leads i l ph m P = emits m (\<lambda>r t. \<exists>ph'\<in>P. reaches i l ph t ph')"

lemma keeps_return [intro]: "keeps i l ph (op_return x)"
  unfolding keeps_def by (rule emits_return) simp

lemma keeps_log_bind:
  "(\<And>x. jstep i l ph (ev x) (g x)) \<Longrightarrow> (\<And>x. keeps i l (g x) (f x)) \<Longrightarrow> keeps i l ph (op_bind (log_op ev m) f)"
  unfolding keeps_def by (rule emits_log_bind) (blast intro: emits_conseq follows_step)

lemma keeps_try_err:
  "(\<And>x. jstep i l ph (ev x) (on_ok x ph')) \<Longrightarrow> keeps i l ph' k \<Longrightarrow> keeps i l ph (try_err (log_op ev m) w k)"
  unfolding try_err_def by (rule keeps_log_bind) (auto simp: on_ok_def split: option.split)

lemma keeps_try_load:
  "(\<And>r. jstep i l ph (EvLoad r) (g r)) \<Longrightarrow> (\<And>v. keeps i l (g (Inr v)) (k v)) \<Longrightarrow>
   keeps i l ph (try_res (log_op EvLoad m) w k)"
  unfolding try_res_def by (rule keeps_log_bind) (auto split: sum.split)

lemma keeps_try: "keeps i l ph m \<Longrightarrow> keeps i l ph (try_err m w (op_return x))"
  unfolding try_err_def keeps_def
  by (erule emits_bind) (auto intro!: emits_return split: option.split)

lemma keeps_bind:
  assumes "leads i l ph m P" "\<And>x ph'. ph' \<in> P \<Longrightarrow> keeps i l ph' (f x)"
  shows "keeps i l ph (op_bind m f)"
  unfolding keeps_def
proof (rule emits_bind [OF assms(1) [unfolded leads_def]])
  fix x t assume "\<exists>ph'\<in>P. reaches i l ph t ph'"
  then obtain ph' where ph: "ph' \<in> P" "reaches i l ph t ph'" by blast
  from assms(2) [OF ph(1), of x, unfolded keeps_def]
  show "emits (f x) (\<lambda>y u. follows i l ph (t @ u))"
    by (rule emits_conseq) (rule reaches_follows [OF ph(2)])
qed

lemma leads_return: "ph \<in> P \<Longrightarrow> leads i l ph (op_return x) P"
  unfolding leads_def by (rule emits_return) auto

lemma leads_log: "(\<And>x. jstep i l ph (ev x) (g x)) \<Longrightarrow> (\<And>x. g x \<in> P) \<Longrightarrow> leads i l ph (log_op ev m) P"
  unfolding leads_def by (rule emits_log) (blast intro: reaches_one)

lemma leads_bind:
  assumes "leads i l ph m Q" "\<And>x ph'. ph' \<in> Q \<Longrightarrow> leads i l ph' (f x) P"
  shows "leads i l ph (op_bind m f) P"
  unfolding leads_def
proof (rule emits_bind [OF assms(1) [unfolded leads_def]])
  fix x t assume "\<exists>ph'\<in>Q. reaches i l ph t ph'"
  then obtain ph' where ph: "ph' \<in> Q" "reaches i l ph t ph'" by blast
  from assms(2) [OF ph(1), of x, unfolded leads_def]
  show "emits (f x) (\<lambda>y u. \<exists>ph''\<in>P. reaches i l ph (t @ u) ph'')"
    by (rule emits_conseq) (blast intro: reaches_append [OF ph(2)])
qed

lemma on_ok_Stopped [simp]: "on_ok r Stopped = Stopped"
  by (simp add: on_ok_def)

lemma keeps_report_stored:
  assumes "\<And>r x. sc_result s = Some r \<Longrightarrow> jstep i l ph (EvFinish (sc_id s) r x) (on_ok x Reported)"
  shows "keeps i l ph (report_stored (logged d) s)"
proof (cases "sc_result s")
  case (Some r)
  then have eq: "report_stored (logged d) s =
      try_err (log_op (EvFinish (sc_id s) r) (d_finish d (sc_id s) r)) (wrap ''report command result: '')
      (try_err (log_op EvClear (d_clear d)) (wrap ''clear command state: '') (op_return None))"
    by (simp add: report_stored_def)
  show ?thesis
    unfolding eq
    by (rule keeps_try_err [OF assms [OF Some]], rule keeps_try_err [where ph' = Stopped])
       (auto simp: jstep_simps)
qed (auto simp: report_stored_def)

lemma keeps_recorded: "keeps i l (Recorded s) (report_stored (logged d) s)"
  by (rule keeps_report_stored) (rule report)

lemma keeps_report_found:
  assumes l: "sc_lease s = lease"
  shows "keeps i l (Pending s) (report_found (logged d) lease message s)"
proof (cases "sc_result s")
  case None
  let ?s = "s\<lparr>sc_result := Some (unknown_result lease message)\<rparr>"
  have "outcome_unknown s ?s"
    using None l by (simp add: outcome_unknown_def unknown_result_def)
  then have "keeps i l (Pending s) (try_err (log_op (EvSave ?s) (d_save d ?s)) same (report_stored (logged d) ?s))"
    by (intro keeps_try_err [where ph' = "Recorded ?s"] record_unknown keeps_recorded)
  then show ?thesis using None by (simp add: report_found_def Let_def)
next
  case (Some r)
  then have "report_found (logged d) lease message s = report_stored (logged d) s"
    by (simp add: report_found_def)
  then show ?thesis by (simp add: keeps_report_stored report_pending)
qed

lemma keeps_bind_result: "keeps i l ph m \<Longrightarrow> keeps i l ph (op_bind m (\<lambda>x. op_return (f x)))"
  unfolding keeps_def by (erule emits_bind) (auto intro!: emits_return)

lemma keeps_retry:
  assumes "\<And>r. jstep i l ph (EvLoad r) (on_retry r)"
  shows "keeps i l ph (retry_pending (logged d))"
  unfolding retry_pending_def logged_simps
proof (rule keeps_log_bind [OF assms])
  fix r :: "goerr + stored_command option"
  show "keeps i l (on_retry r) (case r of Inl x \<Rightarrow> op_return (False, Some x)
      | Inr found \<Rightarrow> (case found of None \<Rightarrow> op_return (False, None)
         | Some s \<Rightarrow> op_bind (report_found (logged d) (sc_lease s) restarted_message s) (\<lambda>x. op_return (True, x))))"
    by (auto simp: on_retry_def keeps_report_found intro!: keeps_bind_result split: sum.split option.split)
qed

lemma retry_journal: "keeps i l Retrying (retry_pending (logged d))"
  by (rule keeps_retry) (rule retry)

text \<open>What every handler with a record does before and after the operation itself.\<close>

lemma keeps_load:
  assumes "\<And>s. sc_id s = i \<Longrightarrow> sc_lease s = l \<Longrightarrow> keeps i l (Pending s) (found s)" "keeps i l Fresh k"
  shows "keeps i l Idle (try_res (log_op EvLoad m) w (\<lambda>x. case x of
     Some s \<Rightarrow> if sc_id s \<noteq> i \<or> sc_lease s \<noteq> l then op_return e else found s
   | None \<Rightarrow> k))"
  by (rule keeps_try_load [OF load]) (auto simp: on_load_def assms split: option.split)

lemma keeps_start:
  assumes "keeps i l Logged k" "s = \<lparr>sc_id = i, sc_lease = l, sc_result = None\<rparr>"
  shows "keeps i l Fresh (try_err (log_op (EvStart i l) m) w (try_err (log_op (EvSave s) n) w' k))"
  unfolding assms(2)
  by (rule keeps_try_err [OF start], rule keeps_try_err [OF record_start], rule assms(1))

lemma keeps_end:
  assumes "done_with i l s" "ph \<in> {Logged, Ran}"
  shows "keeps i l ph (try_err (log_op (EvSave s) m) w (try_err (report_stored (logged d) s) w' (op_return x)))"
proof (rule keeps_try_err)
  show "jstep i l ph (EvSave s r) (on_ok r (Recorded s))" for r
    using assms by (auto intro: refuse record_result)
qed (intro keeps_try keeps_recorded)

lemma started_done [simp]: "done_with (cmd_id c) (cmd_lease_token c) ((started c)\<lparr>sc_result := Some r\<rparr>) \<longleftrightarrow>
    cr_lease_token r = cmd_lease_token c"
  by (simp add: done_with_def started_def)

lemma started_eq: "started c = \<lparr>sc_id = cmd_id c, sc_lease = cmd_lease_token c, sc_result = None\<rparr>"
  by (simp add: started_def)

section \<open>Each handler\<close>

lemma leads_environment: "leads i l Logged (run_environment (log_executor x) c p) {Logged, Ran}"
  unfolding run_environment_def environment_operation_def
  by (auto intro!: leads_return leads_bind [OF leads_log [where P = "{Ran}"], OF execute]
      simp: effect_def split: sum.split)

lemma leads_grant: "leads i l Logged (log_op EvGrant m) {Logged}"
  by (rule leads_log [where g = "\<lambda>_. Logged"]) (auto intro: read_grant)

lemma leads_clock: "leads i l Logged (log_op EvNow m) {Logged}"
  by (rule leads_log [where g = "\<lambda>_. Logged"]) (auto intro: read_clock)

lemma leads_execute: "leads i l Logged (execute_environment (logged d) (log_executor x) c p) {Logged, Ran}"
proof -
  have granted: "leads i l Logged (op_bind (log_op EvGrant g) (\<lambda>g. op_bind (log_op EvNow n) (\<lambda>now.
      if \<not> grant_valid g now then op_return r else run_environment (log_executor x) c p))) {Logged, Ran}" for g n r
    by (auto intro!: leads_bind [OF leads_grant] leads_bind [OF leads_clock] leads_return leads_environment)
  show ?thesis
    unfolding execute_environment_def logged_simps
    by (cases "is_environment_stop (cmd_type c)"; cases "d_grant d") (simp_all add: leads_environment granted)
qed

lemma keeps_dispatch_environment:
  "keeps (cmd_id c) (cmd_lease_token c) Idle (dispatch_environment (logged d) (log_executor x) c p)"
  unfolding dispatch_environment_def logged_simps
  by (intro keeps_load keeps_report_found keeps_start [OF _ started_eq] keeps_bind [OF leads_execute])
     (auto simp: Let_def intro!: keeps_end)

lemma result_leases [simp]:
  "cr_lease_token (shutdown_result c failure) = cmd_lease_token c"
  "cr_lease_token (inventory_result c details failure) = cmd_lease_token c"
  "cr_lease_token (image_result c details failure) = cmd_lease_token c"
  by (simp_all add: shutdown_result_def inventory_result_def image_result_def split: option.split)

lemma keeps_if: "(b \<Longrightarrow> keeps i l ph x) \<Longrightarrow> (\<not> b \<Longrightarrow> keeps i l ph y) \<Longrightarrow> keeps i l ph (if b then x else y)"
  by simp

lemma keeps_option:
  "(x = None \<Longrightarrow> keeps i l ph a) \<Longrightarrow> (\<And>v. x = Some v \<Longrightarrow> keeps i l ph (b v)) \<Longrightarrow>
   keeps i l ph (case x of None \<Rightarrow> a | Some v \<Rightarrow> b v)"
  by (cases x) auto

lemma leads_effect: "effect ev \<Longrightarrow> leads i l Logged (log_op (\<lambda>_. ev) m) {Ran}"
  by (rule leads_log [where ev = "\<lambda>_. ev" and g = "\<lambda>_. Ran"]) (auto intro: execute)

lemma keeps_dispatch_shutdown:
  "keeps (cmd_id c) (cmd_lease_token c) Idle (dispatch_shutdown (logged d) c)"
  unfolding dispatch_shutdown_def logged_simps
  by (intro keeps_load keeps_report_found keeps_start [OF _ started_eq] keeps_bind [OF leads_effect])
     (auto simp: Let_def effect_def intro!: keeps_end)

lemma keeps_dispatch_inventory:
  "keeps (cmd_id c) (cmd_lease_token c) Idle (dispatch_docker_inventory (logged d) c)"
proof (cases "cmd_docker_inventory c"; cases "d_inventory d")
  fix p execute assume p: "cmd_docker_inventory c = Some p" "d_inventory d = Some execute"
  have pending: "keeps i l (Pending s) (op_bind (retry_pending (logged d)) (\<lambda>(retried, e). op_return e))" for i l s
    using keeps_bind_result [OF keeps_retry [OF reload], where f = snd] by (simp add: case_prod_beta')
  show ?thesis
    unfolding dispatch_docker_inventory_def logged_simps p option.map prod.case option.case
    by (intro keeps_if keeps_option keeps_return keeps_load pending keeps_start [OF _ started_eq] keeps_bind [OF leads_effect])
       (auto simp: Let_def effect_def intro!: keeps_end)
qed (auto simp: dispatch_docker_inventory_def)

lemma leads_progress: "leads (cmd_id c) (cmd_lease_token c) Ran (report_progress (logged d) c n whole stage) {Ran}"
  unfolding report_progress_def logged_simps
  by (rule leads_log [where g = "\<lambda>_. Ran"]) (auto intro!: progress simp: progress_result_def running_result_def)

lemma leads_run_job:
  assumes "\<And>n whole stage. leads i l ph (cb n whole stage) {ph}"
  shows "leads i l ph (run_job (lift_job j) cb) {ph}"
proof (induction j)
  case (JobStep f)
  show ?case
    unfolding leads_def emits_def
  proof (intro allI)
    fix e tr
    obtain j e' where f: "f e = (j, e')" by (cases "f e")
    then have "leads i l ph (run_job (lift_job j) cb) {ph}"
      using JobStep.IH [of "f e" j] rangeI [of f e] by (simp add: fsts.simps)
    then show "\<exists>t. snd (snd (run_job (lift_job (JobStep f)) cb (e, tr))) = tr @ t \<and> (\<exists>ph'\<in>{ph}. reaches i l ph t ph')"
      unfolding run_lift_step [of f, OF f] by (simp add: leads_def emits_def)
  qed
next
  case (JobReport n whole stage k)
  then show ?case by (auto intro!: leads_bind [OF assms])
qed (simp add: leads_return)

lemma keeps_dispatch_image:
  "keeps (cmd_id c) (cmd_lease_token c) Idle (dispatch_image_deployment (logged d) c)"
proof (cases "cmd_image_deployment c"; cases "d_image d")
  fix p deploy assume p: "cmd_image_deployment c = Some p" "d_image d = Some deploy"
  have announce': "jstep (cmd_id c) (cmd_lease_token c) Logged
      (EvFinish (cmd_id c) (running_result c m []) x) (on_ok x Logged)" for m x
    by (rule announce) (simp add: progress_result_def running_result_def)
  have image: "op_bind (log_image deploy p) (\<lambda>j. op_bind (run_job j cb) f) =
      op_bind (log_op (\<lambda>_. EvDeploy p) (deploy p)) (\<lambda>j. op_bind (run_job (lift_job j) cb) f)" for cb and f :: "_ \<Rightarrow> ('a \<times> event list) err_op"
    by (simp add: log_image_def op_bind_def op_return_def fun_eq_iff split: prod.splits)
  show ?thesis
    unfolding dispatch_image_deployment_def logged_simps p option.map prod.case option.case image
    by (intro keeps_if keeps_return keeps_load keeps_report_found keeps_start [OF _ started_eq]
          keeps_try_err [OF announce'] keeps_bind [OF leads_effect])
       (auto simp: Let_def effect_def intro!: keeps_bind [OF leads_run_job [OF leads_progress]] keeps_end)
qed (auto simp: dispatch_image_deployment_def)

end
