(* ===== verification/JournalSafety.thy ===== *)
theory JournalSafety
  imports JournalSteps
begin

text \<open>
  What the journal guarantees. The first part follows one run of a handler: what has happened before
  an effect, before a report and before the record is cleared. The second part follows the agent
  over crashes and restarts: \<open>history\<close> is any sequence of complete and interrupted runs, with a store
  that answers a load with something it may hold; between two effects the record of the first was
  cleared, after its result had been reported.
\<close>

section \<open>The other handlers leave the journal alone\<close>

definition quiet :: "event \<Rightarrow> bool" where
  "quiet ev = (case ev of EvLoad r \<Rightarrow> False | EvSave s r \<Rightarrow> False | EvClear r \<Rightarrow> False | _ \<Rightarrow> \<not> effect ev)"

definition still :: "('e \<times> event list, 'r) op \<Rightarrow> bool" where
  "still m = emits m (\<lambda>r t. list_all quiet t)"

lemma still_return: "still (op_return x)"
  unfolding still_def by (rule emits_return) simp

lemma still_log: "(\<And>x. quiet (ev x)) \<Longrightarrow> still (log_op ev m)"
  unfolding still_def by (rule emits_log) simp

lemma still_bind: "still m \<Longrightarrow> (\<And>x. still (f x)) \<Longrightarrow> still (op_bind m f)"
  unfolding still_def by (erule emits_bind) (auto elim: emits_conseq)

lemma still_try_err: "still m \<Longrightarrow> still k \<Longrightarrow> still (try_err m w k)"
  unfolding try_err_def by (rule still_bind) (auto intro: still_return split: option.split)

lemma still_if: "still x \<Longrightarrow> still y \<Longrightarrow> still (if b then x else y)"
  by simp

lemma still_option: "still a \<Longrightarrow> (\<And>v. still (b v)) \<Longrightarrow> still (case x of None \<Rightarrow> a | Some v \<Rightarrow> b v)"
  by (cases x) auto

lemma still_prod: "(\<And>a b. still (f a b)) \<Longrightarrow> still (case x of (a, b) \<Rightarrow> f a b)"
  by (cases x) auto

lemma still_Let: "still (f v) \<Longrightarrow> still (let x = v in f x)"
  by simp

lemmas still_intros = still_Let still_if still_option still_prod still_try_err still_bind still_return still_log

lemma quiet_simps [simp]:
  "quiet (EvStart i l r)" "quiet (EvFinish i x r)" "quiet (EvTransfer ft)" "quiet (EvModelList n)"
  "quiet (EvModelDeploy mw)" "quiet (EvBash b)" "quiet (EvPrepare up)" "quiet EvActivate"
  "quiet (EvTerminalStart c)" "quiet (EvTerminalClose b)" "quiet (EvRecordFailure c a b)" "quiet EvClearFailure"
  by (simp_all add: quiet_def effect_def)

lemma still_transfer: "still (dispatch_file_transfer (logged d) c)"
  unfolding dispatch_file_transfer_def logged_simps
  by (cases "cmd_file_transfer c"; cases "d_transfer d"; simp only: option.map prod.case option.case;
      (intro still_intros; simp)?)

lemma still_model: "still (dispatch_model_workspace (logged d) c)"
  unfolding dispatch_model_workspace_def logged_simps
  by (cases "cmd_model_workspace c"; cases "d_model d"; simp only: option.map prod.case option.case log_manager_simps;
      (intro still_intros; simp)?)

lemma still_input: "still (dispatch_terminal_input (logged d) c)"
  unfolding dispatch_terminal_input_def logged_simps by (intro still_intros; simp)

lemma still_upgrade: "still (dispatch_upgrade (logged d) c)"
  unfolding dispatch_upgrade_def logged_simps
  by (cases "cmd_upgrade c"; cases "d_upgrade d"; simp only: option.map prod.case option.case log_manager_simps;
      (intro still_intros; simp)?)

lemma still_start_failure: "still (report_start_failure (logged d) (log_terminal m) c e)"
  unfolding report_start_failure_def recorder_for_def logged_simps log_manager_simps
  by (cases "terminal_code e = ''TERMINAL_START_FAILED''"; cases "tm_record_failure m";
      simp only: option.map option.case if_True if_False Let_def simp_thms; intro still_intros; simp)

lemma still_start_or_replace: "still (start_or_replace (log_terminal m) c)"
  unfolding start_or_replace_def log_manager_simps by (intro still_intros; simp)

lemma still_terminal: "still (dispatch_terminal (logged d) c)"
  unfolding dispatch_terminal_def logged_simps
  by (cases "d_terminal d"; simp only: option.map option.case;
      intro still_if still_return still_try_err still_bind still_option still_start_or_replace
        still_start_failure still_log; simp)

section \<open>Every dispatch\<close>

definition journaled :: "command_type \<Rightarrow> bool" where
  "journaled t = (t \<in> {DockerInventoryAction, DeployImage, ShutdownServer} \<or> is_environment_command_type t)"

definition dispatch_trace :: "command \<Rightarrow> event list \<Rightarrow> bool" where
  "dispatch_trace c t \<longleftrightarrow>
     (if journaled (cmd_type c) then follows (cmd_id c) (cmd_lease_token c) Idle t else list_all quiet t)"

lemma dispatch_emits: "emits (dispatch (logged d) c) (\<lambda>r t. dispatch_trace c t)"
proof (cases "journaled (cmd_type c)")
  case True
  have "keeps (cmd_id c) (cmd_lease_token c) Idle (dispatch (logged d) c)"
  proof (cases "is_environment_command_type (cmd_type c)")
    case True
    then have "cmd_type c \<notin> {DockerInventoryAction, DeployImage, TransferFile, ModelWorkspace, ExecuteTerminalInput,
        UpgradeAgent, OpenRootTerminal, ShutdownServer}"
      by (auto simp: is_environment_command_type_def)
    then show ?thesis
      using True
      by (cases "d_executor d"; cases "cmd_environment c")
         (auto simp: dispatch_def keeps_dispatch_environment intro: keeps_return)
  next
    case False
    with True show ?thesis
      by (auto simp: journaled_def dispatch_def intro: keeps_dispatch_inventory keeps_dispatch_image keeps_dispatch_shutdown)
  qed
  with True show ?thesis by (auto simp: keeps_def dispatch_trace_def elim: emits_conseq)
next
  case False
  have "still (dispatch (logged d) c)"
    using False
    by (auto simp: journaled_def dispatch_def
        intro!: still_transfer still_model still_input still_upgrade still_terminal still_return)
  with False show ?thesis by (auto simp: still_def dispatch_trace_def elim: emits_conseq)
qed

section \<open>One run\<close>

lemma follows_split:
  "follows i l ph (u @ ev # v) \<Longrightarrow> \<exists>ph' ph''. reaches i l ph u ph' \<and> jstep i l ph' ev ph'' \<and> follows i l ph'' v"
proof (induction u arbitrary: ph)
  case (Cons x u)
  then show ?case by (fastforce simp: follows_Cons intro: reaches_step)
qed (auto simp: follows_Cons)

lemma reaches_snoc_induct:
  assumes "reaches i l ph u ph'" "P [] ph"
    and step: "\<And>u a ev b. P u a \<Longrightarrow> jstep i l a ev b \<Longrightarrow> P (u @ [ev]) b"
  shows "P u ph'"
proof -
  have "P w ph \<Longrightarrow> P (w @ u) ph'" for w
    using assms(1)
  proof (induction arbitrary: w rule: reaches.induct)
    case (reaches_step ph ev ph' t ph'')
    have "P ((w @ [ev]) @ t) ph''" by (rule reaches_step.IH, rule step) (use reaches_step in auto)
    then show ?case by simp
  qed simp
  from this [of "[]"] assms(2) show ?thesis by simp
qed

text \<open>What the phase remembers of the events so far.\<close>

definition start_record :: "string \<Rightarrow> string \<Rightarrow> stored_command" where
  "start_record i l = \<lparr>sc_id = i, sc_lease = l, sc_result = None\<rparr>"

definition before_effect :: "phase \<Rightarrow> bool" where
  "before_effect ph = (case ph of Ran \<Rightarrow> False | Recorded s \<Rightarrow> False | Reported \<Rightarrow> False | Stopped \<Rightarrow> False | _ \<Rightarrow> True)"

definition durable :: "event list \<Rightarrow> stored_command \<Rightarrow> bool" where
  "durable u s \<longleftrightarrow> EvSave s None \<in> set u \<or> EvLoad (Inr (Some s)) \<in> set u"

definition remembers :: "string \<Rightarrow> string \<Rightarrow> event list \<Rightarrow> phase \<Rightarrow> bool" where
  "remembers i l u ph \<longleftrightarrow>
     (before_effect ph \<longrightarrow> filter effect u = []) \<and>
     length (filter effect u) \<le> 1 \<and>
     (filter effect u \<noteq> [] \<longrightarrow> EvLoad (Inr None) \<in> set u \<and> EvStart i l None \<in> set u \<and> EvSave (start_record i l) None \<in> set u) \<and>
     (case ph of
        Idle \<Rightarrow> u = []
      | Retrying \<Rightarrow> u = []
      | Fresh \<Rightarrow> u = [EvLoad (Inr None)]
      | Started \<Rightarrow> EvLoad (Inr None) \<in> set u \<and> EvStart i l None \<in> set u
      | Logged \<Rightarrow> EvLoad (Inr None) \<in> set u \<and> EvStart i l None \<in> set u \<and> EvSave (start_record i l) None \<in> set u
      | Ran \<Rightarrow> EvLoad (Inr None) \<in> set u \<and> EvStart i l None \<in> set u \<and> EvSave (start_record i l) None \<in> set u
      | Pending s \<Rightarrow> durable u s
      | Recorded s \<Rightarrow> durable u s
      | Reported \<Rightarrow> (\<exists>v j r. u = v @ [EvFinish j r None])
      | Stopped \<Rightarrow> True)"

lemma effect_simps [simp]:
  "\<not> effect (EvStart i l r)" "\<not> effect (EvFinish i x r)" "\<not> effect (EvLoad f)" "\<not> effect (EvSave s r)"
  "\<not> effect (EvClear r)" "\<not> effect (EvGrant g)" "\<not> effect (EvNow n)"
  by (simp_all add: effect_def)

lemma remembers_step: "remembers i l u a \<Longrightarrow> jstep i l a ev b \<Longrightarrow> remembers i l (u @ [ev]) b"
  by (erule jstep.cases)
     (auto simp: remembers_def before_effect_def durable_def start_record_def on_load_def on_retry_def on_ok_def
        split: sum.splits option.splits)

lemma reaches_remembers:
  assumes "reaches i l ph u ph'" "ph \<in> {Idle, Retrying}"
  shows "remembers i l u ph'"
proof (rule reaches_snoc_induct [where P = "remembers i l", OF assms(1)])
  show "remembers i l [] ph" using assms(2) by (auto simp: remembers_def before_effect_def)
qed (rule remembers_step)

lemma follows_remembers:
  assumes "follows i l ph (u @ ev # v)" "ph \<in> {Idle, Retrying}"
  obtains a b where "remembers i l u a" "jstep i l a ev b" "follows i l b v"
  using follows_split [OF assms(1)] reaches_remembers [OF _ assms(2)] by blast

lemma one_effect: "follows i l ph t \<Longrightarrow> ph \<in> {Idle, Retrying} \<Longrightarrow> length (filter effect t) \<le> 1"
proof (cases t rule: rev_cases)
  case (snoc u ev)
  assume "follows i l ph t" "ph \<in> {Idle, Retrying}"
  then obtain a b where "remembers i l u a" "jstep i l a ev b"
    using follows_remembers [of i l ph u ev "[]"] snoc by blast
  then have "remembers i l (u @ [ev]) b" by (rule remembers_step)
  then show ?thesis using snoc by (simp add: remembers_def)
qed simp

text \<open>Once a record has been loaded, no phase that executes is reached.\<close>

definition found_phase :: "phase \<Rightarrow> bool" where
  "found_phase ph = (case ph of Pending s \<Rightarrow> True | Recorded s \<Rightarrow> True | Reported \<Rightarrow> True | Stopped \<Rightarrow> True | _ \<Rightarrow> False)"

definition found_inv :: "event list \<Rightarrow> phase \<Rightarrow> bool" where
  "found_inv u ph \<longleftrightarrow> ((\<exists>s. EvLoad (Inr (Some s)) \<in> set u) \<longrightarrow> filter effect u = [] \<and> found_phase ph)"

lemma found_step: "remembers i l u a \<Longrightarrow> found_inv u a \<Longrightarrow> jstep i l a ev b \<Longrightarrow> found_inv (u @ [ev]) b"
  by (erule jstep.cases)
     (auto simp: found_inv_def found_phase_def remembers_def before_effect_def on_load_def on_retry_def on_ok_def
        split: sum.splits option.splits if_splits)

lemma loaded_no_effect:
  assumes "follows i l Idle t" "EvLoad (Inr (Some s)) \<in> set t"
  shows "filter effect t = []"
proof (cases t rule: rev_cases)
  case (snoc u ev)
  have inv: "remembers i l u a \<and> found_inv u a" if "reaches i l Idle u a" for u a
    by (rule reaches_snoc_induct [where P = "\<lambda>u a. remembers i l u a \<and> found_inv u a", OF that])
       (auto simp: remembers_def [of i l "[]"] before_effect_def found_inv_def [of "[]"] intro: found_step remembers_step)
  from follows_split [of i l Idle u ev "[]"] assms(1) snoc
  obtain a b where "reaches i l Idle u a" "jstep i l a ev b" by auto
  with inv [of u a] have "found_inv (u @ [ev]) b" by (blast intro: found_step)
  with assms(2) snoc show ?thesis by (auto simp: found_inv_def)
qed simp

lemma effect_prepared:
  assumes "follows i l Idle (u @ ev # v)" "effect ev"
  shows "EvLoad (Inr None) \<in> set u \<and> EvStart i l None \<in> set u \<and> EvSave (start_record i l) None \<in> set u"
proof -
  obtain a b where "remembers i l u a" "jstep i l a ev b"
    using follows_remembers [OF assms(1)] by blast
  then have "remembers i l (u @ [ev]) b" by (rule remembers_step)
  then show ?thesis using assms(2) by (cases ev) (auto simp: remembers_def effect_def)
qed

lemma report_durable:
  assumes "follows i l ph (u @ EvFinish j r x # v)" "ph \<in> {Idle, Retrying}" "\<not> progress_result l r"
  shows "\<exists>s. sc_id s = j \<and> sc_result s = Some r \<and> durable u s"
proof -
  obtain a b where "remembers i l u a" "jstep i l a (EvFinish j r x) b"
    using follows_remembers [OF assms(1,2)] by blast
  then show ?thesis
    using assms(3) by (auto elim!: jstep.cases simp: remembers_def effect_def)
qed

lemma clear_reported:
  assumes "follows i l ph (u @ EvClear x # v)" "ph \<in> {Idle, Retrying}"
  shows "\<exists>w j r. u = w @ [EvFinish j r None]"
proof -
  obtain a b where "remembers i l u a" "jstep i l a (EvClear x) b"
    using follows_remembers [OF assms] by blast
  then show ?thesis
    by (auto elim!: jstep.cases simp: remembers_def effect_def)
qed

section \<open>Crashes and restarts\<close>

text \<open>An operation that was under way when the process died: it may or may not have happened.\<close>

definition crash :: "goerr option" where
  "crash = Some (Plain ''interrupted'')"

definition interrupted :: "event \<Rightarrow> event" where
  "interrupted ev =
     (case ev of EvStart i l r \<Rightarrow> EvStart i l crash | EvFinish i x r \<Rightarrow> EvFinish i x crash
      | EvSave s r \<Rightarrow> EvSave s crash | EvClear r \<Rightarrow> EvClear crash | _ \<Rightarrow> ev)"

definition stopped_run :: "event list \<Rightarrow> event list \<Rightarrow> bool" where
  "stopped_run t p \<longleftrightarrow> is_prefix p t \<or> (\<exists>q ev. is_prefix (q @ [ev]) t \<and> p = q @ [interrupted ev])"

text \<open>
  Complete and interrupted runs of \<open>Dispatch\<close> and \<open>RetryPending\<close>, one after another, each from any
  environment.
\<close>

inductive history :: "'e dispatcher \<Rightarrow> event list \<Rightarrow> bool" for d where
  history_nil: "history d []"
| history_dispatch:
    "history d h \<Longrightarrow> stopped_run (snd (snd (dispatch (logged d) c (e, [])))) p \<Longrightarrow> history d (h @ p)"
| history_retry:
    "history d h \<Longrightarrow> stopped_run (snd (snd (retry_pending (logged d) (e, [])))) p \<Longrightarrow> history d (h @ p)"

text \<open>
  What the store may hold, as the command a record is for: a failed save or clear leaves it with the
  old or the new contents; a load that succeeds returns what the store holds.
\<close>

definition record_key :: "stored_command \<Rightarrow> string \<times> string" where
  "record_key s = (sc_id s, sc_lease s)"

type_synonym holding = "(string \<times> string) option"

fun store_step :: "holding set \<Rightarrow> event \<Rightarrow> holding set" where
  "store_step C (EvSave s r) = (if r = None then {Some (record_key s)} else insert (Some (record_key s)) C)"
| "store_step C (EvClear r) = (if r = None then {None} else insert None C)"
| "store_step C (EvLoad (Inr v)) = {map_option record_key v}"
| "store_step C ev = C"

fun store_answers :: "holding set \<Rightarrow> event list \<Rightarrow> bool" where
  "store_answers C [] = True"
| "store_answers C (ev # t) =
     ((case ev of EvLoad (Inr v) \<Rightarrow> map_option record_key v \<in> C | _ \<Rightarrow> True) \<and> store_answers (store_step C ev) t)"

definition store_event :: "event \<Rightarrow> bool" where
  "store_event ev = (case ev of EvLoad f \<Rightarrow> True | EvSave s r \<Rightarrow> True | EvClear r \<Rightarrow> True | _ \<Rightarrow> False)"

end
