(* ===== verification/CrashSafety.thy ===== *)
theory CrashSafety
  imports JournalSafety
begin

text \<open>
  At most one execution for each record. A watcher reads a history and keeps what the store may hold,
  the command whose effect is outstanding (\<open>w_armed\<close>: executed, record not cleared) and the command
  whose report was the last event (\<open>w_reported\<close>). Each journal step keeps its invariant; the theorem
  about histories, \<open>effects_separated\<close>, is read off the watcher.
\<close>

section \<open>The watcher\<close>

record watch =
  w_contents :: "holding set"
  w_saved :: "(string \<times> string) option"
  w_armed :: "(string \<times> string) option"
  w_reported :: "string option"

definition saved_step :: "(string \<times> string) option \<Rightarrow> event \<Rightarrow> (string \<times> string) option" where
  "saved_step old ev =
     (case ev of
        EvSave s r \<Rightarrow> if r = None \<and> sc_result s = None then Some (record_key s) else None
      | EvLoad f \<Rightarrow> None
      | EvClear r \<Rightarrow> None
      | _ \<Rightarrow> old)"

definition watch_step :: "watch \<Rightarrow> event \<Rightarrow> watch" where
  "watch_step w ev =
     \<lparr>w_contents = store_step (w_contents w) ev,
      w_saved = saved_step (w_saved w) ev,
      w_armed = (if effect ev then w_saved w else case ev of EvClear r \<Rightarrow> None | _ \<Rightarrow> w_armed w),
      w_reported = (case ev of EvFinish j r x \<Rightarrow> if x = None then Some j else None | _ \<Rightarrow> None)\<rparr>"

definition watch_ok :: "watch \<Rightarrow> event \<Rightarrow> bool" where
  "watch_ok w ev \<longleftrightarrow>
     (effect ev \<longrightarrow> w_armed w = None \<and> w_saved w \<noteq> None) \<and>
     (\<forall>x k. ev = EvClear x \<longrightarrow> w_armed w = Some k \<longrightarrow> w_reported w = Some (fst k))"

definition watch_inv :: "watch \<Rightarrow> bool" where
  "watch_inv w \<longleftrightarrow> (\<forall>k. w_armed w = Some k \<longrightarrow> w_contents w \<subseteq> {Some k})"

definition phase_inv :: "string \<Rightarrow> string \<Rightarrow> phase \<Rightarrow> watch \<Rightarrow> bool" where
  "phase_inv i l ph w \<longleftrightarrow> watch_inv w \<and>
     (case ph of
        Fresh \<Rightarrow> w_contents w = {None}
      | Started \<Rightarrow> w_contents w = {None}
      | Logged \<Rightarrow> w_contents w = {Some (i, l)} \<and> w_saved w = Some (i, l) \<and> w_armed w = None
      | Ran \<Rightarrow> w_contents w = {Some (i, l)}
      | Pending s \<Rightarrow> w_contents w = {Some (record_key s)}
      | Recorded s \<Rightarrow> w_contents w = {Some (record_key s)}
      | Reported \<Rightarrow> (\<exists>s. w_contents w = {Some (record_key s)} \<and> w_reported w = Some (sc_id s))
      | _ \<Rightarrow> True)"

lemma start_record_simps [simp]:
  "sc_id (start_record i l) = i" "sc_lease (start_record i l) = l" "sc_result (start_record i l) = None"
  by (simp_all add: start_record_def)

definition answers :: "watch \<Rightarrow> event \<Rightarrow> bool" where
  "answers w ev = (case ev of EvLoad (Inr v) \<Rightarrow> map_option record_key v \<in> w_contents w | _ \<Rightarrow> True)"

lemma store_answers_Cons: "store_answers (w_contents w) (ev # t) \<longleftrightarrow>
    answers w ev \<and> store_answers (w_contents (watch_step w ev)) t"
  by (simp add: answers_def watch_step_def)

lemma phase_step:
  assumes "jstep i l ph ev ph'" "phase_inv i l ph w" "answers w ev"
  shows "watch_ok w ev \<and> phase_inv i l ph' (watch_step w ev)"
  using assms
proof cases
  case (load found)
  with assms show ?thesis
    by (auto simp: phase_inv_def watch_inv_def watch_ok_def watch_step_def on_load_def answers_def saved_step_def
        split: sum.splits option.splits)
next
  case (retry found)
  with assms show ?thesis
    by (auto simp: phase_inv_def watch_inv_def watch_ok_def watch_step_def on_retry_def answers_def saved_step_def
        split: sum.splits option.splits)
next
  case (reload s found)
  with assms show ?thesis
    by (auto simp: phase_inv_def watch_inv_def watch_ok_def watch_step_def on_retry_def answers_def saved_step_def
        split: sum.splits option.splits)
next
  case execute
  with assms show ?thesis
    by (cases ev)
       (auto simp: effect_def phase_inv_def watch_inv_def watch_ok_def watch_step_def saved_step_def record_key_def)
qed (use assms in \<open>auto simp: phase_inv_def watch_inv_def watch_ok_def watch_step_def saved_step_def on_ok_def
      record_key_def done_with_def outcome_unknown_def start_record_def split: option.splits\<close>)

section \<open>Runs and histories\<close>

fun watched :: "watch \<Rightarrow> event list \<Rightarrow> bool" where
  "watched w [] = True"
| "watched w (ev # t) = (watch_ok w ev \<and> watched (watch_step w ev) t)"

lemma watched_append: "watched w (s @ t) \<longleftrightarrow> watched w s \<and> watched (fold (\<lambda>e w. watch_step w e) s w) t"
  by (induction s arbitrary: w) auto

abbreviation watch_all :: "event list \<Rightarrow> watch \<Rightarrow> watch" where
  "watch_all t w \<equiv> fold (\<lambda>e w. watch_step w e) t w"

lemma phase_inv_watch: "phase_inv i l ph w \<Longrightarrow> watch_inv w"
  by (simp add: phase_inv_def)

lemma follows_watched:
  "follows i l ph t \<Longrightarrow> phase_inv i l ph w \<Longrightarrow> store_answers (w_contents w) t \<Longrightarrow>
   watched w t \<and> watch_inv (watch_all t w)"
proof (induction arbitrary: w rule: follows.induct)
  case (follows_step ph ev ph' t)
  from follows_step.prems have "answers w ev" "store_answers (w_contents (watch_step w ev)) t"
    by (simp_all add: store_answers_Cons del: store_answers.simps)
  with phase_step [OF follows_step.hyps(1) follows_step.prems(1)] follows_step.IH
  show ?case by simp
qed (simp add: phase_inv_watch)

lemma quiet_watched:
  "list_all quiet t \<Longrightarrow> watch_inv w \<Longrightarrow> watched w t \<and> watch_inv (watch_all t w)"
proof (induction t arbitrary: w)
  case (Cons ev t)
  then have "watch_ok w ev \<and> watch_inv (watch_step w ev)"
    by (cases ev) (auto simp: quiet_def effect_def watch_ok_def watch_inv_def watch_step_def saved_step_def)
  with Cons show ?case by simp
qed simp

text \<open>An interrupted run still follows the journal.\<close>

lemma jstep_interrupted: "jstep i l ph ev ph' \<Longrightarrow> \<exists>ph''. jstep i l ph (interrupted ev) ph''"
proof (cases "effect ev")
  case True
  then have "interrupted ev = ev" by (auto simp: interrupted_def effect_def split: event.splits)
  then show "jstep i l ph ev ph' \<Longrightarrow> \<exists>ph''. jstep i l ph (interrupted ev) ph''" by auto
next
  case False
  then show "jstep i l ph ev ph' \<Longrightarrow> \<exists>ph''. jstep i l ph (interrupted ev) ph''"
    by (elim jstep.cases) (auto simp: interrupted_def intro: jstep.intros)
qed

lemma follows_interrupted: "follows i l ph t \<Longrightarrow> stopped_run t p \<Longrightarrow> follows i l ph p"
proof (unfold stopped_run_def, elim disjE exE conjE)
  fix q ev assume t: "follows i l ph t" "is_prefix (q @ [ev]) t" "p = q @ [interrupted ev]"
  then have "follows i l ph (q @ [ev])" by (blast intro: follows_prefix)
  then obtain a b where a: "reaches i l ph q a" "jstep i l a ev b" using follows_split [of i l ph q ev "[]"] by auto
  from jstep_interrupted [OF a(2)] obtain c where "jstep i l a (interrupted ev) c" ..
  then show ?thesis
    unfolding t(3) by (intro reaches_follows [OF a(1)] follows_step) (auto intro: follows_nil)
qed (blast intro: follows_prefix)

lemma quiet_interrupted_event: "quiet ev \<Longrightarrow> quiet (interrupted ev)"
  by (cases ev) (simp_all add: interrupted_def quiet_def effect_def)

lemma quiet_interrupted: "list_all quiet t \<Longrightarrow> stopped_run t p \<Longrightarrow> list_all quiet p"
  by (auto simp: stopped_run_def is_prefix_def quiet_interrupted_event)

lemma store_answers_append:
  "store_answers (w_contents w) (s @ t) \<longleftrightarrow>
   store_answers (w_contents w) s \<and> store_answers (w_contents (watch_all s w)) t"
proof (induction s arbitrary: w)
  case (Cons ev s)
  then show ?case by (simp add: store_answers_Cons del: store_answers.simps)
qed simp

text \<open>
  A history as far as the journal sees it: pieces of runs that a dispatch or a retry can emit. Every
  history of a dispatcher is one.
\<close>

inductive journal_history :: "event list \<Rightarrow> bool" where
  journal_nil: "journal_history []"
| journal_dispatch: "journal_history h \<Longrightarrow> dispatch_trace c t \<Longrightarrow> stopped_run t p \<Longrightarrow> journal_history (h @ p)"
| journal_retry: "journal_history h \<Longrightarrow> follows [] [] Retrying t \<Longrightarrow> stopped_run t p \<Longrightarrow> journal_history (h @ p)"

lemma history_journal: "history d h \<Longrightarrow> journal_history h"
proof (induction rule: history.induct)
  case (history_dispatch h c e p)
  have "\<exists>t. snd (snd (dispatch (logged d) c (e, []))) = [] @ t \<and> dispatch_trace c t"
    using dispatch_emits [of d c] unfolding emits_def by blast
  with history_dispatch show ?case by (auto intro: journal_dispatch)
next
  case (history_retry h e p)
  have "\<exists>t. snd (snd (retry_pending (logged d) (e, []))) = [] @ t \<and> follows [] [] Retrying t"
    using retry_journal [of "[]" "[]" d] unfolding keeps_def emits_def by blast
  with history_retry show ?case by (auto intro: journal_retry)
qed (rule journal_nil)

lemma history_watched:
  "journal_history h \<Longrightarrow> watch_inv w \<Longrightarrow> store_answers (w_contents w) h \<Longrightarrow> watched w h \<and> watch_inv (watch_all h w)"
proof (induction rule: journal_history.induct)
  case (journal_dispatch h c t p)
  let ?w = "watch_all h w"
  from journal_dispatch have h: "watched w h" "watch_inv ?w" "store_answers (w_contents ?w) p"
    by (auto simp: store_answers_append)
  have "watched ?w p \<and> watch_inv (watch_all p ?w)"
  proof (cases "journaled (cmd_type c)")
    case True
    with journal_dispatch(2) have "follows (cmd_id c) (cmd_lease_token c) Idle t" by (simp add: dispatch_trace_def)
    with journal_dispatch(3) have "follows (cmd_id c) (cmd_lease_token c) Idle p" by (blast intro: follows_interrupted)
    then show ?thesis by (rule follows_watched) (use h in \<open>auto simp: phase_inv_def\<close>)
  next
    case False
    with journal_dispatch(2) have "list_all quiet t" by (simp add: dispatch_trace_def)
    with journal_dispatch(3) have "list_all quiet p" by (blast intro: quiet_interrupted)
    then show ?thesis by (rule quiet_watched) (rule h)
  qed
  with h(1) show ?case by (simp add: watched_append)
next
  case (journal_retry h t p)
  from journal_retry(2,3) have p: "follows [] [] Retrying p" by (blast intro: follows_interrupted)
  let ?w = "watch_all h w"
  from journal_retry have h: "watched w h" "watch_inv ?w" "store_answers (w_contents ?w) p"
    by (auto simp: store_answers_append)
  have "watched ?w p \<and> watch_inv (watch_all p ?w)"
    by (rule follows_watched [OF p]) (use h in \<open>auto simp: phase_inv_def\<close>)
  with h(1) show ?case by (simp add: watched_append)
qed simp

section \<open>What the watcher has seen\<close>

lemma saved_origin:
  "w_saved w = None \<Longrightarrow> w_saved (watch_all u w) = Some (i, l) \<Longrightarrow>
   \<exists>u1 u2. u = u1 @ EvSave (start_record i l) None # u2 \<and> list_all (\<lambda>e. \<not> store_event e) u2"
proof (induction u rule: rev_induct)
  case (snoc ev u)
  show ?case
  proof (cases "store_event ev")
    case False
    then have "w_saved (watch_all u w) = Some (i, l)"
      using snoc.prems by (auto simp: watch_step_def saved_step_def store_event_def split: event.splits)
    with snoc obtain u1 u2 where "u = u1 @ EvSave (start_record i l) None # u2" "list_all (\<lambda>e. \<not> store_event e) u2"
      by blast
    with False show ?thesis by (intro exI [of _ u1] exI [of _ "u2 @ [ev]"]) simp
  next
    case True
    with snoc.prems obtain s where s: "ev = EvSave s None" "sc_result s = None" "record_key s = (i, l)"
      by (auto simp: watch_step_def saved_step_def store_event_def split: event.splits if_splits)
    then have "s = start_record i l" by (simp add: start_record_def record_key_def)
    with s show ?thesis by (intro exI [of _ u] exI [of _ "[]"]) simp
  qed
qed simp

lemma reported_origin:
  "w_reported w = None \<Longrightarrow> w_reported (watch_all a w) = Some i \<Longrightarrow> \<exists>a' r. a = a' @ [EvFinish i r None]"
  by (cases a rule: rev_cases) (auto simp: watch_step_def split: event.splits if_splits)

lemma armed_stays:
  "watched w m \<Longrightarrow> w_armed w = Some k \<Longrightarrow> \<forall>x. EvClear x \<notin> set m \<Longrightarrow> w_armed (watch_all m w) = Some k"
proof (induction m arbitrary: w)
  case (Cons ev m)
  then have "w_armed (watch_step w ev) = Some k"
    by (auto simp: watch_ok_def watch_step_def split: event.split)
  with Cons show ?case by simp
qed simp

lemma disarmed:
  assumes "watched w m" "w_armed w = Some (i, l)" "w_reported w = None" "w_armed (watch_all m w) = None"
  shows "\<exists>a r x b. m = a @ [EvFinish i r None, EvClear x] @ b"
proof -
  from armed_stays [OF assms(1,2)] assms(4) obtain x where "EvClear x \<in> set m" by auto
  then have "\<exists>e\<in>set m. \<exists>x. e = EvClear x" by blast
  from split_list_first_prop [OF this] obtain a x b where m: "m = a @ EvClear x # b" and a: "\<forall>y. EvClear y \<notin> set a"
    by metis
  from assms(1) m have w: "watched w a" "watch_ok (watch_all a w) (EvClear x)" by (auto simp: watched_append)
  from armed_stays [OF w(1) assms(2) a] w(2) have "w_reported (watch_all a w) = Some i" by (simp add: watch_ok_def)
  from reported_origin [OF assms(3) this] m show ?thesis by fastforce
qed

definition watch_start :: "holding set \<Rightarrow> watch" where
  "watch_start C = \<lparr>w_contents = C, w_saved = None, w_armed = None, w_reported = None\<rparr>"

lemma separated:
  assumes "journal_history h" "store_answers C h" "h = u @ ev1 # m @ ev2 # v" "effect ev1" "effect ev2"
  shows "\<exists>i l u1 u2 a r x b.
     u = u1 @ EvSave (start_record i l) None # u2 \<and> list_all (\<lambda>e. \<not> store_event e) u2 \<and>
     m = a @ [EvFinish i r None, EvClear x] @ b"
proof -
  let ?w = "watch_start C"
  have "watched ?w h"
    by (rule conjunct1, rule history_watched [OF assms(1)]) (use assms(2) in \<open>simp_all add: watch_start_def watch_inv_def\<close>)
  then have w: "watch_ok (watch_all u ?w) ev1" "watched (watch_step (watch_all u ?w) ev1) m"
    "watch_ok (watch_all m (watch_step (watch_all u ?w) ev1)) ev2"
    by (auto simp: assms(3) watched_append)
  from w(1) assms(4) obtain i l where saved: "w_saved (watch_all u ?w) = Some (i, l)" by (auto simp: watch_ok_def)
  let ?x = "watch_step (watch_all u ?w) ev1"
  have x: "w_armed ?x = Some (i, l)" "w_reported ?x = None"
    using saved assms(4) by (auto simp: watch_step_def effect_def split: event.splits)
  have "w_armed (watch_all m ?x) = None" using w(3) assms(5) by (simp add: watch_ok_def)
  from disarmed [OF w(2) x this] saved_origin [OF _ saved] show ?thesis
    by (simp add: watch_start_def) blast
qed

end
