(* ===== verification/GoJsonPrint.thy ===== *)
theory GoJsonPrint
  imports GoJsonText
begin

text \<open>
  The JSON text \<open>encoding/json.Marshal\<close> writes: compact, fields in their order, strings with the
  escapes of the encoder (HTML escapes included, an invalid byte as U+FFFD). \<open>json_round_trip\<close>: the text
  of a document whose numbers are JSON literals is one document again, the same one with the
  strings made valid UTF-8.
\<close>

section \<open>Strings\<close>

definition hex_code :: "nat \<Rightarrow> nat" where
  "hex_code n = (if n < 10 then 48 + n else 87 + n)"

definition unicode_escape :: "nat \<Rightarrow> nat list" where
  "unicode_escape r =
     [92, 117, hex_code (r div 4096 mod 16), hex_code (r div 256 mod 16), hex_code (r div 16 mod 16), hex_code (r mod 16)]"

text \<open>The runes written for a rune that came from the bytes \<open>snd rw\<close>.\<close>

definition escape_codes :: "nat \<times> nat list \<Rightarrow> nat list" where
  "escape_codes rw =
     (let r = fst rw in
      if r = 34 then [92, 34]
      else if r = 92 then [92, 92]
      else if r = 8 then [92, 98]
      else if r = 12 then [92, 102]
      else if r = 10 then [92, 110]
      else if r = 13 then [92, 114]
      else if r = 9 then [92, 116]
      else if r < 32 \<or> r \<in> {60, 62, 38, 8232, 8233} \<or> (r = rune_error \<and> length (snd rw) = 1)
      then unicode_escape r
      else [r])"

definition escape_string :: "string \<Rightarrow> string" where
  "escape_string s = utf8_encode (concat (map escape_codes (utf8_runes (map byte s))))"

abbreviation quote_char :: char where "quote_char \<equiv> CHR 0x22"

definition quoted :: "string \<Rightarrow> string" where
  "quoted s = quote_char # escape_string s @ [quote_char]"

section \<open>Documents\<close>

fun token_text :: "jtok \<Rightarrow> string" where
  "token_text TLBrace = ''{''"
| "token_text TRBrace = ''}''"
| "token_text TLBrack = ''[''"
| "token_text TRBrack = '']''"
| "token_text TColon = '':''"
| "token_text TComma = '',''"
| "token_text (TStr s) = quoted s"
| "token_text (TNum n) = n"
| "token_text TTrue = ''true''"
| "token_text TFalse = ''false''"
| "token_text TNull = ''null''"

fun value_tokens :: "json \<Rightarrow> jtok list"
and elements_tokens :: "json list \<Rightarrow> jtok list"
and fields_tokens :: "(string \<times> json) list \<Rightarrow> jtok list" where
  "value_tokens JNull = [TNull]"
| "value_tokens (JBool b) = [if b then TTrue else TFalse]"
| "value_tokens (JNum n) = [TNum n]"
| "value_tokens (JStr s) = [TStr s]"
| "value_tokens (JArr vs) = TLBrack # elements_tokens vs @ [TRBrack]"
| "value_tokens (JObj kvs) = TLBrace # fields_tokens kvs @ [TRBrace]"
| "elements_tokens [] = []"
| "elements_tokens [v] = value_tokens v"
| "elements_tokens (v # w # vs) = value_tokens v @ TComma # elements_tokens (w # vs)"
| "fields_tokens [] = []"
| "fields_tokens [(k, v)] = TStr k # TColon # value_tokens v"
| "fields_tokens ((k, v) # kv # kvs) = TStr k # TColon # value_tokens v @ TComma # fields_tokens (kv # kvs)"

definition json_text :: "json \<Rightarrow> string" where
  "json_text v = concat (map token_text (value_tokens v))"

section \<open>Parsing the tokens of a document\<close>

lemma value_tokens_not_nil [simp]: "value_tokens v \<noteq> []"
  by (cases v) auto

lemma value_tokens_hd: "hd (value_tokens v) \<notin> {TRBrack, TRBrace, TComma, TColon}"
  by (cases v) auto

lemma elements_tokens_hd: "vs \<noteq> [] \<Longrightarrow> hd (elements_tokens vs) \<noteq> TRBrack \<and> elements_tokens vs \<noteq> []"
  using value_tokens_hd by (cases vs rule: elements_tokens.cases) (auto simp: hd_append)

lemma fields_tokens_hd: "kvs \<noteq> [] \<Longrightarrow> hd (fields_tokens kvs) \<noteq> TRBrace \<and> fields_tokens kvs \<noteq> []"
  by (cases kvs rule: fields_tokens.cases) auto

text \<open>From some amount of fuel on.\<close>

definition eventually_fuel :: "(nat \<Rightarrow> bool) \<Rightarrow> bool" where
  "eventually_fuel P \<longleftrightarrow> (\<exists>n. \<forall>f\<ge>n. P f)"

lemma fuel_Suc: "eventually_fuel P \<Longrightarrow> (\<And>f. P f \<Longrightarrow> Q (Suc f)) \<Longrightarrow> eventually_fuel Q"
  unfolding eventually_fuel_def by (metis Suc_le_D Suc_le_mono)

lemma fuel_conj: "eventually_fuel P \<Longrightarrow> eventually_fuel Q \<Longrightarrow> eventually_fuel (\<lambda>f. P f \<and> Q f)"
  unfolding eventually_fuel_def by (metis le_trans nat_le_linear)

lemma fuel_True: "(\<And>f. Q (Suc f)) \<Longrightarrow> eventually_fuel Q"
  unfolding eventually_fuel_def by (metis Suc_le_D)

definition parses_value :: "json \<Rightarrow> bool" where
  "parses_value v \<longleftrightarrow> (\<forall>rest. eventually_fuel (\<lambda>f. parse_value f (value_tokens v @ rest) = Some (v, rest)))"

definition parses_elements :: "json list \<Rightarrow> bool" where
  "parses_elements vs \<longleftrightarrow> (vs \<noteq> [] \<longrightarrow>
     (\<forall>rest. eventually_fuel (\<lambda>f. parse_array f (elements_tokens vs @ TRBrack # rest) = Some (vs, rest))))"

definition parses_fields :: "(string \<times> json) list \<Rightarrow> bool" where
  "parses_fields kvs \<longleftrightarrow> (kvs \<noteq> [] \<longrightarrow>
     (\<forall>rest. eventually_fuel (\<lambda>f. parse_fields f (fields_tokens kvs @ TRBrace # rest) = Some (kvs, rest))))"

lemma parses_value_more:
  "parses_value v \<Longrightarrow> eventually_fuel (\<lambda>f. parse_value f (value_tokens v @ t # rest) = Some (v, t # rest))"
  by (simp add: parses_value_def)

lemma parses_all:
  "parses_value v" "parses_elements vs" "parses_fields kvs"
proof (induction v and vs and kvs rule: value_tokens_elements_tokens_fields_tokens.induct)
  case (5 vs)
  show ?case
  proof (cases "vs = []")
    case True
    then show ?thesis by (auto simp: parses_value_def value_step_def intro: fuel_True)
  next
    case False
    show ?thesis
      unfolding parses_value_def
    proof
      fix rest
      from 5 False have "eventually_fuel (\<lambda>f. parse_array f (elements_tokens vs @ TRBrack # rest) = Some (vs, rest))"
        by (simp add: parses_elements_def)
      then show "eventually_fuel (\<lambda>f. parse_value f (value_tokens (JArr vs) @ rest) = Some (JArr vs, rest))"
        using elements_tokens_hd [OF False] by (elim fuel_Suc) (simp add: value_step_def)
    qed
  qed
next
  case (6 kvs)
  show ?case
  proof (cases "kvs = []")
    case True
    then show ?thesis by (auto simp: parses_value_def value_step_def intro: fuel_True)
  next
    case False
    show ?thesis
      unfolding parses_value_def
    proof
      fix rest
      from 6 False have "eventually_fuel (\<lambda>f. parse_fields f (fields_tokens kvs @ TRBrace # rest) = Some (kvs, rest))"
        by (simp add: parses_fields_def)
      then show "eventually_fuel (\<lambda>f. parse_value f (value_tokens (JObj kvs) @ rest) = Some (JObj kvs, rest))"
        using fields_tokens_hd [OF False] by (elim fuel_Suc) (simp add: value_step_def)
    qed
  qed
next
  case (8 v)
  show ?case
    unfolding parses_elements_def
  proof (intro impI allI)
    fix rest
    show "eventually_fuel (\<lambda>f. parse_array f (elements_tokens [v] @ TRBrack # rest) = Some ([v], rest))"
      using parses_value_more [OF 8, of TRBrack rest] by (elim fuel_Suc) (simp add: array_step_def)
  qed
next
  case (9 v w vs)
  show ?case
    unfolding parses_elements_def
  proof (intro impI allI)
    fix rest
    from 9 have "eventually_fuel (\<lambda>f. parse_value f (value_tokens v @ TComma # elements_tokens (w # vs) @ TRBrack # rest)
          = Some (v, TComma # elements_tokens (w # vs) @ TRBrack # rest)
        \<and> parse_array f (elements_tokens (w # vs) @ TRBrack # rest) = Some (w # vs, rest))"
      by (intro fuel_conj parses_value_more) (simp_all add: parses_elements_def)
    then show "eventually_fuel (\<lambda>f. parse_array f (elements_tokens (v # w # vs) @ TRBrack # rest) = Some (v # w # vs, rest))"
      by (elim fuel_Suc) (simp add: array_step_def)
  qed
next
  case (11 k v)
  show ?case
    unfolding parses_fields_def
  proof (intro impI allI)
    fix rest
    show "eventually_fuel (\<lambda>f. parse_fields f (fields_tokens [(k, v)] @ TRBrace # rest) = Some ([(k, v)], rest))"
      using parses_value_more [OF 11, of TRBrace rest] by (elim fuel_Suc) (simp add: fields_step_def token_string_def)
  qed
next
  case (12 k v kv kvs)
  show ?case
    unfolding parses_fields_def
  proof (intro impI allI)
    fix rest
    from 12 have "eventually_fuel (\<lambda>f. parse_value f (value_tokens v @ TComma # fields_tokens (kv # kvs) @ TRBrace # rest)
          = Some (v, TComma # fields_tokens (kv # kvs) @ TRBrace # rest)
        \<and> parse_fields f (fields_tokens (kv # kvs) @ TRBrace # rest) = Some (kv # kvs, rest))"
      by (intro fuel_conj parses_value_more) (simp_all add: parses_fields_def)
    then show "eventually_fuel (\<lambda>f. parse_fields f (fields_tokens ((k, v) # kv # kvs) @ TRBrace # rest) = Some ((k, v) # kv # kvs, rest))"
      by (elim fuel_Suc) (simp add: fields_step_def token_string_def)
  qed
qed (auto simp: parses_value_def parses_elements_def parses_fields_def value_step_def intro: fuel_True)

lemma parse_value_tokens: "parse_value (2 * length (value_tokens v)) (value_tokens v) = Some (v, [])"
proof -
  from parses_all(1) [of v] have "eventually_fuel (\<lambda>f. parse_value f (value_tokens v @ []) = Some (v, []))"
    unfolding parses_value_def by blast
  then obtain f where "parse_value f (value_tokens v) = Some (v, [])" by (auto simp: eventually_fuel_def)
  then show ?thesis by (rule parse_value_enough) simp
qed

declare unescape.simps [simp del]

section \<open>Reading a string back\<close>

definition closed_text :: "string \<Rightarrow> bool" where
  "closed_text t \<longleftrightarrow> (\<forall>s. scan_string (t @ s) = map_option (\<lambda>(raw, r). (t @ raw, r)) (scan_string s))"

lemma closed_nil: "closed_text []"
  by (simp add: closed_text_def option.map_ident case_prod_unfold)

lemma closed_append: "closed_text t \<Longrightarrow> closed_text u \<Longrightarrow> closed_text (t @ u)"
  by (simp add: closed_text_def option.map_comp comp_def case_prod_unfold)

lemma closed_plain: "c \<noteq> CHR 0x22 \<Longrightarrow> c \<noteq> CHR 0x5C \<Longrightarrow> closed_text [c]"
  by (simp add: closed_text_def)

lemma closed_pair: "closed_text [CHR 0x5C, c]"
  by (simp add: closed_text_def)

lemma closed_all: "\<forall>c\<in>set t. c \<noteq> CHR 0x22 \<and> c \<noteq> CHR 0x5C \<Longrightarrow> closed_text t"
proof (induction t)
  case (Cons c t)
  then show ?case using closed_append [OF closed_plain [of c], of t] by simp
qed (rule closed_nil)

lemma utf8_encode_append: "utf8_encode (a @ b) = utf8_encode a @ utf8_encode b"
  by (simp add: utf8_encode_def)

lemma utf8_encode_Nil [simp]: "utf8_encode [] = []"
  by (simp add: utf8_encode_def)

lemma utf8_encode_Cons: "utf8_encode (r # rs) = utf8_encode [r] @ utf8_encode rs"
  using utf8_encode_append [of "[r]" rs] by simp

lemma utf8_encode_ascii: "r < 128 \<Longrightarrow> utf8_encode [r] = [char_of r]"
  by (simp add: utf8_encode_def encode_bytes_def)

lemma char_of_special:
  fixes n :: nat
  assumes "n < 256"
  shows "char_of n = CHR 0x22 \<longleftrightarrow> n = 34" "char_of n = CHR 0x5C \<longleftrightarrow> n = 92"
  using assms by (simp_all add: char_of_eq_iff take_bit_eq_mod)

lemma char_92: "char_of (92::nat) = CHR 0x5C"
  by (simp add: char_of_special)

lemma encode_bytes_special: "b \<in> set (encode_bytes r) \<Longrightarrow> r \<notin> {34, 92} \<Longrightarrow> b \<notin> {34, 92}"
  by (auto simp: encode_bytes_def split: if_splits)

lemma closed_rune: "r \<notin> {34, 92} \<Longrightarrow> closed_text (utf8_encode [r])"
proof (rule closed_all, rule ballI)
  fix c assume r: "r \<notin> {34, 92}" and "c \<in> set (utf8_encode [r])"
  then obtain b where b: "c = char_of b" "b \<in> set (encode_bytes r)" by (auto simp: utf8_encode_def)
  with encode_bytes_special [OF b(2) r] char_of_special [OF encode_bytes_lt [OF b(2)]]
  show "c \<noteq> quote_char \<and> c \<noteq> CHR 0x5C" by simp
qed

lemma closed_runes: "\<forall>r\<in>set rs. r \<notin> {34, 92} \<Longrightarrow> closed_text (utf8_encode rs)"
proof (induction rs)
  case (Cons r rs)
  then show ?case unfolding utf8_encode_Cons [of r rs] by (intro closed_append closed_rune) auto
qed (simp add: closed_nil)

lemma closed_escape: "c < 128 \<Longrightarrow> closed_text (utf8_encode [92, c])"
  using utf8_encode_Cons [of 92 "[c]"] closed_pair by (simp add: utf8_encode_ascii char_92)

lemma hex_code_range: "n < 16 \<Longrightarrow> hex_code n < 128 \<and> hex_code n \<notin> {34, 92}"
  by (auto simp: hex_code_def)

lemma closed_unicode: "closed_text (utf8_encode (unicode_escape r))"
proof -
  have "closed_text (utf8_encode [92, 117] @ utf8_encode
      [hex_code (r div 4096 mod 16), hex_code (r div 256 mod 16), hex_code (r div 16 mod 16), hex_code (r mod 16)])"
    by (intro closed_append closed_escape closed_runes) (auto dest: hex_code_range simp: hex_code_def)
  then show ?thesis by (simp add: unicode_escape_def utf8_encode_append [symmetric])
qed

lemma closed_codes: "closed_text (utf8_encode (escape_codes rw))"
  unfolding escape_codes_def Let_def
  by (simp add: closed_escape closed_unicode closed_rune)

lemma closed_escaped: "closed_text (escape_string s)"
proof -
  have "closed_text (utf8_encode (concat (map escape_codes rws)))" for rws
    by (induction rws) (simp_all add: closed_nil utf8_encode_append closed_append closed_codes)
  then show ?thesis by (simp add: escape_string_def)
qed

lemma scan_escaped: "scan_string (escape_string s @ CHR 0x22 # rest) = Some (escape_string s, rest)"
  using closed_escaped [of s] by (simp add: closed_text_def)

lemma rune_hex_code: "n < 16 \<Longrightarrow> rune_hex (hex_code n) = Some n"
  by (auto simp: rune_hex_def hex_code_def)

lemma hex_run_4:
  assumes "a < 16" "b < 16" "c < 16" "d < 16"
  shows "hex_run 4 0 (hex_code a # hex_code b # hex_code c # hex_code d # rs)
    = Some (16 * (16 * (16 * a + b) + c) + d)"
proof -
  have 4: "(4::nat) = Suc (Suc (Suc (Suc 0)))" by simp
  show ?thesis unfolding 4 by (simp add: rune_hex_code assms)
qed

lemma four_digits:
  fixes r :: nat
  assumes "r < 65536"
  shows "16 * (16 * (16 * (r div 4096 mod 16) + r div 256 mod 16) + r div 16 mod 16) + r mod 16 = r"
proof -
  have "r div 256 div 16 = r div 4096" "r div 16 div 16 = r div 256" by (simp_all add: div_mult2_eq [symmetric])
  moreover have "r div 4096 mod 16 = r div 4096" using assms by simp
  ultimately show ?thesis
    using mult_div_mod_eq [of 16 "r div 256"] mult_div_mod_eq [of 16 "r div 16"] mult_div_mod_eq [of 16 r]
    by simp
qed

lemma hex_run_unicode: "r < 65536 \<Longrightarrow> hex_run 4 0 (tl (tl (unicode_escape r)) @ rs) = Some r"
  unfolding unicode_escape_def list.sel append.simps
  by (subst hex_run_4) (simp_all only: four_digits mod_less_divisor zero_less_numeral)

lemma unescape_unicode:
  assumes "r < 55296 \<or> (57344 \<le> r \<and> r < 65536)"
  shows "unescape (unicode_escape r @ rs) = map_option (\<lambda>t. r # t) (unescape rs)"
proof -
  have "hex_run 4 0 (tl (tl (unicode_escape r)) @ rs) = Some r" using assms by (intro hex_run_unicode) auto
  then show ?thesis
    using assms by (subst unicode_escape_def, subst append.simps, subst unescape.simps) (auto simp: unicode_escape_def)
qed

lemma unescape_plain:
  "32 \<le> r \<Longrightarrow> r \<noteq> 34 \<Longrightarrow> r \<noteq> 92 \<Longrightarrow> unescape (r # rs) = map_option (\<lambda>t. r # t) (unescape rs)"
  by (subst unescape.simps) simp

lemma unescape_simple:
  "simple_escape c = Some x \<Longrightarrow> c \<noteq> 117 \<Longrightarrow> unescape (92 # c # rs) = map_option (\<lambda>t. x # t) (unescape rs)"
  by (subst unescape.simps) simp

lemma simple_escapes:
  "simple_escape 34 = Some 34" "simple_escape 92 = Some 92" "simple_escape 98 = Some 8" "simple_escape 102 = Some 12"
  "simple_escape 110 = Some 10" "simple_escape 114 = Some 13" "simple_escape 116 = Some 9"
  by (simp_all add: simple_escape_def)

lemma unescape_codes:
  assumes "valid_rune (fst rw)"
  shows "unescape (escape_codes rw @ rs) = map_option (\<lambda>t. fst rw # t) (unescape rs)"
  unfolding escape_codes_def Let_def
  by (simp add: unescape_simple simple_escapes)
     (auto simp: unescape_plain unescape_unicode rune_error_def)

lemma unescape_escaped: "list_all (\<lambda>rw. valid_rune (fst rw)) rws \<Longrightarrow> unescape (concat (map escape_codes rws)) = Some (map fst rws)"
  by (induction rws) (simp_all add: unescape_codes unescape.simps(1))

lemma valid_small: "r < 128 \<Longrightarrow> valid_rune r"
  by (simp add: valid_rune_def)

lemma unicode_valid: "list_all valid_rune (unicode_escape r)"
  by (simp add: unicode_escape_def valid_small hex_code_range)

lemma codes_valid: "valid_rune (fst rw) \<Longrightarrow> list_all valid_rune (escape_codes rw)"
  unfolding escape_codes_def Let_def by (simp add: unicode_valid valid_small)

definition clean_string :: "string \<Rightarrow> string" where
  "clean_string s = utf8_encode (utf8_decode s)"

lemma unquote_escaped: "unquote (escape_string s) = Some (clean_string s)"
proof -
  let ?rws = "utf8_runes (map byte s)"
  have v: "list_all (\<lambda>rw. valid_rune (fst rw)) ?rws"
    using utf8_runes_valid by (auto simp: list_all_iff)
  then have "list_all valid_rune (concat (map escape_codes ?rws))"
    using codes_valid by (auto simp: list_all_iff)
  then have "utf8_decode (escape_string s) = concat (map escape_codes ?rws)"
    unfolding escape_string_def by (rule utf8_decode_encode)
  then show ?thesis
    by (simp add: unquote_def unescape_escaped [OF v] clean_string_def utf8_decode_def)
qed

section \<open>Reading tokens back\<close>

definition word_tok :: "jtok \<Rightarrow> bool" where
  "word_tok t = (case t of TNum n \<Rightarrow> True | TTrue \<Rightarrow> True | TFalse \<Rightarrow> True | TNull \<Rightarrow> True | _ \<Rightarrow> False)"

fun clean_token :: "jtok \<Rightarrow> jtok" where
  "clean_token (TStr s) = TStr (clean_string s)"
| "clean_token t = t"

definition good_token :: "jtok \<Rightarrow> bool" where
  "good_token t = (case t of TNum n \<Rightarrow> rx_match json_number n | _ \<Rightarrow> True)"

lemma json_number_chars: "rx_match json_number n \<Longrightarrow> list_all word_char n \<and> n \<noteq> []"
proof
  assume n: "rx_match json_number n"
  show "list_all word_char n"
    by (rule rx_match_over [OF n]) (auto simp: json_number_def word_char_def byte_class_defs)
  show "n \<noteq> []" using n by (auto simp: json_number_def rx_cat_def rx_lit_def)
qed

lemma not_word_char:
  "c \<in> set [CHR ''{'', CHR ''}'', CHR ''['', CHR '']'', CHR '':'', CHR '','', CHR '' '', CHR 0x09, CHR 0x0A, CHR 0x0D, CHR 0x22]
   \<Longrightarrow> \<not> word_char c"
  by (auto simp: word_char_def byte_class_defs)

lemma word_char_punct: "word_char c \<Longrightarrow> punct c = None \<and> \<not> json_space c \<and> c \<noteq> CHR 0x22"
proof -
  assume "word_char c"
  with not_word_char have "c \<notin> set [CHR ''{'', CHR ''}'', CHR ''['', CHR '']'', CHR '':'', CHR '','', CHR '' '', CHR 0x09,
      CHR 0x0A, CHR 0x0D, CHR 0x22]" by blast
  then show ?thesis by (simp add: punct_def json_space_def one_of_def)
qed

text \<open>What follows a word token is not part of it.\<close>

definition word_end :: "string \<Rightarrow> bool" where
  "word_end s = (case s of [] \<Rightarrow> True | c # r \<Rightarrow> \<not> word_char c)"

lemma takeWhile_word: "list_all P w \<Longrightarrow> (case s of [] \<Rightarrow> True | c # r \<Rightarrow> \<not> P c) \<Longrightarrow>
    takeWhile P (w @ s) = w \<and> dropWhile P (w @ s) = s"
  by (induction w) (auto split: list.splits)

lemma lex_word:
  assumes "list_all word_char w" "w \<noteq> []" "word_end s" "word_token w = Some t"
  shows "lex (w @ s) = map_option (\<lambda>ts. t # ts) (lex s)"
proof (cases w)
  case (Cons c v)
  with assms have c: "word_char c" "list_all word_char v" by auto
  have "takeWhile word_char (c # v @ s) = w \<and> dropWhile word_char (v @ s) = s"
    using takeWhile_word [OF c(2), of s] assms(3) c Cons by (auto simp: word_end_def)
  with c word_char_punct [OF c(1)] assms(4) Cons show ?thesis by simp
qed (use assms in simp)

lemma word_tokens: "word_token ''true'' = Some TTrue" "word_token ''false'' = Some TFalse" "word_token ''null'' = Some TNull"
  by (simp_all add: word_token_def)

lemma lex_word_token:
  assumes "word_tok t" "good_token t" "word_end s"
  shows "lex (token_text t @ s) = map_option (\<lambda>ts. t # ts) (lex s)"
  using assms
proof (cases t)
  case (TNum n)
  with assms(2) have n: "rx_match json_number n" by (simp add: good_token_def)
  have "n \<noteq> ''true''" "n \<noteq> ''false''" "n \<noteq> ''null''"
    using n by (auto simp: json_number_def rx_cat_def rx_lit_def rx_plus_def byte_class_defs)
  with n have "word_token n = Some (TNum n)" by (simp add: word_token_def)
  with TNum json_number_chars [OF n] assms(3) show ?thesis by (simp add: lex_word)
next
  case TTrue
  with assms(3) show ?thesis by (simp only: token_text.simps) (rule lex_word, auto simp: word_tokens word_char_def byte_class_defs)
next
  case TFalse
  with assms(3) show ?thesis by (simp only: token_text.simps) (rule lex_word, auto simp: word_tokens word_char_def byte_class_defs)
next
  case TNull
  with assms(3) show ?thesis by (simp only: token_text.simps) (rule lex_word, auto simp: word_tokens word_char_def byte_class_defs)
qed (simp_all add: word_tok_def)

lemma lex_quoted: "lex (quoted k @ s) = map_option (\<lambda>ts. TStr (clean_string k) # ts) (lex s)"
  using scan_escaped [of k s] by (simp add: quoted_def unquote_escaped json_space_def one_of_def)

lemma lex_punct:
  "punct c = Some p \<Longrightarrow> \<not> json_space c \<Longrightarrow> c \<noteq> CHR 0x22 \<Longrightarrow> lex (c # s) = map_option (\<lambda>ts. p # ts) (lex s)"
  by simp

lemma lex_other_token:
  assumes "\<not> word_tok t"
  shows "lex (token_text t @ s) = map_option (\<lambda>ts. clean_token t # ts) (lex s)"
proof (cases t)
  case (TStr k)
  then show ?thesis by (simp add: lex_quoted del: lex.simps)
qed (use assms in \<open>simp_all add: word_tok_def lex_punct punct_def json_space_def one_of_def del: lex.simps\<close>)

fun separated :: "jtok list \<Rightarrow> bool" where
  "separated [] = True"
| "separated [t] = True"
| "separated (t # u # ts) = (\<not> (word_tok t \<and> word_tok u) \<and> separated (u # ts))"

lemma other_token_end: "\<not> word_tok t \<Longrightarrow> word_end (token_text t @ s)"
  by (cases t) (simp_all add: word_tok_def word_end_def quoted_def not_word_char)

lemma lex_tokens:
  "separated ts \<Longrightarrow> list_all good_token ts \<Longrightarrow> lex (concat (map token_text ts)) = Some (map clean_token ts)"
proof (induction ts rule: separated.induct)
  case 1
  then show ?case by simp
next
  case (2 t)
  show ?case
  proof (cases "word_tok t")
    case True
    then have "clean_token t = t" by (cases t) (simp_all add: word_tok_def)
    with lex_word_token [OF True, of "[]"] 2 show ?thesis by (simp add: word_end_def)
  next
    case False
    from lex_other_token [OF this, of "[]"] show ?thesis by simp
  qed
next
  case (3 t u ts)
  let ?s = "concat (map token_text (u # ts))"
  from 3 have rest: "lex ?s = Some (map clean_token (u # ts))" by simp
  show ?case
  proof (cases "word_tok t")
    case True
    then have c: "clean_token t = t" by (cases t) (simp_all add: word_tok_def)
    from True 3(2) have "word_end ?s" by (simp add: other_token_end)
    from lex_word_token [OF True _ this] 3(3) rest c show ?thesis by (simp del: lex.simps)
  next
    case False
    from lex_other_token [OF this, of ?s] rest show ?thesis by (simp del: lex.simps)
  qed
qed

section \<open>The round trip\<close>

fun clean_json :: "json \<Rightarrow> json" where
  "clean_json JNull = JNull"
| "clean_json (JBool b) = JBool b"
| "clean_json (JNum n) = JNum n"
| "clean_json (JStr s) = JStr (clean_string s)"
| "clean_json (JArr vs) = JArr (map clean_json vs)"
| "clean_json (JObj kvs) = JObj (map (\<lambda>kv. (clean_string (fst kv), clean_json (snd kv))) kvs)"

abbreviation clean_fields :: "(string \<times> json) list \<Rightarrow> (string \<times> json) list" where
  "clean_fields kvs \<equiv> map (\<lambda>kv. (clean_string (fst kv), clean_json (snd kv))) kvs"

lemma value_tokens_clean:
  "value_tokens (clean_json v) = map clean_token (value_tokens v)"
  "elements_tokens (map clean_json vs) = map clean_token (elements_tokens vs)"
  "fields_tokens (clean_fields kvs) = map clean_token (fields_tokens kvs)"
  by (induction v and vs and kvs rule: value_tokens_elements_tokens_fields_tokens.induct) auto

definition ends_word :: "jtok list \<Rightarrow> bool" where
  "ends_word ts \<longleftrightarrow> separated ts \<and> (ts = [] \<or> \<not> word_tok (hd ts))"

lemma separated_punct [simp]: "\<not> word_tok t \<Longrightarrow> separated (t # ts) = separated ts"
  by (cases ts) auto

lemma ends_word_punct [simp]: "\<not> word_tok t \<Longrightarrow> ends_word (t # ts) = separated ts"
  by (simp add: ends_word_def)

lemma separated_word [simp]: "ends_word ts \<Longrightarrow> separated (t # ts)"
  by (cases ts) (auto simp: ends_word_def)

lemma separated_ends [simp]: "ends_word ts \<Longrightarrow> separated ts"
  by (simp add: ends_word_def)

lemma punct_not_word [simp]:
  "\<not> word_tok TLBrace" "\<not> word_tok TRBrace" "\<not> word_tok TLBrack" "\<not> word_tok TRBrack" "\<not> word_tok TColon"
  "\<not> word_tok TComma" "\<not> word_tok (TStr s)"
  by (simp_all add: word_tok_def)

lemma value_tokens_separated:
  "\<forall>rest. ends_word rest \<longrightarrow> separated (value_tokens v @ rest)"
  "\<forall>rest. ends_word rest \<longrightarrow> separated (elements_tokens vs @ rest)"
  "\<forall>rest. ends_word rest \<longrightarrow> separated (fields_tokens kvs @ rest)"
  by (induction v and vs and kvs rule: value_tokens_elements_tokens_fields_tokens.induct)
     (auto simp del: separated.simps)

fun numbers_ok :: "json \<Rightarrow> bool" where
  "numbers_ok (JNum n) = rx_match json_number n"
| "numbers_ok (JArr vs) = (\<forall>v\<in>set vs. numbers_ok v)"
| "numbers_ok (JObj kvs) = (\<forall>kv\<in>set kvs. numbers_ok (snd kv))"
| "numbers_ok v = True"

lemma value_tokens_good:
  "numbers_ok v \<Longrightarrow> list_all good_token (value_tokens v)"
  "\<forall>v\<in>set vs. numbers_ok v \<Longrightarrow> list_all good_token (elements_tokens vs)"
  "\<forall>kv\<in>set kvs. numbers_ok (snd kv) \<Longrightarrow> list_all good_token (fields_tokens kvs)"
  by (induction v and vs and kvs rule: value_tokens_elements_tokens_fields_tokens.induct)
     (auto simp: good_token_def)

text \<open>The nesting of a document, within the limit of the reader.\<close>

fun nested_within :: "nat \<Rightarrow> json \<Rightarrow> bool" where
  "nested_within d (JArr vs) = (d < 10000 \<and> (\<forall>v\<in>set vs. nested_within (Suc d) v))"
| "nested_within d (JObj kvs) = (d < 10000 \<and> (\<forall>kv\<in>set kvs. nested_within (Suc d) (snd kv)))"
| "nested_within d v = True"

lemma value_tokens_nesting:
  "\<forall>d rest. nested_within d v \<longrightarrow> nesting_ok d (value_tokens v @ rest) = nesting_ok d rest"
  "\<forall>d rest. (\<forall>v\<in>set vs. nested_within d v) \<longrightarrow> nesting_ok d (elements_tokens vs @ rest) = nesting_ok d rest"
  "\<forall>d rest. (\<forall>kv\<in>set kvs. nested_within d (snd kv)) \<longrightarrow> nesting_ok d (fields_tokens kvs @ rest) = nesting_ok d rest"
  by (induction v and vs and kvs rule: value_tokens_elements_tokens_fields_tokens.induct) auto

lemma nested_clean: "nested_within d (clean_json v) = nested_within d v"
  by (induction v arbitrary: d) auto

theorem json_round_trip:
  assumes "numbers_ok v" "nested_within 0 v"
  shows "json_document (json_text v) = Some (clean_json v)"
proof -
  have "lex (json_text v) = Some (value_tokens (clean_json v))"
    unfolding json_text_def value_tokens_clean
    using value_tokens_separated(1) [of v, rule_format, of "[]"] value_tokens_good(1) [OF assms(1)]
    by (intro lex_tokens) (simp_all add: ends_word_def)
  moreover have "nesting_ok 0 (value_tokens (clean_json v))"
    using value_tokens_nesting(1) [of "clean_json v", rule_format, of 0 "[]"] assms(2) by (simp add: nested_clean)
  ultimately show ?thesis
    by (simp add: json_document_def parse_value_tokens)
qed

text \<open>Text that is valid UTF-8 comes back as it was.\<close>

definition utf8_text :: "string \<Rightarrow> bool" where
  "utf8_text s \<longleftrightarrow> clean_string s = s"

fun clean :: "json \<Rightarrow> bool" where
  "clean (JStr s) = utf8_text s"
| "clean (JArr vs) = (\<forall>v\<in>set vs. clean v)"
| "clean (JObj kvs) = (\<forall>kv\<in>set kvs. utf8_text (fst kv) \<and> clean (snd kv))"
| "clean v = True"

lemma clean_fixed: "clean v \<Longrightarrow> clean_json v = v"
  by (induction v) (auto simp: utf8_text_def map_idI intro!: map_idI)

lemma clean_string_idem: "utf8_text (clean_string s)"
  by (simp add: utf8_text_def clean_string_def utf8_decode_encode utf8_decode_valid)

lemma ascii_utf8_text: "list_all (\<lambda>c. byte c < 128) s \<Longrightarrow> utf8_text s"
proof (induction s)
  case (Cons c s)
  then have "utf8_decode (c # s) = byte c # utf8_decode s"
    by (simp add: utf8_decode_def utf8_runes_step [where w = 1] utf8_first_def byte_at_def)
  with Cons show ?case
    using utf8_encode_Cons [of "byte c" "utf8_decode s"]
    by (simp add: utf8_text_def clean_string_def utf8_encode_ascii)
qed (simp add: utf8_text_def clean_string_def utf8_decode_def)

end
