(* ===== verification/CommandStore.thy ===== *)
theory CommandStore
  imports CrashSafety GoJsonPrint "HOL-Library.List_Lexorder" "HOL-Library.Char_ord"
begin

text \<open>
  The command store (\<open>internal/runtime/command_store.go\<close>). The record on disk is the JSON text of
  \<open>StoredCommand\<close>; \<open>stored_round_trip\<close> shows what \<open>Load\<close> reads of what \<open>Save\<close> wrote. \<open>file_save\<close> is the sequence
  of file operations of \<open>Save\<close> (temporary file, permissions, write, sync, close, rename), each of which
  may fail.

  The interface is the locale \<open>command_store\<close>: what the dispatcher relies on is which command the store
  may hold after each operation, failed ones included. The memory store and the file store are
  interpretations; the locale's theorem \<open>store_honest\<close> is the hypothesis the crash-safety theorem has
  on its store.
\<close>

section \<open>The record as JSON\<close>

fun detail_json :: "detail \<Rightarrow> json" where
  "detail_json DNull = JNull"
| "detail_json (DBool b) = JBool b"
| "detail_json (DInt i) = JNum (int_str i)"
| "detail_json (DNumber n) = JNum n"
| "detail_json (DString s) = JStr s"
| "detail_json (DList ds) = JArr (map detail_json ds)"
| "detail_json (DObject kds) = JObj (map (\<lambda>kd. (fst kd, detail_json (snd kd))) kds)"

definition details_json :: "details \<Rightarrow> json" where
  "details_json ds = detail_json (DObject (sort_key fst ds))"

definition result_json :: "command_result \<Rightarrow> json" where
  "result_json r = JObj
     ([(''leaseToken'', JStr (cr_lease_token r)), (''success'', JBool (cr_success r)), (''code'', JStr (cr_code r))]
      @ (if cr_message r = [] then [] else [(''message'', JStr (cr_message r))])
      @ (if cr_details r = [] then [] else [(''details'', details_json (cr_details r))]))"

definition stored_json :: "stored_command \<Rightarrow> json" where
  "stored_json s = JObj
     ([(''commandId'', JStr (sc_id s)), (''leaseToken'', JStr (sc_lease s))]
      @ (case sc_result s of None \<Rightarrow> [] | Some r \<Rightarrow> [(''result'', result_json r)]))"

definition stored_text :: "stored_command \<Rightarrow> string" where
  "stored_text s = json_text (stored_json s)"

section \<open>Reading it back\<close>

text \<open>A map keeps the last value of a key and is written with its keys sorted.\<close>

fun last_wins :: "(string \<times> 'a) list \<Rightarrow> (string \<times> 'a) list" where
  "last_wins [] = []"
| "last_wins (kv # kvs) = (if fst kv \<in> fst ` set kvs then last_wins kvs else kv # last_wins kvs)"

definition map_entries :: "(string \<times> 'a) list \<Rightarrow> (string \<times> 'a) list" where
  "map_entries kvs = sort_key fst (last_wins kvs)"

definition small_int :: "string \<Rightarrow> int option" where
  "small_int n = (case int_literal n of None \<Rightarrow> None | Some i \<Rightarrow> if \<bar>i\<bar> \<le> 2 ^ 53 then Some i else None)"

fun json_detail :: "json \<Rightarrow> detail" where
  "json_detail JNull = DNull"
| "json_detail (JBool b) = DBool b"
| "json_detail (JNum n) = (case small_int n of None \<Rightarrow> DNumber n | Some i \<Rightarrow> DInt i)"
| "json_detail (JStr s) = DString s"
| "json_detail (JArr vs) = DList (map json_detail vs)"
| "json_detail (JObj kvs) = DObject (map_entries (map (\<lambda>kv. (fst kv, json_detail (snd kv))) kvs))"

fun dec_details :: "details json_dec" where
  "dec_details JNull old = Inr []"
| "dec_details (JObj kvs) old = Inr (map_entries (old @ map (\<lambda>kv. (fst kv, json_detail (snd kv))) kvs))"
| "dec_details v old = Inl unmarshal_error"

definition zero_result :: command_result where
  "zero_result = \<lparr>cr_lease_token = [], cr_success = False, cr_code = [], cr_message = [], cr_details = []\<rparr>"

definition dec_result :: "command_result json_dec" where
  "dec_result = dec_struct [''leaseToken'', ''success'', ''code'', ''message'', ''details'']
     (\<lambda>n v x. if n = ''leaseToken'' then map_sum id (\<lambda>s. x\<lparr>cr_lease_token := s\<rparr>) (dec_string v (cr_lease_token x))
              else if n = ''success'' then map_sum id (\<lambda>b. x\<lparr>cr_success := b\<rparr>) (dec_bool v (cr_success x))
              else if n = ''code'' then map_sum id (\<lambda>s. x\<lparr>cr_code := s\<rparr>) (dec_string v (cr_code x))
              else if n = ''message'' then map_sum id (\<lambda>s. x\<lparr>cr_message := s\<rparr>) (dec_string v (cr_message x))
              else map_sum id (\<lambda>d. x\<lparr>cr_details := d\<rparr>) (dec_details v (cr_details x)))"

text \<open>A pointer field: \<open>null\<close> sets it to nil, an object is decoded into what it points to.\<close>

definition dec_result_pointer :: "command_result option json_dec" where
  "dec_result_pointer v old =
     (if v = JNull then Inr None
      else map_sum id Some (dec_result v (case old of None \<Rightarrow> zero_result | Some r \<Rightarrow> r)))"

definition zero_stored :: stored_command where
  "zero_stored = \<lparr>sc_id = [], sc_lease = [], sc_result = None\<rparr>"

definition dec_stored :: "stored_command json_dec" where
  "dec_stored = dec_struct [''commandId'', ''leaseToken'', ''result'']
     (\<lambda>n v x. if n = ''commandId'' then map_sum id (\<lambda>s. x\<lparr>sc_id := s\<rparr>) (dec_string v (sc_id x))
              else if n = ''leaseToken'' then map_sum id (\<lambda>s. x\<lparr>sc_lease := s\<rparr>) (dec_string v (sc_lease x))
              else map_sum id (\<lambda>r. x\<lparr>sc_result := r\<rparr>) (dec_result_pointer v (sc_result x)))"

definition max_stored_bytes :: nat where "max_stored_bytes = 64 * 1024"

definition read_stored :: "string \<Rightarrow> goerr + stored_command" where
  "read_stored data =
     (if length data = 0 \<or> length data > max_stored_bytes then Inl (Plain ''command state size is invalid'')
      else case json_first data of
          None \<Rightarrow> Inl (Plain ''command state is invalid'')
        | Some v \<Rightarrow>
            (case dec_stored v zero_stored of
               Inl e \<Rightarrow> Inl (Plain ''command state is invalid'')
             | Inr s \<Rightarrow> if sc_id s = [] \<or> sc_lease s = [] then Inl (Plain ''command state is invalid'') else Inr s))"

section \<open>The file store\<close>

text \<open>
  The part of the file system the store touches: the state file, the temporary file, and which of the
  coming operations fail (none, once the list is used up). A failed operation leaves the files as they
  were; a failed write leaves any part of the data in the temporary file, here none of it.
\<close>

record disk =
  dk_file :: "string option"
  dk_temp :: "string option"
  dk_faults :: "bool list"

definition attempt :: "(disk \<Rightarrow> disk) \<Rightarrow> disk err_op" where
  "attempt f k =
     (let k' = k\<lparr>dk_faults := tl (dk_faults k)\<rparr> in
      if dk_faults k \<noteq> [] \<and> hd (dk_faults k) then (Some (Plain ''i/o error''), k') else (None, f k'))"

definition remove_temp :: "disk \<Rightarrow> disk" where
  "remove_temp k = (if dk_faults k \<noteq> [] \<and> hd (dk_faults k) then k\<lparr>dk_faults := tl (dk_faults k)\<rparr>
                    else k\<lparr>dk_temp := None, dk_faults := tl (dk_faults k)\<rparr>)"

definition file_load :: "(disk, stored_command option) res_op" where
  "file_load k =
     (case attempt id k of
        (Some e, k') \<Rightarrow> (Inl (Wrapped ''read command state: '' e []), k')
      | (None, k') \<Rightarrow>
          (case dk_file k of
             None \<Rightarrow> (Inr None, k')
           | Some data \<Rightarrow> (map_sum id Some (read_stored data), k')))"

text \<open>What follows the creation of the temporary file, up to and including the rename and chmod.\<close>

definition save_through_temp :: "string \<Rightarrow> disk err_op" where
  "save_through_temp data =
     try_err (attempt id) same
     (try_err (attempt (\<lambda>k. k\<lparr>dk_temp := Some data\<rparr>)) same
     (try_err (attempt id) same
     (try_err (attempt id) same
     (try_err (attempt (\<lambda>k. k\<lparr>dk_file := dk_temp k, dk_temp := None\<rparr>)) same
     (attempt id)))))"

definition file_save :: "stored_command \<Rightarrow> disk err_op" where
  "file_save s =
     try_err (attempt id) (wrap ''create command state directory: '')
     (try_err (attempt (\<lambda>k. k\<lparr>dk_temp := Some []\<rparr>)) (wrap ''create command state: '')
     (\<lambda>k. case save_through_temp (stored_text s) k of (r, k') \<Rightarrow> (r, remove_temp k')))"

definition file_clear :: "disk err_op" where
  "file_clear k =
     (case attempt (\<lambda>k. k\<lparr>dk_file := None\<rparr>) k of
        (Some e, k') \<Rightarrow> (if dk_file k = None then None else Some e, k')
      | (None, k') \<Rightarrow> (None, k'))"

section \<open>The memory store\<close>

definition memory_load :: "(stored_command option, stored_command option) res_op" where
  "memory_load m = (Inr m, m)"

definition memory_save :: "stored_command \<Rightarrow> stored_command option err_op" where
  "memory_save s m = (None, Some s)"

definition memory_clear :: "stored_command option err_op" where
  "memory_clear m = (None, None)"

section \<open>The interface\<close>

text \<open>
  \<open>holds e\<close> is what a load would find: \<open>None\<close> when the store is unreadable, otherwise the command of
  its record, if there is one. \<open>fits s\<close> is the condition under which a saved record comes back under
  its own identifier.
\<close>

datatype store_call = CallLoad | CallSave stored_command | CallClear

locale command_store =
  fixes load :: "('e, stored_command option) res_op"
    and save :: "stored_command \<Rightarrow> 'e err_op"
    and clear :: "'e err_op"
    and holds :: "'e \<Rightarrow> holding option"
    and fits :: "stored_command \<Rightarrow> bool"
  assumes load_holds: "load e = (Inr v, e') \<Longrightarrow> holds e = Some (map_option record_key v) \<and> holds e' = holds e"
    and load_fails: "load e = (Inl x, e') \<Longrightarrow> holds e' = holds e"
    and save_holds: "fits s \<Longrightarrow> save s e = (None, e') \<Longrightarrow> holds e' \<in> {None, Some (Some (record_key s))}"
    and save_fails: "fits s \<Longrightarrow> save s e = (Some x, e') \<Longrightarrow> holds e' \<in> {holds e, None, Some (Some (record_key s))}"
    and clear_holds: "clear e = (None, e') \<Longrightarrow> holds e' = Some None"
    and clear_fails: "clear e = (Some x, e') \<Longrightarrow> holds e' \<in> {holds e, Some None}"
begin

fun store_run :: "store_call list \<Rightarrow> 'e \<Rightarrow> event list" where
  "store_run [] e = []"
| "store_run (CallLoad # cs) e = (case load e of (r, e') \<Rightarrow> EvLoad r # store_run cs e')"
| "store_run (CallSave s # cs) e = (case save s e of (r, e') \<Rightarrow> EvSave s r # store_run cs e')"
| "store_run (CallClear # cs) e = (case clear e of (r, e') \<Rightarrow> EvClear r # store_run cs e')"

lemma store_honest:
  "(\<forall>s. CallSave s \<in> set cs \<longrightarrow> fits s) \<Longrightarrow> (\<forall>k. holds e = Some k \<longrightarrow> k \<in> C) \<Longrightarrow> store_answers C (store_run cs e)"
proof (induction cs arbitrary: e C)
  case (Cons c cs)
  show ?case
  proof (cases c)
    case CallLoad
    obtain r e' where r: "load e = (r, e')" by (cases "load e")
    show ?thesis
    proof (cases r)
      case (Inl x)
      with r load_fails [of e x e'] Cons CallLoad show ?thesis by simp
    next
      case (Inr v)
      with r load_holds [of e v e'] Cons CallLoad show ?thesis by simp
    qed
  next
    case (CallSave s)
    obtain r e' where r: "save s e = (r, e')" by (cases "save s e")
    show ?thesis
    proof (cases r)
      case None
      with r save_holds [of s e e'] Cons CallSave show ?thesis by auto
    next
      case (Some x)
      have "\<forall>k. holds e' = Some k \<longrightarrow> k \<in> insert (Some (record_key s)) C"
        using save_fails [of s e x e'] r Some Cons.prems CallSave by auto
      with Some r Cons CallSave show ?thesis by simp
    qed
  next
    case CallClear
    obtain r e' where r: "clear e = (r, e')" by (cases "clear e")
    show ?thesis
    proof (cases r)
      case None
      with r clear_holds [of e e'] Cons CallClear show ?thesis by simp
    next
      case (Some x)
      have "\<forall>k. holds e' = Some k \<longrightarrow> k \<in> insert None C"
        using clear_fails [of e x e'] r Some Cons.prems by auto
      with Some r Cons CallClear show ?thesis by simp
    qed
  qed
qed simp

end

interpretation in_memory: command_store memory_load memory_save memory_clear
    "\<lambda>m. Some (map_option record_key m)" "\<lambda>s. True"
  by unfold_locales (auto simp: memory_load_def memory_save_def memory_clear_def)

section \<open>What the file store reads back\<close>

lemma nat_str_number: "nat_str n = ''0'' \<or> (\<exists>c s. nat_str n = c # s \<and> in_range (CHR ''1'') (CHR ''9'') c \<and> list_all is_digit s)"
proof (induction n rule: nat_str.induct)
  case (1 n)
  show ?case
  proof (cases "n < 10")
    case True
    then have "nat_str n = [char_of (48 + n)]" by (simp add: nat_str.simps [of n] digit_char_def)
    moreover have "byte (char_of (48 + n) :: char) = 48 + n" using True by simp
    ultimately have "n \<noteq> 0 \<longrightarrow> in_range (CHR ''1'') (CHR ''9'') (char_of (48 + n))"
      using True by (simp add: in_range_def)
    then have "n \<noteq> 0 \<longrightarrow> ?thesis"
      using \<open>nat_str n = [char_of (48 + n)]\<close>
      by (intro impI disjI2 exI [of _ "char_of (48 + n)"] exI [of _ "[]"]) simp
    moreover have "nat_str 0 = ''0''"
      by (subst nat_str.simps) (simp add: digit_char_def char_of_eq_iff)
    ultimately show ?thesis by (cases "n = 0") simp_all
  next
    case False
    have "nat_str (n div 10) \<noteq> ''0''"
    proof
      assume "nat_str (n div 10) = ''0''"
      then have "val_of (nat_str (n div 10)) = val_of ''0''" by simp
      moreover have "val_of ''0'' = 0" by (simp add: val_of_def digit_val_def)
      ultimately have "n div 10 = 0" by simp
      with False show False by simp
    qed
    with 1 False obtain c s where "nat_str (n div 10) = c # s" "in_range (CHR ''1'') (CHR ''9'') c" "list_all is_digit s"
      by blast
    with False show ?thesis by (simp add: nat_str.simps [of n])
  qed
qed

lemma digits_star: "list_all is_digit s \<Longrightarrow> s \<in> rx_star {[c] | c. is_digit c}"
proof (induction s)
  case (Cons c s)
  then show ?case using rx_star.star_app [of "[c]" _ s] by auto
qed (rule rx_star.star_nil)

lemma nat_str_lang:
  "nat_str n \<in> rx_lang (RxAlt (rx_lit ''0'') (rx_cat [RxCls (in_range (CHR ''1'') (CHR ''9'')), RxStar (RxCls is_digit)]))"
  using nat_str_number [of n]
proof
  assume "nat_str n = ''0''"
  then show ?thesis by (simp add: rx_lit_def)
next
  assume "\<exists>c s. nat_str n = c # s \<and> in_range (CHR ''1'') (CHR ''9'') c \<and> list_all is_digit s"
  then obtain c s where "nat_str n = [c] @ s" "in_range (CHR ''1'') (CHR ''9'') c" "s \<in> rx_star {[c] | c. is_digit c}"
    using digits_star by fastforce
  then show ?thesis by (auto simp: rx_cat_def simp del: append.simps)
qed

lemma number_int: "rx_match json_number (int_str i)"
proof -
  let ?body = "RxAlt (rx_lit ''0'') (rx_cat [RxCls (in_range (CHR ''1'') (CHR ''9'')), RxStar (RxCls is_digit)])"
  have opt: "[] \<in> rx_lang (RxAlt RxEps r)" for r by simp
  have seq: "u \<in> rx_lang a \<Longrightarrow> v \<in> rx_lang b \<Longrightarrow> u @ v \<in> rx_lang (RxSeq a b)" for u v a b by auto
  obtain sign n where i: "int_str i = sign @ nat_str n" "sign \<in> rx_lang (RxAlt RxEps (rx_lit ''-''))"
    by (cases "i < 0") (auto simp: int_str_def rx_lit_def intro: that [of "''-''"] that [of "[]"])
  have "sign @ nat_str n @ [] @ [] @ [] \<in> rx_lang json_number"
    unfolding json_number_def rx_cat_def [of "_ # _ # _ # _ # _"] foldr.simps comp_def id_def
    by (intro seq i nat_str_lang opt) simp
  then show ?thesis by (simp add: rx_match_lang i)
qed

text \<open>A record that comes back under its own identifier: its own text is UTF-8, its numbers are numbers.\<close>

definition stored_fits :: "stored_command \<Rightarrow> bool" where
  "stored_fits s \<longleftrightarrow> utf8_text (sc_id s) \<and> utf8_text (sc_lease s)
     \<and> numbers_ok (stored_json s) \<and> nested_within 0 (stored_json s)"

lemma stored_document: "stored_fits s \<Longrightarrow> json_first (stored_text s) = Some (clean_json (stored_json s))"
  by (simp add: stored_text_def stored_fits_def json_round_trip json_first_document)

lemma utf8_literals [simp]: "utf8_text ''commandId''" "utf8_text ''leaseToken''" "utf8_text ''result''"
  "utf8_text ''success''" "utf8_text ''code''" "utf8_text ''message''" "utf8_text ''details''"
  by (rule ascii_utf8_text, simp)+

lemma read_key:
  assumes "stored_fits s" "read_stored (stored_text s) = Inr s'"
  shows "record_key s' = record_key s"
proof -
  have c: "clean_string (sc_id s) = sc_id s" "clean_string (sc_lease s) = sc_lease s"
    "clean_string ''commandId'' = ''commandId''" "clean_string ''leaseToken'' = ''leaseToken''"
    "clean_string ''result'' = ''result''"
    using assms(1) utf8_literals by (simp_all add: stored_fits_def utf8_text_def)
  from assms(2) have "dec_stored (clean_json (stored_json s)) zero_stored = Inr s'"
    by (auto simp: read_stored_def stored_document [OF assms(1)] split: if_splits sum.splits)
  then show ?thesis
    by (auto simp: dec_stored_def stored_json_def c match_field_def zero_stored_def record_key_def map_sum_Inr guards
        split: option.splits)
qed

definition disk_holds :: "disk \<Rightarrow> holding option" where
  "disk_holds k =
     (case dk_file k of None \<Rightarrow> Some None
      | Some data \<Rightarrow> (case read_stored data of Inl e \<Rightarrow> None | Inr s \<Rightarrow> Some (Some (record_key s))))"

lemma attempt_cases: "attempt f k = (r, k') \<Longrightarrow>
    (r \<noteq> None \<and> k' = k\<lparr>dk_faults := tl (dk_faults k)\<rparr>) \<or> (r = None \<and> k' = f (k\<lparr>dk_faults := tl (dk_faults k)\<rparr>))"
  by (auto simp: attempt_def Let_def split: if_splits)

lemma try_attempt:
  assumes "try_err (attempt f) w m k = (r, k')"
  obtains (fails) e where "r = Some e" "k' = k\<lparr>dk_faults := tl (dk_faults k)\<rparr>"
  | (goes_on) "m (f (k\<lparr>dk_faults := tl (dk_faults k)\<rparr>)) = (r, k')"
  using assms by (auto simp: try_err_def op_bind_def op_return_def attempt_def Let_def split: if_splits)

text \<open>Whatever step fails, the state file is the old one or holds the new text.\<close>

lemma save_through_temp_file:
  assumes "save_through_temp data k = (r, k')"
  shows "dk_file k' = dk_file k \<and> r \<noteq> None \<or> dk_file k' = Some data"
  using assms unfolding save_through_temp_def
  by (elim try_attempt) (auto dest!: attempt_cases)

lemma file_save_file:
  assumes "file_save s k = (r, k')"
  shows "dk_file k' = dk_file k \<and> r \<noteq> None \<or> dk_file k' = Some (stored_text s)"
  using assms unfolding file_save_def
  by (elim try_attempt) (auto simp: remove_temp_def split: prod.splits if_splits dest!: save_through_temp_file)

lemma holds_new: "stored_fits s \<Longrightarrow> dk_file k = Some (stored_text s) \<Longrightarrow> disk_holds k \<in> {None, Some (Some (record_key s))}"
  using read_key [of s] by (auto simp: disk_holds_def split: sum.split)

lemma holds_same: "dk_file k = dk_file k' \<Longrightarrow> disk_holds k = disk_holds k'"
  by (simp add: disk_holds_def)

interpretation on_disk: command_store file_load file_save file_clear disk_holds stored_fits
proof
  fix e v e' assume "file_load e = (Inr v, e')"
  then show "disk_holds e = Some (map_option record_key v) \<and> disk_holds e' = disk_holds e"
    by (auto simp: file_load_def disk_holds_def attempt_def Let_def map_sum_Inr split: prod.splits option.splits if_splits)
next
  fix e x e' assume "file_load e = (Inl x, e')"
  then have "dk_file e' = dk_file e"
    by (auto simp: file_load_def attempt_def Let_def split: prod.splits option.splits if_splits)
  then show "disk_holds e' = disk_holds e" by (rule holds_same)
next
  fix s e e' assume "stored_fits s" "file_save s e = (None, e')"
  with file_save_file [of s e None e'] holds_new [of s e'] show "disk_holds e' \<in> {None, Some (Some (record_key s))}" by simp
next
  fix s e x e' assume s: "stored_fits s" "file_save s e = (Some x, e')"
  from file_save_file [OF s(2)] show "disk_holds e' \<in> {disk_holds e, None, Some (Some (record_key s))}"
    using holds_new [OF s(1), of e'] holds_same [of e' e] by auto
next
  fix e e' assume "file_clear e = (None, e')"
  then have "dk_file e' = None"
    by (auto simp: file_clear_def attempt_def Let_def split: prod.splits option.splits if_splits)
  then show "disk_holds e' = Some None" by (simp add: disk_holds_def)
next
  fix e x e' assume "file_clear e = (Some x, e')"
  then have "dk_file e' = dk_file e"
    by (auto simp: file_clear_def attempt_def Let_def split: prod.splits option.splits if_splits)
  then show "disk_holds e' \<in> {disk_holds e, Some None}" by (simp add: disk_holds_def)
qed

section \<open>The round trip\<close>

text \<open>
  A detail may be a Go struct, whose fields are written in their order; it is read back as a map. \<open>norm_detail\<close> is
  what comes back: at every level the same fields, as a map, which is sorted by its keys. A detail is \<open>exact\<close> when the
  fields of an object have different names and its integers are exact as a \<open>float64\<close>.
\<close>

fun norm_detail :: "detail \<Rightarrow> detail" where
  "norm_detail (DList ds) = DList (map norm_detail ds)"
| "norm_detail (DObject kds) = DObject (sort_key fst (map (\<lambda>kd. (fst kd, norm_detail (snd kd))) kds))"
| "norm_detail d = d"

fun exact_detail :: "detail \<Rightarrow> bool" where
  "exact_detail (DInt i) = (\<bar>i\<bar> \<le> 2 ^ 53)"
| "exact_detail (DNumber n) = (small_int n = None)"
| "exact_detail (DList ds) = (\<forall>d\<in>set ds. exact_detail d)"
| "exact_detail (DObject kds) = (distinct (map fst kds) \<and> (\<forall>kd\<in>set kds. exact_detail (snd kd)))"
| "exact_detail d = True"

definition norm_details :: "details \<Rightarrow> details" where
  "norm_details ds = sort_key fst (map (\<lambda>kd. (fst kd, norm_detail (snd kd))) ds)"

definition norm_result :: "command_result \<Rightarrow> command_result" where
  "norm_result r = r\<lparr>cr_details := norm_details (cr_details r)\<rparr>"

definition norm_stored :: "stored_command \<Rightarrow> stored_command" where
  "norm_stored s = s\<lparr>sc_result := map_option norm_result (sc_result s)\<rparr>"

lemma last_wins_distinct: "distinct (map fst kvs) \<Longrightarrow> last_wins kvs = kvs"
  by (induction kvs) auto

lemma map_entries_distinct: "distinct (map fst kvs) \<Longrightarrow> map_entries kvs = sort_key fst kvs"
  by (simp add: map_entries_def last_wins_distinct)

lemma sort_key_map: "sort_key fst (map (\<lambda>kd. (fst kd, f (snd kd))) kds) = map (\<lambda>kd. (fst kd, f (snd kd))) (sort_key fst kds)"
proof -
  let ?g = "\<lambda>kd. (fst kd, f (snd kd))"
  have insort: "insort_key fst (?g x) (map ?g ys) = map ?g (insort_key fst x ys)" for x ys
    by (induction ys) auto
  show ?thesis
  proof (induction kds)
    case (Cons x kds)
    have "sort_key fst (map ?g (x # kds)) = insort_key fst (?g x) (sort_key fst (map ?g kds))" by simp
    also have "\<dots> = map ?g (insort_key fst x (sort_key fst kds))" unfolding Cons.IH by (rule insort)
    finally show ?case by simp
  qed simp
qed

lemma sort_key_sort: "sort_key f (sort_key f xs) = sort_key f xs"
  by (simp add: sort_key_id_if_sorted)

text \<open>As maps, what is loaded has the same fields as what was saved.\<close>

lemma map_of_norm:
  assumes "distinct (map fst ds)"
  shows "map_of (norm_details ds) k = map_option norm_detail (map_of ds k)"
proof -
  have "map_of (sort_key fst ds) = map_of ds"
    by (rule map_of_eqI) (use assms in \<open>auto simp: distinct_map map_of_eq_Some_iff\<close>)
  moreover have "map_of (map (\<lambda>kd. (fst kd, norm_detail (snd kd))) xs) k = map_option norm_detail (map_of xs k)" for xs
    by (induction xs) auto
  ultimately show ?thesis by (simp add: norm_details_def sort_key_map)
qed

lemma int_literal_int: "\<bar>i\<bar> \<le> 2 ^ 53 \<Longrightarrow> int_literal (int_str i) = Some i"
proof -
  have "(2::int) ^ 53 < 2 ^ 63" by simp
  moreover assume "\<bar>i\<bar> \<le> 2 ^ 53"
  ultimately have i: "- (2 ^ 63) \<le> i" "i < 2 ^ 63" by linarith+
  show ?thesis
    using i nat_str_digits
    by (cases "i < 0") (auto simp: int_literal_def int_str_def Let_def has_prefix_iff nat_str_hd_not_minus)
qed

lemma map_snd_cong:
  "\<forall>x\<in>set kds. f (snd x) = g (snd x) \<Longrightarrow> map (\<lambda>kd. (fst kd, f (snd kd))) kds = map (\<lambda>kd. (fst kd, g (snd kd))) kds"
  by simp

lemma json_detail_json: "exact_detail d \<Longrightarrow> json_detail (detail_json d) = norm_detail d"
proof (induction d)
  case (DInt i)
  then show ?case by (simp add: small_int_def int_literal_int)
next
  case (DObject kds)
  then have e: "\<forall>x\<in>set kds. json_detail (detail_json (snd x)) = norm_detail (snd x)"
    by (metis prod.collapse snds.intros exact_detail.simps(4))
  have "json_detail (detail_json (DObject kds)) = DObject (map_entries (map (\<lambda>kd. (fst kd, json_detail (detail_json (snd kd)))) kds))"
    by (simp add: comp_def)
  also have "\<dots> = DObject (map_entries (map (\<lambda>kd. (fst kd, norm_detail (snd kd))) kds))"
    unfolding map_snd_cong [where f = "\<lambda>d. json_detail (detail_json d)", OF e] ..
  finally show ?case using DObject.prems by (simp add: comp_def map_entries_distinct)
qed simp_all

text \<open>
  \<open>storable\<close>: a record that is saved without loss, with identifiers, UTF-8 text and exact details; and one that \<open>Load\<close>
  accepts the length of.
\<close>

definition storable :: "stored_command \<Rightarrow> bool" where
  "storable s \<longleftrightarrow>
     sc_id s \<noteq> [] \<and> sc_lease s \<noteq> [] \<and> clean (stored_json s) \<and> numbers_ok (stored_json s)
     \<and> nested_within 0 (stored_json s) \<and> length (stored_text s) \<le> max_stored_bytes
     \<and> (case sc_result s of None \<Rightarrow> True | Some r \<Rightarrow> exact_detail (DObject (cr_details r)))"

lemma details_round_trip:
  assumes "exact_detail (DObject ds)"
  shows "dec_details (details_json ds) [] = Inr (norm_details ds)"
proof -
  have e: "\<forall>kd\<in>set (sort_key fst ds). json_detail (detail_json (snd kd)) = norm_detail (snd kd)"
    using assms json_detail_json by auto
  have "dec_details (details_json ds) [] = Inr (map_entries (map (\<lambda>kd. (fst kd, json_detail (detail_json (snd kd)))) (sort_key fst ds)))"
    by (simp add: details_json_def comp_def)
  also have "\<dots> = Inr (map_entries (map (\<lambda>kd. (fst kd, norm_detail (snd kd))) (sort_key fst ds)))"
    unfolding map_snd_cong [where f = "\<lambda>d. json_detail (detail_json d)", OF e] ..
  also have "map (\<lambda>kd. (fst kd, norm_detail (snd kd))) (sort_key fst ds) = norm_details ds"
    unfolding norm_details_def sort_key_map ..
  also have "map_entries (norm_details ds) = norm_details ds"
  proof -
    have "distinct (map fst (sort_key fst ds))" using assms by (simp add: distinct_map)
    then have "distinct (map fst (norm_details ds))" by (simp add: norm_details_def sort_key_map comp_def)
    then show ?thesis by (simp add: map_entries_distinct) (simp add: norm_details_def sort_key_sort)
  qed
  finally show ?thesis .
qed

lemma result_round_trip:
  "exact_detail (DObject (cr_details r)) \<Longrightarrow> dec_result (result_json r) zero_result = Inr (norm_result r)"
  using details_round_trip [of "cr_details r"]
  by (auto simp: dec_result_def result_json_def zero_result_def match_field_def map_sum_def norm_result_def norm_details_def)

lemma stored_decodes: "storable s \<Longrightarrow> dec_stored (stored_json s) zero_stored = Inr (norm_stored s)"
  by (cases "sc_result s")
     (auto simp: storable_def dec_stored_def stored_json_def zero_stored_def match_field_def map_sum_def norm_stored_def
        dec_result_pointer_def result_round_trip result_json_def simp del: exact_detail.simps
        dest: result_round_trip [unfolded result_json_def])

lemma read_written:
  assumes "storable s"
  shows "read_stored (stored_text s) = Inr (norm_stored s)"
proof -
  from assms have s: "clean_json (stored_json s) = stored_json s" "numbers_ok (stored_json s)"
    "nested_within 0 (stored_json s)" "sc_id s \<noteq> []" "sc_lease s \<noteq> []" "length (stored_text s) \<le> max_stored_bytes"
    by (simp_all add: storable_def clean_fixed)
  then have doc: "json_first (stored_text s) = Some (stored_json s)"
    by (simp add: stored_text_def json_round_trip json_first_document)
  have "stored_text s \<noteq> []" using doc by (auto simp: json_first_def)
  with doc s stored_decodes [OF assms] show ?thesis
    by (simp add: read_stored_def norm_stored_def)
qed

lemma stored_round_trip:
  assumes "storable s" "file_save s k = (None, k')" "file_load k' = (Inr v, k'')"
  shows "v = Some (norm_stored s)"
proof -
  have "dk_file k' = Some (stored_text s)" using file_save_file [OF assms(2)] by simp
  with assms(3) read_written [OF assms(1)] show ?thesis
    by (auto simp: file_load_def attempt_def Let_def split: prod.splits option.splits if_splits)
qed

end
