(* ===== verification/DispatchProps.thy ===== *)
theory DispatchProps
  imports CommandStore
begin

text \<open>
  Properties of the dispatcher, read off the journal, and a dispatcher to run: \<open>memory_dispatcher\<close> is
  \<open>NewCommandDispatcher\<close> on a memory store with a transport that accepts everything and a power
  controller that succeeds.
\<close>

section \<open>Runs\<close>

text \<open>The calls of one dispatch from an environment, in order.\<close>

definition dispatch_events :: "'e dispatcher \<Rightarrow> command \<Rightarrow> 'e \<Rightarrow> event list" where
  "dispatch_events d c e = snd (snd (dispatch (logged d) c (e, [])))"

definition retry_events :: "'e dispatcher \<Rightarrow> 'e \<Rightarrow> event list" where
  "retry_events d e = snd (snd (retry_pending (logged d) (e, [])))"

definition memory_dispatcher :: "stored_command option dispatcher" where
  "memory_dispatcher =
     \<lparr>d_start = (\<lambda>i l m. (None, m)), d_finish = (\<lambda>i r m. (None, m)), d_shutdown = (\<lambda>m. (None, m)),
      d_load = memory_load, d_save = memory_save, d_clear = memory_clear,
      d_executor = None, d_grant = None, d_terminal = None, d_upgrade = None, d_image = None,
      d_transfer = None, d_model = None, d_inventory = None,
      d_bash = (\<lambda>s m. (([], None), m)), d_now = (\<lambda>m. (zero_time, m)), d_ref_ok = (\<lambda>s. None)\<rparr>"

definition shutdown_command :: command where
  "shutdown_command = zero_command\<lparr>cmd_id := ''c1'', cmd_type := ShutdownServer, cmd_version := 1, cmd_lease_token := ''l1''\<rparr>"

lemma memory_dispatcher_runs:
  "d_start memory_dispatcher i l m = (None, m)" "d_finish memory_dispatcher i r m = (None, m)"
  "d_shutdown memory_dispatcher m = (None, m)" "d_load memory_dispatcher m = (Inr m, m)"
  "d_save memory_dispatcher s m = (None, Some s)" "d_clear memory_dispatcher m = (None, None)"
  by (simp_all add: memory_dispatcher_def memory_load_def memory_save_def memory_clear_def)

lemma shutdown_command_simps:
  "cmd_id shutdown_command = ''c1''" "cmd_type shutdown_command = ShutdownServer" "cmd_version shutdown_command = 1"
  "cmd_lease_token shutdown_command = ''l1''"
  by (simp_all add: shutdown_command_def zero_command_def)

lemmas runs = run_steps log_run memory_dispatcher_runs

lemma dispatch_events_trace: "dispatch_trace c (dispatch_events d c e)"
proof -
  have "\<exists>t. dispatch_events d c e = [] @ t \<and> dispatch_trace c t"
    using dispatch_emits [of d c] unfolding emits_def dispatch_events_def by blast
  then show ?thesis by simp
qed

lemma dispatch_events_follow:
  "journaled (cmd_type c) \<Longrightarrow> follows (cmd_id c) (cmd_lease_token c) Idle (dispatch_events d c e)"
  using dispatch_events_trace [of c d e] by (simp add: dispatch_trace_def)

lemma dispatch_events_quiet: "\<not> journaled (cmd_type c) \<Longrightarrow> list_all quiet (dispatch_events d c e)"
  using dispatch_events_trace [of c d e] by (simp add: dispatch_trace_def)

lemma retry_events_follow: "follows i l Retrying (retry_events d e)"
proof -
  have "\<exists>t. retry_events d e = [] @ t \<and> follows i l Retrying t"
    using retry_journal [of i l d] unfolding keeps_def emits_def retry_events_def by blast
  then show ?thesis by simp
qed

lemma quiet_not_effect: "quiet ev \<Longrightarrow> \<not> effect ev"
  by (cases ev) (simp_all add: quiet_def effect_def)

lemma quiet_no_effect: "list_all quiet t \<Longrightarrow> filter effect t = []"
  by (induction t) (auto dest: quiet_not_effect)

lemma effect_journaled:
  assumes "dispatch_events d c e = u @ ev # v" "effect ev"
  shows "journaled (cmd_type c)"
proof (rule ccontr)
  assume "\<not> journaled (cmd_type c)"
  from quiet_no_effect [OF dispatch_events_quiet [OF this], of d e] assms show False by auto
qed

lemma shutdown_dispatch:
  "dispatch (logged memory_dispatcher) shutdown_command = dispatch_shutdown (logged memory_dispatcher) shutdown_command"
  by (simp add: dispatch_def shutdown_command_simps is_environment_command_type_def)

lemma shutdown_run:
  "dispatch_events memory_dispatcher shutdown_command None =
     [EvLoad (Inr None), EvStart ''c1'' ''l1'' None, EvSave (start_record ''c1'' ''l1'') None, EvShutdown,
      EvSave ((start_record ''c1'' ''l1'')\<lparr>sc_result := Some (shutdown_result shutdown_command None)\<rparr>) None,
      EvFinish ''c1'' (shutdown_result shutdown_command None) None, EvClear None]"
  unfolding dispatch_events_def shutdown_dispatch
  by (simp add: dispatch_shutdown_def report_stored_def op_defs log_op_def memory_dispatcher_runs
        shutdown_command_simps started_def start_record_def Let_def)

section \<open>Properties\<close>

text \<open>
  C1. The dispatcher refines the journal. For every command that keeps a record (shutdown, the ten
  environment commands, image deployment, Docker inventory), the calls \<open>Dispatch\<close> makes are a run of
  the abstract journal for the command's identifier and lease, whatever every dependency answers:
  load, acknowledge, record, execute, record the result, report, clear, and nothing after a failure.
\<close>

theorem dispatch_refines_journal:
  assumes "journaled (cmd_type c)"
  shows "follows (cmd_id c) (cmd_lease_token c) Idle (dispatch_events d c e)"
  using assms by (rule dispatch_events_follow)

theorem dispatch_refines_journal_witness:
  "follows ''c1'' ''l1'' Idle (dispatch_events memory_dispatcher shutdown_command None)"
  using dispatch_refines_journal [of shutdown_command memory_dispatcher None]
  by (simp add: shutdown_command_simps journaled_def)

text \<open>
  C2. An effect is never started on impulse. When a dispatch shuts the machine down, changes a pair of
  containers, deploys an image or runs a Docker action, it has found no pending record, the management
  server has acknowledged the start under this command's lease, and the start is on disk.
\<close>

theorem effect_is_acknowledged_and_recorded:
  assumes "dispatch_events d c e = u @ ev # v" "effect ev"
  shows "EvLoad (Inr None) \<in> set u \<and> EvStart (cmd_id c) (cmd_lease_token c) None \<in> set u
    \<and> EvSave (started c) None \<in> set u"
  using effect_prepared [of "cmd_id c" "cmd_lease_token c" u ev v]
    dispatch_events_follow [OF effect_journaled [OF assms], of d e] assms
  by (simp add: start_record_def started_def)

theorem effect_is_acknowledged_and_recorded_witness:
  "EvStart ''c1'' ''l1'' None \<in> set (takeWhile (\<lambda>ev. ev \<noteq> EvShutdown) (dispatch_events memory_dispatcher shutdown_command None))"
  using effect_is_acknowledged_and_recorded
    [of memory_dispatcher shutdown_command None
       "[EvLoad (Inr None), EvStart ''c1'' ''l1'' None, EvSave (start_record ''c1'' ''l1'') None]" EvShutdown
       "[EvSave ((start_record ''c1'' ''l1'')\<lparr>sc_result := Some (shutdown_result shutdown_command None)\<rparr>) None,
         EvFinish ''c1'' (shutdown_result shutdown_command None) None, EvClear None]"]
  by (simp add: shutdown_run effect_def)

text \<open>
  One dispatch executes at most one effect, and a dispatch that finds a record executes none: it
  only reports that record, or refuses because another command's result is pending.
\<close>

theorem pending_record_blocks_execution:
  "length (filter effect (dispatch_events d c e)) \<le> 1 \<and>
   (\<forall>s. EvLoad (Inr (Some s)) \<in> set (dispatch_events d c e) \<longrightarrow> filter effect (dispatch_events d c e) = [])"
proof
  show "length (filter effect (dispatch_events d c e)) \<le> 1"
    using one_effect [OF dispatch_events_follow, of c d e] quiet_no_effect [OF dispatch_events_quiet, of c d e]
    by (cases "journaled (cmd_type c)") auto
  show "\<forall>s. EvLoad (Inr (Some s)) \<in> set (dispatch_events d c e) \<longrightarrow> filter effect (dispatch_events d c e) = []"
    using loaded_no_effect [OF dispatch_events_follow, of c _ d e] quiet_no_effect [OF dispatch_events_quiet, of c d e]
    by (cases "journaled (cmd_type c)") auto
qed

theorem pending_record_blocks_execution_witness:
  "filter effect (dispatch_events memory_dispatcher shutdown_command (Some (start_record ''c2'' ''l2''))) = []"
proof -
  have "dispatch_events memory_dispatcher shutdown_command (Some (start_record ''c2'' ''l2'')) =
      [EvLoad (Inr (Some (start_record ''c2'' ''l2'')))]"
    by (simp add: dispatch_events_def shutdown_dispatch dispatch_shutdown_def op_defs log_op_def memory_dispatcher_runs
        shutdown_command_simps start_record_def)
  then show ?thesis
    using pending_record_blocks_execution [of memory_dispatcher shutdown_command "Some (start_record ''c2'' ''l2'')"]
    by simp
qed

end
