(* ===== verification/CommandProps.thy ===== *)
theory CommandProps
  imports CommandSpec GoJsonPrint
begin

text \<open>
  What \<open>DecodeCommandAt\<close> guarantees of the commands it accepts, as properties, with sample documents.
  A sample is written as a JSON value; its text is what the encoder prints, and the round trip of
  \<open>GoJsonPrint\<close> says that the decoder reads the same value back.
\<close>

section \<open>Decoding a printed document\<close>

definition printable :: "char \<Rightarrow> bool" where
  "printable c \<longleftrightarrow> 32 \<le> byte c \<and> byte c < 128 \<and> byte c \<notin> {34, 92, 60, 62, 38}"

fun printable_json :: "json \<Rightarrow> bool" where
  "printable_json (JStr s) = list_all printable s"
| "printable_json (JArr vs) = (\<forall>v\<in>set vs. printable_json v)"
| "printable_json (JObj kvs) = (\<forall>kv\<in>set kvs. list_all printable (fst kv) \<and> printable_json (snd kv))"
| "printable_json v = True"

lemma printable_utf8: "list_all printable s \<Longrightarrow> utf8_text s"
  by (rule ascii_utf8_text) (auto simp: list_all_iff printable_def)

lemma printable_clean: "printable_json v \<Longrightarrow> clean v"
  by (induction v) (auto simp: printable_utf8)

lemma escape_printable: "list_all printable s \<Longrightarrow> escape_string s = s"
proof (induction s)
  case (Cons c s)
  then have "escape_string (c # s) = c # escape_string s"
    by (simp add: escape_string_def utf8_runes_step [where w = 1] utf8_first_def byte_at_def printable_def
        escape_codes_def utf8_encode_def encode_bytes_def rune_error_def Let_def)
  with Cons show ?case by simp
qed (simp add: escape_string_def utf8_encode_def)

fun token_length :: "jtok \<Rightarrow> nat" where
  "token_length (TStr s) = length s + 2"
| "token_length t = length (token_text t)"

fun printable_token :: "jtok \<Rightarrow> bool" where
  "printable_token (TStr s) = list_all printable s"
| "printable_token t = True"

lemma printable_tokens:
  "printable_json v \<Longrightarrow> list_all printable_token (value_tokens v)"
  "\<forall>v\<in>set vs. printable_json v \<Longrightarrow> list_all printable_token (elements_tokens vs)"
  "\<forall>kv\<in>set kvs. list_all printable (fst kv) \<and> printable_json (snd kv) \<Longrightarrow> list_all printable_token (fields_tokens kvs)"
  by (induction v and vs and kvs rule: value_tokens_elements_tokens_fields_tokens.induct) auto

lemma printable_length: "printable_json v \<Longrightarrow> length (json_text v) = sum_list (map token_length (value_tokens v))"
proof -
  have "list_all printable_token ts \<Longrightarrow> length (concat (map token_text ts)) = sum_list (map token_length ts)" for ts
  proof (induction ts)
    case (Cons t ts)
    then show ?case by (cases t) (auto simp: quoted_def escape_printable)
  qed simp
  then show "printable_json v \<Longrightarrow> ?thesis" by (simp add: json_text_def printable_tokens)
qed

definition sendable :: "json \<Rightarrow> bool" where
  "sendable v \<longleftrightarrow> printable_json v \<and> numbers_ok v \<and> nested_within 0 v \<and> dup_free v
     \<and> sum_list (map token_length (value_tokens v)) \<in> {1..max_command_bytes}"

lemma decode_printed:
  assumes "sendable v" "dec_envelope v zero_command = Inr c"
  shows "decode_command ref_ok (json_text v) now allow = check_command ref_ok now allow v c"
proof -
  have "json_document (json_text v) = Some v"
    using assms(1) by (simp add: sendable_def json_round_trip clean_fixed printable_clean)
  moreover have "0 < length (json_text v)" "length (json_text v) \<le> max_command_bytes"
    using assms(1) by (simp_all add: sendable_def printable_length)
  ultimately show ?thesis using assms by (simp add: sendable_def decode_command_def)
qed

section \<open>Samples\<close>

definition uuid1 :: string where "uuid1 = ''11111111-1111-4111-8111-111111111111''"

definition envelope :: "string \<Rightarrow> (string \<times> json) list \<Rightarrow> json" where
  "envelope t payload = JObj
     [(''commandId'', JStr uuid1), (''type'', JStr t), (''version'', JNum ''1''), (''leaseToken'', JStr uuid1),
      (''leaseExpiresAt'', JStr ''2030-01-01T00:00:00Z''), (''payload'', JObj payload)]"

definition stop_document :: json where
  "stop_document = envelope ''STOP_TRAINING_ENVIRONMENT''
     [(''environmentId'', JStr uuid1), (''operationId'', JStr uuid1),
      (''components'', JArr [JObj [(''componentType'', JStr ''EDITOR''), (''containerName'', JStr ''ed1''),
         (''configFingerprint'', JStr ''0000000000000000000000000000000000000000000000000000000000000000'')]])]"

definition terminal_document :: json where
  "terminal_document = envelope ''OPEN_ROOT_TERMINAL''
     [(''sessionId'', JStr uuid1),
      (''relayUrl'', JStr ''wss://r/terminal/v1/agent/11111111-1111-4111-8111-111111111111''),
      (''agentConnectionDeadline'', JStr ''2030-01-01T00:00:00Z''), (''idleTimeoutSeconds'', JNum ''600''),
      (''absoluteExpiresAt'', JStr ''2030-01-01T02:00:00Z'')]"

definition accepted :: "json \<Rightarrow> command" where
  "accepted v = (case dec_envelope v zero_command of Inl e \<Rightarrow> zero_command
     | Inr c \<Rightarrow> (case check_command (\<lambda>s. None) zero_time False v c of Inl e \<Rightarrow> zero_command | Inr c' \<Rightarrow> c'))"

lemmas sample_defs = stop_document_def terminal_document_def envelope_def uuid1_def

lemma sample_numbers: "rx_match json_number ''1''" "rx_match json_number ''600''"
  by code_simp+

lemma stop_sendable: "sendable stop_document"
  unfolding sendable_def sample_defs
  by (simp add: printable_def sample_numbers max_command_bytes_def del: rx_match.simps)

lemma terminal_sendable: "sendable terminal_document"
  unfolding sendable_def sample_defs
  by (simp add: printable_def sample_numbers max_command_bytes_def del: rx_match.simps)


definition year_2030 :: gotime where
  "year_2030 = \<lparr>instant = 64029052800 * second_ns, utc_loc = True\<rparr>"

definition stop_raw :: command where
  "stop_raw = zero_command\<lparr>cmd_id := uuid1, cmd_type := StopTrainingEnvironment, cmd_version := 1,
     cmd_lease_token := uuid1, cmd_lease_expires_at := year_2030,
     cmd_payload := (case stop_document of JObj kvs \<Rightarrow> map_of kvs ''payload'' | _ \<Rightarrow> None)\<rparr>"

definition stop_payload :: environment_payload where
  "stop_payload = \<lparr>ev_environment_id = uuid1, ev_operation_id = uuid1, ev_workspace_relative_path = [],
     ev_components = [zero_component\<lparr>ec_component_type := ''EDITOR'', ec_container_name := ''ed1'',
       ec_config_fingerprint := replicate 64 (CHR ''0'')\<rparr>]\<rparr>"

definition stop_command :: command where
  "stop_command = stop_raw\<lparr>cmd_environment := Some stop_payload\<rparr>"

definition terminal_raw :: command where
  "terminal_raw = zero_command\<lparr>cmd_id := uuid1, cmd_type := OpenRootTerminal, cmd_version := 1,
     cmd_lease_token := uuid1, cmd_lease_expires_at := year_2030,
     cmd_payload := (case terminal_document of JObj kvs \<Rightarrow> map_of kvs ''payload'' | _ \<Rightarrow> None)\<rparr>"

definition terminal_payload1 :: terminal_payload where
  "terminal_payload1 = \<lparr>tp_session_id = uuid1,
     tp_relay_url = ''wss://r/terminal/v1/agent/11111111-1111-4111-8111-111111111111'',
     tp_agent_connection_deadline = year_2030, tp_idle_timeout_seconds = 600,
     tp_absolute_expires_at = \<lparr>instant = 64029060000 * second_ns, utc_loc = True\<rparr>\<rparr>"

definition terminal_command :: command where
  "terminal_command = terminal_raw\<lparr>cmd_terminal := Some terminal_payload1\<rparr>"

lemma stop_envelope: "dec_envelope stop_document zero_command = Inr stop_raw" by code_simp

lemma terminal_envelope: "dec_envelope terminal_document zero_command = Inr terminal_raw" by code_simp

lemma uuid1_patterns: "rx_match uuid_pattern uuid1" "rx_match canonical_uuid_pattern uuid1" by code_simp+

lemma stop_decoded: "decode_strict dec_environment zero_environment (cmd_payload stop_raw) = Inr stop_payload" by code_simp

lemma terminal_decoded: "decode_strict dec_terminal zero_terminal (cmd_payload terminal_raw) = Inr terminal_payload1"
  by code_simp

lemma terminal_lease_raw: "lease_raw terminal_document = Some (JStr ''2030-01-01T00:00:00Z'')" by code_simp

lemma terminal_raws: "terminal_raw_fields (cmd_payload terminal_raw) =
    (Some (JStr ''2030-01-01T00:00:00Z''), Some (JStr ''2030-01-01T02:00:00Z''))"
  by code_simp

lemma canonical_times: "is_canonical_time (Some (JStr ''2030-01-01T00:00:00Z'')) year_2030"
  "is_canonical_time (Some (JStr ''2030-01-01T02:00:00Z'')) (tp_absolute_expires_at terminal_payload1)"
  by code_simp+

lemma terminal_url: "validate_terminal_relay_url (tp_relay_url terminal_payload1) uuid1 False = None"
  by code_simp

lemma terminal_valid: "validate_terminal (cmd_payload terminal_raw) terminal_payload1 zero_time False = None"
  using canonical_times terminal_url
  by (simp add: validate_terminal_def terminal_raws uuid1_patterns terminal_payload1_def year_2030_def two_hours_def
      time_defs zero_time_def del: rx_match.simps)

lemma stop_valid: "validate_environment StopTrainingEnvironment stop_payload = None" by code_simp

lemma sample_fields: "cmd_type stop_raw = StopTrainingEnvironment" "cmd_type terminal_raw = OpenRootTerminal"
  "cmd_id stop_raw = uuid1" "cmd_id terminal_raw = uuid1" "cmd_lease_token stop_raw = uuid1"
  "cmd_lease_token terminal_raw = uuid1" "cmd_version stop_raw = 1" "cmd_version terminal_raw = 1"
  "cmd_lease_expires_at stop_raw = year_2030" "cmd_lease_expires_at terminal_raw = year_2030"
  "\<not> is_zero year_2030"
  by (simp_all add: stop_raw_def terminal_raw_def year_2030_def time_defs)

lemma stop_accepted: "decode_command (\<lambda>s. None) (json_text stop_document) zero_time False = Inr stop_command"
  unfolding decode_printed [OF stop_sendable stop_envelope] check_command_def sample_fields Let_def
  by (simp add: uuid1_patterns sample_fields decode_environment_def stop_decoded stop_valid
      is_environment_command_type_def stop_command_def del: rx_match.simps)

lemma terminal_accepted: "decode_command (\<lambda>s. None) (json_text terminal_document) zero_time False = Inr terminal_command"
  unfolding decode_printed [OF terminal_sendable terminal_envelope] check_command_def sample_fields Let_def
  by (simp add: uuid1_patterns sample_fields decode_terminal_def terminal_decoded terminal_valid terminal_lease_raw canonical_times
      terminal_command_def del: rx_match.simps)

text \<open>An upgrade that has no identifier, no version and no lease.\<close>

definition upgrade_document :: json where
  "upgrade_document = JObj [(''type'', JStr ''UPGRADE_AGENT''),
     (''payload'', JObj [(''targetVersion'', JStr ''1.2.3''), (''downloadPath'', JStr ''/agent/v1/upgrade-binary''),
        (''sha256'', JStr ''0000000000000000000000000000000000000000000000000000000000000000'')])]"

definition upgrade_raw :: command where
  "upgrade_raw = zero_command\<lparr>cmd_type := UpgradeAgent,
     cmd_payload := (case upgrade_document of JObj kvs \<Rightarrow> map_of kvs ''payload'' | _ \<Rightarrow> None)\<rparr>"

lemma upgrade_sendable: "sendable upgrade_document"
  unfolding sendable_def upgrade_document_def
  by (simp add: printable_def max_command_bytes_def del: rx_match.simps)

lemma upgrade_envelope: "dec_envelope upgrade_document zero_command = Inr upgrade_raw" by code_simp

lemma upgrade_decoded: "\<not> isl (decode_upgrade upgrade_raw)" by code_simp

section \<open>Terminal commands\<close>

definition terminal_spec :: "gotime \<Rightarrow> bool \<Rightarrow> terminal_payload \<Rightarrow> bool" where
  "terminal_spec now allow p \<longleftrightarrow>
     is_canonical_uuid (tp_session_id p) \<and> tp_idle_timeout_seconds p = 600 \<and>
     instant now < instant (tp_agent_connection_deadline p) \<and>
     instant (tp_agent_connection_deadline p) < instant (tp_absolute_expires_at p) \<and>
     instant (tp_absolute_expires_at p) \<le> instant (tp_agent_connection_deadline p) + 7200 * second_ns \<and>
     (\<exists>u. url_parse (tp_relay_url p) = Some u \<and> hostname u \<noteq> [] \<and> \<not> u_user u \<and> u_raw_query u = [] \<and> u_fragment u = [] \<and>
        u_path u = ''/terminal/v1/agent/'' @ tp_session_id p \<and>
        (u_scheme u = ''wss'' \<or> allow \<and> u_scheme u = ''ws'' \<and> is_exact_loopback (hostname u)))"

lemma validate_terminal_sound: "validate_terminal raw p now allow = None \<Longrightarrow> terminal_spec now allow p"
  unfolding validate_terminal_def guards validate_terminal_relay_url_def Let_def
  by (auto simp: terminal_spec_def guards terminal_path_def time_defs two_hours_def split: option.splits)

lemma accepted_terminal:
  assumes "decode_command ref_ok data now allow = Inr c" "cmd_type c = OpenRootTerminal"
  shows "\<exists>p. cmd_terminal c = Some p \<and> terminal_spec now allow p"
  using assms(1)
proof (rule decode_command_cases)
  fix doc b assume b: "check_command ref_ok now allow doc b = Inr c"
  have t: "cmd_type b = OpenRootTerminal" using check_command_envelope [OF b] assms(2) by simp
  have "decode_terminal now allow b = Inr c"
    using b by (cases rule: check_command_cases) (use t in \<open>simp_all add: is_environment_command_type_def\<close>)
  then obtain p where "c = b\<lparr>cmd_terminal := Some p\<rparr>" "validate_terminal (cmd_payload b) p now allow = None"
    unfolding decode_terminal_def guards by blast
  with validate_terminal_sound show ?thesis by auto
qed

section \<open>Properties\<close>

text \<open>
  C3. The payload pointer matches the type. Of a command \<open>DecodeCommandAt\<close> accepts, exactly the
  pointer field that belongs to the command's type is set (none for a shutdown), so that no handler
  of the dispatcher dereferences a nil payload or acts on a payload of another type.
\<close>

theorem accepted_command_payload:
  "decode_command ref_ok data now allow = Inr c \<Longrightarrow> slots c = slot_of (cmd_type c)"
  by (rule accepted_slots)

theorem accepted_command_payload_witness: "slots stop_command = {SlotEnvironment}"
  using accepted_command_payload [OF stop_accepted]
  by (simp add: stop_command_def sample_fields slot_of_def)

text \<open>
  Accepted identifiers are safe in a URL path. Apart from the two legacy types, an accepted command
  has version 1 and UUIDs as identifier and lease token (lower-case ones for a terminal), so both
  consist of letters, digits and dashes only and can be spliced into the paths of the client.
\<close>

theorem accepted_command_identity:
  assumes "decode_command ref_ok data now allow = Inr c" "cmd_type c \<notin> {UpgradeAgent, ExecuteTerminalInput}"
  shows "cmd_version c = 1 \<and> (is_uuid (cmd_id c) \<or> is_canonical_uuid (cmd_id c)) \<and>
    list_all (\<lambda>ch. is_alnum ch \<or> ch = CHR ''-'') (cmd_id c @ cmd_lease_token c)"
  using accepted_ident [OF assms]
  by (auto simp: ident_ok_def Let_def uuid_chars canonical_uuid_chars split: if_splits)

theorem accepted_command_identity_witness: "cmd_version stop_command = 1"
  using accepted_command_identity [OF stop_accepted]
  by (simp add: stop_command_def sample_fields)

text \<open>
  An accepted environment command satisfies the specification of its payload: the identifiers are
  UUIDs, there are one or two components of different types, a create or restore has a workspace and
  sound resources and no host port twice, and any other operation carries no create fields.
\<close>

theorem accepted_environment_spec:
  assumes "decode_command ref_ok data now allow = Inr c" "is_environment_command_type (cmd_type c)"
  shows "\<exists>p. cmd_environment c = Some p \<and> environment_spec (cmd_type c) p"
  using accepted_environment [OF assms] by blast

theorem accepted_environment_spec_witness: "environment_spec StopTrainingEnvironment stop_payload"
  using accepted_environment_spec [OF stop_accepted]
  by (simp add: stop_command_def sample_fields is_environment_command_type_def)

text \<open>
  C4. \<open>validateEnvironment\<close> is exact. The loop over the components with its two maps accepts a payload
  precisely when the declarative specification holds: nothing specified is rejected.
\<close>

theorem environment_validation_exact: "validate_environment t p = None \<longleftrightarrow> environment_spec t p"
  by (rule validate_environment_spec)

text \<open>
  C5. An accepted terminal is bounded in time and goes to one place: its connection deadline is in the
  future, it expires after that deadline and at most two hours later, and its relay is
  \<open>/terminal/v1/agent/<session>\<close> on a \<open>wss\<close> host (\<open>ws\<close> only to the loopback address and only when
  allowed), with no user, query or fragment.
\<close>

theorem accepted_terminal_bounded:
  assumes "decode_command ref_ok data now allow = Inr c" "cmd_type c = OpenRootTerminal"
  shows "\<exists>p. cmd_terminal c = Some p \<and> terminal_spec now allow p"
  using assms by (rule accepted_terminal)

theorem accepted_terminal_bounded_witness: "terminal_spec zero_time False terminal_payload1"
  using accepted_terminal_bounded [OF terminal_accepted]
  by (simp add: terminal_command_def sample_fields)

text \<open>
  The two legacy types are accepted before the identifier, version and lease checks: an upgrade
  with no identifier, version 0 and no lease is a valid command.
\<close>

theorem upgrade_needs_no_identity:
  "\<exists>c. decode_command (\<lambda>s. None) (json_text upgrade_document) zero_time False = Inr c \<and>
     cmd_type c = UpgradeAgent \<and> cmd_id c = [] \<and> cmd_lease_token c = [] \<and> cmd_version c = 0 \<and> is_zero (cmd_lease_expires_at c)"
proof -
  have t: "cmd_type upgrade_raw = UpgradeAgent" by (simp add: upgrade_raw_def)
  obtain c where c: "decode_upgrade upgrade_raw = Inr c" using upgrade_decoded by (auto simp: isl_def) (meson sum.exhaust)
  then have "check_command (\<lambda>s. None) zero_time False upgrade_document upgrade_raw = Inr c"
    by (simp add: check_command_def t)
  from this check_command_envelope [OF this] show ?thesis
    by (intro exI [of _ c])
       (simp add: decode_printed [OF upgrade_sendable upgrade_envelope] t, simp add: upgrade_raw_def zero_command_def is_zero_def zero_time_def)
qed

end
