(* ===== verification/Monitors.thy ===== *)
theory Monitors
  imports Traces
begin

text \<open>
  Monitors: automata that read the events of a logged handler. \<open>monitored step s m Q\<close> says that, whatever
  the environment, the monitor started in \<open>s\<close> ends in a state that satisfies \<open>Q\<close> with the handler's
  result. The rules execute a handler symbolically, as a Hoare logic over the monitor's state.

  The combinators \<open>check_op\<close>, \<open>need_op\<close> and \<open>undo_op\<close> are the early returns of handlers that return a value
  or an error; \<open>undo_op\<close> compensates before it returns the error.
\<close>

section \<open>Handlers that return a value or an error\<close>

definition check_op :: "'e err_op \<Rightarrow> (goerr \<Rightarrow> goerr) \<Rightarrow> ('e, 'a) res_op \<Rightarrow> ('e, 'a) res_op" where
  "check_op m w k = op_bind m (\<lambda>r. case r of Some x \<Rightarrow> op_return (Inl (w x)) | None \<Rightarrow> k)"

definition need_op :: "('e, 'b) res_op \<Rightarrow> (goerr \<Rightarrow> goerr) \<Rightarrow> ('b \<Rightarrow> ('e, 'a) res_op) \<Rightarrow> ('e, 'a) res_op" where
  "need_op m w k = op_bind m (\<lambda>r. case r of Inl x \<Rightarrow> op_return (Inl (w x)) | Inr v \<Rightarrow> k v)"

definition undo_op :: "'e err_op \<Rightarrow> ('e, unit) op \<Rightarrow> (goerr \<Rightarrow> goerr) \<Rightarrow> ('e, 'a) res_op \<Rightarrow> ('e, 'a) res_op" where
  "undo_op m undo w k =
     op_bind m (\<lambda>r. case r of Some x \<Rightarrow> op_bind undo (\<lambda>_. op_return (Inl (w x))) | None \<Rightarrow> k)"

text \<open>Calls whose errors are ignored, one after another.\<close>

fun run_all :: "('n \<Rightarrow> 'e err_op) \<Rightarrow> 'n list \<Rightarrow> ('e, unit) op" where
  "run_all f [] = op_return ()"
| "run_all f (n # ns) = op_bind (f n) (\<lambda>_. run_all f ns)"

lemmas res_op_defs = check_op_def need_op_def undo_op_def op_bind_def op_return_def

section \<open>Monitors\<close>

definition monitored :: "('s \<Rightarrow> 'v \<Rightarrow> 's) \<Rightarrow> 's \<Rightarrow> ('e \<times> 'v list, 'r) op \<Rightarrow> ('r \<Rightarrow> 's \<Rightarrow> bool) \<Rightarrow> bool" where
  "monitored step s m Q \<longleftrightarrow> emits m (\<lambda>r t. Q r (foldl step s t))"

lemma monitored_run: "monitored step s m Q \<Longrightarrow> Q (fst (m (e, []))) (foldl step s (snd (snd (m (e, [])))))"
  unfolding monitored_def emits_def by (metis append_Nil)

lemma monitored_conseq: "monitored step s m Q \<Longrightarrow> (\<And>r s'. Q r s' \<Longrightarrow> R r s') \<Longrightarrow> monitored step s m R"
  unfolding monitored_def by (rule emits_conseq)

lemma monitored_return: "Q x s \<Longrightarrow> monitored step s (op_return x) Q"
  unfolding monitored_def by (rule emits_return) simp

lemma monitored_log: "(\<And>x. Q x (step s (ev x))) \<Longrightarrow> monitored step s (log_op ev m) Q"
  unfolding monitored_def by (rule emits_log) simp

lemma monitored_bind:
  assumes "monitored step s m R" "\<And>x s'. R x s' \<Longrightarrow> monitored step s' (f x) Q"
  shows "monitored step s (op_bind m f) Q"
  unfolding monitored_def
proof (rule emits_bind)
  show "emits m (\<lambda>r t. R r (foldl step s t))" using assms(1) by (simp add: monitored_def)
  fix x t assume "R x (foldl step s t)"
  from assms(2) [OF this] show "emits (f x) (\<lambda>y u. Q y (foldl step s (t @ u)))" by (simp add: monitored_def)
qed

lemma monitored_if: "(b \<Longrightarrow> monitored step s x Q) \<Longrightarrow> (\<not> b \<Longrightarrow> monitored step s y Q) \<Longrightarrow> monitored step s (if b then x else y) Q"
  by simp

lemma monitored_option:
  "(x = None \<Longrightarrow> monitored step s a Q) \<Longrightarrow> (\<And>v. x = Some v \<Longrightarrow> monitored step s (b v) Q) \<Longrightarrow>
   monitored step s (case x of None \<Rightarrow> a | Some v \<Rightarrow> b v) Q"
  by (cases x) auto

lemma monitored_sum:
  "(\<And>e. x = Inl e \<Longrightarrow> monitored step s (a e) Q) \<Longrightarrow> (\<And>v. x = Inr v \<Longrightarrow> monitored step s (b v) Q) \<Longrightarrow>
   monitored step s (case x of Inl e \<Rightarrow> a e | Inr v \<Rightarrow> b v) Q"
  by (cases x) auto

lemma monitored_prod:
  "(\<And>a b. x = (a, b) \<Longrightarrow> monitored step s (f a b) Q) \<Longrightarrow> monitored step s (case x of (a, b) \<Rightarrow> f a b) Q"
  by (cases x) auto

lemma monitored_Let: "monitored step s (f v) Q \<Longrightarrow> monitored step s (let x = v in f x) Q"
  by simp

lemma monitored_check:
  assumes "monitored step s m (\<lambda>r s'. case r of Some x \<Rightarrow> Q (Inl (w x)) s' | None \<Rightarrow> monitored step s' k Q)"
  shows "monitored step s (check_op m w k) Q"
  unfolding check_op_def by (rule monitored_bind [OF assms]) (auto intro: monitored_return split: option.splits)

lemma monitored_need:
  assumes "monitored step s m (\<lambda>r s'. case r of Inl x \<Rightarrow> Q (Inl (w x)) s' | Inr v \<Rightarrow> monitored step s' (k v) Q)"
  shows "monitored step s (need_op m w k) Q"
  unfolding need_op_def by (rule monitored_bind [OF assms]) (auto intro: monitored_return split: sum.splits)

lemma monitored_undo:
  assumes "monitored step s m (\<lambda>r s'. case r of
      Some x \<Rightarrow> monitored step s' undo (\<lambda>_ s''. Q (Inl (w x)) s'') | None \<Rightarrow> monitored step s' k Q)"
  shows "monitored step s (undo_op m undo w k) Q"
  unfolding undo_op_def
proof (rule monitored_bind [OF assms], goal_cases)
  case (1 x s')
  then show ?case
    by (cases x) (auto intro: monitored_bind monitored_return)
qed

lemma monitored_try_err:
  assumes "monitored step s m (\<lambda>r s'. case r of Some x \<Rightarrow> Q (Some (w x)) s' | None \<Rightarrow> monitored step s' k Q)"
  shows "monitored step s (try_err m w k) Q"
  unfolding try_err_def by (rule monitored_bind [OF assms]) (auto intro: monitored_return split: option.splits)

lemma monitored_try_res:
  assumes "monitored step s m (\<lambda>r s'. case r of Inl x \<Rightarrow> Q (Some (w x)) s' | Inr v \<Rightarrow> monitored step s' (k v) Q)"
  shows "monitored step s (try_res m w k) Q"
  unfolding try_res_def by (rule monitored_bind [OF assms]) (auto intro: monitored_return split: sum.splits)

lemmas monitored_intros = monitored_Let monitored_if monitored_option monitored_sum monitored_prod monitored_check
  monitored_need monitored_undo monitored_try_err monitored_try_res monitored_log monitored_return

end
