(* ===== verification/StoreClaims.thy ===== *)
theory StoreClaims
  imports DispatchProps CommandProps Monitors
begin

text \<open>
  More properties of the dispatcher: what it guarantees across crashes and restarts, the order of
  recording, reporting and clearing, the grant that every change of an environment needs, and the file
  store under it.
\<close>

section \<open>Across crashes\<close>

text \<open>
  At most one execution for each record, whatever crashes. Take any history of complete and
  interrupted dispatches and retries, in any order, on a store that answers a load with something it may
  hold. Before the first of two effects its command was recorded, with nothing done to the store since;
  and between the two effects the server has taken the report of that very command, and its record
  was cleared right after.
\<close>

theorem effects_separated:
  assumes "history d h" "store_answers C h" "h = u @ ev1 # m @ ev2 # v" "effect ev1" "effect ev2"
  shows "\<exists>i l u1 u2 a r x b.
     u = u1 @ EvSave (start_record i l) None # u2 \<and> list_all (\<lambda>e. \<not> store_event e) u2 \<and>
     m = a @ [EvFinish i r None, EvClear x] @ b"
  by (rule separated [OF history_journal [OF assms(1)] assms(2-)])

theorem effects_separated_witness:
  "\<exists>a r x b. [EvSave ((start_record ''c1'' ''l1'')\<lparr>sc_result := Some (shutdown_result shutdown_command None)\<rparr>) None,
      EvFinish ''c1'' (shutdown_result shutdown_command None) None, EvClear None, EvLoad (Inr None), EvStart ''c1'' ''l1'' None,
      EvSave (start_record ''c1'' ''l1'') None] = a @ [EvFinish ''c1'' r None, EvClear x] @ b"
proof -
  let ?run = "dispatch_events memory_dispatcher shutdown_command None"
  have one: "stopped_run (snd (snd (dispatch (logged memory_dispatcher) shutdown_command (None, [])))) ?run"
    by (simp add: stopped_run_def dispatch_events_def)
  have "history memory_dispatcher (([] @ ?run) @ ?run)"
    by (rule history_dispatch [OF history_dispatch [OF history_nil one] one])
  then have h: "history memory_dispatcher (?run @ ?run)" by simp
  have s: "store_answers {None} (?run @ ?run)" by (simp add: shutdown_run)
  let ?start = "EvSave (start_record ''c1'' ''l1'') None"
  let ?m = "[EvSave ((start_record ''c1'' ''l1'')\<lparr>sc_result := Some (shutdown_result shutdown_command None)\<rparr>) None,
      EvFinish ''c1'' (shutdown_result shutdown_command None) None, EvClear None, EvLoad (Inr None), EvStart ''c1'' ''l1'' None, ?start]"
  have split: "?run @ ?run = [EvLoad (Inr None), EvStart ''c1'' ''l1'' None, ?start] @ EvShutdown # ?m @ EvShutdown # drop 4 ?run"
    by (simp add: shutdown_run)
  from effects_separated [OF h s split] obtain i l u1 u2 a r x b where
    "[EvLoad (Inr None), EvStart ''c1'' ''l1'' None, ?start] = u1 @ EvSave (start_record i l) None # u2"
    and m: "?m = a @ [EvFinish i r None, EvClear x] @ b"
    by (auto simp: effect_def)
  from m have "EvFinish i r None \<in> set ?m" by (simp only: m) simp
  then have "i = ''c1''" by simp
  with m show ?thesis by blast
qed

section \<open>Recording, reporting, clearing\<close>

text \<open>
  C13. The dispatch of a command that is recorded (an operation on an environment, a shutdown, an image deployment, an
  action on Docker's inventory) reports a final result only when that result is on disk, and clears the record only
  right after the server took the report. A report that is not final is the progress of an image deployment. The other
  types (file transfers, model workspaces, terminal input and upgrades) have no record: their handlers never save.
\<close>

theorem reports_are_durable:
  assumes "journaled (cmd_type c)"
  shows "(\<forall>u i r x v. dispatch_events d c e = u @ EvFinish i r x # v \<longrightarrow> \<not> progress_result (cmd_lease_token c) r \<longrightarrow>
      (\<exists>s. sc_id s = i \<and> sc_result s = Some r \<and> durable u s)) \<and>
    (\<forall>u x v. dispatch_events d c e = u @ EvClear x # v \<longrightarrow> (\<exists>w i r. u = w @ [EvFinish i r None]))"
proof -
  note f = dispatch_events_follow [OF assms, of d e]
  show ?thesis
    using report_durable [of "cmd_id c" "cmd_lease_token c" Idle] clear_reported [of "cmd_id c" "cmd_lease_token c" Idle] f
    by auto
qed

theorem reports_are_durable_witness:
  "durable [EvLoad (Inr None), EvStart ''c1'' ''l1'' None, EvSave (start_record ''c1'' ''l1'') None, EvShutdown,
      EvSave ((start_record ''c1'' ''l1'')\<lparr>sc_result := Some (shutdown_result shutdown_command None)\<rparr>) None]
     ((start_record ''c1'' ''l1'')\<lparr>sc_result := Some (shutdown_result shutdown_command None)\<rparr>)"
  using reports_are_durable [of shutdown_command memory_dispatcher None]
  by (simp add: durable_def)

section \<open>The grant\<close>

text \<open>The last two events, and whether every change of an environment so far came right after a valid grant.\<close>

fun granted :: "event option \<Rightarrow> event option \<Rightarrow> bool" where
  "granted (Some (EvGrant g)) (Some (EvNow now)) = grant_valid g now"
| "granted a b = False"

lemma granted_events: "granted a b \<Longrightarrow> \<exists>g now. a = Some (EvGrant g) \<and> b = Some (EvNow now) \<and> grant_valid g now"
  by (cases "(a, b)" rule: granted.cases) auto

fun grant_step :: "event option \<times> event option \<times> bool \<Rightarrow> event \<Rightarrow> event option \<times> event option \<times> bool" where
  "grant_step (a, b, ok) (EvPair q p) =
     (b, Some (EvPair q p), ok \<and> granted a b)"
| "grant_step (a, b, ok) ev = (b, Some ev, ok)"

abbreviation fine :: "'r \<Rightarrow> event option \<times> event option \<times> bool \<Rightarrow> bool" where
  "fine \<equiv> \<lambda>r s. snd (snd s)"

definition no_change :: "event \<Rightarrow> bool" where
  "no_change ev = (case ev of EvPair q p \<Rightarrow> False | _ \<Rightarrow> True)"

lemma no_change_step: "no_change ev \<Longrightarrow> grant_step s ev = (fst (snd s), Some ev, snd (snd s))"
  by (cases "(s, ev)" rule: grant_step.cases) (simp_all add: no_change_def)

lemma fine_log: "(\<And>x. no_change (ev x)) \<Longrightarrow> snd (snd s) \<Longrightarrow> monitored grant_step s (log_op ev m) fine"
  by (rule monitored_log) (simp add: no_change_step)

lemma fine_bind:
  "monitored grant_step s m fine \<Longrightarrow> (\<And>x s'. snd (snd s') \<Longrightarrow> monitored grant_step s' (f x) fine) \<Longrightarrow>
   monitored grant_step s (op_bind m f) fine"
  by (rule monitored_bind)

lemma fine_return: "snd (snd s) \<Longrightarrow> monitored grant_step s (op_return x) fine"
  by (rule monitored_return)

lemma fine_try_err:
  "monitored grant_step s m fine \<Longrightarrow> (\<And>s'. snd (snd s') \<Longrightarrow> monitored grant_step s' k fine) \<Longrightarrow>
   monitored grant_step s (try_err m w k) fine"
  unfolding try_err_def by (erule fine_bind) (auto intro: fine_return split: option.split)

lemma fine_try_res:
  "monitored grant_step s m fine \<Longrightarrow> (\<And>v s'. snd (snd s') \<Longrightarrow> monitored grant_step s' (k v) fine) \<Longrightarrow>
   monitored grant_step s (try_res m w k) fine"
  unfolding try_res_def by (erule fine_bind) (auto intro: fine_return split: sum.split)

lemma no_change_simps [simp]:
  "no_change (EvLoad f)" "no_change (EvSave r x)" "no_change (EvClear x)" "no_change (EvStart i l x)" "no_change (EvFinish i cr x)"
  "no_change (EvGrant g)" "no_change (EvNow n)"
  by (simp_all add: no_change_def)

lemmas fine_intros = fine_try_err fine_try_res fine_bind fine_log fine_return

lemma fine_stored: "snd (snd s) \<Longrightarrow> monitored grant_step s (report_stored (logged d) r) fine"
  unfolding report_stored_def logged_simps
  by (cases "sc_result r") (auto intro!: fine_intros)

lemma fine_found: "snd (snd s) \<Longrightarrow> monitored grant_step s (report_found (logged d) l msg r) fine"
  unfolding report_found_def logged_simps Let_def
  by (cases "sc_result r") (auto intro!: fine_intros fine_stored)

lemma fine_change:
  assumes "grant_valid g now"
  shows "monitored grant_step (Some (EvGrant g), Some (EvNow now), True) (op_bind (log_op (\<lambda>_. EvPair q p) m) (\<lambda>r. case r of Inl e \<Rightarrow> op_return (a e) | Inr v \<Rightarrow> op_return (b v))) fine"
proof (rule monitored_bind [where R = fine], rule monitored_log)
qed (use assms in \<open>auto intro: fine_return split: sum.split\<close>)

lemma fine_run:
  assumes "grant_valid g now"
  shows "monitored grant_step (Some (EvGrant g), Some (EvNow now), True) (run_environment (log_executor x) c p) fine"
  unfolding run_environment_def environment_operation_def log_executor_simps
  by (simp add: fine_return fine_change [OF assms])

lemma fine_execute:
  assumes "snd (snd s)" "d_grant d = Some current" "\<not> is_environment_stop (cmd_type c)"
  shows "monitored grant_step s (execute_environment (logged d) (log_executor x) c p) fine"
proof -
  have grant: "monitored grant_step s (log_op EvGrant current) (\<lambda>g s. \<exists>a. s = (a, Some (EvGrant g), True))"
    by (rule monitored_log) (simp add: no_change_step assms(1))
  have clock: "monitored grant_step (a, Some (EvGrant g), True) (log_op EvNow m) (\<lambda>now s. s = (Some (EvGrant g), Some (EvNow now), True))" for a g m
    by (rule monitored_log) (simp add: no_change_step)
  have "monitored grant_step s (op_bind (log_op EvGrant current) (\<lambda>g. op_bind (log_op EvNow m) (\<lambda>now.
      if \<not> grant_valid g now then op_return r else run_environment (log_executor x) c p))) fine" for m r
    by (rule monitored_bind [OF grant], elim exE, hypsubst, rule monitored_bind [OF clock])
       (auto intro: fine_return fine_run)
  then show ?thesis by (simp add: execute_environment_def assms)
qed

lemma fine_environment:
  assumes "d_grant d = Some current" "\<not> is_environment_stop (cmd_type c)"
  shows "monitored grant_step (None, None, True) (dispatch_environment (logged d) (log_executor x) c p) fine"
  unfolding dispatch_environment_def logged_simps Let_def
  by (auto intro!: fine_intros fine_found fine_stored fine_execute [OF _ assms] split: option.split prod.split)

lemma granted_change:
  assumes "snd (snd (foldl grant_step (None, None, True) (u @ EvPair q p # v)))"
  shows "\<exists>w g now. u = w @ [EvGrant g, EvNow now] \<and> grant_valid g now"
proof -
  have bad: "\<not> snd (snd (foldl grant_step (a, b, False) t))" for a b t
  proof (induction t arbitrary: a b)
    case (Cons ev t)
    have "\<exists>a' b'. grant_step (a, b, False) ev = (a', b', False)" by (cases ev) auto
    with Cons show ?case by auto
  qed simp
  have last: "fst (foldl grant_step (None, None, True) t) = (case rev t of x # y # _ \<Rightarrow> Some y | _ \<Rightarrow> None) \<and>
      fst (snd (foldl grant_step (None, None, True) t)) = (case rev t of x # _ \<Rightarrow> Some x | _ \<Rightarrow> None)" for t
  proof (induction t rule: rev_induct)
    case (snoc ev t)
    have "fst (grant_step s ev) = fst (snd s) \<and> fst (snd (grant_step s ev)) = Some ev" for s
      by (cases "(s, ev)" rule: grant_step.cases) auto
    with snoc show ?case by (auto split: list.split)
  qed simp
  obtain a b ok where s: "foldl grant_step (None, None, True) u = (a, b, ok)" by (metis prod.collapse)
  from assms bad [of b "Some (EvPair q p)" v] s have "granted a b" by (cases "ok \<and> granted a b") auto
  then obtain g now where g: "a = Some (EvGrant g)" "b = Some (EvNow now)" "grant_valid g now" by (blast dest: granted_events)
  with last [of u] s obtain w where "rev u = EvNow now # EvGrant g # w" by (auto split: list.splits)
  then have "u = rev w @ [EvGrant g, EvNow now]" by (metis append.assoc append_Cons append_Nil rev.simps(2) rev_rev_ident)
  with g show ?thesis by blast
qed

text \<open>
  C14. No environment is created, started, restored or deleted without a grant: right before the executor
  is called, the dispatcher read a grant and then the clock, the grant was allowed, and it had not
  expired. Stopping an environment needs no grant.
\<close>

theorem environment_change_is_granted:
  assumes "is_environment_command_type (cmd_type c)" "\<not> is_environment_stop (cmd_type c)" "d_grant d = Some current"
    "dispatch_events d c e = u @ EvPair q p # v"
  shows "\<exists>w g now. u = w @ [EvGrant g, EvNow now] \<and> og_allowed g \<and> before now (og_expires_at g)"
proof -
  have t: "cmd_type c \<notin> {DockerInventoryAction, DeployImage, TransferFile, ModelWorkspace, ExecuteTerminalInput,
      UpgradeAgent, OpenRootTerminal, ShutdownServer}"
    using assms(1) by (auto simp: is_environment_command_type_def)
  have "monitored grant_step (None, None, True) (dispatch (logged d) c) fine"
    using t assms(1) fine_environment [OF assms(3,2)]
    by (cases "d_executor d"; cases "cmd_environment c") (auto simp: dispatch_def intro: fine_return)
  from monitored_run [OF this, of e] have "snd (snd (foldl grant_step (None, None, True) (dispatch_events d c e)))"
    by (simp add: dispatch_events_def)
  with granted_change [of u q p v] assms(4) show ?thesis by (auto simp: grant_valid_def)
qed

definition idle_executor :: "stored_command option executor" where
  "idle_executor =
     \<lparr>inspect_pair = (\<lambda>p m. (Inr zero_pair, m)), create_pair = (\<lambda>p m. (Inr zero_pair, m)), start_pair = (\<lambda>p m. (Inr zero_pair, m)),
      stop_pair = (\<lambda>p m. (Inr zero_pair, m)), restore_pair = (\<lambda>p m. (Inr zero_pair, m)), delete_pair = (\<lambda>p m. (Inr zero_pair, m))\<rparr>"

definition day_grant :: operation_grant where
  "day_grant = \<lparr>og_allowed = True, og_expires_at = \<lparr>instant = 86400 * second_ns, utc_loc = True\<rparr>\<rparr>"

definition granting_dispatcher :: "stored_command option dispatcher" where
  "granting_dispatcher = memory_dispatcher\<lparr>d_executor := Some idle_executor, d_grant := Some (\<lambda>m. (day_grant, m))\<rparr>"

definition start_command :: command where
  "start_command = shutdown_command\<lparr>cmd_type := StartTrainingEnvironment, cmd_environment := Some zero_environment\<rparr>"

lemma granting_runs:
  "d_start granting_dispatcher i l m = (None, m)" "d_load granting_dispatcher m = (Inr m, m)"
  "d_save granting_dispatcher s m = (None, Some s)" "d_finish granting_dispatcher i r m = (None, m)"
  "d_clear granting_dispatcher m = (None, None)" "d_now granting_dispatcher m = (zero_time, m)"
  "d_executor granting_dispatcher = Some idle_executor" "d_grant granting_dispatcher = Some (\<lambda>m. (day_grant, m))"
  "start_pair idle_executor p m = (Inr zero_pair, m)"
  by (simp_all add: granting_dispatcher_def memory_dispatcher_def memory_load_def memory_save_def memory_clear_def idle_executor_def)

lemma start_run:
  "\<exists>v. dispatch_events granting_dispatcher start_command None =
     [EvLoad (Inr None), EvStart ''c1'' ''l1'' None, EvSave (start_record ''c1'' ''l1'') None, EvGrant day_grant, EvNow zero_time]
     @ EvPair OpStart zero_environment # v"
  by (simp add: dispatch_events_def dispatch_def start_command_def shutdown_command_def zero_command_def is_environment_command_type_def
        dispatch_environment_def execute_environment_def run_environment_def environment_operation_def is_environment_stop_def
        op_defs log_op_def granting_runs day_grant_def grant_valid_def time_defs zero_time_def started_def start_record_def Let_def
        report_stored_def)

theorem environment_change_is_granted_witness: "og_allowed day_grant \<and> before zero_time (og_expires_at day_grant)"
proof -
  obtain v where v: "dispatch_events granting_dispatcher start_command None =
     [EvLoad (Inr None), EvStart ''c1'' ''l1'' None, EvSave (start_record ''c1'' ''l1'') None, EvGrant day_grant, EvNow zero_time]
     @ EvPair OpStart zero_environment # v" using start_run by blast
  have c: "is_environment_command_type (cmd_type start_command)" "\<not> is_environment_stop (cmd_type start_command)"
    by (simp_all add: start_command_def is_environment_command_type_def is_environment_stop_def)
  from environment_change_is_granted [OF c granting_runs(8) v] show ?thesis by auto
qed

section \<open>The file store\<close>

text \<open>
  C15. Whatever operation of the file system fails during a save, the state file afterwards is the old one
  or the complete new record; and a save that reports success has written the new one.
\<close>

theorem save_is_atomic:
  "dk_file (snd (file_save s k)) = Some (stored_text s) \<or>
   (dk_file (snd (file_save s k)) = dk_file k \<and> (\<exists>e. fst (file_save s k) = Some e))"
  using file_save_file [of s k "fst (file_save s k)" "snd (file_save s k)"] by auto

text \<open>The details of a successful operation on an environment are exact, as all details with strings only.\<close>

lemma environment_details_exact: "exact_detail (DObject [(''pair'', pair_details pair)])"
  by (simp add: pair_details_def component_details_def)









end
