(* ===== verification/Agent.thy ===== *)
theory Agent
  imports StoreClaims Decode Complex_Main "HOL-Library.Word"
begin

unbundle bit_operations_syntax

text \<open>
  The agent loop (\<open>internal/runtime/agent.go\<close>) and the store of the current grant
  (\<open>operation_grant.go\<close>). The agent's own state is a part of the world \<open>'w\<close> that its calls act on:
  \<open>ag_state\<close> reads it and \<open>ag_set\<close> writes it. The metrics of a heartbeat are a parameter type \<open>'s\<close>. The
  mutex makes the first and the last part of \<open>SendOnce\<close> a step each; the two loops interleave between
  them.
\<close>

section \<open>State\<close>

record agent_state =
  as_next :: int
  as_backoff :: int
  as_grant :: operation_grant

definition no_grant :: operation_grant where
  "no_grant = \<lparr>og_allowed = False, og_expires_at = zero_time\<rparr>"

definition new_agent :: agent_state where
  "new_agent = \<lparr>as_next = 1, as_backoff = second_ns, as_grant = no_grant\<rparr>"

record 's heartbeat_request =
  hb_agent_id :: string
  hb_boot_id :: string
  hb_sequence :: int
  hb_timestamp :: gotime
  hb_version :: string
  hb_metrics :: 's

record heartbeat_ack =
  ack_accepted :: bool
  ack_sequence :: int
  ack_server_time :: int
  ack_grant :: operation_grant

record ('s, 'w) agent =
  ag_state :: "'w \<Rightarrow> agent_state"
  ag_set :: "agent_state \<Rightarrow> 'w \<Rightarrow> 'w"
  ag_id :: string
  ag_version :: string
  ag_boot_id :: string
  ag_snapshot :: "('w, 's) op"
  ag_heartbeat :: "'s heartbeat_request \<Rightarrow> ('w, heartbeat_ack) res_op"
  ag_poll :: "int \<Rightarrow> ('w, string list) res_op"
  ag_now :: "('w, gotime) op"
  ag_ref_ok :: "string \<Rightarrow> goerr option"

definition current_grant :: "('s, 'w) agent \<Rightarrow> ('w, operation_grant) op" where
  "current_grant g w = (as_grant (ag_state g w), w)"

definition update_grant :: "operation_grant \<Rightarrow> agent_state \<Rightarrow> agent_state" where
  "update_grant g a = a\<lparr>as_grant := g\<rparr>"

section \<open>Heartbeats\<close>

definition max_backoff :: int where
  "max_backoff = 30 * second_ns"

definition sequence_mismatch :: goerr where
  "sequence_mismatch = Plain ''heartbeat acknowledgement sequence mismatch''"

text \<open>What follows the heartbeat, under the mutex.\<close>

definition send_finish :: "int \<Rightarrow> goerr + heartbeat_ack \<Rightarrow> agent_state \<Rightarrow> goerr option \<times> agent_state" where
  "send_finish sequence r a =
     (case r of
        Inl e \<Rightarrow> (Some e, a\<lparr>as_backoff := (if wrap64 (as_backoff a * 2) > max_backoff then max_backoff else wrap64 (as_backoff a * 2))\<rparr>)
      | Inr ack \<Rightarrow>
          if ack_sequence ack \<noteq> sequence then (Some sequence_mismatch, a)
          else (None, (update_grant (ack_grant ack) a)\<lparr>as_next := wrap64 (sequence + 1), as_backoff := second_ns\<rparr>))"

definition send_once :: "('s, 'w) agent \<Rightarrow> 'w err_op" where
  "send_once g w =
     (let sequence = as_next (ag_state g w) in
      case ag_now g w of (now, w1) \<Rightarrow>
      case ag_snapshot g w1 of (metrics, w2) \<Rightarrow>
      case ag_heartbeat g \<lparr>hb_agent_id = ag_id g, hb_boot_id = ag_boot_id g, hb_sequence = sequence, hb_timestamp = now,
             hb_version = ag_version g, hb_metrics = metrics\<rparr> w2 of (r, w3) \<Rightarrow>
      case send_finish sequence r (ag_state g w3) of (x, a) \<Rightarrow> (x, ag_set g a w3))"

section \<open>Commands\<close>

fun decode_all :: "('s, 'w) agent \<Rightarrow> string list \<Rightarrow> command list \<Rightarrow> ('w, command list) res_op" where
  "decode_all g [] decoded = op_return (Inr decoded)"
| "decode_all g (raw # raws) decoded =
     op_bind (ag_now g) (\<lambda>now. case decode_command (ag_ref_ok g) raw now False of
        Inl e \<Rightarrow> op_return (Inl (wrap ''reject invalid command envelope: '' e))
      | Inr c \<Rightarrow> decode_all g raws (decoded @ [c]))"

fun dispatch_all :: "'w dispatcher \<Rightarrow> command list \<Rightarrow> 'w err_op" where
  "dispatch_all d [] = op_return None"
| "dispatch_all d (c # cs) = try_err (dispatch d c) same (dispatch_all d cs)"

definition poll_and_dispatch :: "('s, 'w) agent \<Rightarrow> 'w dispatcher \<Rightarrow> 'w err_op" where
  "poll_and_dispatch g d =
     try_res (ag_poll g 3) same (\<lambda>raws.
     try_res (decode_all g raws []) same (dispatch_all d))"

definition refresh_grant :: "('s, 'w) agent \<Rightarrow> 'w err_op" where
  "refresh_grant g =
     op_bind (current_grant g) (\<lambda>grant. op_bind (ag_now g) (\<lambda>now.
       if \<not> grant_valid grant now then send_once g else op_return None))"

definition process_commands_once :: "('s, 'w) agent \<Rightarrow> 'w dispatcher \<Rightarrow> 'w err_op" where
  "process_commands_once g d =
     op_bind (retry_pending d) (\<lambda>(retried, err). case err of
        Some e \<Rightarrow> op_return (Some e)
      | None \<Rightarrow>
          if retried then op_return None
          else try_err (refresh_grant g) (wrap ''refresh environment operation grant: '') (poll_and_dispatch g d))"

section \<open>Delays\<close>

text \<open>
  \<open>rnd\<close> is the rounding of a real number to a \<open>float64\<close>; \<open>value\<close> is the random byte, if there is one. The
  constants are rounded too, as the compiler does.
\<close>

definition jitter :: "(real \<Rightarrow> real) \<Rightarrow> int option \<Rightarrow> int \<Rightarrow> int" where
  "jitter rnd value delay =
     (case value of
        None \<Rightarrow> delay
      | Some v \<Rightarrow>
          let factor = rnd (rnd (4 / 5) + rnd (rnd (rnd (real_of_int v) / 255) * rnd (2 / 5)))
          in \<lfloor>rnd (rnd (real_of_int delay) * factor)\<rfloor>)"

definition heartbeat_interval :: int where
  "heartbeat_interval = 5 * second_ns"

text \<open>The delay after a heartbeat, and the delay after a failed round of commands.\<close>

definition heartbeat_delay :: "(real \<Rightarrow> real) \<Rightarrow> int option \<Rightarrow> goerr option \<Rightarrow> agent_state \<Rightarrow> int" where
  "heartbeat_delay rnd value err a =
     (if err \<noteq> None then jitter rnd value (as_backoff a) else heartbeat_interval)"

definition command_delay :: "(real \<Rightarrow> real) \<Rightarrow> int option \<Rightarrow> goerr option \<Rightarrow> int option" where
  "command_delay rnd value err = (if err \<noteq> None then Some (jitter rnd value second_ns) else Some 0)"

text \<open>
  One turn of each loop: the delay before the next turn, or \<open>None\<close> when the context has ended
  (\<open>ended\<close>). The command loop goes on at once after a round without an error: the poll itself waits.
\<close>

definition heartbeat_turn ::
    "(real \<Rightarrow> real) \<Rightarrow> ('w, int option) op \<Rightarrow> ('w \<Rightarrow> bool) \<Rightarrow> ('s, 'w) agent \<Rightarrow> ('w, int option) op" where
  "heartbeat_turn rnd random ended g =
     op_bind (send_once g) (\<lambda>err w. if ended w then (None, w)
       else case random w of (value, w') \<Rightarrow> (Some (heartbeat_delay rnd value err (ag_state g w')), w'))"

definition command_turn ::
    "(real \<Rightarrow> real) \<Rightarrow> ('w, int option) op \<Rightarrow> ('w \<Rightarrow> bool) \<Rightarrow> ('s, 'w) agent \<Rightarrow> 'w dispatcher \<Rightarrow> ('w, int option) op" where
  "command_turn rnd random ended g d =
     op_bind (process_commands_once g d) (\<lambda>err w. if ended w then (None, w)
       else if err = None then (Some 0, w)
       else case random w of (value, w') \<Rightarrow> (command_delay rnd value err, w'))"

section \<open>The boot identifier\<close>

definition lower_hex_digit :: "8 word \<Rightarrow> char" where
  "lower_hex_digit d = ''0123456789abcdef'' ! unat d"

text \<open>\<open>hex.EncodeToString\<close> of one byte.\<close>

definition hex_byte :: "8 word \<Rightarrow> string" where
  "hex_byte b = [lower_hex_digit (drop_bit 4 b), lower_hex_digit (b AND 0x0f)]"

definition new_boot_id :: "8 word list \<Rightarrow> string" where
  "new_boot_id value =
     (let value = value[6 := (value ! 6 AND 0x0f) OR 0x40];
          value = value[8 := (value ! 8 AND 0x3f) OR 0x80];
          h = concat (map hex_byte value)
      in take 8 h @ ''-'' @ take 4 (drop 8 h) @ ''-'' @ take 4 (drop 12 h) @ ''-'' @ take 4 (drop 16 h) @ ''-'' @ take 12 (drop 20 h))"

lemma nibbles:
  fixes b :: "8 word"
  shows "unat (drop_bit 4 b) < 16" "unat (b AND 0x0f) < 16" "drop_bit 4 ((b AND 0x0f) OR 0x40) = 4"
    "drop_bit 4 ((b AND 0x3f) OR 0x80) \<in> {8, 9, 10, 11}"
proof -
  have m: "w AND 0x0f = take_bit 4 w" "w AND 3 = take_bit 2 w" for w :: "8 word"
    by (simp_all add: take_bit_eq_mask mask_eq_exp_minus_1)
  have lt: "unat (take_bit n (w :: 8 word)) < 2 ^ n" for n w
    by (simp add: unsigned_take_bit_eq)
  have "unat b < 256" using unsigned_less [of b] by simp
  moreover have "unat (drop_bit 4 b) = unat b div 16"
    by (simp only: unsigned_drop_bit_eq) (use \<open>unat b < 256\<close> in \<open>simp add: drop_bit_eq_div take_bit_eq_mod\<close>)
  ultimately show "unat (drop_bit 4 b) < 16" by simp
  show "unat (b AND 0x0f) < 16" using lt [of 4 b] by (simp add: m)
  show "drop_bit 4 ((b AND 0x0f) OR 0x40) = 4" by simp
  have "drop_bit 4 ((b AND 0x3f) OR 0x80) = take_bit 2 (drop_bit 4 b) OR 8" by (simp flip: m)
  moreover have "take_bit 2 w \<in> {0, 1, 2, 3}" for w :: "8 word"
  proof -
    have "unat (take_bit 2 w) < 4" using lt [of 2 w] by simp
    then have "unat (take_bit 2 w) = 0 \<or> unat (take_bit 2 w) = 1 \<or> unat (take_bit 2 w) = 2 \<or> unat (take_bit 2 w) = 3" by linarith
    then show ?thesis by (elim disjE) (simp_all add: word_unat_eq_iff)
  qed
  from this [of "drop_bit 4 b"] have "take_bit 2 (drop_bit 4 b) OR 8 \<in> {8, 9, 10, 11}" by (elim insertE) simp_all
  ultimately show "drop_bit 4 ((b AND 0x3f) OR 0x80) \<in> {8, 9, 10, 11}" by simp
qed


lemma lower_hex: "unat d < 16 \<Longrightarrow> is_lower_hex (lower_hex_digit d)"
proof -
  have "list_all is_lower_hex ''0123456789abcdef''" by (simp add: byte_class_defs)
  moreover assume "unat d < 16"
  ultimately show ?thesis unfolding lower_hex_digit_def list_all_length by simp
qed

lemma hex_byte_digits: "list_all is_lower_hex (hex_byte b) \<and> length (hex_byte b) = 2"
  by (simp add: hex_byte_def lower_hex nibbles)

lemma sixteen: "length xs = 16 \<Longrightarrow> \<exists>a b c d e f g h i j k l m n q p. xs = [a, b, c, d, e, f, g, h, i, j, k, l, m, n, q, p]"
  by (simp add: numeral_eq_Suc length_Suc_conv) blast

lemma boot_id_canonical:
  assumes "length value = 16"
  shows "is_canonical_uuid (new_boot_id value)"
proof -
  obtain a b c d e f g h i j k l m n q p where v: "value = [a, b, c, d, e, f, g, h, i, j, k, l, m, n, q, p]"
    using sixteen [OF assms] by blast
  have x: "is_lower_hex (lower_hex_digit (drop_bit 4 w))" "is_lower_hex (lower_hex_digit (w AND 0x0f))" for w
    by (rule lower_hex, rule nibbles)+
  have four: "lower_hex_digit (drop_bit 4 ((w AND 0x0f) OR 0x40)) = CHR ''4''" for w
    by (simp only: nibbles) (simp add: lower_hex_digit_def)
  have variant: "one_of ''89ab'' (lower_hex_digit (drop_bit 4 ((w AND 0x3f) OR 0x80)))" for w
    using nibbles(4) [of w] by (elim insertE emptyE) (simp_all only:, simp_all add: lower_hex_digit_def one_of_def)
  have id: "new_boot_id value = hex_byte a @ hex_byte b @ hex_byte c @ hex_byte d @ ''-'' @ hex_byte e @ hex_byte f @ ''-''
      @ hex_byte ((g AND 0x0f) OR 0x40) @ hex_byte h @ ''-'' @ hex_byte ((i AND 0x3f) OR 0x80) @ hex_byte j @ ''-''
      @ hex_byte k @ hex_byte l @ hex_byte m @ hex_byte n @ hex_byte q @ hex_byte p"
    by (simp add: new_boot_id_def v Let_def hex_byte_def)
  have lang: "rx_fixed canonical_uuid_pattern = Some (replicate 8 is_lower_hex @ [\<lambda>c. c = CHR ''-''] @ replicate 4 is_lower_hex @ [\<lambda>c. c = CHR ''-'']
      @ [in_range (CHR ''1'') (CHR ''5'')] @ replicate 3 is_lower_hex @ [\<lambda>c. c = CHR ''-''] @ [one_of ''89ab''] @ replicate 3 is_lower_hex
      @ [\<lambda>c. c = CHR ''-''] @ replicate 12 is_lower_hex)"
    by (simp add: canonical_uuid_pattern_def rx_cat_def rx_fixed_rep rx_fixed_lit)
  show ?thesis
    unfolding rx_match_fixed [OF lang] id hex_byte_def
    using x four variant by (simp add: numeral_eq_Suc in_range_def)
qed

end
