(* ===== verification/AgentClaims.thy ===== *)
theory AgentClaims
  imports Agent
begin

text \<open>
  Properties of the agent loop: the boot identifier, the back-off and the sequence numbers when the
  heartbeat loop and the command loop interleave, the command rounds on top of the dispatcher (crash
  safety of whole rounds, refusal of a batch with a bad envelope, and that a pending report is
  eventually delivered), and the bounds of the delays.
\<close>

section \<open>The boot identifier\<close>

text \<open>
  Whatever 16 bytes the random source returns, the boot identifier is a canonical UUID, as the server
  requires of it: lower-case hexadecimal digits in groups of 8, 4, 4, 4 and 12, a version from 1 to 5 and
  the variant 8, 9, a or b.
\<close>

theorem boot_id_is_uuid:
  assumes "length value = 16"
  shows "is_canonical_uuid (new_boot_id value)"
  by (rule boot_id_canonical [OF assms])

theorem boot_id_is_uuid_witness: "is_canonical_uuid (new_boot_id (replicate 15 0xff @ [0]))"
  by (rule boot_id_is_uuid) simp

section \<open>The two loops\<close>

text \<open>
  \<open>SendOnce\<close> runs in both loops. It takes the mutex twice, to read the sequence number and to store the
  answer; the other loop may run in between. A configuration holds the agent's state and the sequence
  number each loop has read and not yet finished with.
\<close>

datatype agent_loop = HeartbeatLoop | CommandLoop

datatype agent_label =
    Begin agent_loop
  | Finish agent_loop "goerr + heartbeat_ack" "goerr option"

type_synonym agent_config = "agent_state \<times> (agent_loop \<Rightarrow> int option)"

inductive agent_step :: "agent_config \<Rightarrow> agent_label \<Rightarrow> agent_config \<Rightarrow> bool" where
  begins: "p l = None \<Longrightarrow> agent_step (a, p) (Begin l) (a, p(l := Some (as_next a)))"
| finishes: "p l = Some n \<Longrightarrow> send_finish n r a = (x, a') \<Longrightarrow> agent_step (a, p) (Finish l r x) (a', p(l := None))"

inductive_simps begin_step: "agent_step (a, p) (Begin l) c"
inductive_simps finish_step: "agent_step (a, p) (Finish l r x) c"

inductive agent_run :: "agent_config \<Rightarrow> agent_label list \<Rightarrow> agent_config \<Rightarrow> bool" for c where
  run_nil: "agent_run c [] c"
| run_step: "agent_run c ls d \<Longrightarrow> agent_step d l e \<Longrightarrow> agent_run c (ls @ [l]) e"

definition start_config :: agent_config where
  "start_config = (new_agent, \<lambda>l. None)"

definition failed_beat :: "agent_label \<Rightarrow> bool" where
  "failed_beat l = (case l of Finish k (Inl e) x \<Rightarrow> True | _ \<Rightarrow> False)"

definition accepted_beat :: "agent_label \<Rightarrow> bool" where
  "accepted_beat l = (case l of Finish k r None \<Rightarrow> True | _ \<Rightarrow> False)"

text \<open>The failed heartbeats since the last accepted one.\<close>

definition failures_step :: "nat \<Rightarrow> agent_label \<Rightarrow> nat" where
  "failures_step n l = (if accepted_beat l then 0 else if failed_beat l then n + 1 else n)"

definition failures :: "agent_label list \<Rightarrow> nat" where
  "failures ls = foldl failures_step 0 ls"

definition backoff_after :: "nat \<Rightarrow> int" where
  "backoff_after n = min (2 ^ n) 30 * second_ns"

lemma backoff_doubles:
  "(if wrap64 (backoff_after n * 2) > max_backoff then max_backoff else wrap64 (backoff_after n * 2)) = backoff_after (n + 1)"
proof -
  have small: "wrap64 (m * second_ns * 2) = m * second_ns * 2" if "1 \<le> m" "m \<le> 30" for m
    by (rule wrap64_id) (use that in \<open>simp_all add: second_ns_def\<close>)
  have "wrap64 (backoff_after n * 2) = backoff_after n * 2"
    unfolding backoff_after_def by (rule small) simp_all
  then show ?thesis by (auto simp: backoff_after_def max_backoff_def second_ns_def min_def)
qed

lemma finish_backoff:
  assumes "send_finish s r a = (x, a')" "as_backoff a = backoff_after n"
  shows "as_backoff a' = backoff_after (failures_step n (Finish k r x))"
  using assms backoff_doubles [of n]
  by (auto simp: send_finish_def failures_step_def accepted_beat_def failed_beat_def update_grant_def backoff_after_def
      split: sum.splits if_splits)

text \<open>
  C18. However the two loops interleave, the back-off is a function of the number of heartbeats that failed
  since the last accepted one: it doubles with each, from one second up to thirty. It never overflows and
  never passes the limit.
\<close>

theorem backoff_closed_form:
  assumes "agent_run start_config ls (a, p)"
  shows "as_backoff a = min (2 ^ failures ls) 30 * second_ns"
proof -
  have "agent_run start_config ls c \<Longrightarrow> as_backoff (fst c) = backoff_after (failures ls)" for c
  proof (induction rule: agent_run.induct)
    case run_nil
    show ?case by (simp add: start_config_def new_agent_def backoff_after_def failures_def)
  next
    case (run_step ls d l e)
    from run_step.hyps(2) run_step.IH show ?case
      by cases (auto simp: failures_def failures_step_def [of _ "Begin _"] accepted_beat_def failed_beat_def dest: finish_backoff)
  qed
  from this [OF assms] show ?thesis by (simp add: backoff_after_def)
qed

definition two_failures :: "agent_label list" where
  "two_failures = [Begin HeartbeatLoop, Begin CommandLoop,
     Finish HeartbeatLoop (Inl ContextCanceled) (Some ContextCanceled), Finish CommandLoop (Inl ContextCanceled) (Some ContextCanceled)]"

text \<open>The same steps as a function, to run a sequence of them.\<close>

fun agent_exec :: "agent_config \<Rightarrow> agent_label \<Rightarrow> agent_config option" where
  "agent_exec (a, p) (Begin l) = (if p l = None then Some (a, p(l := Some (as_next a))) else None)"
| "agent_exec (a, p) (Finish l r x) =
     (case p l of None \<Rightarrow> None
      | Some n \<Rightarrow> (case send_finish n r a of (y, a') \<Rightarrow> if x = y then Some (a', p(l := None)) else None))"

fun agent_execs :: "agent_config \<Rightarrow> agent_label list \<Rightarrow> agent_config option" where
  "agent_execs c [] = Some c"
| "agent_execs c (l # ls) = (case agent_exec c l of None \<Rightarrow> None | Some d \<Rightarrow> agent_execs d ls)"

lemma exec_step: "agent_exec c l = Some d \<Longrightarrow> agent_step c l d"
  by (induction c l rule: agent_exec.induct) (auto split: if_splits option.splits prod.splits intro: agent_step.intros)

lemma run_first: "agent_run d ls e \<Longrightarrow> agent_step c l d \<Longrightarrow> agent_run c (l # ls) e"
proof (induction rule: agent_run.induct)
  case run_nil
  then show ?case using agent_run.run_step [OF agent_run.run_nil] by simp
next
  case (run_step ls d' k e)
  then show ?case using agent_run.run_step [of c "l # ls" d' k e] by simp
qed

lemma exec_run: "agent_execs c ls = Some d \<Longrightarrow> agent_run c ls d"
  by (induction ls arbitrary: c) (auto split: option.splits intro: run_nil run_first exec_step)

lemmas exec_simps = send_finish_def new_agent_def start_config_def second_ns_def max_backoff_def wrap64_def update_grant_def

theorem backoff_closed_form_witness: "\<exists>a p. agent_run start_config two_failures (a, p) \<and> as_backoff a = 4 * second_ns"
proof -
  have "\<exists>a p. agent_execs start_config two_failures = Some (a, p)"
    by (simp add: two_failures_def exec_simps)
  then obtain a p where run: "agent_run start_config two_failures (a, p)" by (blast intro: exec_run)
  moreover from backoff_closed_form [OF run] have "as_backoff a = 4 * second_ns"
    by (simp add: two_failures_def failures_def failures_step_def accepted_beat_def failed_beat_def)
  ultimately show ?thesis by blast
qed

section \<open>Sequence numbers and grants\<close>

text \<open>A run in which one loop at a time is between the two parts of \<open>SendOnce\<close>.\<close>

fun in_turn :: "agent_loop option \<Rightarrow> agent_label list \<Rightarrow> bool" where
  "in_turn busy [] = True"
| "in_turn busy (Begin l # ls) = (busy = None \<and> in_turn (Some l) ls)"
| "in_turn busy (Finish l r x # ls) = (busy = Some l \<and> in_turn None ls)"

definition accepted_beats :: "agent_label list \<Rightarrow> nat" where
  "accepted_beats ls = length (filter accepted_beat ls)"

text \<open>The grant of the last accepted answer.\<close>

fun last_grant :: "operation_grant \<Rightarrow> agent_label list \<Rightarrow> operation_grant" where
  "last_grant g [] = g"
| "last_grant g (Finish l (Inr ack) None # ls) = last_grant (ack_grant ack) ls"
| "last_grant g (l # ls) = last_grant g ls"

fun turn_after :: "agent_loop option \<Rightarrow> agent_label list \<Rightarrow> agent_loop option" where
  "turn_after busy [] = busy"
| "turn_after busy (Begin l # ls) = turn_after (Some l) ls"
| "turn_after busy (Finish l r x # ls) = turn_after None ls"

lemma in_turn_append: "in_turn b (ls @ [l]) \<longleftrightarrow> in_turn b ls \<and>
    (case l of Begin k \<Rightarrow> turn_after b ls = None | Finish k r x \<Rightarrow> turn_after b ls = Some k)"
  by (induction b ls rule: in_turn.induct) (auto split: agent_label.splits)

lemma turn_after_append: "turn_after b (ls @ [l]) = (case l of Begin k \<Rightarrow> Some k | Finish k r x \<Rightarrow> None)"
  by (induction b ls rule: turn_after.induct) (auto split: agent_label.splits)

lemma last_grant_append: "last_grant g (ls @ [l]) = last_grant (last_grant g ls) [l]"
  by (induction g ls rule: last_grant.induct) auto

lemma in_turn_state:
  assumes "agent_run start_config ls c" "in_turn None ls" "int (length ls) < 2 ^ 62"
  shows "as_next (fst c) = 1 + int (accepted_beats ls) \<and> as_grant (fst c) = last_grant no_grant ls \<and>
    (\<forall>l. snd c l = (if turn_after None ls = Some l then Some (as_next (fst c)) else None))"
  using assms
proof (induction rule: agent_run.induct)
  case run_nil
  show ?case by (simp add: start_config_def new_agent_def accepted_beats_def)
next
  case (run_step ls d l e)
  have n: "accepted_beats ls \<le> length ls" by (simp add: accepted_beats_def)
  from run_step have IH: "as_next (fst d) = 1 + int (accepted_beats ls)" "as_grant (fst d) = last_grant no_grant ls"
    "\<And>l. snd d l = (if turn_after None ls = Some l then Some (as_next (fst d)) else None)"
    by (auto simp: in_turn_append)
  from run_step.hyps(2) show ?case
  proof cases
    case (begins p l a)
    with run_step.prems IH show ?thesis
      by (auto simp: in_turn_append turn_after_append last_grant_append accepted_beats_def accepted_beat_def)
  next
    case (finishes p k s r a x a')
    with run_step.prems IH(3) [of k] have s: "s = as_next (fst d)" "turn_after None ls = Some k"
      by (auto simp: in_turn_append split: if_splits)
    have w: "wrap64 (as_next (fst d) + 1) = as_next (fst d) + 1"
      using IH(1) n run_step.prems(2) by (intro wrap64_id) auto
    from finishes s w IH show ?thesis
      by (auto simp: turn_after_append last_grant_append accepted_beats_def accepted_beat_def send_finish_def
          update_grant_def split: sum.splits if_splits)
  qed
qed

text \<open>
  When the heartbeats of the two loops do not overlap, each accepted heartbeat takes the next
  sequence number, a failed one is repeated under its own number, and the current grant is the one
  the last accepted answer carried: a grant the server has withdrawn does not come back.
\<close>

theorem sequence_in_turn:
  assumes "agent_run start_config ls (a, p)" "in_turn None ls" "int (length ls) < 2 ^ 62"
  shows "as_next a = 1 + int (accepted_beats ls) \<and> as_grant a = last_grant no_grant ls"
  using in_turn_state [OF assms] by simp

definition open_grant :: operation_grant where
  "open_grant = \<lparr>og_allowed = True, og_expires_at = \<lparr>instant = 86400 * second_ns, utc_loc = True\<rparr>\<rparr>"

definition ack_of :: "int \<Rightarrow> operation_grant \<Rightarrow> heartbeat_ack" where
  "ack_of n g = \<lparr>ack_accepted = True, ack_sequence = n, ack_server_time = 0, ack_grant = g\<rparr>"

definition beats_in_turn :: "agent_label list" where
  "beats_in_turn = [Begin HeartbeatLoop, Finish HeartbeatLoop (Inl ContextCanceled) (Some ContextCanceled),
     Begin HeartbeatLoop, Finish HeartbeatLoop (Inr (ack_of 1 open_grant)) None,
     Begin CommandLoop, Finish CommandLoop (Inr (ack_of 2 no_grant)) None]"

theorem sequence_in_turn_witness:
  "\<exists>a p. agent_run start_config beats_in_turn (a, p) \<and> as_next a = 3 \<and> as_grant a = no_grant"
proof -
  have "\<exists>a p. agent_execs start_config beats_in_turn = Some (a, p)"
    by (simp add: beats_in_turn_def exec_simps ack_of_def)
  then obtain a p where run: "agent_run start_config beats_in_turn (a, p)" by (blast intro: exec_run)
  moreover from sequence_in_turn [OF run] have "as_next a = 3 \<and> as_grant a = no_grant"
    by (simp add: beats_in_turn_def accepted_beats_def accepted_beat_def ack_of_def)
  ultimately show ?thesis by blast
qed

text \<open>
  C19. The two heartbeats of the loops may overlap (the command loop sends its own when the grant is no
  longer valid), and then an old answer can overtake: with a server that acknowledges every request with
  its own number, the sequence number moves back and a grant that was withdrawn becomes the current one
  again.
\<close>

theorem late_answer_overtakes:
  "\<exists>ls c a p b q.
     agent_run start_config ls c \<and> c = (a, p) \<and> agent_step c (Finish HeartbeatLoop (Inr (ack_of 1 open_grant)) None) (b, q) \<and>
     as_next b < as_next a \<and> \<not> grant_valid (as_grant a) zero_time \<and> grant_valid (as_grant b) zero_time"
proof -
  let ?ls = "[Begin HeartbeatLoop, Begin CommandLoop, Finish CommandLoop (Inr (ack_of 1 no_grant)) None,
     Begin CommandLoop, Finish CommandLoop (Inr (ack_of 2 no_grant)) None]"
  let ?a = "new_agent\<lparr>as_next := 3\<rparr>" and ?p = "\<lambda>l. if l = HeartbeatLoop then Some 1 else None"
  let ?b = "new_agent\<lparr>as_next := 2, as_grant := open_grant\<rparr>"
  have "agent_execs start_config ?ls = Some (?a, ?p)"
    by (simp add: exec_simps ack_of_def fun_eq_iff)
  then have run: "agent_run start_config ?ls (?a, ?p)" by (rule exec_run)
  have "agent_exec (?a, ?p) (Finish HeartbeatLoop (Inr (ack_of 1 open_grant)) None) = Some (?b, ?p(HeartbeatLoop := None))"
    by (simp add: exec_simps ack_of_def)
  then have "agent_step (?a, ?p) (Finish HeartbeatLoop (Inr (ack_of 1 open_grant)) None) (?b, ?p(HeartbeatLoop := None))"
    by (rule exec_step)
  moreover have "\<not> grant_valid no_grant zero_time" "grant_valid open_grant zero_time"
    by (simp_all add: grant_valid_def no_grant_def open_grant_def is_zero_def before_def zero_time_def second_ns_def)
  ultimately show ?thesis
    using run by (intro exI [of _ ?ls] exI [of _ "(?a, ?p)"] exI [of _ ?a] exI [of _ ?p] exI [of _ ?b] exI) (simp add: new_agent_def)
qed

section \<open>Rounds of commands\<close>

text \<open>The agent beside a log that it does not write: only the dispatcher's calls are recorded.\<close>

definition plain_op :: "('e, 'r) op \<Rightarrow> ('e \<times> 'v list, 'r) op" where
  "plain_op m s = (case m (fst s) of (x, e') \<Rightarrow> (x, (e', snd s)))"

definition logged_agent :: "('s, 'w) agent \<Rightarrow> ('s, 'w \<times> event list) agent" where
  "logged_agent g =
     \<lparr>ag_state = ag_state g \<circ> fst, ag_set = (\<lambda>a s. (ag_set g a (fst s), snd s)), ag_id = ag_id g, ag_version = ag_version g,
      ag_boot_id = ag_boot_id g, ag_snapshot = plain_op (ag_snapshot g), ag_heartbeat = (\<lambda>r. plain_op (ag_heartbeat g r)),
      ag_poll = (\<lambda>n. plain_op (ag_poll g n)), ag_now = plain_op (ag_now g), ag_ref_ok = ag_ref_ok g\<rparr>"

lemmas logged_agent_simps = logged_agent_def agent.simps

lemma emits_plain: "(\<And>x. T x []) \<Longrightarrow> emits (plain_op m) T"
  by (simp add: emits_def plain_op_def split: prod.splits)

definition silent :: "('e \<times> 'v list, 'r) op \<Rightarrow> bool" where
  "silent m = emits m (\<lambda>r t. t = [])"

lemma silent_plain: "silent (plain_op m)"
  by (simp add: silent_def emits_plain)

lemma silent_return: "silent (op_return x)"
  by (simp add: silent_def emits_return)

lemma silent_bind: "silent m \<Longrightarrow> (\<And>x. silent (f x)) \<Longrightarrow> silent (op_bind m f)"
  unfolding silent_def by (rule emits_bind [of _ "\<lambda>r t. t = []"]) auto

lemma silent_send: "silent (send_once (logged_agent g))"
  by (simp add: silent_def emits_def send_once_def logged_agent_simps plain_op_def Let_def split: prod.splits)

lemma silent_refresh: "silent (refresh_grant (logged_agent g))"
proof -
  have "silent (current_grant (logged_agent g))" by (simp add: silent_def emits_def current_grant_def)
  moreover have "silent (ag_now (logged_agent g))" by (simp add: logged_agent_simps silent_plain)
  ultimately show ?thesis unfolding refresh_grant_def by (auto intro!: silent_bind silent_send silent_return)
qed

lemma silent_decode: "silent (decode_all (logged_agent g) raws decoded)"
proof (induction raws arbitrary: decoded)
  case (Cons raw raws)
  then show ?case
    by (simp add: logged_agent_simps) (intro silent_bind silent_plain, auto intro: silent_return split: sum.split)
qed (simp add: silent_return)

text \<open>A trace that a history may go on with, whether or not it is interrupted.\<close>

definition continues :: "event list \<Rightarrow> bool" where
  "continues t \<longleftrightarrow> (\<forall>h p. journal_history h \<longrightarrow> stopped_run t p \<longrightarrow> journal_history (h @ p))"

lemma stopped_whole: "stopped_run t t"
  by (simp add: stopped_run_def)

lemma stopped_append:
  assumes "stopped_run (t @ u) p"
  shows "stopped_run t p \<or> (\<exists>q. p = t @ q \<and> stopped_run u q)"
proof -
  from assms consider (stop) "is_prefix p (t @ u)" | (cut) q ev where "is_prefix (q @ [ev]) (t @ u)" "p = q @ [interrupted ev]"
    unfolding stopped_run_def by blast
  then show ?thesis
  proof cases
    case stop
    then show ?thesis by (auto simp: stopped_run_def is_prefix_def append_eq_append_conv2)
  next
    case cut
    then obtain v where "t @ u = q @ ev # v" by (auto simp: is_prefix_def)
    then consider w where "t = q @ ev # w" | w where "q = t @ w" "u = w @ ev # v"
      by (auto simp: append_eq_append_conv2 append_eq_Cons_conv)
    then show ?thesis
    proof cases
      case 1
      with cut(2) have "stopped_run t p" by (fastforce simp: stopped_run_def is_prefix_def)
      then show ?thesis ..
    next
      case 2
      with cut(2) have "p = t @ (w @ [interrupted ev]) \<and> stopped_run u (w @ [interrupted ev])"
        by (fastforce simp: stopped_run_def is_prefix_def)
      then show ?thesis by blast
    qed
  qed
qed

lemma continues_nil: "continues []"
  by (auto simp: continues_def stopped_run_def is_prefix_def)

lemma continues_append: "continues t \<Longrightarrow> continues u \<Longrightarrow> continues (t @ u)"
  unfolding continues_def by (metis append.assoc stopped_append stopped_whole)

lemma continues_dispatch: "dispatch_trace c t \<Longrightarrow> continues t"
  by (auto simp: continues_def intro: journal_dispatch)

lemma continues_retry: "follows [] [] Retrying t \<Longrightarrow> continues t"
  by (auto simp: continues_def intro: journal_retry)

definition goes_on :: "('e \<times> event list, 'r) op \<Rightarrow> bool" where
  "goes_on m = emits m (\<lambda>r t. continues t)"

lemma goes_silent: "silent m \<Longrightarrow> goes_on m"
  unfolding silent_def goes_on_def by (erule emits_conseq) (simp add: continues_nil)

lemma goes_bind: "goes_on m \<Longrightarrow> (\<And>x. goes_on (f x)) \<Longrightarrow> goes_on (op_bind m f)"
  unfolding goes_on_def by (rule emits_bind, assumption, rule emits_conseq, assumption, rule continues_append)

lemma goes_return: "goes_on (op_return x)"
  by (rule goes_silent, rule silent_return)

lemma goes_try_err: "goes_on m \<Longrightarrow> goes_on k \<Longrightarrow> goes_on (try_err m w k)"
  unfolding try_err_def by (rule goes_bind) (auto intro: goes_return split: option.split)

lemma goes_try_res: "goes_on m \<Longrightarrow> (\<And>v. goes_on (k v)) \<Longrightarrow> goes_on (try_res m w k)"
  unfolding try_res_def by (rule goes_bind) (auto intro: goes_return split: sum.split)

lemma goes_dispatch_all: "goes_on (dispatch_all (logged d) cs)"
proof (induction cs)
  case (Cons c cs)
  have "goes_on (dispatch (logged d) c)"
    unfolding goes_on_def by (rule emits_conseq [OF dispatch_emits]) (rule continues_dispatch)
  with Cons show ?case by (simp add: goes_try_err)
qed (simp add: goes_return)

lemma goes_round: "goes_on (process_commands_once (logged_agent g) (logged d))"
proof -
  have retry: "goes_on (retry_pending (logged d))"
    unfolding goes_on_def using retry_journal [of "[]" "[]" d] continues_retry
    by (auto simp: keeps_def elim: emits_conseq)
  have poll: "goes_on (ag_poll (logged_agent g) n)" for n
    by (rule goes_silent) (simp add: logged_agent_simps silent_plain)
  show ?thesis
    unfolding process_commands_once_def poll_and_dispatch_def
    by (rule goes_bind [OF retry])
       (auto intro!: goes_return goes_try_err goes_try_res goes_silent [OF silent_refresh] poll
          goes_silent [OF silent_decode] goes_dispatch_all split: option.split)
qed

text \<open>Complete and interrupted rounds of the command loop, one after another, each from any world.\<close>

inductive agent_history :: "('s, 'w) agent \<Rightarrow> 'w dispatcher \<Rightarrow> event list \<Rightarrow> bool" for g d where
  no_round: "agent_history g d []"
| round: "agent_history g d h \<Longrightarrow> stopped_run (snd (snd (process_commands_once (logged_agent g) (logged d) (w, [])))) p \<Longrightarrow>
    agent_history g d (h @ p)"

lemma agent_journal: "agent_history g d h \<Longrightarrow> journal_history h"
proof (induction rule: agent_history.induct)
  case (round h w p)
  obtain t where "snd (snd (process_commands_once (logged_agent g) (logged d) (w, []))) = [] @ t" "continues t"
    using goes_round [of g d] unfolding goes_on_def emits_def by blast
  with round show ?case by (auto simp: continues_def)
qed (rule journal_nil)

lemma effect_recorded:
  assumes "journal_history h" "store_answers C h" "h = u @ ev # v" "effect ev"
  shows "\<exists>i l u1 u2. u = u1 @ EvSave (start_record i l) None # u2 \<and> list_all (\<lambda>e. \<not> store_event e) u2"
proof -
  let ?w = "watch_start C"
  have "watched ?w h"
    by (rule conjunct1, rule history_watched [OF assms(1)]) (use assms(2) in \<open>simp_all add: watch_start_def watch_inv_def\<close>)
  then have "watch_ok (watch_all u ?w) ev" by (auto simp: assms(3) watched_append)
  with assms(4) obtain i l where "w_saved (watch_all u ?w) = Some (i, l)" by (auto simp: watch_ok_def)
  from saved_origin [OF _ this] show ?thesis by (auto simp: watch_start_def)
qed

text \<open>
  C12. Crash safety of the whole agent: in every history of command rounds (retry of the pending record, refresh of the
  grant, poll, decoding, dispatch of the batch), complete or interrupted anywhere by a crash, with whatever the server,
  the disk, Docker and systemd answer (a load that succeeds returns what the file can hold: the last record saved, or
  after a save or clear that failed also the one before), the start of a command was saved before every effect (a shutdown, an operation on
  an environment, an image deployment, a removal in Docker's inventory) and the store not touched since; and between two
  effects the server took the report of the very command that was recorded before the first, and its record was cleared
  right after.
\<close>

theorem agent_effects_separated:
  assumes "agent_history g d h" "store_answers C h"
  shows "(\<forall>u ev v. h = u @ ev # v \<longrightarrow> effect ev \<longrightarrow>
      (\<exists>i l u1 u2. u = u1 @ EvSave (start_record i l) None # u2 \<and> list_all (\<lambda>e. \<not> store_event e) u2)) \<and>
    (\<forall>u ev1 m ev2 v. h = u @ ev1 # m @ ev2 # v \<longrightarrow> effect ev1 \<longrightarrow> effect ev2 \<longrightarrow>
      (\<exists>i l u1 u2 a r x b.
         u = u1 @ EvSave (start_record i l) None # u2 \<and> list_all (\<lambda>e. \<not> store_event e) u2 \<and>
         m = a @ [EvFinish i r None, EvClear x] @ b))"
  using effect_recorded [OF agent_journal [OF assms(1)] assms(2)] separated [OF agent_journal [OF assms(1)] assms(2)] by blast

section \<open>A batch with a bad envelope\<close>

lemma decode_all_bad:
  assumes "raw \<in> set raws" "\<And>now. \<exists>x. decode_command (ag_ref_ok g) raw now False = Inl x"
  shows "\<exists>x w'. decode_all g raws decoded w = (Inl (wrap ''reject invalid command envelope: '' x), w')"
  using assms(1)
proof (induction raws arbitrary: decoded w)
  case (Cons r raws)
  obtain now w1 where now: "ag_now g w = (now, w1)" by (cases "ag_now g w")
  show ?case
  proof (cases "decode_command (ag_ref_ok g) r now False")
    case (Inl x)
    with now show ?thesis by (auto simp: op_defs)
  next
    case (Inr c)
    with assms(2) [of now] Cons.prems have "raw \<in> set raws" by auto
    with Cons.IH [of "decoded @ [c]" w1] now Inr show ?thesis by (simp add: op_defs)
  qed
qed simp

lemma batch_rejected_run:
  assumes "ag_poll g 3 w = (Inr raws, w1)" "raw \<in> set raws" "\<And>now. \<exists>x. decode_command (ag_ref_ok g) raw now False = Inl x"
  shows "\<exists>x w'. poll_and_dispatch (logged_agent g) (logged d) (w, tr) = (Some (wrap ''reject invalid command envelope: '' x), (w', tr))"
proof -
  have poll: "ag_poll (logged_agent g) 3 (w, tr) = (Inr raws, (w1, tr))"
    using assms(1) by (simp add: logged_agent_simps plain_op_def)
  have "\<exists>x s. decode_all (logged_agent g) raws [] (w1, tr) = (Inl (wrap ''reject invalid command envelope: '' x), s)"
    by (rule decode_all_bad [OF assms(2)]) (use assms(3) in \<open>simp add: logged_agent_simps\<close>)
  then obtain x w2 tr2 where d: "decode_all (logged_agent g) raws [] (w1, tr) = (Inl (wrap ''reject invalid command envelope: '' x), (w2, tr2))"
    by auto
  with emitsD [OF silent_decode [of g raws "[]", unfolded silent_def]] have "tr2 = tr" by blast
  with poll d show ?thesis by (auto simp: poll_and_dispatch_def op_defs same_def)
qed

text \<open>
  A batch is dispatched as a whole or not at all: if one envelope of a poll does not decode (at any
  time of day), no command of the batch is acknowledged, recorded or executed, not even those before
  the bad one, and the round fails with that envelope's error.
\<close>

theorem bad_envelope_stops_batch:
  assumes "ag_poll g 3 w = (Inr raws, w1)" "raw \<in> set raws" "\<forall>now. \<exists>x. decode_command (ag_ref_ok g) raw now False = Inl x"
  shows "\<exists>x w'. poll_and_dispatch (logged_agent g) (logged d) (w, []) = (Some (wrap ''reject invalid command envelope: '' x), (w', []))"
  by (rule batch_rejected_run [OF assms(1,2)]) (use assms(3) in blast)

section \<open>An agent to run\<close>

text \<open>A world with a memory store, a server that is down for a number of calls, and a batch to poll.\<close>

record demo_world =
  dw_agent :: agent_state
  dw_store :: "stored_command option"
  dw_down :: nat
  dw_taken :: "(string \<times> command_result) list"
  dw_batch :: "string list"

definition demo_agent :: "(unit, demo_world) agent" where
  "demo_agent =
     \<lparr>ag_state = dw_agent, ag_set = (\<lambda>a w. w\<lparr>dw_agent := a\<rparr>), ag_id = ''a1'', ag_version = ''1'', ag_boot_id = ''b1'',
      ag_snapshot = (\<lambda>w. ((), w)), ag_heartbeat = (\<lambda>r w. (Inr (ack_of (hb_sequence r) open_grant), w)),
      ag_poll = (\<lambda>n w. (Inr (dw_batch w), w)), ag_now = (\<lambda>w. (zero_time, w)), ag_ref_ok = (\<lambda>s. None)\<rparr>"

definition demo_finish :: "string \<Rightarrow> command_result \<Rightarrow> demo_world err_op" where
  "demo_finish i r w = (if dw_down w = 0 then (None, w\<lparr>dw_taken := (i, r) # dw_taken w\<rparr>) else (Some ContextDeadlineExceeded, w\<lparr>dw_down := dw_down w - 1\<rparr>))"

definition demo_executor :: "demo_world executor" where
  "demo_executor =
     \<lparr>inspect_pair = (\<lambda>p w. (Inr zero_pair, w)), create_pair = (\<lambda>p w. (Inr zero_pair, w)), start_pair = (\<lambda>p w. (Inr zero_pair, w)),
      stop_pair = (\<lambda>p w. (Inr zero_pair, w)), restore_pair = (\<lambda>p w. (Inr zero_pair, w)), delete_pair = (\<lambda>p w. (Inr zero_pair, w))\<rparr>"

definition demo_dispatcher :: "demo_world dispatcher" where
  "demo_dispatcher =
     \<lparr>d_start = (\<lambda>i l w. (None, w)), d_finish = demo_finish, d_shutdown = (\<lambda>w. (None, w)),
      d_load = (\<lambda>w. (Inr (dw_store w), w)), d_save = (\<lambda>s w. (None, w\<lparr>dw_store := Some s\<rparr>)),
      d_clear = (\<lambda>w. (None, w\<lparr>dw_store := None\<rparr>)),
      d_executor = Some demo_executor, d_grant = Some (current_grant demo_agent), d_terminal = None, d_upgrade = None, d_image = None,
      d_transfer = None, d_model = None, d_inventory = None,
      d_bash = (\<lambda>s w. (([], None), w)), d_now = (\<lambda>w. (zero_time, w)), d_ref_ok = (\<lambda>s. None)\<rparr>"

definition demo_start :: demo_world where
  "demo_start = \<lparr>dw_agent = new_agent, dw_store = Some (start_record ''c1'' ''l1''), dw_down = 3, dw_taken = [], dw_batch = [[]]\<rparr>"

lemma demo_rejects: "decode_command r [] now b = Inl (Plain ''command envelope size is invalid'')"
  by (simp add: decode_command_def)

theorem bad_envelope_stops_batch_witness:
  "\<exists>x w'. poll_and_dispatch (logged_agent demo_agent) (logged demo_dispatcher) (demo_start, []) =
     (Some (wrap ''reject invalid command envelope: '' x), (w', []))"
proof (rule bad_envelope_stops_batch)
  show "ag_poll demo_agent 3 demo_start = (Inr [[]], demo_start)" by (simp add: demo_agent_def demo_start_def)
  show "[] \<in> set [[]]" by simp
  show "\<forall>now. \<exists>x. decode_command (ag_ref_ok demo_agent) [] now False = Inl x" by (simp add: demo_rejects)
qed

definition demo_ready :: demo_world where
  "demo_ready = \<lparr>dw_agent = new_agent, dw_store = None, dw_down = 0, dw_taken = [], dw_batch = [json_text stop_document]\<rparr>"

lemma demo_runs:
  "ag_state demo_agent = dw_agent" "ag_set demo_agent a w = w\<lparr>dw_agent := a\<rparr>" "ag_snapshot demo_agent w = ((), w)"
  "ag_heartbeat demo_agent r w = (Inr (ack_of (hb_sequence r) open_grant), w)" "ag_poll demo_agent n w = (Inr (dw_batch w), w)"
  "ag_now demo_agent w = (zero_time, w)" "ag_ref_ok demo_agent = (\<lambda>s. None)"
  "d_start demo_dispatcher i l w = (None, w)" "d_finish demo_dispatcher = demo_finish"
  "d_load demo_dispatcher w = (Inr (dw_store w), w)" "d_save demo_dispatcher s w = (None, w\<lparr>dw_store := Some s\<rparr>)"
  "d_clear demo_dispatcher w = (None, w\<lparr>dw_store := None\<rparr>)" "d_executor demo_dispatcher = Some demo_executor"
  "stop_pair demo_executor p w = (Inr zero_pair, w)"
  by (simp_all add: demo_agent_def demo_dispatcher_def demo_executor_def)

lemma stop_command_simps:
  "cmd_id stop_command = cmd_id stop_raw" "cmd_type stop_command = StopTrainingEnvironment" "cmd_version stop_command = 1"
  "cmd_environment stop_command = Some stop_payload"
  by (simp_all add: stop_command_def sample_fields)

definition stop_events :: "command_result \<Rightarrow> event list" where
  "stop_events r = (let i = cmd_id stop_command; l = cmd_lease_token stop_command in
     [EvLoad (Inr None), EvLoad (Inr None), EvStart i l None, EvSave (start_record i l) None, EvPair OpStop stop_payload,
      EvSave ((start_record i l)\<lparr>sc_result := Some r\<rparr>) None, EvFinish i r None, EvClear None])"

lemma demo_round:
  "\<exists>r w. snd (process_commands_once (logged_agent demo_agent) (logged demo_dispatcher) (demo_ready, [])) = (w, stop_events r)"
proof -
  let ?g = "logged_agent demo_agent" and ?d = "logged demo_dispatcher"
  let ?w = "demo_ready\<lparr>dw_agent := new_agent\<lparr>as_next := 2, as_grant := open_grant\<rparr>\<rparr>"
  have retry: "retry_pending ?d (demo_ready, []) = ((False, None), (demo_ready, [EvLoad (Inr None)]))"
    by (simp add: retry_pending_def logged_simps op_defs log_op_def demo_runs demo_ready_def)
  have refresh: "refresh_grant ?g (demo_ready, t) = (None, (?w, t))" for t
    by (simp add: refresh_grant_def current_grant_def send_once_def logged_agent_simps op_defs plain_op_def demo_runs demo_ready_def
        new_agent_def no_grant_def grant_valid_def Let_def send_finish_def ack_of_def update_grant_def wrap64_def)
  have decode: "decode_all ?g [json_text stop_document] [] (w, t) = (Inr [stop_command], (w, t))" for w t
    by (simp add: op_defs logged_agent_simps plain_op_def demo_runs stop_accepted)
  have "\<exists>r w'. dispatch ?d stop_command (?w, t) = (None, (w', t @ tl (stop_events r)))" for t
    by (simp add: dispatch_def stop_command_simps is_environment_command_type_def logged_simps dispatch_environment_def
        execute_environment_def run_environment_def environment_operation_def is_environment_stop_def
        op_defs log_op_def demo_runs demo_ready_def demo_finish_def Let_def report_stored_def started_def start_record_def stop_events_def)
  then obtain r w' where dispatch: "dispatch ?d stop_command (?w, [EvLoad (Inr None)]) = (None, (w', [EvLoad (Inr None)] @ tl (stop_events r)))"
    by blast
  have poll: "ag_poll ?g 3 (?w, t) = (Inr [json_text stop_document], (?w, t))" for t
    by (simp add: logged_agent_simps plain_op_def demo_runs demo_ready_def)
  have "snd (process_commands_once ?g ?d (demo_ready, [])) = (w', stop_events r)"
    by (simp add: process_commands_once_def poll_and_dispatch_def op_defs retry refresh poll decode dispatch del: decode_all.simps)
       (simp add: stop_events_def Let_def)
  then show ?thesis by blast
qed

theorem agent_effects_separated_witness:
  "\<exists>r x h u m v i a b. agent_history demo_agent demo_dispatcher h \<and>
     h = u @ EvPair OpStop stop_payload # m @ EvPair OpStop stop_payload # v \<and> m = a @ [EvFinish i r None, EvClear x] @ b"
proof -
  obtain r w where run: "snd (process_commands_once (logged_agent demo_agent) (logged demo_dispatcher) (demo_ready, [])) = (w, stop_events r)"
    using demo_round by blast
  have "agent_history demo_agent demo_dispatcher (([] @ stop_events r) @ stop_events r)"
    by (rule round [of _ _ _ demo_ready], rule round [of _ _ _ demo_ready], rule no_round)
       (simp_all add: run stopped_run_def)
  then have h: "agent_history demo_agent demo_dispatcher (stop_events r @ stop_events r)" by simp
  have s: "store_answers {None} (stop_events r @ stop_events r)"
    by (simp add: stop_events_def Let_def)
  obtain m v where split: "stop_events r @ stop_events r = take 4 (stop_events r) @ EvPair OpStop stop_payload # m @ EvPair OpStop stop_payload # v"
    by (simp add: stop_events_def Let_def) (metis append_Cons append_Nil)
  from agent_effects_separated [OF h s] have
    "\<exists>i l u1 u2 a r' x b. take 4 (stop_events r) = u1 @ EvSave (start_record i l) None # u2 \<and> list_all (\<lambda>e. \<not> store_event e) u2 \<and>
       m = a @ [EvFinish i r' None, EvClear x] @ b"
    using split by (simp add: effect_def)
  with h split show ?thesis by fastforce
qed

section \<open>A pending report is eventually delivered\<close>

text \<open>
  A world with a working disk and a server that is down for a while: \<open>holds\<close> is the record on disk, which a load
  returns and a save replaces; \<open>taken\<close> are the reports the server has accepted, the last one first; and \<open>down\<close> decreases
  with every report it refuses.
\<close>

definition steady_world ::
    "'w dispatcher \<Rightarrow> ('w \<Rightarrow> stored_command option) \<Rightarrow> ('w \<Rightarrow> (string \<times> command_result) list) \<Rightarrow> ('w \<Rightarrow> nat) \<Rightarrow> bool" where
  "steady_world d holds taken down \<longleftrightarrow>
     (\<forall>w. \<exists>w'. d_load d w = (Inr (holds w), w') \<and> holds w' = holds w \<and> taken w' = taken w \<and> down w' = down w) \<and>
     (\<forall>s w. \<exists>w'. d_save d s w = (None, w') \<and> holds w' = Some s \<and> taken w' = taken w \<and> down w' = down w) \<and>
     (\<forall>w. \<exists>w'. d_clear d w = (None, w') \<and> holds w' = None \<and> taken w' = taken w) \<and>
     (\<forall>i r w. \<exists>x w'. d_finish d i r w = (x, w') \<and> holds w' = holds w \<and>
        (if x = None then taken w' = (i, r) # taken w else taken w' = taken w \<and> down w' < down w))"

text \<open>What is reported of a record: its result, or that the outcome is unknown.\<close>

definition settled :: "stored_command \<Rightarrow> stored_command" where
  "settled s = (if sc_result s = None then s\<lparr>sc_result := Some (unknown_result (sc_lease s) restarted_message)\<rparr> else s)"

definition outcome :: "stored_command \<Rightarrow> command_result" where
  "outcome s = (case sc_result s of None \<Rightarrow> unknown_result (sc_lease s) restarted_message | Some r \<Rightarrow> r)"

lemma settled_simps [simp]: "sc_id (settled s) = sc_id s" "outcome (settled s) = outcome s" "sc_result (settled s) = Some (outcome s)"
  by (auto simp: settled_def outcome_def split: option.splits)

lemma report_stored_steady:
  assumes "steady_world d holds taken down" "holds w = Some s" "sc_result s = Some r"
  shows "\<exists>x w'. report_stored d s w = (x, w') \<and>
    (holds w' = None \<and> (sc_id s, r) \<in> set (taken w') \<or> holds w' = Some s \<and> down w' < down w)"
proof -
  obtain x w1 where f: "d_finish d (sc_id s) r w = (x, w1)" "holds w1 = holds w"
    "if x = None then taken w1 = (sc_id s, r) # taken w else taken w1 = taken w \<and> down w1 < down w"
    using assms(1) unfolding steady_world_def by blast
  obtain w2 where c: "d_clear d w1 = (None, w2)" "holds w2 = None" "taken w2 = taken w1"
    using assms(1) unfolding steady_world_def by blast
  from f c assms(2,3) show ?thesis
    by (cases x) (auto simp: report_stored_def op_defs)
qed

lemma report_found_steady:
  assumes "steady_world d holds taken down" "holds w = Some s"
  shows "\<exists>x w'. report_found d (sc_lease s) restarted_message s w = (x, w') \<and>
    (holds w' = None \<and> (sc_id s, outcome s) \<in> set (taken w') \<or> holds w' = Some (settled s) \<and> down w' < down w)"
proof (cases "sc_result s")
  case None
  obtain w1 where w1: "d_save d (settled s) w = (None, w1)" "holds w1 = Some (settled s)" "down w1 = down w"
    using assms(1) unfolding steady_world_def by blast
  have "settled s = s\<lparr>sc_result := Some (unknown_result (sc_lease s) restarted_message)\<rparr>" using None by (simp add: settled_def)
  then have "report_found d (sc_lease s) restarted_message s w = report_stored d (settled s) w1"
    using None w1(1) by (simp add: report_found_def Let_def op_defs)
  with report_stored_steady [OF assms(1) w1(2) settled_simps(3)] w1(3) show ?thesis by auto
next
  case (Some r)
  with report_stored_steady [OF assms Some] show ?thesis by (auto simp: report_found_def settled_def outcome_def)
qed

abbreviation round_of :: "('s, 'w) agent \<Rightarrow> 'w dispatcher \<Rightarrow> 'w \<Rightarrow> 'w" where
  "round_of g d w \<equiv> snd (process_commands_once g d w)"

lemma round_steady:
  assumes "steady_world d holds taken down" "holds w = Some s"
  shows "holds (round_of g d w) = None \<and> (sc_id s, outcome s) \<in> set (taken (round_of g d w)) \<or>
    holds (round_of g d w) = Some (settled s) \<and> down (round_of g d w) < down w"
proof -
  obtain w1 where w1: "d_load d w = (Inr (Some s), w1)" "holds w1 = Some s" "down w1 = down w"
    using assms unfolding steady_world_def by metis
  from report_found_steady [OF assms(1) w1(2)] obtain x w2
    where w2: "report_found d (sc_lease s) restarted_message s w1 = (x, w2)"
      "holds w2 = None \<and> (sc_id s, outcome s) \<in> set (taken w2) \<or> holds w2 = Some (settled s) \<and> down w2 < down w1" by blast
  have "round_of g d w = w2"
    using w1 w2(1) by (cases x) (simp_all add: process_commands_once_def retry_pending_def op_defs)
  with w1(3) w2(2) show ?thesis by simp
qed

definition delivered_after ::
    "('w \<Rightarrow> 'w) \<Rightarrow> ('w \<Rightarrow> stored_command option) \<Rightarrow> ('w \<Rightarrow> (string \<times> command_result) list) \<Rightarrow> stored_command \<Rightarrow> 'w \<Rightarrow> nat \<Rightarrow> bool" where
  "delivered_after f holds taken s w n \<longleftrightarrow>
     (\<forall>m<n. holds ((f ^^ m) w) \<noteq> None) \<and> holds ((f ^^ n) w) = None \<and> (sc_id s, outcome s) \<in> set (taken ((f ^^ n) w))"

lemma delivered_Suc:
  "delivered_after f holds taken s (f w) n \<Longrightarrow> holds w \<noteq> None \<Longrightarrow> delivered_after f holds taken s w (Suc n)"
  unfolding delivered_after_def by (auto simp: funpow_Suc_right less_Suc_eq_0_disj simp del: funpow.simps(2))

lemma rounds_steady:
  assumes "steady_world d holds taken down"
  shows "holds w = Some s \<Longrightarrow> \<exists>n \<le> down w + 1. delivered_after (round_of g d) holds taken s w n"
proof (induction "down w" arbitrary: w s rule: less_induct)
  case less
  from round_steady [OF assms less.prems, of g] show ?case
  proof (elim disjE conjE)
    assume "holds (round_of g d w) = None" "(sc_id s, outcome s) \<in> set (taken (round_of g d w))"
    with less.prems have "delivered_after (round_of g d) holds taken s w 1" by (simp add: delivered_after_def)
    then show ?thesis by (metis le_add2)
  next
    assume n: "holds (round_of g d w) = Some (settled s)" "down (round_of g d w) < down w"
    from less.hyps [OF n(2,1)] obtain n where n: "n \<le> down (round_of g d w) + 1" "delivered_after (round_of g d) holds taken (settled s) (round_of g d w) n" by blast
    then have "delivered_after (round_of g d) holds taken s (round_of g d w) n" by (simp add: delivered_after_def)
    from delivered_Suc [OF this] less.prems n(1) \<open>down (round_of g d w) < down w\<close> show ?thesis
      by (intro exI [of _ "Suc n"]) simp
  qed
qed

text \<open>
  C17. A pending record is reported and then cleared, whichever state a crash left it in: when the disk works (so a load
  returns the record, which a record over the 64 KiB of \<open>Load\<close> excludes) and the server refuses only finitely many
  reports, then after at most one more round of the command loop than the number of refusals the server has accepted
  the report of that command, its result if one was recorded and otherwise that the outcome is unknown, and the store is
  empty; and up to that round the record was still there.
\<close>

theorem pending_report_is_delivered:
  assumes "steady_world d holds taken down" "holds w = Some s"
  shows "\<exists>n \<le> down w + 1.
    (\<forall>m<n. holds (((\<lambda>w. snd (process_commands_once g d w)) ^^ m) w) \<noteq> None) \<and>
    holds (((\<lambda>w. snd (process_commands_once g d w)) ^^ n) w) = None \<and>
    (sc_id s, case sc_result s of Some r \<Rightarrow> r | None \<Rightarrow> unknown_result (sc_lease s) restarted_message)
      \<in> set (taken (((\<lambda>w. snd (process_commands_once g d w)) ^^ n) w))"
  using rounds_steady [OF assms, of g] unfolding delivered_after_def outcome_def
  by (auto split: option.splits)

theorem pending_report_is_delivered_witness:
  "\<exists>n \<le> 4. dw_store (((\<lambda>w. snd (process_commands_once demo_agent demo_dispatcher w)) ^^ n) demo_start) = None \<and>
     (''c1'', unknown_result ''l1'' restarted_message)
       \<in> set (dw_taken (((\<lambda>w. snd (process_commands_once demo_agent demo_dispatcher w)) ^^ n) demo_start))"
proof -
  have "steady_world demo_dispatcher dw_store dw_taken dw_down"
    by (simp add: steady_world_def demo_runs demo_finish_def)
  from pending_report_is_delivered [OF this, of demo_start "start_record ''c1'' ''l1''" demo_agent] show ?thesis
    by (fastforce simp: demo_start_def start_record_def)
qed

section \<open>Delays\<close>

text \<open>
  Rounding to a float64 changes a real number in the middle of the range by at most the relative error
  \<open>2^-53\<close>.
\<close>

definition rounds_close :: "(real \<Rightarrow> real) \<Rightarrow> bool" where
  "rounds_close rnd \<longleftrightarrow> (\<forall>x. x = 0 \<or> 1 / 2 ^ 100 \<le> x \<and> x \<le> 2 ^ 100 \<longrightarrow> \<bar>rnd x - x\<bar> \<le> x / 2 ^ 53)"

lemma rounds_near:
  assumes "rounds_close rnd" "x = 0 \<or> 1 / 10 ^ 9 \<le> x" "x \<le> M" "M \<le> 10 ^ 12"
  shows "x - M / 10 ^ 15 \<le> rnd x \<and> rnd x \<le> x + M / 10 ^ 15"
proof -
  have "(1::real) / 2 ^ 100 \<le> 1 / 10 ^ 9" "(10::real) ^ 12 \<le> 2 ^ 100" by simp_all
  with assms(2-4) have "x = 0 \<or> 1 / 2 ^ 100 \<le> x \<and> x \<le> 2 ^ 100" by (meson order_trans)
  then have "\<bar>rnd x - x\<bar> \<le> x / 2 ^ 53" using assms(1) unfolding rounds_close_def by blast
  also have "\<dots> \<le> M / 2 ^ 53" using assms(3) by (rule divide_right_mono) simp
  also have "\<dots> \<le> M / 10 ^ 15"
  proof (rule divide_left_mono)
    have "(0::real) \<le> 1 / 10 ^ 9" by simp
    with assms(2,3) show "0 \<le> M" by linarith
  qed simp_all
  finally have "\<bar>rnd x - x\<bar> \<le> M / 10 ^ 15" .
  then show ?thesis by linarith
qed

lemma jitter_factor:
  assumes "rounds_close rnd" "0 \<le> v" "v \<le> 255"
  shows "4 / 5 - 1 / 10 ^ 13 \<le> rnd (rnd (4 / 5) + rnd (rnd (rnd (real_of_int v) / 255) * rnd (2 / 5)))"
    "rnd (rnd (4 / 5) + rnd (rnd (rnd (real_of_int v) / 255) * rnd (2 / 5))) \<le> 6 / 5 + 1 / 10 ^ 13"
proof -
  note near = rounds_near [OF assms(1)]
  let ?v = "real_of_int v" and ?F = "rnd (rnd (4 / 5) + rnd (rnd (rnd (real_of_int v) / 255) * rnd (2 / 5)))"
  have v: "?v = 0 \<or> 1 \<le> ?v" "0 \<le> ?v" "?v \<le> 255" using assms(2,3) by auto
  from near [of "4 / 5" 1] have a: "4 / 5 - 1 / 10 ^ 15 \<le> rnd (4 / 5)" "rnd (4 / 5) \<le> 4 / 5 + 1 / 10 ^ 15" by simp_all
  from near [of "2 / 5" 1] have b: "2 / 5 - 1 / 10 ^ 15 \<le> rnd (2 / 5)" "rnd (2 / 5) \<le> 2 / 5 + 1 / 10 ^ 15" by simp_all
  have zero: "rnd 0 = 0" using assms(1) by (force simp: rounds_close_def)
  have "4 / 5 - 1 / 10 ^ 13 \<le> ?F \<and> ?F \<le> 6 / 5 + 1 / 10 ^ 13"
  proof (cases "v = 0")
    case True
    from near [of "rnd (4 / 5)" 1] a have "rnd (4 / 5) - 1 / 10 ^ 15 \<le> rnd (rnd (4 / 5))" "rnd (rnd (4 / 5)) \<le> rnd (4 / 5) + 1 / 10 ^ 15"
      by simp_all
    with a True show ?thesis by (simp add: zero)
  next
    case False
    with v have v1: "1 \<le> ?v" by simp
    let ?q = "rnd ?v / 255"
    from near [of ?v 255] v v1 have "?v - 255 / 10 ^ 15 \<le> rnd ?v" "rnd ?v \<le> ?v + 255 / 10 ^ 15" by simp_all
    with v v1 have q: "1 / 1000 \<le> ?q" "?q \<le> 1 + 1 / 10 ^ 15" by simp_all
    from near [of ?q 2] q have "?q - 2 / 10 ^ 15 \<le> rnd ?q" "rnd ?q \<le> ?q + 2 / 10 ^ 15" by simp_all
    with q have p: "1 / 2000 \<le> rnd ?q" "rnd ?q \<le> 1 + 3 / 10 ^ 15" by simp_all
    let ?m = "rnd ?q * rnd (2 / 5)"
    have "?m \<le> (1 + 3 / 10 ^ 15) * (2 / 5 + 1 / 10 ^ 15)" by (rule mult_mono) (use p b in simp_all)
    moreover have "1 / 2000 * (2 / 5 - 1 / 10 ^ 15) \<le> ?m" by (rule mult_mono) (use p b in simp_all)
    ultimately have m: "?m \<le> 2 / 5 + 3 / 10 ^ 15" "1 / 10000 \<le> ?m" by simp_all
    from near [of ?m 1] m have "?m - 1 / 10 ^ 15 \<le> rnd ?m" "rnd ?m \<le> ?m + 1 / 10 ^ 15" by simp_all
    with m have n: "rnd ?m \<le> 2 / 5 + 4 / 10 ^ 15" "0 \<le> rnd ?m" by simp_all
    let ?s = "rnd (4 / 5) + rnd ?m"
    have s: "?s \<le> 6 / 5 + 5 / 10 ^ 15" "4 / 5 - 1 / 10 ^ 15 \<le> ?s" using n a by simp_all
    from near [of ?s 2] s have "?s - 2 / 10 ^ 15 \<le> rnd ?s" "rnd ?s \<le> ?s + 2 / 10 ^ 15" by simp_all
    with s show ?thesis by simp
  qed
  then show "4 / 5 - 1 / 10 ^ 13 \<le> ?F" "?F \<le> 6 / 5 + 1 / 10 ^ 13" by simp_all
qed

text \<open>
  The delay after a failure is spread by at most a fifth: for the delays that occur (up to the
  back-off limit) and every random byte, rounding in floating point included, the jittered delay lies
  within 80 and 120 percent of the delay, to two nanoseconds.
\<close>

theorem jitter_bounds:
  assumes "rounds_close rnd" "\<forall>v. value = Some v \<longrightarrow> 0 \<le> v \<and> v \<le> 255" "1 \<le> delay" "delay \<le> max_backoff"
  shows "4 * delay - 10 \<le> 5 * jitter rnd value delay \<and> 5 * jitter rnd value delay \<le> 6 * delay + 10"
proof (cases "value")
  case None
  with assms(3) show ?thesis by (simp add: jitter_def)
next
  case (Some v)
  note near = rounds_near [OF assms(1)]
  let ?d = "real_of_int delay"
  have d: "1 \<le> ?d" "?d \<le> 30 * 10 ^ 9" using assms(3,4) by (simp_all add: max_backoff_def second_ns_def)
  define f where "f = rnd (rnd (4 / 5) + rnd (rnd (rnd (real_of_int v) / 255) * rnd (2 / 5)))"
  have f: "4 / 5 - 1 / 10 ^ 13 \<le> f" "f \<le> 6 / 5 + 1 / 10 ^ 13"
    using jitter_factor [OF assms(1), of v] Some assms(2) by (simp_all add: f_def)
  from near [of ?d "30 * 10 ^ 9"] d have e: "?d - 1 / 10 \<le> rnd ?d" "rnd ?d \<le> ?d + 1 / 10" by simp_all
  have up: "rnd ?d * f \<le> rnd ?d * (6 / 5 + 1 / 10 ^ 13)" and low: "rnd ?d * (4 / 5 - 1 / 10 ^ 13) \<le> rnd ?d * f"
    by (rule mult_left_mono, rule f, use e d in simp)+
  have x: "rnd ?d * f \<le> 6 / 5 * ?d + 1 / 2" "4 / 5 * ?d - 1 / 2 \<le> rnd ?d * f"
    by (rule order_trans [OF up], use e d in simp, rule order_trans [OF _ low], use e d in simp)
  from near [of "rnd ?d * f" "36 * 10 ^ 9 + 1"] x d
  have y: "rnd (rnd ?d * f) \<le> 6 / 5 * ?d + 1" "4 / 5 * ?d - 1 \<le> rnd (rnd ?d * f)" by simp_all
  have "real_of_int (5 * \<lfloor>rnd (rnd ?d * f)\<rfloor>) \<le> real_of_int (6 * delay + 10)"
    using y(1) of_int_floor_le [of "rnd (rnd ?d * f)"] unfolding of_int_mult of_int_add of_int_numeral by linarith
  moreover have "real_of_int (4 * delay - 10) \<le> real_of_int (5 * \<lfloor>rnd (rnd ?d * f)\<rfloor>)"
    using y(2) real_of_int_floor_gt_diff_one [of "rnd (rnd ?d * f)"]
    unfolding of_int_mult of_int_diff of_int_numeral by linarith
  ultimately show ?thesis using Some by (simp only: of_int_le_iff jitter_def f_def Let_def option.case)
qed

theorem jitter_bounds_witness: "4 * second_ns - 10 \<le> 5 * jitter (\<lambda>x. x) (Some 255) second_ns"
proof -
  have "rounds_close (\<lambda>x. x)" by (simp add: rounds_close_def)
  from jitter_bounds [OF this, of "Some 255" second_ns] show ?thesis by (simp add: second_ns_def max_backoff_def)
qed

end
