(* ===== verification/Validator.thy ===== *)
theory Validator
  imports EnvironmentSpec GoErrors
begin

text \<open>
  \<open>Validator\<close> (\<open>internal/container/validator.go\<close>): the checks the executors make on an environment
  payload before they touch Docker, and the resolution of the workspace path below its root. The file
  system is the answer of \<open>os.Lstat\<close> for each path; on the agent's platform \<open>filepath\<close> is \<open>path\<close>.
\<close>

section \<open>Identity\<close>

definition container_name_pattern :: rx where
  "container_name_pattern =
     rx_cat [RxCls is_alnum, rx_rep 2 (RxCls (\<lambda>c. is_alnum c \<or> one_of ''_.-'' c)),
             rx_upto 125 (RxCls (\<lambda>c. is_alnum c \<or> one_of ''_.-'' c))]"

definition fingerprint_pattern :: rx where
  "fingerprint_pattern = rx_rep 64 (RxCls is_hex)"

definition image_pattern :: rx where
  "image_pattern =
     rx_cat [RxCls is_alnum, rx_upto 254 (RxCls (\<lambda>c. is_alnum c \<or> one_of ''._/:@-'' c))]"

lemma container_name_iff:
  "rx_match container_name_pattern s \<longleftrightarrow>
     s \<noteq> [] \<and> 3 \<le> length s \<and> length s \<le> 128 \<and> is_alnum (hd s) \<and> list_all (\<lambda>c. is_alnum c \<or> one_of ''_.-'' c) (tl s)"
  unfolding container_name_pattern_def rx_match_head_range by simp

lemma fingerprint_iff: "rx_match fingerprint_pattern s \<longleftrightarrow> length s = 64 \<and> list_all is_hex s"
  by (simp add: fingerprint_pattern_def rx_match_lang rx_lang_rep)

lemma image_iff_pattern:
  "rx_match image_pattern s \<longleftrightarrow>
     s \<noteq> [] \<and> length s \<le> 255 \<and> is_alnum (hd s) \<and> list_all (\<lambda>c. is_alnum c \<or> one_of ''._/:@-'' c) (tl s)"
  unfolding image_pattern_def rx_match_head_tail by simp

record validator =
  v_workspace_root :: string
  v_tls_dir :: string

fun check_identities :: "string list \<Rightarrow> string list \<Rightarrow> environment_component list \<Rightarrow> goerr option" where
  "check_identities types names [] = None"
| "check_identities types names (c # cs) =
     (if ec_component_type c \<noteq> ''ANNOTATION'' \<and> ec_component_type c \<noteq> ''EDITOR''
      then Some (Plain ''component type is invalid'')
      else if ec_component_type c \<in> set types \<or> ec_container_name c \<in> set names
      then Some (Plain ''component identity is duplicated'')
      else if \<not> rx_match container_name_pattern (ec_container_name c)
         \<or> \<not> rx_match fingerprint_pattern (ec_config_fingerprint c)
      then Some (Plain ''component identity is invalid'')
      else check_identities (ec_component_type c # types) (ec_container_name c # names) cs)"

definition validate_pair_identity :: "environment_payload \<Rightarrow> goerr option" where
  "validate_pair_identity p =
     (if ev_environment_id p = [] \<or> ev_operation_id p = [] \<or> length (ev_components p) < 1 \<or> length (ev_components p) > 2
      then Some (Plain ''environment identity is invalid'')
      else check_identities [] [] (ev_components p))"

definition validate_control :: "environment_payload \<Rightarrow> goerr option" where
  "validate_control p = validate_pair_identity p"

section \<open>The workspace\<close>

datatype lstat = LstatMissing | LstatError goerr | LstatSymlink | LstatOther

fun walk_segments :: "(string \<Rightarrow> lstat) \<Rightarrow> string \<Rightarrow> string list \<Rightarrow> goerr option" where
  "walk_segments lstat current [] = None"
| "walk_segments lstat current (s # ss) =
     (case lstat (path_join [current, s]) of
        LstatMissing \<Rightarrow> None
      | LstatError e \<Rightarrow> Some (wrap ''inspect workspace path: '' e)
      | LstatSymlink \<Rightarrow> Some (Plain ''workspace path contains a symlink'')
      | LstatOther \<Rightarrow> walk_segments lstat (path_join [current, s]) ss)"

definition resolve_workspace :: "validator \<Rightarrow> (string \<Rightarrow> lstat) \<Rightarrow> string \<Rightarrow> goerr + string" where
  "resolve_workspace v lstat relative =
     (if v_workspace_root v = [] \<or> \<not> is_abs (v_workspace_root v) \<or> relative = [] \<or> is_abs relative
      then Inl (Plain ''workspace path is invalid'')
      else let clean = path_clean relative in
      if clean = dot \<or> clean = dotdot \<or> has_prefix clean ''../'' then Inl (Plain ''workspace path is invalid'')
      else let root = path_clean (v_workspace_root v); workspace = path_join [root, clean] in
      case path_rel root workspace of
        None \<Rightarrow> Inl (Plain ''workspace escapes configured root'')
      | Some rel \<Rightarrow>
          if rel = dotdot \<or> has_prefix rel ''../'' then Inl (Plain ''workspace escapes configured root'')
          else (case walk_segments lstat root (split_on (CHR ''/'') rel) of
                  Some e \<Rightarrow> Inl e
                | None \<Rightarrow> Inr workspace))"

section \<open>Create specifications\<close>

definition argument_invalid :: "string \<Rightarrow> bool" where
  "argument_invalid a = (a = [] \<or> length a > 2048 \<or> CHR 0x00 \<in> set a)"

definition working_directory_invalid :: "string \<Rightarrow> bool" where
  "working_directory_invalid w = (w \<noteq> [] \<and> (\<not> has_prefix w ''/'' \<or> contains_str w ''..''))"

definition check_create :: "string list \<Rightarrow> environment_component \<Rightarrow> goerr + string list" where
  "check_create ports c =
     (if \<not> rx_match image_pattern (ec_image_reference c) \<or> ec_restart_policy c \<noteq> ''always''
      then Inl (Plain ''component image or restart policy is invalid'')
      else if cpu_invalid c \<or> memory_invalid c then Inl (Plain ''component resources are invalid'')
      else if ec_component_type c = ''ANNOTATION'' \<and>
              (ec_runtime_name c \<noteq> ''sysbox-runc'' \<or> ec_mount_target c \<noteq> ''/root/data'' \<or> ec_gpu_enabled c)
      then Inl (Plain ''annotation component configuration is invalid'')
      else if ec_component_type c \<noteq> ''ANNOTATION'' \<and>
              (ec_runtime_name c \<noteq> ''nvidia'' \<or> ec_mount_target c \<noteq> ''/home/student/data'')
      then Inl (Plain ''editor component configuration is invalid'')
      else if gpu_limit_invalid c then Inl (Plain ''GPU limit is invalid'')
      else if length (ec_ports c) = 0 then Inl (Plain ''component ports are required'')
      else case check_ports ports (ec_ports c) of
          Inl e \<Rightarrow> Inl e
        | Inr ports' \<Rightarrow>
            if working_directory_invalid (ec_working_directory c) then Inl (Plain ''working directory is invalid'')
            else if list_ex argument_invalid (ec_command c) then Inl (Plain ''component command is invalid'')
            else Inr ports')"

fun check_creates :: "string list \<Rightarrow> environment_component list \<Rightarrow> goerr option" where
  "check_creates ports [] = None"
| "check_creates ports (c # cs) =
     (case check_create ports c of Inl e \<Rightarrow> Some e | Inr ports' \<Rightarrow> check_creates ports' cs)"

definition validate_create :: "validator \<Rightarrow> (string \<Rightarrow> lstat) \<Rightarrow> environment_payload \<Rightarrow> goerr + string" where
  "validate_create v lstat p =
     (case validate_pair_identity p of
        Some e \<Rightarrow> Inl e
      | None \<Rightarrow>
          (case resolve_workspace v lstat (ev_workspace_relative_path p) of
             Inl e \<Rightarrow> Inl e
           | Inr workspace \<Rightarrow>
               (case check_creates [] (ev_components p) of Some e \<Rightarrow> Inl e | None \<Rightarrow> Inr workspace)))"

section \<open>What an accepted identity is\<close>

definition identity_spec :: "environment_component \<Rightarrow> bool" where
  "identity_spec c \<longleftrightarrow> ec_component_type c \<in> {''ANNOTATION'', ''EDITOR''} \<and>
     rx_match container_name_pattern (ec_container_name c) \<and> rx_match fingerprint_pattern (ec_config_fingerprint c)"

lemma check_identities_spec:
  "check_identities types names cs = None \<longleftrightarrow>
     list_all identity_spec cs \<and> distinct (map ec_component_type cs) \<and> distinct (map ec_container_name cs) \<and>
     set (map ec_component_type cs) \<inter> set types = {} \<and> set (map ec_container_name cs) \<inter> set names = {}"
proof (induction cs arbitrary: types names)
  case (Cons c cs)
  show ?case
    unfolding check_identities.simps guards Cons.IH identity_spec_def
    by (auto simp: identity_spec_def)
qed simp

lemma validate_pair_identity_spec:
  "validate_pair_identity p = None \<longleftrightarrow>
     ev_environment_id p \<noteq> [] \<and> ev_operation_id p \<noteq> [] \<and> length (ev_components p) \<in> {1, 2} \<and>
     list_all identity_spec (ev_components p) \<and>
     distinct (map ec_component_type (ev_components p)) \<and> distinct (map ec_container_name (ev_components p))"
proof -
  show ?thesis
    unfolding validate_pair_identity_def guards check_identities_spec one_or_two by auto
qed

section \<open>The workspace stays below its root\<close>

lemma split_on_append_any: "split_on d (a @ d # b) = split_on d a @ split_on d b"
proof (induction a)
  case (Cons c a)
  then show ?case by (cases "split_on d a") auto
qed simp

lemma clean_elems_clean: "is_abs r \<Longrightarrow> clean_elems (path_clean r) = clean_elems r \<and> is_abs (path_clean r)"
proof -
  assume r: "is_abs r"
  then have ne: "r \<noteq> []" by (auto simp: is_abs_def)
  have e: "\<forall>e\<in>set (clean_elems r). clean_elem e \<and> e \<noteq> dotdot"
    using clean_elems_elem clean_elems_abs [OF r] by blast
  have "split_on (CHR ''/'') (CHR ''/'' # join_slash (clean_elems r)) = [] # split_on (CHR ''/'') (join_slash (clean_elems r))"
    by simp
  moreover have "foldl (clean_step True) [] (split_on (CHR ''/'') (join_slash (clean_elems r))) = rev (clean_elems r)"
    proof (cases "clean_elems r = []")
    case False
    with e show ?thesis by (simp add: split_join_slash clean_fold_proper)
  qed (simp add: join_slash_def)
  ultimately show ?thesis
    using r ne by (simp add: path_clean_def clean_elems_def [of "CHR ''/'' # _"] is_abs_def)
qed

lemma join_below:
  assumes "is_abs r" "r \<noteq> []" "es \<noteq> []" "\<forall>e\<in>set es. clean_elem e \<and> e \<noteq> dotdot"
  shows "clean_elems (path_join [r, join_slash es]) = clean_elems r @ es \<and> is_abs (path_join [r, join_slash es])"
proof -
  have ne: "join_slash es \<noteq> []" using join_slash_hd [OF assms(3)] assms(3,4) by (auto simp: clean_elem_def)
  let ?p = "r @ CHR ''/'' # join_slash es"
  have abs: "is_abs ?p" using assms(1) by (auto simp: is_abs_def has_prefix_iff)
  have "path_join [r, join_slash es] = path_clean ?p"
    using assms(2) ne by (simp add: path_join_def join_slash_def)
  moreover have "clean_elems ?p = clean_elems r @ es"
    using assms(3,4) abs assms(1)
    by (simp add: clean_elems_def split_on_append_any split_join_slash clean_fold_proper)
  ultimately show ?thesis using clean_elems_clean [OF abs] by simp
qed

lemma strip_common_append: "strip_common a (a @ b) = ([], b)"
  by (induction a) auto

lemma rel_below:
  assumes "is_abs r" "is_abs w" "clean_elems w = clean_elems r @ es" "es \<noteq> []"
  shows "path_rel r w = Some (join_slash es)"
proof -
  have "path_clean r \<noteq> path_clean w"
    using clean_elems_clean [OF assms(1)] clean_elems_clean [OF assms(2)] assms(3,4) by auto
  then show ?thesis using assms by (simp add: path_rel_def strip_common_append)
qed

text \<open>The path after the first \<open>k\<close> elements below a directory.\<close>

definition below :: "string \<Rightarrow> string list \<Rightarrow> string" where
  "below d es = foldl (\<lambda>p e. path_join [p, e]) d es"

lemma walk_no_symlink:
  assumes "walk_segments lstat d es = None" "k < length es" "\<forall>j<k. lstat (below d (take (Suc j) es)) = LstatOther"
  shows "lstat (below d (take (Suc k) es)) \<noteq> LstatSymlink"
  using assms
proof (induction es arbitrary: d k)
  case (Cons e es)
  show ?case
  proof (cases k)
    case 0
    with Cons.prems(1) show ?thesis by (auto simp: below_def split: lstat.splits)
  next
    case (Suc k')
    have first: "lstat (path_join [d, e]) = LstatOther" using Cons.prems(3) Suc by (auto simp: below_def)
    with Cons.prems(1) have "walk_segments lstat (path_join [d, e]) es = None" by simp
    moreover have "\<forall>j<k'. lstat (below (path_join [d, e]) (take (Suc j) es)) = LstatOther"
      using Cons.prems(3) Suc by (auto simp: below_def)
    ultimately have "lstat (below (path_join [d, e]) (take (Suc k') es)) \<noteq> LstatSymlink"
      using Cons.IH Cons.prems(2) Suc by simp
    then show ?thesis by (simp add: Suc below_def)
  qed
qed simp

lemma clean_relative:
  assumes "\<not> is_abs p" "path_clean p \<noteq> dot" "\<not> escapes (path_clean p)" "p \<noteq> []"
  shows "path_clean p = join_slash (clean_elems p) \<and> clean_elems p \<noteq> [] \<and> (\<forall>e\<in>set (clean_elems p). clean_elem e \<and> e \<noteq> dotdot)"
proof -
  have p: "path_clean p = join_slash (clean_elems p)" and ne: "clean_elems p \<noteq> []"
    using assms(1,2,4) by (auto simp: path_clean_def split: if_splits)
  have "hd (clean_elems p) \<noteq> dotdot"
    using assms(3) p ne clean_elems_elem by (auto simp: escapes_join)
  then have "dotdot \<notin> set (clean_elems p)" using clean_elems_hd [OF ne] by blast
  with p ne clean_elems_elem show ?thesis by blast
qed

lemma resolved_below:
  assumes "resolve_workspace v lstat relative = Inr w"
  shows "\<exists>es. es \<noteq> [] \<and> (\<forall>e\<in>set es. clean_elem e \<and> e \<noteq> dotdot) \<and> is_abs w \<and>
    clean_elems w = clean_elems (v_workspace_root v) @ es \<and>
    walk_segments lstat (path_clean (v_workspace_root v)) es = None"
proof -
  let ?root = "path_clean (v_workspace_root v)" and ?es = "clean_elems relative"
  let ?w = "path_join [?root, path_clean relative]"
  note chain = assms [unfolded resolve_workspace_def Let_def guards]
  from chain have r: "is_abs (v_workspace_root v)" "relative \<noteq> []" "\<not> is_abs relative"
    "path_clean relative \<noteq> dot" "\<not> escapes (path_clean relative)"
    by (auto simp: escapes_def)
  note es = clean_relative [OF r(3,4,5,2)]
  note root = clean_elems_clean [OF r(1)]
  then have ne: "?root \<noteq> []" by (auto simp: is_abs_def)
  have w: "clean_elems ?w = clean_elems ?root @ ?es" "is_abs ?w"
    using join_below [of ?root ?es] root ne es by simp_all
  have rel: "path_rel ?root ?w = Some (join_slash ?es)"
    using rel_below [of ?root ?w ?es] root w es by simp
  have seg: "split_on (CHR ''/'') (join_slash ?es) = ?es" using es by (simp add: split_join_slash)
  from chain rel seg have "w = ?w" "walk_segments lstat ?root ?es = None" by auto
  with es w root show ?thesis by (intro exI [of _ ?es]) simp
qed

end
