(* ===== verification/FakeExec.thy ===== *)
theory FakeExec
  imports Executor Validator
begin

text \<open>
  The contract of a container executor (\<open>internal/container/executor.go\<close>) as a locale, and the
  in-memory executor \<open>FakeExecutor\<close> (\<open>fake.go\<close>), which is an interpretation of it. The contract says,
  for each operation that succeeds, in which state the containers of the payload are afterwards and
  that no other container has changed, and that an operation that fails has changed none.
\<close>

section \<open>Results\<close>

definition component_result_of :: "environment_component \<Rightarrow> string \<Rightarrow> component_result" where
  "component_result_of c state =
     \<lparr>cs_component_type = ec_component_type c, cs_container_name = ec_container_name c,
      cs_config_fingerprint = ec_config_fingerprint c, cs_state = state\<rparr>"

definition assign_component_result :: "pair_result \<Rightarrow> environment_component \<Rightarrow> string \<Rightarrow> pair_result" where
  "assign_component_result r c state =
     (if ec_component_type c = ''ANNOTATION'' then r\<lparr>pr_annotation := component_result_of c state\<rparr>
      else r\<lparr>pr_editor := component_result_of c state\<rparr>)"

definition pair_with_state :: "environment_payload \<Rightarrow> string \<Rightarrow> pair_result" where
  "pair_with_state p state = foldl (\<lambda>r c. assign_component_result r c state) zero_pair (ev_components p)"

section \<open>The contract\<close>

abbreviation names :: "environment_payload \<Rightarrow> string set" where
  "names p \<equiv> ec_container_name ` set (ev_components p)"

abbreviation changes :: "'e executor \<Rightarrow> (environment_payload \<Rightarrow> ('e, pair_result) res_op) set" where
  "changes ex \<equiv> {create_pair ex, start_pair ex, stop_pair ex, restore_pair ex, delete_pair ex}"

locale executor_contract =
  fixes ex :: "'e executor"
    and state :: "'e \<Rightarrow> string \<Rightarrow> string"
    and inv :: "'e \<Rightarrow> bool"
  assumes inv_kept: "f \<in> changes ex \<Longrightarrow> inv e \<Longrightarrow> f p e = (s, e') \<Longrightarrow> inv e'"
    and create_done: "inv e \<Longrightarrow> create_pair ex p e = (Inr r, e') \<Longrightarrow> n \<in> names p \<Longrightarrow> state e' n \<noteq> state_missing"
    and start_done: "start_pair ex p e = (Inr r, e') \<Longrightarrow> n \<in> names p \<Longrightarrow> state e' n = state_running"
    and stop_done: "stop_pair ex p e = (Inr r, e') \<Longrightarrow> n \<in> names p \<Longrightarrow> state e' n \<noteq> state_running"
    and restore_done: "restore_pair ex p e = (Inr r, e') \<Longrightarrow> n \<in> names p \<Longrightarrow> state e' n = state_stopped"
    and delete_done: "delete_pair ex p e = (Inr r, e') \<Longrightarrow> n \<in> names p \<Longrightarrow> state e' n = state_missing"
    and frame: "f \<in> changes ex \<Longrightarrow> f p e = (s, e') \<Longrightarrow> n \<notin> names p \<Longrightarrow> state e' n = state e n"
begin

text \<open>Two environments with different container names do not disturb each other.\<close>

lemma started_stays:
  assumes "start_pair ex p e = (Inr r, e1)" "names p \<inter> names q = {}" "f \<in> changes ex" "f q e1 = (s, e2)" "n \<in> names p"
  shows "state e2 n = state_running"
  using start_done [OF assms(1,5)] frame [OF assms(3,4), of n] assms(2,5) by auto

lemma deleted_stays:
  assumes "delete_pair ex p e = (Inr r, e1)" "names p \<inter> names q = {}" "f \<in> changes ex" "f q e1 = (s, e2)" "n \<in> names p"
  shows "state e2 n = state_missing"
  using delete_done [OF assms(1,5)] frame [OF assms(3,4), of n] assms(2,5) by auto

end

text \<open>An executor whose operations also change nothing when they fail.\<close>

locale atomic_executor = executor_contract ex state inv
  for ex :: "'e executor" and state :: "'e \<Rightarrow> string \<Rightarrow> string" and inv :: "'e \<Rightarrow> bool" +
  assumes failure: "f \<in> changes ex \<Longrightarrow> f p e = (Inl x, e') \<Longrightarrow> state e' = state e"
begin

lemma refused: "f \<in> changes ex \<Longrightarrow> f p e = (s, e') \<Longrightarrow> state e' \<noteq> state e \<Longrightarrow> \<exists>r. s = Inr r"
  using failure by (cases s) auto

end

section \<open>The in-memory executor\<close>

record fake_container =
  fc_component_type :: string
  fc_fingerprint :: string
  fc_state :: string

text \<open>The file system as the executors use it: \<open>Lstat\<close>, \<open>MkdirAll\<close>, \<open>Chmod\<close>, and \<open>Stat\<close> of a regular file.\<close>

record 'f files =
  fs_lstat :: "'f \<Rightarrow> string \<Rightarrow> lstat"
  fs_mkdir :: "string \<Rightarrow> 'f err_op"
  fs_chmod :: "string \<Rightarrow> 'f err_op"
  fs_regular :: "'f \<Rightarrow> string \<Rightarrow> goerr + bool"

record 'f fake_world =
  fw_containers :: "string \<rightharpoonup> fake_container"
  fw_files :: 'f

definition mismatch :: "fake_container \<Rightarrow> environment_component \<Rightarrow> bool" where
  "mismatch x c = (fc_fingerprint x \<noteq> ec_config_fingerprint c \<or> fc_component_type x \<noteq> ec_component_type c)"

definition mismatch_error :: "environment_component \<Rightarrow> goerr" where
  "mismatch_error c = Plain (''managed container identity mismatch: '' @ ec_container_name c)"

fun fake_preflight :: "(string \<rightharpoonup> fake_container) \<Rightarrow> environment_component list \<Rightarrow> goerr option" where
  "fake_preflight m [] = None"
| "fake_preflight m (c # cs) =
     (case m (ec_container_name c) of
        Some x \<Rightarrow> if mismatch x c then Some (Plain (''container identity conflict: '' @ ec_container_name c)) else fake_preflight m cs
      | None \<Rightarrow> fake_preflight m cs)"

fun fake_require :: "(string \<rightharpoonup> fake_container) \<Rightarrow> environment_component list \<Rightarrow> goerr option" where
  "fake_require m [] = None"
| "fake_require m (c # cs) =
     (case m (ec_container_name c) of
        Some x \<Rightarrow> if mismatch x c then Some (mismatch_error c) else fake_require m cs
      | None \<Rightarrow> Some (mismatch_error c))"

text \<open>The check of \<open>DeletePair\<close> is the one of \<open>preflightLocked\<close> with another message.\<close>

fun fake_delete_check :: "(string \<rightharpoonup> fake_container) \<Rightarrow> environment_component list \<Rightarrow> goerr option" where
  "fake_delete_check m [] = None"
| "fake_delete_check m (c # cs) =
     (case m (ec_container_name c) of
        Some x \<Rightarrow> if mismatch x c then Some (mismatch_error c) else fake_delete_check m cs
      | None \<Rightarrow> fake_delete_check m cs)"

fun fake_inspect :: "(string \<rightharpoonup> fake_container) \<Rightarrow> environment_component list \<Rightarrow> pair_result \<Rightarrow> goerr + pair_result" where
  "fake_inspect m [] r = Inr r"
| "fake_inspect m (c # cs) r =
     (case m (ec_container_name c) of
        Some x \<Rightarrow> if mismatch x c then Inl (mismatch_error c)
                  else fake_inspect m cs (assign_component_result r c (fc_state x))
      | None \<Rightarrow> fake_inspect m cs (assign_component_result r c state_missing))"

definition new_container :: "environment_component \<Rightarrow> fake_container" where
  "new_container c = \<lparr>fc_component_type = ec_component_type c, fc_fingerprint = ec_config_fingerprint c, fc_state = state_stopped\<rparr>"

definition zero_container :: fake_container where
  "zero_container = \<lparr>fc_component_type = [], fc_fingerprint = [], fc_state = []\<rparr>"

text \<open>The loops over the components: a missing map entry reads as the zero container.\<close>

definition add_missing :: "(string \<rightharpoonup> fake_container) \<Rightarrow> environment_component \<Rightarrow> (string \<rightharpoonup> fake_container)" where
  "add_missing m c = (if m (ec_container_name c) = None then m(ec_container_name c \<mapsto> new_container c) else m)"

definition set_state :: "string \<Rightarrow> (string \<rightharpoonup> fake_container) \<Rightarrow> environment_component \<Rightarrow> (string \<rightharpoonup> fake_container)" where
  "set_state s m c =
     m(ec_container_name c \<mapsto> (case m (ec_container_name c) of None \<Rightarrow> zero_container | Some x \<Rightarrow> x)\<lparr>fc_state := s\<rparr>)"

definition put_new :: "(string \<rightharpoonup> fake_container) \<Rightarrow> environment_component \<Rightarrow> (string \<rightharpoonup> fake_container)" where
  "put_new m c = m(ec_container_name c \<mapsto> new_container c)"

definition drop_container :: "(string \<rightharpoonup> fake_container) \<Rightarrow> environment_component \<Rightarrow> (string \<rightharpoonup> fake_container)" where
  "drop_container m c = m(ec_container_name c := None)"

definition fake_inspect_pair :: "environment_payload \<Rightarrow> ('f fake_world, pair_result) res_op" where
  "fake_inspect_pair p w =
     (case validate_control p of
        Some e \<Rightarrow> (Inl e, w)
      | None \<Rightarrow> (fake_inspect (fw_containers w) (ev_components p) zero_pair, w))"

text \<open>
  \<open>fake_change\<close> is the common shape of the operations: a check, an update of the containers by one
  component after another, and the inspection of the result.
\<close>

definition fake_change ::
    "((string \<rightharpoonup> fake_container) \<Rightarrow> environment_component \<Rightarrow> (string \<rightharpoonup> fake_container)) \<Rightarrow>
     environment_payload \<Rightarrow> ('f fake_world, pair_result) res_op" where
  "fake_change update p w =
     (let m = foldl update (fw_containers w) (ev_components p)
      in (fake_inspect m (ev_components p) zero_pair, w\<lparr>fw_containers := m\<rparr>))"

definition fake_create_pair :: "'f files \<Rightarrow> validator \<Rightarrow> environment_payload \<Rightarrow> ('f fake_world, pair_result) res_op" where
  "fake_create_pair F v p w =
     (case validate_create v (fs_lstat F (fw_files w)) p of
        Inl e \<Rightarrow> (Inl e, w)
      | Inr workspace \<Rightarrow>
          (case fake_preflight (fw_containers w) (ev_components p) of
             Some e \<Rightarrow> (Inl e, w)
           | None \<Rightarrow>
               (case fs_mkdir F workspace (fw_files w) of
                  (Some e, f) \<Rightarrow> (Inl (wrap ''create shared workspace: '' e), w\<lparr>fw_files := f\<rparr>)
                | (None, f) \<Rightarrow> fake_change add_missing p (w\<lparr>fw_files := f\<rparr>))))"

definition fake_control :: "string \<Rightarrow> environment_payload \<Rightarrow> ('f fake_world, pair_result) res_op" where
  "fake_control s p w =
     (case validate_control p of
        Some e \<Rightarrow> (Inl e, w)
      | None \<Rightarrow>
          (case fake_require (fw_containers w) (ev_components p) of
             Some e \<Rightarrow> (Inl e, w)
           | None \<Rightarrow> fake_change (set_state s) p w))"

definition fake_start_pair :: "environment_payload \<Rightarrow> ('f fake_world, pair_result) res_op" where
  "fake_start_pair = fake_control state_running"

definition fake_stop_pair :: "environment_payload \<Rightarrow> ('f fake_world, pair_result) res_op" where
  "fake_stop_pair = fake_control state_stopped"

definition fake_restore_pair :: "'f files \<Rightarrow> validator \<Rightarrow> environment_payload \<Rightarrow> ('f fake_world, pair_result) res_op" where
  "fake_restore_pair F v p w =
     (case validate_create v (fs_lstat F (fw_files w)) p of
        Inl e \<Rightarrow> (Inl e, w)
      | Inr workspace \<Rightarrow>
          (case fake_require (fw_containers w) (ev_components p) of
             Some e \<Rightarrow> (Inl e, w)
           | None \<Rightarrow>
               (case fs_mkdir F workspace (fw_files w) of
                  (Some e, f) \<Rightarrow> (Inl (wrap ''create shared workspace: '' e), w\<lparr>fw_files := f\<rparr>)
                | (None, f) \<Rightarrow> fake_change put_new p (w\<lparr>fw_files := f\<rparr>))))"

definition fake_delete_pair :: "environment_payload \<Rightarrow> ('f fake_world, pair_result) res_op" where
  "fake_delete_pair p w =
     (case validate_control p of
        Some e \<Rightarrow> (Inl e, w)
      | None \<Rightarrow>
          (case fake_delete_check (fw_containers w) (ev_components p) of
             Some e \<Rightarrow> (Inl e, w)
           | None \<Rightarrow> (Inr (pair_with_state p state_missing),
                      w\<lparr>fw_containers := foldl drop_container (fw_containers w) (ev_components p)\<rparr>)))"

definition fake_executor :: "'f files \<Rightarrow> validator \<Rightarrow> 'f fake_world executor" where
  "fake_executor F v =
     \<lparr>inspect_pair = fake_inspect_pair, create_pair = fake_create_pair F v, start_pair = fake_start_pair,
      stop_pair = fake_stop_pair, restore_pair = fake_restore_pair F v, delete_pair = fake_delete_pair\<rparr>"

section \<open>The loops\<close>

lemma fold_update:
  assumes "\<And>m c. update m c = m(key c := g (m (key c)) c)" "distinct (map key cs)"
  shows "c \<in> set cs \<Longrightarrow> foldl update m cs (key c) = g (m (key c)) c"
    and "n \<notin> key ` set cs \<Longrightarrow> foldl update m cs n = m n"
proof -
  have at: "update m x (key x) = g (m (key x)) x" and off: "k \<noteq> key x \<Longrightarrow> update m x k = m k" for m x k
    by (simp_all add: assms(1))
  have other: "n \<notin> key ` set cs \<Longrightarrow> foldl update m cs n = m n" for n m cs
    by (induction cs arbitrary: m) (auto simp: off)
  then show "n \<notin> key ` set cs \<Longrightarrow> foldl update m cs n = m n" .
  show "c \<in> set cs \<Longrightarrow> foldl update m cs (key c) = g (m (key c)) c"
    using assms(2)
  proof (induction cs arbitrary: m)
    case (Cons x cs)
    show ?case
    proof (cases "c = x")
      case True
      with Cons.prems have "key x \<notin> key ` set cs" by auto
      with True show ?thesis by (simp add: other at)
    next
      case False
      with Cons.prems have "c \<in> set cs" "key c \<noteq> key x" by (auto simp: image_iff)
      with Cons show ?thesis by (simp add: off)
    qed
  qed simp
qed

definition matches :: "(string \<rightharpoonup> fake_container) \<Rightarrow> environment_component list \<Rightarrow> bool" where
  "matches m cs \<longleftrightarrow> (\<forall>c\<in>set cs. \<forall>x. m (ec_container_name c) = Some x \<longrightarrow> \<not> mismatch x c)"

definition state_of :: "(string \<rightharpoonup> fake_container) \<Rightarrow> string \<Rightarrow> string" where
  "state_of m n = (case m n of None \<Rightarrow> state_missing | Some x \<Rightarrow> fc_state x)"

lemma fake_inspect_ok:
  "matches m cs \<Longrightarrow> fake_inspect m cs r = Inr (foldl (\<lambda>r c. assign_component_result r c (state_of m (ec_container_name c))) r cs)"
  by (induction cs arbitrary: r) (auto simp: matches_def state_of_def split: option.splits)

lemma preflight_matches: "fake_preflight m cs = None \<longleftrightarrow> matches m cs"
  by (induction cs) (auto simp: matches_def split: option.splits)

lemma delete_check_matches: "fake_delete_check m cs = None \<longleftrightarrow> matches m cs"
  by (induction cs) (auto simp: matches_def split: option.splits)

lemma require_matches: "fake_require m cs = None \<longleftrightarrow> matches m cs \<and> (\<forall>c\<in>set cs. m (ec_container_name c) \<noteq> None)"
  by (induction cs) (auto simp: matches_def split: option.splits)

lemma control_distinct: "validate_control p = None \<Longrightarrow> distinct (map ec_container_name (ev_components p))"
  by (simp add: validate_control_def validate_pair_identity_spec)

lemma create_distinct: "validate_create v l p = Inr w \<Longrightarrow> distinct (map ec_container_name (ev_components p))"
  by (simp add: validate_create_def guards validate_pair_identity_spec)

text \<open>What an update does to one entry.\<close>

fun updated :: "(fake_container option \<Rightarrow> environment_component \<Rightarrow> fake_container option) \<Rightarrow>
    ((string \<rightharpoonup> fake_container) \<Rightarrow> environment_component \<Rightarrow> (string \<rightharpoonup> fake_container)) \<Rightarrow> bool" where
  "updated g update \<longleftrightarrow> (\<forall>m c. update m c = m(ec_container_name c := g (m (ec_container_name c)) c))"

lemma updates:
  "updated (\<lambda>x c. if x = None then Some (new_container c) else x) add_missing"
  "updated (\<lambda>x c. Some ((case x of None \<Rightarrow> zero_container | Some x \<Rightarrow> x)\<lparr>fc_state := s\<rparr>)) (set_state s)"
  "updated (\<lambda>x c. Some (new_container c)) put_new"
  "updated (\<lambda>x c. None) drop_container"
  by (auto simp: add_missing_def set_state_def put_new_def drop_container_def fun_eq_iff)

lemma updated_at:
  assumes "updated g update" "distinct (map ec_container_name cs)"
  shows "c \<in> set cs \<Longrightarrow> foldl update m cs (ec_container_name c) = g (m (ec_container_name c)) c"
    and "n \<notin> ec_container_name ` set cs \<Longrightarrow> foldl update m cs n = m n"
  using fold_update [of update ec_container_name g cs] assms by auto

lemma mismatch_new [simp]: "\<not> mismatch (new_container c) c"
  by (simp add: mismatch_def new_container_def)

lemma updated_matches:
  assumes "updated g update" "distinct (map ec_container_name cs)"
    "\<And>c. c \<in> set cs \<Longrightarrow> \<forall>x. g (m (ec_container_name c)) c = Some x \<longrightarrow> \<not> mismatch x c"
  shows "matches (foldl update m cs) cs"
  unfolding matches_def using assms(3) updated_at(1) [OF assms(1,2)] by simp

text \<open>The three shapes of a change, on the containers alone.\<close>

lemma fake_change_ok:
  assumes "matches (foldl update (fw_containers w) (ev_components p)) (ev_components p)"
  obtains r where "fake_change update p w = (Inr r, w\<lparr>fw_containers := foldl update (fw_containers w) (ev_components p)\<rparr>)"
  using fake_inspect_ok [OF assms] by (auto simp: fake_change_def Let_def)

lemma add_matches: "matches m cs \<Longrightarrow> distinct (map ec_container_name cs) \<Longrightarrow> matches (foldl add_missing m cs) cs"
  by (rule updated_matches [OF updates(1)]) (auto simp: matches_def split: if_splits)

lemma set_matches:
  "matches m cs \<Longrightarrow> \<forall>c\<in>set cs. m (ec_container_name c) \<noteq> None \<Longrightarrow> distinct (map ec_container_name cs) \<Longrightarrow>
   matches (foldl (set_state s) m cs) cs"
  by (rule updated_matches [OF updates(2)]) (auto simp: matches_def mismatch_def)

lemma put_matches: "distinct (map ec_container_name cs) \<Longrightarrow> matches (foldl put_new m cs) cs"
  by (rule updated_matches [OF updates(3)]) auto

section \<open>Each operation\<close>

text \<open>
  \<open>outcome update p w r w'\<close>: the operation failed and left the containers alone, or succeeded and
  updated the containers of the payload, whose names are distinct.
\<close>

definition outcome ::
    "((string \<rightharpoonup> fake_container) \<Rightarrow> environment_component \<Rightarrow> (string \<rightharpoonup> fake_container)) \<Rightarrow>
     environment_payload \<Rightarrow> 'f fake_world \<Rightarrow> goerr + pair_result \<Rightarrow> 'f fake_world \<Rightarrow> bool" where
  "outcome update p w r w' \<longleftrightarrow>
     (isl r \<and> fw_containers w' = fw_containers w) \<or>
     (\<not> isl r \<and> distinct (map ec_container_name (ev_components p)) \<and>
      fw_containers w' = foldl update (fw_containers w) (ev_components p))"

lemma fake_change_outcome:
  assumes "fake_change update p w1 = (r, w')" "fw_containers w1 = fw_containers w"
    "matches (foldl update (fw_containers w) (ev_components p)) (ev_components p)"
    "distinct (map ec_container_name (ev_components p))"
  shows "outcome update p w r w'"
proof -
  obtain r0 where "fake_change update p w1 = (Inr r0, w1\<lparr>fw_containers := foldl update (fw_containers w1) (ev_components p)\<rparr>)"
    using fake_change_ok [of update w1 p] assms(2,3) by auto
  with assms show ?thesis by (auto simp: outcome_def)
qed

lemma create_outcome: "fake_create_pair F v p w = (r, w') \<Longrightarrow> outcome add_missing p w r w'"
proof -
  assume run: "fake_create_pair F v p w = (r, w')"
  show ?thesis
  proof (cases "validate_create v (fs_lstat F (fw_files w)) p")
    case Inl
    with run show ?thesis by (auto simp: fake_create_pair_def outcome_def)
  next
    case (Inr ws)
    note d = create_distinct [OF Inr]
    show ?thesis
    proof (cases "fake_preflight (fw_containers w) (ev_components p)")
      case (Some e)
      with run Inr show ?thesis by (auto simp: fake_create_pair_def outcome_def)
    next
      case None
      then have m: "matches (fw_containers w) (ev_components p)" by (simp add: preflight_matches)
      obtain x f where f: "fs_mkdir F ws (fw_files w) = (x, f)" by (cases "fs_mkdir F ws (fw_files w)")
      show ?thesis
      proof (cases x)
        case None
        with run Inr \<open>fake_preflight _ _ = None\<close> f have "fake_change add_missing p (w\<lparr>fw_files := f\<rparr>) = (r, w')"
          by (simp add: fake_create_pair_def)
        then show ?thesis by (rule fake_change_outcome) (simp_all add: add_matches m d)
      next
        case (Some e)
        with run Inr None f show ?thesis by (auto simp: fake_create_pair_def outcome_def)
      qed
    qed
  qed
qed

lemma restore_outcome: "fake_restore_pair F v p w = (r, w') \<Longrightarrow> outcome put_new p w r w'"
proof -
  assume run: "fake_restore_pair F v p w = (r, w')"
  show ?thesis
  proof (cases "validate_create v (fs_lstat F (fw_files w)) p")
    case Inl
    with run show ?thesis by (auto simp: fake_restore_pair_def outcome_def)
  next
    case (Inr ws)
    note d = create_distinct [OF Inr]
    obtain x f where f: "fs_mkdir F ws (fw_files w) = (x, f)" by (cases "fs_mkdir F ws (fw_files w)")
    show ?thesis
    proof (cases "x = None \<and> fake_require (fw_containers w) (ev_components p) = None")
      case True
      with run Inr f have "fake_change put_new p (w\<lparr>fw_files := f\<rparr>) = (r, w')"
        by (simp add: fake_restore_pair_def)
      then show ?thesis by (rule fake_change_outcome) (simp_all add: put_matches d)
    next
      case False
      with run Inr f show ?thesis by (auto simp: fake_restore_pair_def outcome_def split: option.splits)
    qed
  qed
qed

lemma control_outcome: "fake_control s p w = (r, w') \<Longrightarrow> outcome (set_state s) p w r w'"
proof -
  assume run: "fake_control s p w = (r, w')"
  show ?thesis
  proof (cases "validate_control p = None \<and> fake_require (fw_containers w) (ev_components p) = None")
    case False
    with run show ?thesis by (auto simp: fake_control_def outcome_def split: option.splits)
  next
    case True
    then have d: "distinct (map ec_container_name (ev_components p))"
      and m: "matches (foldl (set_state s) (fw_containers w) (ev_components p)) (ev_components p)"
      using set_matches [of "fw_containers w" "ev_components p" s] by (simp_all add: control_distinct require_matches)
    from run True have "fake_change (set_state s) p w = (r, w')" by (simp add: fake_control_def)
    then show ?thesis by (rule fake_change_outcome) (simp_all add: m d)
  qed
qed

lemma delete_outcome: "fake_delete_pair p w = (r, w') \<Longrightarrow> outcome drop_container p w r w'"
  by (auto simp: fake_delete_pair_def outcome_def control_distinct split: option.splits)

lemma outcome_other:
  assumes "outcome update p w r w'" "updated g update" "n \<notin> names p"
  shows "state_of (fw_containers w') n = state_of (fw_containers w) n"
  using assms updated_at(2) [OF assms(2), of "ev_components p" n] by (auto simp: outcome_def state_of_def)

lemma outcome_at:
  assumes "outcome update p w (Inr r) w'" "updated g update" "n \<in> names p"
  obtains c where "c \<in> set (ev_components p)" "n = ec_container_name c" "fw_containers w' n = g (fw_containers w n) c"
  using assms updated_at(1) [OF assms(2), of "ev_components p"] by (auto simp: outcome_def)

lemma outcome_failed: "outcome update p w (Inl x) w' \<Longrightarrow> fw_containers w' = fw_containers w"
  by (simp add: outcome_def)

lemma fake_executor_simps [simp]:
  "create_pair (fake_executor F v) = fake_create_pair F v" "start_pair (fake_executor F v) = fake_start_pair"
  "stop_pair (fake_executor F v) = fake_stop_pair" "restore_pair (fake_executor F v) = fake_restore_pair F v"
  "delete_pair (fake_executor F v) = fake_delete_pair" "inspect_pair (fake_executor F v) = fake_inspect_pair"
  by (simp_all add: fake_executor_def)

text \<open>Every container is stopped or running.\<close>

definition fake_inv :: "'f fake_world \<Rightarrow> bool" where
  "fake_inv w \<longleftrightarrow> (\<forall>n x. fw_containers w n = Some x \<longrightarrow> fc_state x \<in> {state_stopped, state_running})"

definition good_update :: "(fake_container option \<Rightarrow> environment_component \<Rightarrow> fake_container option) \<Rightarrow> bool" where
  "good_update g \<longleftrightarrow> (\<forall>x c y. g x c = Some y \<longrightarrow> x = Some y \<or> fc_state y \<in> {state_stopped, state_running})"

lemma outcome_inv:
  assumes "outcome update p w r w'" "updated g update" "good_update g" "fake_inv w"
  shows "fake_inv w'"
  unfolding fake_inv_def
proof (intro allI impI)
  fix n x assume x: "fw_containers w' n = Some x"
  show "fc_state x \<in> {state_stopped, state_running}"
  proof (cases r)
    case (Inl e)
    with assms(1,4) x show ?thesis by (auto simp: outcome_def fake_inv_def)
  next
    case (Inr y)
    show ?thesis
    proof (cases "n \<in> names p")
      case True
      with outcome_at [OF assms(1) [unfolded Inr] assms(2)] obtain c where "fw_containers w' n = g (fw_containers w n) c" by blast
      with x have "g (fw_containers w n) c = Some x" by simp
      with assms(3,4) show ?thesis unfolding good_update_def fake_inv_def by blast
    next
      case False
      with assms(1,2) Inr x have "fw_containers w n = Some x"
        using updated_at(2) [OF assms(2), of "ev_components p" n] by (simp add: outcome_def)
      with assms(4) show ?thesis by (auto simp: fake_inv_def)
    qed
  qed
qed

lemma good_updates:
  "good_update (\<lambda>x c. if x = None then Some (new_container c) else x)"
  "s \<in> {state_stopped, state_running} \<Longrightarrow> good_update (\<lambda>x c. Some ((case x of None \<Rightarrow> zero_container | Some x \<Rightarrow> x)\<lparr>fc_state := s\<rparr>))"
  "good_update (\<lambda>x c. Some (new_container c))"
  "good_update (\<lambda>x c. None)"
  by (auto simp: good_update_def new_container_def)

lemma changes_outcome:
  assumes "f \<in> changes (fake_executor F v)" "f p w = (r, w')"
  obtains update g where "updated g update" "good_update g" "outcome update p w r w'"
proof -
  from assms consider "f = fake_create_pair F v" | s where "s \<in> {state_stopped, state_running}" "f = fake_control s"
    | "f = fake_restore_pair F v" | "f = fake_delete_pair"
    by (auto simp: fake_start_pair_def fake_stop_pair_def)
  then show ?thesis
  proof cases
    case 1
    with that updates(1) good_updates(1) create_outcome assms(2) show ?thesis by blast
  next
    case (2 s)
    with that updates(2) [of s] good_updates(2) control_outcome assms(2) show ?thesis by blast
  next
    case 3
    with that updates(3) good_updates(3) restore_outcome assms(2) show ?thesis by blast
  next
    case 4
    with that updates(4) good_updates(4) delete_outcome assms(2) show ?thesis by blast
  qed
qed

interpretation fake: atomic_executor "fake_executor F v" "\<lambda>w. state_of (fw_containers w)" fake_inv
proof
  fix f p s and w w' :: "'a fake_world"
  assume f: "f \<in> changes (fake_executor F v)" "f p w = (s, w')"
  obtain update g where g: "updated g update" "good_update g" "outcome update p w s w'"
    using changes_outcome [OF f] .
  show "fake_inv w \<Longrightarrow> fake_inv w'" by (rule outcome_inv [OF g(3,1,2)])
  show "n \<notin> names p \<Longrightarrow> state_of (fw_containers w') n = state_of (fw_containers w) n" for n
    by (rule outcome_other [OF g(3,1)])
next
  fix f p x and w w' :: "'a fake_world"
  assume f: "f \<in> changes (fake_executor F v)" "f p w = (Inl x, w')"
  obtain update g where g: "updated g update" "outcome update p w (Inl x) w'"
    using changes_outcome [OF f] .
  then show "state_of (fw_containers w') = state_of (fw_containers w)" by (simp add: outcome_failed)
next
  fix p r n and w w' :: "'a fake_world"
  assume n: "n \<in> names p"
  { assume inv: "fake_inv w" and "create_pair (fake_executor F v) p w = (Inr r, w')"
    then have out: "outcome add_missing p w (Inr r) w'" using create_outcome by simp
    obtain x where x: "fw_containers w' n = Some x"
      using outcome_at [OF out updates(1) n] by (metis option.exhaust)
    have "fake_inv w'" by (rule outcome_inv [OF out updates(1) good_updates(1) inv])
    with x have "fc_state x \<in> {state_stopped, state_running}" by (simp add: fake_inv_def)
    with x show "state_of (fw_containers w') n \<noteq> state_missing"
      by (auto simp: state_of_def state_defs) }
  { assume "start_pair (fake_executor F v) p w = (Inr r, w')"
    with control_outcome [of state_running p w "Inr r" w'] n show "state_of (fw_containers w') n = state_running"
      by (auto simp: state_of_def fake_start_pair_def elim!: outcome_at [OF _ updates(2)]) }
  { assume "stop_pair (fake_executor F v) p w = (Inr r, w')"
    with control_outcome [of state_stopped p w "Inr r" w'] n show "state_of (fw_containers w') n \<noteq> state_running"
      by (auto simp: state_of_def fake_stop_pair_def state_defs elim!: outcome_at [OF _ updates(2)]) }
  { assume "restore_pair (fake_executor F v) p w = (Inr r, w')"
    with restore_outcome [of F v p w "Inr r" w'] n show "state_of (fw_containers w') n = state_stopped"
      by (auto simp: state_of_def new_container_def elim!: outcome_at [OF _ updates(3)]) }
  { assume "delete_pair (fake_executor F v) p w = (Inr r, w')"
    with delete_outcome [of p w "Inr r" w'] n show "state_of (fw_containers w') n = state_missing"
      by (auto simp: state_of_def elim!: outcome_at [OF _ updates(4)]) }
qed

section \<open>Properties\<close>

text \<open>
  The in-memory executor is atomic: an operation that returns an error (a payload that does not
  validate, a container of another identity, a workspace that cannot be made) has changed the state of
  no container, and an operation that changes the containers changes those its payload names only.
\<close>

theorem fake_executor_atomic:
  assumes "f \<in> changes (fake_executor F v)" "f p w = (s, w')"
  shows "(isl s \<longrightarrow> state_of (fw_containers w') = state_of (fw_containers w)) \<and>
    (\<forall>n. n \<notin> names p \<longrightarrow> state_of (fw_containers w') n = state_of (fw_containers w) n)"
  using fake.failure [OF assms(1)] fake.frame [OF assms] assms(2) by (cases s) auto

definition no_files :: "unit files" where
  "no_files = \<lparr>fs_lstat = (\<lambda>f p. LstatMissing), fs_mkdir = (\<lambda>p f. (None, f)), fs_chmod = (\<lambda>p f. (None, f)),
     fs_regular = (\<lambda>f p. Inr True)\<rparr>"

definition editor_payload :: environment_payload where
  "editor_payload = \<lparr>ev_environment_id = ''e1'', ev_operation_id = ''o1'', ev_workspace_relative_path = ''class'',
     ev_components = [\<lparr>ec_component_type = ''EDITOR'', ec_container_name = ''ed1'',
       ec_config_fingerprint = replicate 64 (CHR ''0''), ec_image_reference = ''img'', ec_runtime_name = ''nvidia'',
       ec_restart_policy = ''always'', ec_mount_target = ''/home/student/data'',
       ec_ports = [\<lparr>ep_container_port = 8888, ep_host_port = 30001, ep_protocol = ''tcp''\<rparr>],
       ec_command = [], ec_working_directory = [], ec_cpu_limit_millis = 0, ec_memory_limit_bytes = 0,
       ec_gpu_enabled = False, ec_mps_enabled = False, ec_gpu_compute_percent = 0, ec_gpu_memory_limit_bytes = 0\<rparr>]\<rparr>"

definition school :: validator where
  "school = \<lparr>v_workspace_root = ''/srv/school'', v_tls_dir = []\<rparr>"

definition empty_world :: "unit fake_world" where
  "empty_world = \<lparr>fw_containers = Map.empty, fw_files = ()\<rparr>"

definition created_world :: "unit fake_world" where
  "created_world = empty_world\<lparr>fw_containers := Map.empty(''ed1'' \<mapsto>
     \<lparr>fc_component_type = ''EDITOR'', fc_fingerprint = replicate 64 (CHR ''0''), fc_state = state_stopped\<rparr>)\<rparr>"

lemma editor_identity: "validate_pair_identity editor_payload = None"
  by (simp add: validate_pair_identity_def editor_payload_def container_name_iff fingerprint_iff
      byte_class_defs list_all_iff del: rx_match.simps)

lemma editor_workspace: "resolve_workspace school (\<lambda>p. LstatMissing) ''class'' = Inr ''/srv/school/class''" by code_simp

lemma editor_create: "check_creates [] (ev_components editor_payload) = None"
  by (simp add: editor_payload_def check_create_def image_iff_pattern byte_class_defs cpu_invalid_def memory_invalid_def
      gpu_limit_invalid_def port_valid_def working_directory_invalid_def del: rx_match.simps)

lemma editor_start_missing:
  "fake_start_pair editor_payload empty_world = (Inl (Plain ''managed container identity mismatch: ed1''), empty_world)"
  by (simp add: fake_start_pair_def fake_control_def validate_control_def editor_identity)
     (simp add: editor_payload_def empty_world_def mismatch_error_def)

theorem fake_executor_atomic_witness:
  "state_of (fw_containers empty_world) = state_of (fw_containers (snd (fake_start_pair editor_payload empty_world)))"
  using fake_executor_atomic [of fake_start_pair no_files school editor_payload empty_world
      "Inl (Plain ''managed container identity mismatch: ed1'')" empty_world]
  by (simp add: editor_start_missing)

text \<open>
  Lifecycle. From states the executor itself produces, after a create every container of the payload
  exists, after a start it runs, after a stop it does not, after a restore it is fresh and stopped, and
  after a delete it is gone.
\<close>

theorem fake_executor_lifecycle:
  assumes "fake_inv w" "n \<in> names p"
  shows "(create_pair (fake_executor F v) p w = (Inr r, w') \<longrightarrow> state_of (fw_containers w') n \<noteq> state_missing) \<and>
    (start_pair (fake_executor F v) p w = (Inr r, w') \<longrightarrow> state_of (fw_containers w') n = state_running) \<and>
    (stop_pair (fake_executor F v) p w = (Inr r, w') \<longrightarrow> state_of (fw_containers w') n \<noteq> state_running) \<and>
    (restore_pair (fake_executor F v) p w = (Inr r, w') \<longrightarrow> state_of (fw_containers w') n = state_stopped) \<and>
    (delete_pair (fake_executor F v) p w = (Inr r, w') \<longrightarrow> state_of (fw_containers w') n = state_missing)"
  by (intro conjI impI)
     (rule fake.create_done [OF assms(1) _ assms(2)] fake.start_done [OF _ assms(2)] fake.stop_done [OF _ assms(2)]
        fake.restore_done [OF _ assms(2)] fake.delete_done [OF _ assms(2)], assumption)+

lemma editor_created:
  "fake_create_pair no_files school editor_payload empty_world =
     (Inr (pair_with_state editor_payload state_stopped), created_world)"
proof -
  have "validate_create school (\<lambda>p. LstatMissing) editor_payload = Inr ''/srv/school/class''"
    using editor_workspace editor_identity editor_create
    by (simp add: validate_create_def) (simp add: editor_payload_def)
  then show ?thesis
    by (simp add: fake_create_pair_def no_files_def editor_payload_def empty_world_def created_world_def
        fake_change_def add_missing_def new_container_def mismatch_def pair_with_state_def assign_component_result_def
        component_result_of_def)
qed

theorem fake_executor_lifecycle_witness:
  "state_of (fw_containers created_world) ''ed1'' \<noteq> state_missing"
proof -
  have "fake_inv empty_world" by (simp add: fake_inv_def empty_world_def)
  moreover have "''ed1'' \<in> names editor_payload" by (simp add: editor_payload_def)
  ultimately show ?thesis
    using fake_executor_lifecycle [of empty_world "''ed1''" editor_payload no_files school
        "pair_with_state editor_payload state_stopped" created_world]
    by (simp add: editor_created)
qed

end
