(* ===== verification/Mps.thy ===== *)
theory Mps
  imports Monitors GoErrors GoPath
begin

text \<open>
  \<open>HostMPSManager\<close> (\<open>internal/container/mps.go\<close>): one shared MPS control daemon on the host. The record
  holds what it calls: the search of the executable, the file system, the probe of a running daemon and
  the start of a new one with the directories it is told to use.
\<close>

record 'e mps_host =
  mh_look_path :: "'e err_op"
  mh_mkdir :: "string \<Rightarrow> 'e err_op"
  mh_exists :: "string \<Rightarrow> ('e, bool) op"
  mh_probe :: "string \<Rightarrow> 'e err_op"
  mh_start :: "string \<Rightarrow> string \<Rightarrow> ('e, string \<times> goerr option) op"

definition start_daemon :: "'e mps_host \<Rightarrow> string \<Rightarrow> ('e, string) res_op" where
  "start_daemon h directory =
     op_bind (mh_start h directory (path_join [directory, ''log''])) (\<lambda>(output, r). op_return
       (case r of
          Some e \<Rightarrow> Inl (Wrapped ''start MPS control service: '' e ('' ('' @ output @ '')''))
        | None \<Rightarrow> Inr directory))"

definition ensure_running :: "'e mps_host \<Rightarrow> string \<Rightarrow> ('e, string) res_op" where
  "ensure_running h directory =
     (if \<not> is_abs directory then op_return (Inl (Plain ''MPS directory must be absolute''))
      else check_op (mh_look_path h) (wrap ''MPS control service is unavailable: '')
        (check_op (mh_mkdir h (path_join [directory, ''log''])) (wrap ''create MPS directory: '')
        (op_bind (mh_exists h (path_join [directory, ''control''])) (\<lambda>found.
           if found then op_bind (mh_probe h directory) (\<lambda>r.
             case r of None \<Rightarrow> op_return (Inr directory) | Some _ \<Rightarrow> start_daemon h directory)
           else start_daemon h directory))))"

text \<open>The directory is the only value the manager returns, whatever the host does.\<close>

lemma ensure_running_directory: "fst (ensure_running h directory e) = Inr d \<Longrightarrow> d = directory \<and> is_abs directory"
  by (auto simp: ensure_running_def start_daemon_def res_op_defs split: if_splits prod.splits option.splits)

end
