(* ===== verification/DockerExec.thy ===== *)
theory DockerExec
  imports FakeExec Mps GoTime "HOL-Library.AList"
begin

text \<open>
  \<open>DockerExecutor\<close> (\<open>internal/container/docker.go\<close>): the executor that acts on the Docker daemon. The
  record \<open>docker\<close> holds the calls of the interface \<open>DockerAPI\<close>, the clock and the other effects the
  executor has; what Docker and \<open>nat.NewPort\<close> do is not modelled. \<open>dk_wait\<close> is the \<open>select\<close> on the context
  and a timer: an error when the context ended first.

  The polling loops take their number of rounds as fuel \<open>dk_rounds\<close>; \<open>DockerWait\<close> shows when it is enough.
\<close>

section \<open>Docker as the executor sees it\<close>

text \<open>
  Of a container: its labels (\<open>None\<close> when \<open>Config\<close> is nil), whether it runs, and the host ports bound
  to each port (\<open>None\<close> when \<open>NetworkSettings\<close> is nil). A missing label reads as the empty string.
\<close>

record inspection =
  in_labels :: "(string \<times> string) list option"
  in_running :: bool
  in_ports :: "(string \<times> string list) list option"

definition lookup :: "(string \<times> string) list \<Rightarrow> string \<Rightarrow> string" where
  "lookup kvs k = (case map_of kvs k of None \<Rightarrow> [] | Some v \<Rightarrow> v)"

record container_config =
  cc_image :: string
  cc_cmd :: "string list"
  cc_working_dir :: string
  cc_env :: "string list"
  cc_exposed :: "string list"
  cc_labels :: "(string \<times> string) list"

record host_config =
  hc_runtime :: string
  hc_restart :: string
  hc_binds :: "string list"
  hc_port_bindings :: "(string \<times> string) list"
  hc_nano_cpus :: int
  hc_memory :: int
  hc_gpu_request :: bool

record 'e docker =
  dk_inspect :: "string \<Rightarrow> ('e, inspection) res_op"
  dk_create :: "container_config \<Rightarrow> host_config \<Rightarrow> string \<Rightarrow> 'e err_op"
  dk_start :: "string \<Rightarrow> 'e err_op"
  dk_stop :: "string \<Rightarrow> 'e err_op"
  dk_remove :: "bool \<Rightarrow> string \<Rightarrow> 'e err_op"
  dk_exec_create :: "string \<Rightarrow> string list \<Rightarrow> ('e, string) res_op"
  dk_exec_start :: "string \<Rightarrow> 'e err_op"
  dk_exec_inspect :: "string \<Rightarrow> ('e, bool \<times> int) res_op"
  dk_not_found :: "goerr \<Rightarrow> bool"
  dk_lstat :: "('e, string \<Rightarrow> lstat) op"
  dk_mkdir :: "string \<Rightarrow> 'e err_op"
  dk_chmod :: "string \<Rightarrow> 'e err_op"
  dk_stat_regular :: "string \<Rightarrow> ('e, bool) res_op"
  dk_now :: "('e, gotime) op"
  dk_wait :: "int \<Rightarrow> 'e err_op"
  dk_dial :: "string \<Rightarrow> 'e err_op"
  dk_get :: "string \<Rightarrow> ('e, int) res_op"
  dk_mps :: "('e, string) res_op option"
  dk_new_port :: "string \<Rightarrow> string \<Rightarrow> goerr + string"
  dk_validator :: validator
  dk_rounds :: nat

section \<open>Inspection\<close>

definition label_managed :: string where "label_managed = ''com.xkp.managed''"
definition label_environment :: string where "label_environment = ''com.xkp.environment.id''"
definition label_component :: string where "label_component = ''com.xkp.component.type''"
definition label_fingerprint :: string where "label_fingerprint = ''com.xkp.config.fingerprint''"

definition owned :: "string \<Rightarrow> environment_component \<Rightarrow> inspection \<Rightarrow> bool" where
  "owned env c i =
     (case in_labels i of
        None \<Rightarrow> False
      | Some l \<Rightarrow> lookup l label_managed = ''true'' \<and> lookup l label_environment = env
                  \<and> lookup l label_component = ec_component_type c)"

definition identical :: "string \<Rightarrow> environment_component \<Rightarrow> inspection \<Rightarrow> bool" where
  "identical env c i =
     (owned env c i \<and>
      (case in_labels i of None \<Rightarrow> False | Some l \<Rightarrow> lookup l label_fingerprint = ec_config_fingerprint c))"

definition missing_container :: "'e docker \<Rightarrow> goerr \<Rightarrow> bool" where
  "missing_container d e = (dk_not_found d e \<or> contains_str (err_text e) ''No such container'')"

text \<open>Running and existing, for \<open>inspectComponent\<close> and \<open>inspectOwnedComponent\<close>; they differ in \<open>accepts\<close>.\<close>

definition inspect_with ::
    "'e docker \<Rightarrow> (inspection \<Rightarrow> bool) \<Rightarrow> environment_component \<Rightarrow> ('e, bool \<times> bool) res_op" where
  "inspect_with d accepts c =
     op_bind (dk_inspect d (ec_container_name c)) (\<lambda>r. op_return
       (case r of
          Inl e \<Rightarrow>
            if missing_container d e then Inr (False, False)
            else Inl (wrap (''inspect component '' @ ec_component_type c @ '': '') e)
        | Inr i \<Rightarrow> if \<not> accepts i then Inl (mismatch_error c) else Inr (in_running i, True)))"

definition inspect_component :: "'e docker \<Rightarrow> string \<Rightarrow> environment_component \<Rightarrow> ('e, bool \<times> bool) res_op" where
  "inspect_component d env c = inspect_with d (identical env c) c"

definition inspect_owned_component :: "'e docker \<Rightarrow> string \<Rightarrow> environment_component \<Rightarrow> ('e, bool \<times> bool) res_op" where
  "inspect_owned_component d env c = inspect_with d (owned env c) c"

definition missing_error :: "environment_component \<Rightarrow> goerr" where
  "missing_error c = Plain (''managed component is missing: '' @ ec_container_name c)"

text \<open>The running components by name; a name that is not listed reads as not running.\<close>

fun inspect_states ::
    "'e docker \<Rightarrow> string \<Rightarrow> bool \<Rightarrow> environment_component list \<Rightarrow> string list \<Rightarrow> ('e, string list) res_op" where
  "inspect_states d env require_all [] running = op_return (Inr running)"
| "inspect_states d env require_all (c # cs) running =
     need_op (inspect_component d env c) same (\<lambda>(runs, exists).
       if require_all \<and> \<not> exists then op_return (Inl (missing_error c))
       else inspect_states d env require_all cs (if exists \<and> runs then ec_container_name c # running else running))"

fun inspect_all :: "'e docker \<Rightarrow> string \<Rightarrow> bool \<Rightarrow> environment_component list \<Rightarrow> pair_result \<Rightarrow> ('e, pair_result) res_op" where
  "inspect_all d env require_all [] r = op_return (Inr r)"
| "inspect_all d env require_all (c # cs) r =
     need_op (inspect_component d env c) same (\<lambda>(runs, exists).
       if require_all \<and> \<not> exists then op_return (Inl (missing_error c))
       else inspect_all d env require_all cs
         (assign_component_result r c (if exists then if runs then state_running else state_stopped else state_missing)))"

definition docker_inspect_payload :: "'e docker \<Rightarrow> environment_payload \<Rightarrow> ('e, pair_result) res_op" where
  "docker_inspect_payload d p = inspect_all d (ev_environment_id p) False (ev_components p) zero_pair"

definition docker_inspect_pair :: "'e docker \<Rightarrow> environment_payload \<Rightarrow> ('e, pair_result) res_op" where
  "docker_inspect_pair d p =
     (case validate_control p of Some e \<Rightarrow> op_return (Inl e) | None \<Rightarrow> docker_inspect_payload d p)"

section \<open>Compensation\<close>

definition compensate_remove :: "'e docker \<Rightarrow> string list \<Rightarrow> ('e, unit) op" where
  "compensate_remove d ns = run_all (dk_remove d True) (rev ns)"

definition compensate_stop :: "'e docker \<Rightarrow> string list \<Rightarrow> ('e, unit) op" where
  "compensate_stop d ns = run_all (dk_stop d) (rev ns)"

definition compensate_start :: "'e docker \<Rightarrow> string list \<Rightarrow> ('e, unit) op" where
  "compensate_start d ns = run_all (dk_start d) (rev ns)"

section \<open>Create\<close>

definition ensure_mps :: "'e docker \<Rightarrow> environment_payload \<Rightarrow> ('e, string) res_op" where
  "ensure_mps d p =
     (if list_ex ec_mps_enabled (ev_components p) then
        (case dk_mps d of None \<Rightarrow> op_return (Inl (Plain ''MPS manager is not configured'')) | Some m \<Rightarrow> m)
      else op_return (Inr []))"

text \<open>The port maps: a later entry for the same port replaces the earlier one.\<close>

fun port_maps ::
    "(string \<Rightarrow> string \<Rightarrow> goerr + string) \<Rightarrow> environment_port list \<Rightarrow> (string \<times> string) list \<Rightarrow> goerr + (string \<times> string) list" where
  "port_maps new_port [] acc = Inr acc"
| "port_maps new_port (v # vs) acc =
     (case new_port (ep_protocol v) (int_str (ep_container_port v)) of
        Inl e \<Rightarrow> Inl (wrap ''build component port: '' e)
      | Inr port \<Rightarrow> port_maps new_port vs (AList.update port (int_str (ep_host_port v)) acc))"

definition gpu_environment :: "environment_component \<Rightarrow> string \<Rightarrow> string list" where
  "gpu_environment c mps =
     (if \<not> ec_gpu_enabled c then []
      else (if ec_mps_enabled c \<or> ec_gpu_compute_percent c > 0 \<or> ec_gpu_memory_limit_bytes c > 0
            then [''TF_FORCE_GPU_ALLOW_GROWTH=true''] else [])
        @ (if ec_gpu_compute_percent c > 0 then
             [''XKP_GPU_COMPUTE_PERCENT='' @ int_str (ec_gpu_compute_percent c)]
             @ (if ec_mps_enabled c then [''CUDA_MPS_ACTIVE_THREAD_PERCENTAGE='' @ int_str (ec_gpu_compute_percent c)] else [])
           else [])
        @ (if ec_gpu_memory_limit_bytes c > 0 then
             [''XKP_GPU_MEMORY_LIMIT_BYTES='' @ int_str (ec_gpu_memory_limit_bytes c)]
             @ (if ec_mps_enabled c
                then [''CUDA_MPS_PINNED_DEVICE_MEM_LIMIT=0='' @ int_str (ec_gpu_memory_limit_bytes c div (1024 * 1024)) @ ''M''] else [])
           else [])
        @ (if ec_mps_enabled c \<and> mps \<noteq> [] then [''CUDA_MPS_PIPE_DIRECTORY='' @ mps] else []))"

definition gpu_limited :: "environment_component \<Rightarrow> bool" where
  "gpu_limited c =
     (ec_gpu_enabled c \<and> (ec_mps_enabled c \<or> ec_gpu_compute_percent c > 0 \<or> ec_gpu_memory_limit_bytes c > 0))"

definition tls_directory :: "string \<Rightarrow> string" where
  "tls_directory t = (if t = [] then ''/etc/xkp-agent/code-server-tls'' else t)"

fun check_tls_files :: "'e docker \<Rightarrow> string \<Rightarrow> string list \<Rightarrow> ('e, unit) res_op" where
  "check_tls_files d dir [] = op_return (Inr ())"
| "check_tls_files d dir (n # ns) =
     need_op (dk_stat_regular d (path_join [dir, n])) (wrap (n @ '' is unavailable: '')) (\<lambda>regular.
       if \<not> regular then op_return (Inl (Plain (n @ '' must be a regular file''))) else check_tls_files d dir ns)"

definition docker_configs ::
    "'e docker \<Rightarrow> string \<Rightarrow> string \<Rightarrow> environment_component \<Rightarrow> string \<Rightarrow> ('e, container_config \<times> host_config) res_op" where
  "docker_configs d env workspace c mps =
     (case port_maps (dk_new_port d) (ec_ports c) [] of
        Inl e \<Rightarrow> op_return (Inl e)
      | Inr ports \<Rightarrow>
          (let config = \<lparr>cc_image = ec_image_reference c, cc_cmd = ec_command c, cc_working_dir = ec_working_directory c,
                 cc_env = gpu_environment c mps, cc_exposed = map fst ports,
                 cc_labels = [(label_managed, ''true''), (label_environment, env), (label_component, ec_component_type c),
                   (label_fingerprint, ec_config_fingerprint c)]\<rparr>;
               binds = [workspace @ '':'' @ ec_mount_target c @ '':rw'']
                 @ (if ec_mps_enabled c \<and> mps \<noteq> [] then [mps @ '':'' @ mps @ '':rw''] else []);
               host = \<lparr>hc_runtime = ec_runtime_name c, hc_restart = ec_restart_policy c, hc_binds = binds,
                 hc_port_bindings = ports, hc_nano_cpus = wrap64 (ec_cpu_limit_millis c * 1000000),
                 hc_memory = ec_memory_limit_bytes c, hc_gpu_request = gpu_limited c\<rparr>;
               tls = tls_directory (v_tls_dir (dk_validator d))
           in if ec_component_type c = ''EDITOR'' then
                need_op (check_tls_files d tls [''code-cert.pem'', ''code-cert-key.pem'']) same (\<lambda>_.
                  op_return (Inr (config, host\<lparr>hc_binds := binds @
                    [tls @ ''/code-cert.pem:/root/.config/code-cert.pem:ro'',
                     tls @ ''/code-cert-key.pem:/root/.config/code-cert-key.pem:ro'']\<rparr>)))
              else op_return (Inr (config, host))))"

fun find_missing ::
    "'e docker \<Rightarrow> string \<Rightarrow> environment_component list \<Rightarrow> environment_component list \<Rightarrow> ('e, environment_component list) res_op" where
  "find_missing d env [] missing = op_return (Inr missing)"
| "find_missing d env (c # cs) missing =
     need_op (inspect_component d env c) same (\<lambda>(runs, exists).
       find_missing d env cs (if exists then missing else missing @ [c]))"

fun create_missing ::
    "'e docker \<Rightarrow> environment_payload \<Rightarrow> string \<Rightarrow> string \<Rightarrow> string list \<Rightarrow> environment_component list \<Rightarrow> ('e, pair_result) res_op" where
  "create_missing d p workspace mps created [] = op_return (Inr (pair_with_state p state_stopped))"
| "create_missing d p workspace mps created (c # cs) =
     op_bind (docker_configs d (ev_environment_id p) workspace c mps) (\<lambda>r. case r of
       Inl e \<Rightarrow> op_bind (compensate_remove d created) (\<lambda>_. op_return (Inl e))
     | Inr (config, host) \<Rightarrow>
         undo_op (dk_create d config host (ec_container_name c)) (compensate_remove d created)
           (wrap (''create component '' @ ec_component_type c @ '': ''))
           (create_missing d p workspace mps (created @ [ec_container_name c]) cs))"

definition create_in :: "'e docker \<Rightarrow> environment_payload \<Rightarrow> string \<Rightarrow> string \<Rightarrow> ('e, pair_result) res_op" where
  "create_in d p workspace mps =
     check_op (dk_mkdir d workspace) (wrap ''create shared workspace: '')
     (check_op (dk_chmod d workspace) (wrap ''set shared workspace permissions: '')
     (need_op (find_missing d (ev_environment_id p) (ev_components p) []) same
       (create_missing d p workspace mps [])))"

definition docker_create_pair :: "'e docker \<Rightarrow> environment_payload \<Rightarrow> ('e, pair_result) res_op" where
  "docker_create_pair d p =
     op_bind (dk_lstat d) (\<lambda>files.
       case validate_create (dk_validator d) files p of
         Inl e \<Rightarrow> op_return (Inl e)
       | Inr workspace \<Rightarrow> need_op (ensure_mps d p) same (\<lambda>mps. create_in d p workspace mps))"

section \<open>Start\<close>

fun start_missing ::
    "'e docker \<Rightarrow> string list \<Rightarrow> string list \<Rightarrow> environment_component list \<Rightarrow> (string list \<Rightarrow> ('e, pair_result) res_op) \<Rightarrow>
     ('e, pair_result) res_op" where
  "start_missing d running started [] k = k started"
| "start_missing d running started (c # cs) k =
     (if ec_container_name c \<in> set running then start_missing d running started cs k
      else undo_op (dk_start d (ec_container_name c)) (compensate_stop d started)
             (wrap (''start component '' @ ec_component_type c @ '': ''))
             (start_missing d running (started @ [ec_container_name c]) cs k))"

text \<open>What the two waits for a command in a container differ in.\<close>

record exec_task =
  et_command :: string
  et_subject :: string
  et_limit :: int
  et_pause :: int

definition out_of_rounds :: goerr where
  "out_of_rounds = Plain ''(the loop has not ended)''"

fun await_exec :: "'e docker \<Rightarrow> exec_task \<Rightarrow> string \<Rightarrow> gotime \<Rightarrow> nat \<Rightarrow> 'e err_op" where
  "await_exec d task i deadline 0 = op_return (Some out_of_rounds)"
| "await_exec d task i deadline (Suc n) =
     try_res (dk_exec_inspect d i) (wrap (''inspect '' @ et_subject task @ '': '')) (\<lambda>(running, code).
       if \<not> running then
         op_return (if code \<noteq> 0 then Some (Plain (et_subject task @ '' initialization failed'')) else None)
       else op_bind (dk_now d) (\<lambda>now.
         if after now deadline then op_return (Some (Plain (et_subject task @ '' initialization timed out'')))
         else try_err (dk_wait d (et_pause task)) same (await_exec d task i deadline n)))"

definition run_in_container :: "'e docker \<Rightarrow> exec_task \<Rightarrow> string \<Rightarrow> 'e err_op" where
  "run_in_container d task name =
     try_res (dk_exec_create d name [''sh'', ''-lc'', et_command task]) (wrap (''prepare '' @ et_subject task @ '': '')) (\<lambda>i.
     try_err (dk_exec_start d i) (wrap (''start '' @ et_subject task @ '': ''))
     (op_bind (dk_now d) (\<lambda>now. await_exec d task i (add_dur now (et_limit task)) (dk_rounds d))))"

text \<open>
  The two scripts are fixed texts of the source; the model carries them as parameters of the tasks and
  nothing depends on their contents.
\<close>

definition conda_task :: "string \<Rightarrow> exec_task" where
  "conda_task script = \<lparr>et_command = script, et_subject = ''Conda MPS compatibility'',
     et_limit = 10 * second_ns, et_pause = 100000000\<rparr>"

definition annotation_task :: "string \<Rightarrow> exec_task" where
  "annotation_task script = \<lparr>et_command = script, et_subject = ''annotation authentication'',
     et_limit = 90 * second_ns, et_pause = 200000000\<rparr>"

section \<open>Readiness\<close>

definition probe :: "'e docker \<Rightarrow> int \<Rightarrow> string \<Rightarrow> ('e, bool) op" where
  "probe d port host_port =
     (if port = 8080 \<or> port = 5000
      then op_bind (dk_dial d (''127.0.0.1:'' @ host_port)) (\<lambda>r. op_return (r = None))
      else op_bind (dk_get d ((if port = 9090 then ''https'' else ''http'') @ ''://127.0.0.1:'' @ host_port
              @ (if port = 8888 then ''/lab'' else ''/'')))
             (\<lambda>r. op_return (case r of Inl e \<Rightarrow> False | Inr code \<Rightarrow> code < 500)))"

fun await_port :: "'e docker \<Rightarrow> environment_component \<Rightarrow> int \<Rightarrow> string \<Rightarrow> gotime \<Rightarrow> nat \<Rightarrow> 'e err_op" where
  "await_port d c port host_port deadline 0 = op_return (Some out_of_rounds)"
| "await_port d c port host_port deadline (Suc n) =
     op_bind (probe d port host_port) (\<lambda>ready.
       if ready then op_return None
       else op_bind (dk_now d) (\<lambda>now.
         if after now deadline
         then op_return (Some (Plain (''component service is not ready: '' @ ec_component_type c @ '':'' @ int_str port)))
         else try_err (dk_wait d 250000000) same (await_port d c port host_port deadline n)))"

definition service_port :: "environment_component \<Rightarrow> int \<Rightarrow> bool" where
  "service_port c port = ((ec_component_type c = ''ANNOTATION'') = (port = 8080))"

definition port_bindings :: "(string \<times> string list) list \<Rightarrow> int \<Rightarrow> string list" where
  "port_bindings m port = (case map_of m (int_str port @ ''/tcp'') of None \<Rightarrow> [] | Some b \<Rightarrow> b)"

fun await_ports ::
    "'e docker \<Rightarrow> environment_component \<Rightarrow> (string \<times> string list) list \<Rightarrow> gotime \<Rightarrow> int list \<Rightarrow> 'e err_op" where
  "await_ports d c m deadline [] = op_return None"
| "await_ports d c m deadline (port # ports) =
     (if \<not> service_port c port then await_ports d c m deadline ports
      else case port_bindings m port of
          [] \<Rightarrow> await_ports d c m deadline ports
        | b # bs \<Rightarrow> try_err (await_port d c port b deadline (dk_rounds d)) same (await_ports d c m deadline ports))"

definition wait_ready :: "'e docker \<Rightarrow> environment_component \<Rightarrow> 'e err_op" where
  "wait_ready d c =
     try_res (dk_inspect d (ec_container_name c)) same (\<lambda>i.
       case in_ports i of
         None \<Rightarrow> op_return None
       | Some m \<Rightarrow> op_bind (dk_now d) (\<lambda>now.
           await_ports d c m (add_dur now (40 * second_ns)) [8080, 9090, 8888, 5000]))"

fun install_conda :: "'e docker \<Rightarrow> string \<Rightarrow> string list \<Rightarrow> environment_component list \<Rightarrow> ('e, pair_result) res_op \<Rightarrow> ('e, pair_result) res_op" where
  "install_conda d script started [] k = k"
| "install_conda d script started (c # cs) k =
     (if ec_component_type c = ''EDITOR'' \<and> ec_mps_enabled c
      then undo_op (run_in_container d (conda_task script) (ec_container_name c)) (compensate_stop d started) same
             (install_conda d script started cs k)
      else install_conda d script started cs k)"

fun make_ready :: "'e docker \<Rightarrow> string \<Rightarrow> string list \<Rightarrow> environment_component list \<Rightarrow> ('e, pair_result) res_op \<Rightarrow> ('e, pair_result) res_op" where
  "make_ready d script started [] k = k"
| "make_ready d script started (c # cs) k =
     undo_op (wait_ready d c) (compensate_stop d started) same
       (if ec_component_type c = ''ANNOTATION''
        then undo_op (run_in_container d (annotation_task script) (ec_container_name c)) (compensate_stop d started) same
               (make_ready d script started cs k)
        else make_ready d script started cs k)"

definition docker_start_pair :: "'e docker \<Rightarrow> string \<Rightarrow> string \<Rightarrow> environment_payload \<Rightarrow> ('e, pair_result) res_op" where
  "docker_start_pair d conda annotation p =
     (case validate_control p of
        Some e \<Rightarrow> op_return (Inl e)
      | None \<Rightarrow>
          need_op (ensure_mps d p) same (\<lambda>_.
          need_op (inspect_states d (ev_environment_id p) True (ev_components p) []) same (\<lambda>running.
          start_missing d running [] (ev_components p) (\<lambda>started.
          install_conda d conda started (ev_components p)
          (make_ready d annotation started (ev_components p)
          (op_return (Inr (pair_with_state p state_running))))))))"

section \<open>Stop, restore, delete\<close>

fun stop_running ::
    "'e docker \<Rightarrow> string list \<Rightarrow> string list \<Rightarrow> environment_component list \<Rightarrow> ('e, pair_result) res_op \<Rightarrow> ('e, pair_result) res_op" where
  "stop_running d running stopped [] k = k"
| "stop_running d running stopped (c # cs) k =
     (if ec_container_name c \<in> set running
      then undo_op (dk_stop d (ec_container_name c)) (compensate_start d stopped)
             (wrap (''stop component '' @ ec_component_type c @ '': ''))
             (stop_running d running (stopped @ [ec_container_name c]) cs k)
      else stop_running d running stopped cs k)"

definition docker_stop_pair :: "'e docker \<Rightarrow> environment_payload \<Rightarrow> ('e, pair_result) res_op" where
  "docker_stop_pair d p =
     (case validate_control p of
        Some e \<Rightarrow> op_return (Inl e)
      | None \<Rightarrow>
          need_op (inspect_states d (ev_environment_id p) False (ev_components p) []) same (\<lambda>running.
          stop_running d running [] (ev_components p) (docker_inspect_payload d p)))"

fun owned_running ::
    "'e docker \<Rightarrow> string \<Rightarrow> environment_component list \<Rightarrow> string list \<Rightarrow> ('e, string list) res_op" where
  "owned_running d env [] running = op_return (Inr running)"
| "owned_running d env (c # cs) running =
     need_op (inspect_owned_component d env c) same (\<lambda>(runs, exists).
       owned_running d env cs (if runs then ec_container_name c # running else running))"

fun stop_for_restore :: "'e docker \<Rightarrow> string list \<Rightarrow> environment_component list \<Rightarrow> ('e, 'a) res_op \<Rightarrow> ('e, 'a) res_op" where
  "stop_for_restore d running [] k = k"
| "stop_for_restore d running (c # cs) k =
     (if ec_container_name c \<in> set running
      then check_op (dk_stop d (ec_container_name c)) (wrap (''stop component for restore '' @ ec_component_type c @ '': ''))
             (stop_for_restore d running cs k)
      else stop_for_restore d running cs k)"

fun remove_for_restore :: "'e docker \<Rightarrow> string \<Rightarrow> environment_component list \<Rightarrow> ('e, 'a) res_op \<Rightarrow> ('e, 'a) res_op" where
  "remove_for_restore d env [] k = k"
| "remove_for_restore d env (c # cs) k =
     need_op (inspect_owned_component d env c) same (\<lambda>(runs, exists).
       if exists
       then check_op (dk_remove d False (ec_container_name c)) (wrap (''remove component '' @ ec_component_type c @ '': ''))
              (remove_for_restore d env cs k)
       else remove_for_restore d env cs k)"

definition docker_restore_pair :: "'e docker \<Rightarrow> environment_payload \<Rightarrow> ('e, pair_result) res_op" where
  "docker_restore_pair d p =
     op_bind (dk_lstat d) (\<lambda>files.
       case validate_create (dk_validator d) files p of
         Inl e \<Rightarrow> op_return (Inl e)
       | Inr workspace \<Rightarrow>
           need_op (ensure_mps d p) same (\<lambda>mps.
           need_op (owned_running d (ev_environment_id p) (ev_components p) []) same (\<lambda>running.
           stop_for_restore d running (ev_components p)
           (remove_for_restore d (ev_environment_id p) (ev_components p)
           (create_in d p workspace mps)))))"

fun delete_components :: "'e docker \<Rightarrow> environment_payload \<Rightarrow> environment_component list \<Rightarrow> ('e, pair_result) res_op" where
  "delete_components d p [] = op_return (Inr (pair_with_state p state_missing))"
| "delete_components d p (c # cs) =
     need_op (inspect_owned_component d (ev_environment_id p) c) same (\<lambda>(runs, exists).
       if \<not> exists then delete_components d p cs
       else
         let remove = check_op (dk_remove d False (ec_container_name c)) (wrap (''remove component '' @ ec_component_type c @ '': ''))
                        (delete_components d p cs)
         in if runs
            then check_op (dk_stop d (ec_container_name c)) (wrap (''stop component for delete '' @ ec_component_type c @ '': '')) remove
            else remove)"

definition docker_delete_pair :: "'e docker \<Rightarrow> environment_payload \<Rightarrow> ('e, pair_result) res_op" where
  "docker_delete_pair d p =
     (case validate_control p of
        Some e \<Rightarrow> op_return (Inl e)
      | None \<Rightarrow> delete_components d p (ev_components p))"

definition docker_executor :: "'e docker \<Rightarrow> string \<Rightarrow> string \<Rightarrow> 'e executor" where
  "docker_executor d conda annotation =
     \<lparr>inspect_pair = docker_inspect_pair d, create_pair = docker_create_pair d,
      start_pair = docker_start_pair d conda annotation, stop_pair = docker_stop_pair d,
      restore_pair = docker_restore_pair d, delete_pair = docker_delete_pair d\<rparr>"

end
