(* ===== verification/DockerProps.thy ===== *)
theory DockerProps
  imports DockerExec
begin

text \<open>
  What the Docker executor does to containers, for any Docker daemon. \<open>logged_docker d\<close> records the calls
  that concern a container; two monitors read them. The authority monitor knows the containers that an
  inspection in this very run showed to be managed for this environment and component, and those the
  run created; it accepts a start, stop, removal or command only for those. The balance monitors
  count what a failed operation has left behind.
\<close>

section \<open>Events\<close>

datatype docker_event =
    DInspect string "goerr + inspection"
  | DCreate string container_config host_config "goerr option"
  | DStart string "goerr option"
  | DStop string "goerr option"
  | DRemove bool string "goerr option"
  | DExec string
  | DOther

definition logged_docker :: "'e docker \<Rightarrow> ('e \<times> docker_event list) docker" where
  "logged_docker d =
     \<lparr>dk_inspect = (\<lambda>n. log_op (DInspect n) (dk_inspect d n)),
      dk_create = (\<lambda>c h n. log_op (DCreate n c h) (dk_create d c h n)),
      dk_start = (\<lambda>n. log_op (DStart n) (dk_start d n)),
      dk_stop = (\<lambda>n. log_op (DStop n) (dk_stop d n)),
      dk_remove = (\<lambda>f n. log_op (DRemove f n) (dk_remove d f n)),
      dk_exec_create = (\<lambda>n cmd. log_op (\<lambda>_. DExec n) (dk_exec_create d n cmd)),
      dk_exec_start = (\<lambda>i. log_op (\<lambda>_. DOther) (dk_exec_start d i)),
      dk_exec_inspect = (\<lambda>i. log_op (\<lambda>_. DOther) (dk_exec_inspect d i)),
      dk_not_found = dk_not_found d,
      dk_lstat = log_op (\<lambda>_. DOther) (dk_lstat d),
      dk_mkdir = (\<lambda>p. log_op (\<lambda>_. DOther) (dk_mkdir d p)),
      dk_chmod = (\<lambda>p. log_op (\<lambda>_. DOther) (dk_chmod d p)),
      dk_stat_regular = (\<lambda>p. log_op (\<lambda>_. DOther) (dk_stat_regular d p)),
      dk_now = log_op (\<lambda>_. DOther) (dk_now d),
      dk_wait = (\<lambda>n. log_op (\<lambda>_. DOther) (dk_wait d n)),
      dk_dial = (\<lambda>a. log_op (\<lambda>_. DOther) (dk_dial d a)),
      dk_get = (\<lambda>u. log_op (\<lambda>_. DOther) (dk_get d u)),
      dk_mps = map_option (log_op (\<lambda>_. DOther)) (dk_mps d),
      dk_new_port = dk_new_port d, dk_validator = dk_validator d, dk_rounds = dk_rounds d\<rparr>"

lemma logged_docker_simps [simp]:
  "dk_inspect (logged_docker d) n = log_op (DInspect n) (dk_inspect d n)"
  "dk_create (logged_docker d) c h n = log_op (DCreate n c h) (dk_create d c h n)"
  "dk_start (logged_docker d) n = log_op (DStart n) (dk_start d n)"
  "dk_stop (logged_docker d) n = log_op (DStop n) (dk_stop d n)"
  "dk_remove (logged_docker d) f n = log_op (DRemove f n) (dk_remove d f n)"
  "dk_exec_create (logged_docker d) n cmd = log_op (\<lambda>_. DExec n) (dk_exec_create d n cmd)"
  "dk_exec_start (logged_docker d) i = log_op (\<lambda>_. DOther) (dk_exec_start d i)"
  "dk_exec_inspect (logged_docker d) i = log_op (\<lambda>_. DOther) (dk_exec_inspect d i)"
  "dk_not_found (logged_docker d) = dk_not_found d"
  "dk_lstat (logged_docker d) = log_op (\<lambda>_. DOther) (dk_lstat d)"
  "dk_mkdir (logged_docker d) p = log_op (\<lambda>_. DOther) (dk_mkdir d p)"
  "dk_chmod (logged_docker d) p = log_op (\<lambda>_. DOther) (dk_chmod d p)"
  "dk_stat_regular (logged_docker d) p = log_op (\<lambda>_. DOther) (dk_stat_regular d p)"
  "dk_now (logged_docker d) = log_op (\<lambda>_. DOther) (dk_now d)"
  "dk_wait (logged_docker d) t = log_op (\<lambda>_. DOther) (dk_wait d t)"
  "dk_dial (logged_docker d) a = log_op (\<lambda>_. DOther) (dk_dial d a)"
  "dk_get (logged_docker d) a = log_op (\<lambda>_. DOther) (dk_get d a)"
  "dk_mps (logged_docker d) = map_option (log_op (\<lambda>_. DOther)) (dk_mps d)"
  "dk_new_port (logged_docker d) = dk_new_port d" "dk_validator (logged_docker d) = dk_validator d"
  "dk_rounds (logged_docker d) = dk_rounds d"
  by (simp_all add: logged_docker_def)

section \<open>Handlers the monitors do not see\<close>

text \<open>
  A monitor is blind to an event it does not move on. \<open>unmoved step m\<close>: the handler only makes such
  calls. The waits, the MPS manager and the configuration are unmoved for every monitor here.
\<close>

definition unmoved :: "('s \<Rightarrow> docker_event \<Rightarrow> 's) \<Rightarrow> ('e \<times> docker_event list, 'r) op \<Rightarrow> bool" where
  "unmoved step m \<longleftrightarrow> (\<forall>s. monitored step s m (\<lambda>r s'. s' = s))"

definition blind :: "('s \<Rightarrow> docker_event \<Rightarrow> 's) \<Rightarrow> bool" where
  "blind step \<longleftrightarrow> (\<forall>s. step s DOther = s)"

lemma unmovedD: "unmoved step m \<Longrightarrow> (\<And>r. Q r s) \<Longrightarrow> monitored step s m Q"
  using monitored_conseq [of step s m "\<lambda>r s'. s' = s" Q] by (auto simp: unmoved_def)

lemma unmoved_log: "(\<And>s x. step s (ev x) = s) \<Longrightarrow> unmoved step (log_op ev m)"
  unfolding unmoved_def by (auto intro: monitored_log)

lemma unmoved_return: "unmoved step (op_return x)"
  unfolding unmoved_def by (auto intro: monitored_return)

lemma unmoved_bind: "unmoved step m \<Longrightarrow> (\<And>x. unmoved step (f x)) \<Longrightarrow> unmoved step (op_bind m f)"
  unfolding unmoved_def by (blast intro: monitored_bind)

lemma unmoved_try_err: "unmoved step m \<Longrightarrow> unmoved step k \<Longrightarrow> unmoved step (try_err m w k)"
  unfolding try_err_def by (rule unmoved_bind) (auto intro: unmoved_return split: option.split)

lemma unmoved_try_res: "unmoved step m \<Longrightarrow> (\<And>v. unmoved step (k v)) \<Longrightarrow> unmoved step (try_res m w k)"
  unfolding try_res_def by (rule unmoved_bind) (auto intro: unmoved_return split: sum.split)

lemma unmoved_need: "unmoved step m \<Longrightarrow> (\<And>v. unmoved step (k v)) \<Longrightarrow> unmoved step (need_op m w k)"
  unfolding need_op_def by (rule unmoved_bind) (auto intro: unmoved_return split: sum.split)

lemma unmoved_if: "(b \<Longrightarrow> unmoved step x) \<Longrightarrow> (\<not> b \<Longrightarrow> unmoved step y) \<Longrightarrow> unmoved step (if b then x else y)"
  by simp

lemma unmoved_sum:
  "(\<And>e. x = Inl e \<Longrightarrow> unmoved step (a e)) \<Longrightarrow> (\<And>v. x = Inr v \<Longrightarrow> unmoved step (b v)) \<Longrightarrow>
   unmoved step (case x of Inl e \<Rightarrow> a e | Inr v \<Rightarrow> b v)"
  by (cases x) auto

lemma unmoved_option:
  "(x = None \<Longrightarrow> unmoved step a) \<Longrightarrow> (\<And>v. x = Some v \<Longrightarrow> unmoved step (b v)) \<Longrightarrow>
   unmoved step (case x of None \<Rightarrow> a | Some v \<Rightarrow> b v)"
  by (cases x) auto

lemma unmoved_prod: "(\<And>a b. x = (a, b) \<Longrightarrow> unmoved step (f a b)) \<Longrightarrow> unmoved step (case x of (a, b) \<Rightarrow> f a b)"
  by (cases x) auto

lemma unmoved_list:
  "(x = [] \<Longrightarrow> unmoved step a) \<Longrightarrow> (\<And>y ys. x = y # ys \<Longrightarrow> unmoved step (b y ys)) \<Longrightarrow>
   unmoved step (case x of [] \<Rightarrow> a | y # ys \<Rightarrow> b y ys)"
  by (cases x) auto

lemma unmoved_Let: "unmoved step (f v) \<Longrightarrow> unmoved step (let x = v in f x)"
  by simp

lemmas unmoved_intros = unmoved_Let unmoved_if unmoved_sum unmoved_option unmoved_prod unmoved_list unmoved_try_err
  unmoved_try_res unmoved_need unmoved_return unmoved_bind

lemma other_unmoved: "blind step \<Longrightarrow> unmoved step (log_op (\<lambda>_. DOther) m)"
  by (rule unmoved_log) (simp add: blind_def)

lemma await_exec_unmoved: "blind step \<Longrightarrow> unmoved step (await_exec (logged_docker d) task i deadline n)"
  by (induction n) (auto intro!: unmoved_intros other_unmoved)

lemma probe_unmoved: "blind step \<Longrightarrow> unmoved step (probe (logged_docker d) port h)"
  by (auto simp: probe_def intro!: unmoved_intros other_unmoved)

lemma await_port_unmoved: "blind step \<Longrightarrow> unmoved step (await_port (logged_docker d) c port h deadline n)"
  by (induction n) (auto intro!: unmoved_intros other_unmoved probe_unmoved)

lemma await_ports_unmoved: "blind step \<Longrightarrow> unmoved step (await_ports (logged_docker d) c m deadline ports)"
  by (induction ports) (auto intro!: unmoved_intros await_port_unmoved)

lemma ensure_mps_unmoved: "blind step \<Longrightarrow> unmoved step (ensure_mps (logged_docker d) p)"
  by (auto simp: ensure_mps_def intro!: unmoved_intros other_unmoved split: option.split)

lemma check_tls_unmoved: "blind step \<Longrightarrow> unmoved step (check_tls_files (logged_docker d) dir ns)"
  by (induction ns) (auto intro!: unmoved_intros other_unmoved)

lemma docker_configs_unmoved: "blind step \<Longrightarrow> unmoved step (docker_configs (logged_docker d) env w c mps)"
  by (auto simp: docker_configs_def Let_def intro!: unmoved_intros check_tls_unmoved)

section \<open>Authority\<close>

fun auth_step :: "environment_payload \<Rightarrow> string set \<times> bool \<Rightarrow> docker_event \<Rightarrow> string set \<times> bool" where
  "auth_step p (K, ok) (DInspect n (Inr i)) =
     (if \<exists>c\<in>set (ev_components p). ec_container_name c = n \<and> owned (ev_environment_id p) c i then insert n K else K, ok)"
| "auth_step p (K, ok) (DCreate n c h r) = (if r = None then insert n K else K, ok)"
| "auth_step p (K, ok) (DStart n r) = (K, ok \<and> n \<in> K)"
| "auth_step p (K, ok) (DStop n r) = (K, ok \<and> n \<in> K)"
| "auth_step p (K, ok) (DRemove f n r) = (K, ok \<and> n \<in> K)"
| "auth_step p (K, ok) (DExec n) = (K, ok \<and> n \<in> K)"
| "auth_step p s ev = s"

lemma auth_blind: "blind (auth_step p)"
  by (simp add: blind_def)

text \<open>\<open>auth p K m R\<close>: started with authority over \<open>K\<close>, the handler keeps within its authority, never loses any, and ends as \<open>R\<close> says.\<close>

definition auth :: "environment_payload \<Rightarrow> string set \<Rightarrow> ('e \<times> docker_event list, 'r) op \<Rightarrow> ('r \<Rightarrow> string set \<Rightarrow> bool) \<Rightarrow> bool" where
  "auth p K m R \<longleftrightarrow> monitored (auth_step p) (K, True) m (\<lambda>r s. snd s \<and> K \<subseteq> fst s \<and> R r (fst s))"

lemma auth_conseq: "auth p K m R \<Longrightarrow> (\<And>r K'. K \<subseteq> K' \<Longrightarrow> R r K' \<Longrightarrow> S r K') \<Longrightarrow> auth p K m S"
  unfolding auth_def by (erule monitored_conseq) auto

lemma auth_return: "R x K \<Longrightarrow> auth p K (op_return x) R"
  unfolding auth_def by (rule monitored_return) simp

lemma auth_bind:
  assumes "auth p K m S" "\<And>x K'. K \<subseteq> K' \<Longrightarrow> S x K' \<Longrightarrow> auth p K' (f x) R"
  shows "auth p K (op_bind m f) R"
  unfolding auth_def
proof (rule monitored_bind [OF assms(1) [unfolded auth_def]])
  fix x s assume s: "snd s \<and> K \<subseteq> fst s \<and> S x (fst s)"
  then have "auth p (fst s) (f x) R" using assms(2) by blast
  moreover have "s = (fst s, True)" using s by (cases s) auto
  ultimately have "monitored (auth_step p) s (f x) (\<lambda>r s'. snd s' \<and> fst s \<subseteq> fst s' \<and> R r (fst s'))"
    unfolding auth_def by simp
  then show "monitored (auth_step p) s (f x) (\<lambda>r s'. snd s' \<and> K \<subseteq> fst s' \<and> R r (fst s'))"
    by (rule monitored_conseq) (use s in blast)
qed

lemma auth_unmoved: "unmoved (auth_step p) m \<Longrightarrow> auth p K m (\<lambda>r K'. K' = K)"
  unfolding auth_def by (rule unmovedD) auto

lemma auth_touch:
  "(\<And>x s. auth_step p s (ev x) = (fst s, snd s \<and> n \<in> fst s)) \<Longrightarrow> n \<in> K \<Longrightarrow> auth p K (log_op ev m) (\<lambda>r K'. K' = K)"
  unfolding auth_def by (rule monitored_log) simp

lemma auth_run_all:
  assumes "\<And>n K. n \<in> K \<Longrightarrow> auth p K (f n) (\<lambda>r K'. K' = K)"
  shows "set ns \<subseteq> K \<Longrightarrow> auth p K (run_all f ns) (\<lambda>r K'. K' = K)"
proof (induction ns)
  case (Cons n ns)
  then show ?case by (auto intro!: auth_bind [OF assms])
qed (auto intro: auth_return)

lemma auth_check:
  assumes "auth p K m (\<lambda>r K'. r = None \<longrightarrow> S K')" "\<And>x K'. K \<subseteq> K' \<Longrightarrow> R (Inl x) K'"
    "\<And>K'. K \<subseteq> K' \<Longrightarrow> S K' \<Longrightarrow> auth p K' k R"
  shows "auth p K (check_op m w k) R"
  unfolding check_op_def by (rule auth_bind [OF assms(1)]) (auto intro: auth_return assms split: option.split)

lemma auth_need:
  assumes "auth p K m (\<lambda>r K'. \<forall>v. r = Inr v \<longrightarrow> S v K')" "\<And>x K'. K \<subseteq> K' \<Longrightarrow> R (Inl x) K'"
    "\<And>v K'. K \<subseteq> K' \<Longrightarrow> S v K' \<Longrightarrow> auth p K' (k v) R"
  shows "auth p K (need_op m w k) R"
  unfolding need_op_def by (rule auth_bind [OF assms(1)]) (auto intro: auth_return assms split: sum.split)

lemma auth_undo:
  assumes "auth p K m (\<lambda>r K'. r = None \<longrightarrow> S K')" "\<And>K'. K \<subseteq> K' \<Longrightarrow> auth p K' undo (\<lambda>r K'. True)"
    "\<And>x K'. K \<subseteq> K' \<Longrightarrow> R (Inl x) K'" "\<And>K'. K \<subseteq> K' \<Longrightarrow> S K' \<Longrightarrow> auth p K' k R"
  shows "auth p K (undo_op m undo w k) R"
  unfolding undo_op_def
proof (rule auth_bind [OF assms(1)])
  fix r :: "goerr option" and K' assume K: "K \<subseteq> K'" and r: "r = None \<longrightarrow> S K'"
  show "auth p K' (case r of None \<Rightarrow> k | Some x \<Rightarrow> op_bind undo (\<lambda>_. op_return (Inl (w x)))) R"
  proof (cases r)
    case (Some x)
    have "auth p K' (op_bind undo (\<lambda>_. op_return (Inl (w x)))) R"
      by (rule auth_bind [OF assms(2) [OF K]]) (use K assms(3) in \<open>auto intro: auth_return\<close>)
    with Some show ?thesis by simp
  qed (use K r assms(4) in auto)
qed

section \<open>The parts of the executor keep within their authority\<close>

abbreviation any :: "'r \<Rightarrow> string set \<Rightarrow> bool" where
  "any \<equiv> \<lambda>r K. True"

text \<open>Compensation and every other call on a container of known identity.\<close>

lemma auth_calls:
  "n \<in> K \<Longrightarrow> auth p K (dk_start (logged_docker d) n) (\<lambda>r K'. K' = K)"
  "n \<in> K \<Longrightarrow> auth p K (dk_stop (logged_docker d) n) (\<lambda>r K'. K' = K)"
  "n \<in> K \<Longrightarrow> auth p K (dk_remove (logged_docker d) f n) (\<lambda>r K'. K' = K)"
  "n \<in> K \<Longrightarrow> auth p K (dk_exec_create (logged_docker d) n cmd) (\<lambda>r K'. K' = K)"
  by (auto intro!: auth_touch simp: split_paired_all)

lemma auth_compensate:
  "set ns \<subseteq> K \<Longrightarrow> auth p K (compensate_stop (logged_docker d) ns) (\<lambda>r K'. K' = K)"
  "set ns \<subseteq> K \<Longrightarrow> auth p K (compensate_start (logged_docker d) ns) (\<lambda>r K'. K' = K)"
  "set ns \<subseteq> K \<Longrightarrow> auth p K (compensate_remove (logged_docker d) ns) (\<lambda>r K'. K' = K)"
  unfolding compensate_stop_def compensate_start_def compensate_remove_def
  by (auto intro!: auth_run_all auth_calls)

lemma auth_inspect:
  "auth p K (dk_inspect (logged_docker d) n) (\<lambda>r K'. \<forall>i c. r = Inr i \<longrightarrow> c \<in> set (ev_components p) \<longrightarrow> ec_container_name c = n \<longrightarrow>
     owned (ev_environment_id p) c i \<longrightarrow> n \<in> K')"
  unfolding auth_def logged_docker_simps
proof (rule monitored_log)
  fix x :: "goerr + inspection"
  show "snd (auth_step p (K, True) (DInspect n x)) \<and> K \<subseteq> fst (auth_step p (K, True) (DInspect n x)) \<and>
      (\<forall>i c. x = Inr i \<longrightarrow> c \<in> set (ev_components p) \<longrightarrow> ec_container_name c = n \<longrightarrow>
       owned (ev_environment_id p) c i \<longrightarrow> n \<in> fst (auth_step p (K, True) (DInspect n x)))"
    by (cases x) auto
qed

lemma auth_inspect_with:
  assumes "c \<in> set (ev_components p)" "\<And>i. accepts i \<Longrightarrow> owned (ev_environment_id p) c i"
  shows "auth p K (inspect_with (logged_docker d) accepts c)
    (\<lambda>r K'. \<forall>v. r = Inr v \<longrightarrow> (snd v \<longrightarrow> ec_container_name c \<in> K') \<and> (fst v \<longrightarrow> snd v))"
  unfolding inspect_with_def
  by (rule auth_bind [OF auth_inspect [of p K d "ec_container_name c"]])
     (use assms in \<open>auto intro!: auth_return split: sum.split\<close>)

lemma auth_inspect_component:
  "c \<in> set (ev_components p) \<Longrightarrow> auth p K (inspect_component (logged_docker d) (ev_environment_id p) c)
    (\<lambda>r K'. \<forall>v. r = Inr v \<longrightarrow> (snd v \<longrightarrow> ec_container_name c \<in> K') \<and> (fst v \<longrightarrow> snd v))"
  unfolding inspect_component_def by (rule auth_inspect_with) (auto simp: identical_def)

lemma auth_inspect_owned:
  "c \<in> set (ev_components p) \<Longrightarrow> auth p K (inspect_owned_component (logged_docker d) (ev_environment_id p) c)
    (\<lambda>r K'. \<forall>v. r = Inr v \<longrightarrow> (snd v \<longrightarrow> ec_container_name c \<in> K') \<and> (fst v \<longrightarrow> snd v))"
  unfolding inspect_owned_component_def by (rule auth_inspect_with) auto

lemma auth_inspect_states:
  "set cs \<subseteq> set (ev_components p) \<Longrightarrow> set running \<subseteq> K \<Longrightarrow>
   auth p K (inspect_states (logged_docker d) (ev_environment_id p) all cs running)
     (\<lambda>r K'. \<forall>v. r = Inr v \<longrightarrow> set v \<subseteq> K' \<and> (all \<longrightarrow> ec_container_name ` set cs \<subseteq> K'))"
proof (induction cs arbitrary: running K)
  case (Cons c cs)
  show ?case
    unfolding inspect_states.simps
  proof (rule auth_need [OF auth_inspect_component], goal_cases)
    case (3 v K')
    obtain runs exists where v: "v = (runs, exists)" by (cases v)
    let ?running = "if exists \<and> runs then ec_container_name c # running else running"
    have "auth p K' (inspect_states (logged_docker d) (ev_environment_id p) all cs ?running)
       (\<lambda>r K'. \<forall>v. r = Inr v \<longrightarrow> set v \<subseteq> K' \<and> (all \<longrightarrow> ec_container_name ` set cs \<subseteq> K'))"
      using 3 v Cons.prems by (intro Cons.IH) auto
    then have "auth p K' (inspect_states (logged_docker d) (ev_environment_id p) all cs ?running)
       (\<lambda>r K'. \<forall>v. r = Inr v \<longrightarrow> set v \<subseteq> K' \<and> (all \<longrightarrow> ec_container_name ` set (c # cs) \<subseteq> K'))" if "all \<longrightarrow> exists"
      by (rule auth_conseq) (use 3 v that in auto)
    then show ?case using v by (auto intro!: auth_return)
  qed (use Cons.prems in auto)
qed (auto intro: auth_return)

lemma auth_inspect_all:
  "set cs \<subseteq> set (ev_components p) \<Longrightarrow> auth p K (inspect_all (logged_docker d) (ev_environment_id p) all cs r) any"
proof (induction cs arbitrary: r K)
  case (Cons c cs)
  then show ?case
    by (auto intro!: auth_need [OF auth_inspect_component] auth_return)
qed (auto intro: auth_return)

lemma auth_find_missing:
  "set cs \<subseteq> set (ev_components p) \<Longrightarrow> auth p K (find_missing (logged_docker d) (ev_environment_id p) cs missing) any"
proof (induction cs arbitrary: missing K)
  case (Cons c cs)
  then show ?case
    by (auto intro!: auth_need [OF auth_inspect_component])
qed (auto intro: auth_return)

lemma auth_create: "auth p K (dk_create (logged_docker d) c h n) (\<lambda>r K'. r = None \<longrightarrow> n \<in> K')"
  unfolding auth_def logged_docker_simps by (rule monitored_log) auto

lemma auth_create_missing:
  "set created \<subseteq> K \<Longrightarrow> auth p K (create_missing (logged_docker d) p w mps created cs) any"
proof (induction cs arbitrary: created K)
  case (Cons c cs)
  show ?case
    unfolding create_missing.simps
  proof (rule auth_bind [OF auth_unmoved [OF docker_configs_unmoved [OF auth_blind]]], goal_cases)
    case (1 r K')
    show ?case
    proof (cases r)
      case (Inl e)
      with 1 Cons.prems show ?thesis by (auto intro!: auth_bind [OF auth_compensate(3)] auth_return)
    next
      case (Inr ch)
      obtain config host where ch: "ch = (config, host)" by (cases ch)
      show ?thesis
        unfolding Inr ch sum.case prod.case
      proof (rule auth_undo [OF auth_create], goal_cases)
        case (1 K'')
        then have "set created \<subseteq> K''" using Cons.prems \<open>K' = K\<close> by auto
        from auth_compensate(3) [OF this] show ?case by (rule auth_conseq) simp
      next
        case (3 K'')
        then show ?case using Cons.prems 1 by (intro Cons.IH) auto
      qed simp
    qed
  qed
qed (auto intro: auth_return)

lemma auth_other: "auth p K (log_op (\<lambda>_. DOther) m) any"
  by (rule auth_conseq [OF auth_unmoved [OF other_unmoved [OF auth_blind]]]) auto

lemma auth_create_in: "auth p K (create_in (logged_docker d) p w mps) any"
  unfolding create_in_def logged_docker_simps
  by (intro auth_check [where S = "\<lambda>K. True"] auth_need [where S = "\<lambda>v K. True"] auth_create_missing)
     (auto intro: auth_conseq [OF auth_other] auth_conseq [OF auth_find_missing])

lemma auth_unseen: "unmoved (auth_step p) m \<Longrightarrow> auth p K m any"
  by (rule auth_conseq [OF auth_unmoved]) auto

lemma auth_try_err:
  "auth p K m any \<Longrightarrow> (\<And>K'. K \<subseteq> K' \<Longrightarrow> auth p K' k any) \<Longrightarrow> auth p K (try_err m w k) any"
  unfolding try_err_def by (erule auth_bind) (auto intro: auth_return split: option.split)

lemma auth_try_res:
  "auth p K m any \<Longrightarrow> (\<And>v K'. K \<subseteq> K' \<Longrightarrow> auth p K' (k v) any) \<Longrightarrow> auth p K (try_res m w k) any"
  unfolding try_res_def by (erule auth_bind) (auto intro: auth_return split: sum.split)

lemma auth_run_in_container:
  assumes "n \<in> K" shows "auth p K (run_in_container (logged_docker d) task n) any"
  unfolding run_in_container_def
proof (rule auth_try_res)
  show "auth p K (dk_exec_create (logged_docker d) n [''sh'', ''-lc'', et_command task]) any"
    by (rule auth_conseq [OF auth_calls(4) [OF assms]]) simp
  fix i K'
  show "auth p K' (try_err (dk_exec_start (logged_docker d) i) (wrap (''start '' @ et_subject task @ '': ''))
     (op_bind (dk_now (logged_docker d)) (\<lambda>now. await_exec (logged_docker d) task i (add_dur now (et_limit task))
        (dk_rounds (logged_docker d))))) any"
    by (auto intro!: auth_unseen unmoved_intros other_unmoved await_exec_unmoved auth_blind)
qed

lemma auth_wait_ready: "auth p K (wait_ready (logged_docker d) c) any"
  unfolding wait_ready_def
proof (rule auth_try_res)
  show "auth p K (dk_inspect (logged_docker d) (ec_container_name c)) any"
    by (rule auth_conseq [OF auth_inspect]) simp
  fix i K'
  show "auth p K' (case in_ports i of None \<Rightarrow> op_return None | Some m \<Rightarrow> op_bind (dk_now (logged_docker d)) (\<lambda>now.
      await_ports (logged_docker d) c m (add_dur now (40 * second_ns)) [8080, 9090, 8888, 5000])) any"
    by (rule auth_unseen) (auto intro!: unmoved_intros other_unmoved await_ports_unmoved auth_blind)
qed

lemma auth_undo_any:
  assumes "auth p K m any" "\<And>K'. K \<subseteq> K' \<Longrightarrow> auth p K' undo any" "\<And>K'. K \<subseteq> K' \<Longrightarrow> auth p K' k any"
  shows "auth p K (undo_op m undo w k) any"
  by (rule auth_undo [where S = "\<lambda>K. True"]) (use assms in auto)

lemma auth_stop_back: "set ns \<subseteq> K \<Longrightarrow> auth p K (compensate_stop (logged_docker d) ns) any"
  by (rule auth_conseq [OF auth_compensate(1)]) auto

lemma auth_start_missing:
  assumes "set started \<subseteq> K" "ec_container_name ` set cs \<subseteq> K"
    "\<And>started' K'. K \<subseteq> K' \<Longrightarrow> set started' \<subseteq> K' \<Longrightarrow> auth p K' (k started') any"
  shows "auth p K (start_missing (logged_docker d) running started cs k) any"
  using assms
proof (induction cs arbitrary: started K)
  case (Cons c cs)
  have "auth p K (dk_start (logged_docker d) (ec_container_name c)) any"
    by (rule auth_conseq [OF auth_calls(1)]) (use Cons.prems in auto)
  moreover have "auth p K' (start_missing (logged_docker d) running (started @ [ec_container_name c]) cs k) any"
    if "K \<subseteq> K'" for K'
    using Cons.prems that by (intro Cons.IH) auto
  ultimately show ?case
    using Cons by (auto intro!: auth_undo_any auth_stop_back)
qed auto

lemma auth_install_conda:
  assumes "set started \<subseteq> K" "ec_container_name ` set cs \<subseteq> K" "\<And>K'. K \<subseteq> K' \<Longrightarrow> auth p K' k any"
  shows "auth p K (install_conda (logged_docker d) script started cs k) any"
  using assms
proof (induction cs arbitrary: K)
  case (Cons c cs)
  have "auth p K' (install_conda (logged_docker d) script started cs k) any" if "K \<subseteq> K'" for K'
    using Cons.prems that by (intro Cons.IH) auto
  with Cons.prems show ?case
    by (auto intro!: auth_undo_any auth_stop_back auth_run_in_container)
qed auto

lemma auth_make_ready:
  assumes "set started \<subseteq> K" "ec_container_name ` set cs \<subseteq> K" "\<And>K'. K \<subseteq> K' \<Longrightarrow> auth p K' k any"
  shows "auth p K (make_ready (logged_docker d) script started cs k) any"
  using assms
proof (induction cs arbitrary: K)
  case (Cons c cs)
  have "auth p K' (make_ready (logged_docker d) script started cs k) any" if "K \<subseteq> K'" for K'
    using Cons.prems that by (intro Cons.IH) auto
  with Cons.prems show ?case
    by (auto intro!: auth_undo_any auth_stop_back auth_run_in_container auth_wait_ready)
qed auto

lemma auth_need_mps:
  "(\<And>v. auth p K (k v) any) \<Longrightarrow> auth p K (need_op (ensure_mps (logged_docker d) p) w k) any"
  unfolding need_op_def
  by (rule auth_bind [OF auth_unmoved [OF ensure_mps_unmoved [OF auth_blind]]]) (auto intro: auth_return split: sum.split)

lemma auth_bind_lstat:
  "(\<And>v. auth p K (f v) any) \<Longrightarrow> auth p K (op_bind (dk_lstat (logged_docker d)) f) any"
  unfolding logged_docker_simps
  by (rule auth_bind [OF auth_unmoved [OF other_unmoved [OF auth_blind]]]) auto

lemma auth_start_pair: "auth p K (docker_start_pair (logged_docker d) conda annotation p) any"
proof (cases "validate_control p")
  case None
  have "auth p K (need_op (inspect_states (logged_docker d) (ev_environment_id p) True (ev_components p) []) same (\<lambda>running.
      start_missing (logged_docker d) running [] (ev_components p) (\<lambda>started.
      install_conda (logged_docker d) conda started (ev_components p)
      (make_ready (logged_docker d) annotation started (ev_components p)
      (op_return (Inr (pair_with_state p state_running))))))) any" for K
  proof (rule auth_need [OF auth_inspect_states], goal_cases)
    case (4 running K')
    then have n: "ec_container_name ` set (ev_components p) \<subseteq> K'" by simp
    show ?case
      by (intro auth_start_missing auth_install_conda auth_make_ready auth_return) (use n in auto)
  qed auto
  with None show ?thesis by (auto simp: docker_start_pair_def intro: auth_need_mps)
qed (simp add: docker_start_pair_def auth_return)

lemma auth_stop_running:
  assumes "set stopped \<subseteq> K" "set running \<subseteq> K" "\<And>K'. K \<subseteq> K' \<Longrightarrow> auth p K' k any"
  shows "auth p K (stop_running (logged_docker d) running stopped cs k) any"
  using assms
proof (induction cs arbitrary: stopped K)
  case (Cons c cs)
  show ?case
  proof (cases "ec_container_name c \<in> set running")
    case True
    have "auth p K (dk_stop (logged_docker d) (ec_container_name c)) any"
      by (rule auth_conseq [OF auth_calls(2)]) (use Cons.prems True in auto)
    moreover have "auth p K' (stop_running (logged_docker d) running (stopped @ [ec_container_name c]) cs k) any"
      if "K \<subseteq> K'" for K'
      using Cons.prems that True by (intro Cons.IH) auto
    moreover have "auth p K' (compensate_start (logged_docker d) stopped) any" if "K \<subseteq> K'" for K'
      by (rule auth_conseq [OF auth_compensate(2)]) (use Cons.prems that in auto)
    ultimately show ?thesis using True by (auto intro!: auth_undo_any)
  qed (use Cons in auto)
qed auto

lemma auth_stop_pair: "auth p K (docker_stop_pair (logged_docker d) p) any"
proof (cases "validate_control p")
  case None
  have "auth p K (need_op (inspect_states (logged_docker d) (ev_environment_id p) False (ev_components p) []) same (\<lambda>running.
      stop_running (logged_docker d) running [] (ev_components p) (docker_inspect_payload (logged_docker d) p))) any"
  proof (rule auth_need [OF auth_inspect_states], goal_cases)
    case (4 running K')
    then show ?case
      by (intro auth_stop_running) (auto simp: docker_inspect_payload_def intro: auth_inspect_all)
  qed auto
  with None show ?thesis by (simp add: docker_stop_pair_def)
qed (simp add: docker_stop_pair_def auth_return)

lemma auth_owned_running:
  "set cs \<subseteq> set (ev_components p) \<Longrightarrow> set running \<subseteq> K \<Longrightarrow>
   auth p K (owned_running (logged_docker d) (ev_environment_id p) cs running) (\<lambda>r K'. \<forall>v. r = Inr v \<longrightarrow> set v \<subseteq> K')"
proof (induction cs arbitrary: running K)
  case (Cons c cs)
  show ?case
    unfolding owned_running.simps
  proof (rule auth_need [OF auth_inspect_owned], goal_cases)
    case (3 v K')
    then show ?case using Cons.prems by (cases v) (auto intro!: Cons.IH)
  qed (use Cons.prems in auto)
qed (auto intro: auth_return)

lemma auth_stop_for_restore:
  assumes "set running \<subseteq> K" "\<And>K'. K \<subseteq> K' \<Longrightarrow> auth p K' k any"
  shows "auth p K (stop_for_restore (logged_docker d) running cs k) any"
  using assms
proof (induction cs arbitrary: K)
  case (Cons c cs)
  have "auth p K (dk_stop (logged_docker d) (ec_container_name c)) (\<lambda>r K'. r = None \<longrightarrow> True)"
    if "ec_container_name c \<in> set running"
    by (rule auth_conseq [OF auth_calls(2)]) (use Cons.prems that in auto)
  moreover have "auth p K' (stop_for_restore (logged_docker d) running cs k) any" if "K \<subseteq> K'" for K'
    using Cons.prems that by (intro Cons.IH) auto
  ultimately show ?case
    using Cons.prems by (auto intro!: auth_check [where S = "\<lambda>K. True"] simp del: logged_docker_simps)
qed auto

lemma auth_removal:
  assumes "n \<in> K" "\<And>K'. K \<subseteq> K' \<Longrightarrow> auth p K' k any"
  shows "auth p K (check_op (dk_remove (logged_docker d) f n) w k) any"
  by (rule auth_check [OF auth_conseq [OF auth_calls(3)], where S = "\<lambda>K. True"]) (use assms in auto)

lemma auth_remove_for_restore:
  assumes "set cs \<subseteq> set (ev_components p)" "\<And>K'. K \<subseteq> K' \<Longrightarrow> auth p K' k any"
  shows "auth p K (remove_for_restore (logged_docker d) (ev_environment_id p) cs k) any"
  using assms
proof (induction cs arbitrary: K)
  case (Cons c cs)
  show ?case
    unfolding remove_for_restore.simps
  proof (rule auth_need [OF auth_inspect_owned], goal_cases)
    case (3 v K')
    have "auth p K'' (remove_for_restore (logged_docker d) (ev_environment_id p) cs k) any" if "K' \<subseteq> K''" for K''
      using Cons.prems that 3 by (intro Cons.IH) auto
    note rest = this
    obtain runs exists where v: "v = (runs, exists)" by (cases v)
    show ?case
    proof (cases exists)
      case True
      with 3 v rest show ?thesis by (auto intro!: auth_removal simp del: logged_docker_simps)
    next
      case False
      with v rest [of K'] show ?thesis by simp
    qed
  qed (use Cons.prems in auto)
qed auto

lemma auth_restore_pair: "auth p K (docker_restore_pair (logged_docker d) p) any"
proof -
  have "auth p K (need_op (owned_running (logged_docker d) (ev_environment_id p) (ev_components p) []) same (\<lambda>running.
      stop_for_restore (logged_docker d) running (ev_components p)
      (remove_for_restore (logged_docker d) (ev_environment_id p) (ev_components p)
      (create_in (logged_docker d) p w mps)))) any" for w mps K
  proof (rule auth_need [OF auth_owned_running], goal_cases)
    case (4 running K')
    then show ?case by (intro auth_stop_for_restore auth_remove_for_restore auth_create_in) auto
  qed auto
  then show ?thesis
    unfolding docker_restore_pair_def
    by (intro auth_bind_lstat) (auto intro!: auth_return auth_need_mps split: sum.split)
qed

lemma auth_delete_components:
  "set cs \<subseteq> set (ev_components p) \<Longrightarrow> auth p K (delete_components (logged_docker d) p cs) any"
proof (induction cs arbitrary: K)
  case (Cons c cs)
  show ?case
    unfolding delete_components.simps
  proof (rule auth_need [OF auth_inspect_owned], goal_cases)
    case (3 v K')
    obtain runs exists where v: "v = (runs, exists)" by (cases v)
    show ?case
    proof (cases exists)
      case True
      let ?rest = "check_op (dk_remove (logged_docker d) False (ec_container_name c))
          (wrap (''remove component '' @ ec_component_type c @ '': '')) (delete_components (logged_docker d) p cs)"
      have n: "ec_container_name c \<in> K'" using 3 v True by simp
      have rest: "auth p K'' ?rest any" if "K' \<subseteq> K''" for K''
        by (rule auth_removal) (use n that Cons in auto)
      have "auth p K' (check_op (dk_stop (logged_docker d) (ec_container_name c))
          (wrap (''stop component for delete '' @ ec_component_type c @ '': '')) ?rest) any"
        by (rule auth_check [OF auth_conseq [OF auth_calls(2)], where S = "\<lambda>K. True"]) (use n rest in auto)
      with rest [of K'] v True show ?thesis by (simp add: Let_def)
    qed (use v Cons in auto)
  qed (use Cons.prems in auto)
qed (auto intro: auth_return)

lemma auth_delete_pair: "auth p K (docker_delete_pair (logged_docker d) p) any"
  by (cases "validate_control p") (auto simp: docker_delete_pair_def intro: auth_return auth_delete_components)

lemma auth_create_pair: "auth p K (docker_create_pair (logged_docker d) p) any"
  unfolding docker_create_pair_def
  by (intro auth_bind_lstat) (auto intro!: auth_return auth_need_mps auth_create_in split: sum.split)

lemma auth_inspect_pair: "auth p K (docker_inspect_pair (logged_docker d) p) any"
  by (cases "validate_control p")
     (auto simp: docker_inspect_pair_def docker_inspect_payload_def intro: auth_return auth_inspect_all)

section \<open>Compensation\<close>

fun start_step :: "string set \<Rightarrow> docker_event \<Rightarrow> string set" where
  "start_step S (DStart n r) = (if r = None then insert n S else S)"
| "start_step S (DStop n r) = S - {n}"
| "start_step S ev = S"

fun create_step :: "string set \<Rightarrow> docker_event \<Rightarrow> string set" where
  "create_step S (DCreate n c h r) = (if r = None then insert n S else S)"
| "create_step S (DRemove f n r) = (if f then S - {n} else S)"
| "create_step S ev = S"

definition indifferent :: "('s \<Rightarrow> docker_event \<Rightarrow> 's) \<Rightarrow> bool" where
  "indifferent step \<longleftrightarrow> (\<forall>s n r. step s DOther = s \<and> step s (DInspect n r) = s \<and> step s (DExec n) = s)"

lemma indifferent_steps: "indifferent start_step" "indifferent create_step"
  by (auto simp: indifferent_def)

lemma indifferent_blind: "indifferent step \<Longrightarrow> blind step"
  by (simp add: indifferent_def blind_def)

lemma seen_unmoved: "indifferent step \<Longrightarrow> unmoved step (log_op (DInspect n) m)" "indifferent step \<Longrightarrow> unmoved step (log_op (\<lambda>_. DExec n) m')"
  by (auto intro!: unmoved_log simp: indifferent_def)

lemma inspect_with_unmoved: "indifferent step \<Longrightarrow> unmoved step (inspect_with (logged_docker d) accepts c)"
  by (auto simp: inspect_with_def intro!: unmoved_intros seen_unmoved)

lemmas inspect_unmoved = inspect_with_unmoved [folded inspect_component_def] inspect_with_unmoved [folded inspect_owned_component_def]

lemma inspect_component_unmoved: "indifferent step \<Longrightarrow> unmoved step (inspect_component (logged_docker d) env c)"
  by (simp add: inspect_component_def inspect_with_unmoved)

lemma inspect_states_unmoved: "indifferent step \<Longrightarrow> unmoved step (inspect_states (logged_docker d) env all cs running)"
  by (induction cs arbitrary: running) (auto intro!: unmoved_intros inspect_component_unmoved)

lemma find_missing_unmoved: "indifferent step \<Longrightarrow> unmoved step (find_missing (logged_docker d) env cs missing)"
  by (induction cs arbitrary: missing) (auto intro!: unmoved_intros inspect_component_unmoved)

lemma run_in_container_unmoved: "indifferent step \<Longrightarrow> unmoved step (run_in_container (logged_docker d) task n)"
  by (auto simp: run_in_container_def intro!: unmoved_intros seen_unmoved other_unmoved await_exec_unmoved indifferent_blind)

lemma wait_ready_unmoved: "indifferent step \<Longrightarrow> unmoved step (wait_ready (logged_docker d) c)"
  by (auto simp: wait_ready_def intro!: unmoved_intros seen_unmoved other_unmoved await_ports_unmoved indifferent_blind)

text \<open>What the compensations reach.\<close>

lemma run_all_clears:
  assumes "\<And>n S. monitored step S (f n) (\<lambda>r S'. S' = S - {n})"
  shows "monitored step S (run_all f ns) (\<lambda>r S'. S' = S - set ns)"
proof (induction ns arbitrary: S)
  case (Cons n ns)
  show ?case
    unfolding run_all.simps
  proof (rule monitored_bind [OF assms])
    fix x T assume "T = S - {n}"
    then have "T - set ns = S - set (n # ns)" by auto
    with Cons [of T] show "monitored step T (run_all f ns) (\<lambda>r S'. S' = S - set (n # ns))" by simp
  qed
qed (auto intro: monitored_return)

lemma stop_clears: "S \<subseteq> set ns \<Longrightarrow> monitored start_step S (compensate_stop (logged_docker d) ns) (\<lambda>r S'. S' = {})"
  unfolding compensate_stop_def
  by (rule monitored_conseq [OF run_all_clears]) (auto intro: monitored_log)

lemma remove_clears: "S \<subseteq> set ns \<Longrightarrow> monitored create_step S (compensate_remove (logged_docker d) ns) (\<lambda>r S'. S' = {})"
  unfolding compensate_remove_def
  by (rule monitored_conseq [OF run_all_clears]) (auto intro: monitored_log)

text \<open>The postcondition: an error leaves nothing behind.\<close>

abbreviation balanced :: "goerr + 'a \<Rightarrow> string set \<Rightarrow> bool" where
  "balanced \<equiv> \<lambda>r S. isl r \<longrightarrow> S = {}"

lemma balanced_undo:
  assumes "unmoved start_step m" "S \<subseteq> set ns" "monitored start_step S k balanced"
  shows "monitored start_step S (undo_op m (compensate_stop (logged_docker d) ns) w k) balanced"
proof (rule monitored_undo, rule unmovedD [OF assms(1)])
  fix r :: "goerr option"
  show "case r of None \<Rightarrow> monitored start_step S k balanced
      | Some x \<Rightarrow> monitored start_step S (compensate_stop (logged_docker d) ns) (\<lambda>_ S'. isl (Inl (w x) :: goerr + 'b) \<longrightarrow> S' = {})"
    using assms(2,3) by (cases r) (auto intro: monitored_conseq [OF stop_clears])
qed

lemma balanced_start_missing:
  assumes "S \<subseteq> set started" "\<And>started' S'. S' \<subseteq> set started' \<Longrightarrow> monitored start_step S' (k started') balanced"
  shows "monitored start_step S (start_missing (logged_docker d) running started cs k) balanced"
  using assms(1)
proof (induction cs arbitrary: started S)
  case (Cons c cs)
  let ?n = "ec_container_name c"
  have "monitored start_step S (undo_op (dk_start (logged_docker d) ?n) (compensate_stop (logged_docker d) started)
      (wrap (''start component '' @ ec_component_type c @ '': ''))
      (start_missing (logged_docker d) running (started @ [?n]) cs k)) balanced"
  proof (rule monitored_undo, unfold logged_docker_simps(3), rule monitored_log)
    fix r :: "goerr option"
    show "case r of None \<Rightarrow> monitored start_step (start_step S (DStart ?n r))
          (start_missing (logged_docker d) running (started @ [?n]) cs k) balanced
      | Some x \<Rightarrow> monitored start_step (start_step S (DStart ?n r)) (compensate_stop (logged_docker d) started)
          (\<lambda>_ S'. isl (Inl (wrap (''start component '' @ ec_component_type c @ '': '') x) :: goerr + pair_result) \<longrightarrow> S' = {})"
    proof (cases r)
      case None
      have "monitored start_step (insert ?n S) (start_missing (logged_docker d) running (started @ [?n]) cs k) balanced"
        by (rule Cons.IH) (use Cons.prems in auto)
      with None show ?thesis by simp
    qed (use Cons.prems in \<open>auto intro: monitored_conseq [OF stop_clears]\<close>)
  qed
  with Cons show ?case by simp
qed (simp add: assms(2))

lemma balanced_install_conda:
  "S \<subseteq> set started \<Longrightarrow> monitored start_step S k balanced \<Longrightarrow>
   monitored start_step S (install_conda (logged_docker d) script started cs k) balanced"
  by (induction cs) (auto intro!: balanced_undo run_in_container_unmoved indifferent_steps)

lemma balanced_make_ready:
  "S \<subseteq> set started \<Longrightarrow> monitored start_step S k balanced \<Longrightarrow>
   monitored start_step S (make_ready (logged_docker d) script started cs k) balanced"
  by (induction cs) (auto intro!: balanced_undo run_in_container_unmoved wait_ready_unmoved indifferent_steps)

lemma balanced_need:
  assumes "unmoved step m" "\<And>v. monitored step {} (k v) balanced"
  shows "monitored step {} (need_op m w k) balanced"
  by (rule monitored_need, rule unmovedD [OF assms(1)]) (auto simp: assms(2) split: sum.split)

lemma balanced_start_pair: "monitored start_step {} (docker_start_pair (logged_docker d) conda annotation p) balanced"
  by (cases "validate_control p")
     (auto simp: docker_start_pair_def intro!: monitored_return balanced_need ensure_mps_unmoved inspect_states_unmoved
        indifferent_steps indifferent_blind balanced_start_missing balanced_install_conda balanced_make_ready)

lemma balanced_create_missing:
  "S \<subseteq> set created \<Longrightarrow> monitored create_step S (create_missing (logged_docker d) p w mps created cs) balanced"
proof (induction cs arbitrary: created S)
  case (Cons c cs)
  let ?n = "ec_container_name c"
  have undo: "monitored create_step S (op_bind (compensate_remove (logged_docker d) created) (\<lambda>_. op_return (Inl e))) balanced" for e
    by (rule monitored_bind [OF remove_clears [OF Cons.prems]]) (auto intro: monitored_return)
  show ?case
    unfolding create_missing.simps
  proof (rule monitored_bind [OF unmovedD [OF docker_configs_unmoved [OF indifferent_blind [OF indifferent_steps(2)]], where Q = "\<lambda>r S'. S' = S"]], goal_cases)
    case (2 r S')
    show ?case
    proof (cases r)
      case (Inr ch)
      obtain config host where ch: "ch = (config, host)" by (cases ch)
      have "monitored create_step S (undo_op (dk_create (logged_docker d) config host ?n) (compensate_remove (logged_docker d) created)
          (wrap (''create component '' @ ec_component_type c @ '': ''))
          (create_missing (logged_docker d) p w mps (created @ [?n]) cs)) balanced"
      proof (rule monitored_undo, unfold logged_docker_simps(2), rule monitored_log)
        fix r :: "goerr option"
        show "case r of None \<Rightarrow> monitored create_step (create_step S (DCreate ?n config host r))
              (create_missing (logged_docker d) p w mps (created @ [?n]) cs) balanced
          | Some x \<Rightarrow> monitored create_step (create_step S (DCreate ?n config host r)) (compensate_remove (logged_docker d) created)
              (\<lambda>_ S'. isl (Inl (wrap (''create component '' @ ec_component_type c @ '': '') x) :: goerr + pair_result) \<longrightarrow> S' = {})"
        proof (cases r)
          case None
          have "monitored create_step (insert ?n S) (create_missing (logged_docker d) p w mps (created @ [?n]) cs) balanced"
            by (rule Cons.IH) (use Cons.prems in auto)
          with None show ?thesis by simp
        qed (use Cons.prems in \<open>auto intro: monitored_conseq [OF remove_clears]\<close>)
      qed
      with Inr ch 2 show ?thesis by simp
    qed (use 2 undo in simp)
  qed simp
qed (auto intro: monitored_return)

lemma balanced_check:
  assumes "unmoved step m" "monitored step {} k balanced"
  shows "monitored step {} (check_op m w k) balanced"
  by (rule monitored_check, rule unmovedD [OF assms(1)]) (auto simp: assms(2) split: option.split)

lemma balanced_create_in: "monitored create_step {} (create_in (logged_docker d) p w mps) balanced"
  unfolding create_in_def logged_docker_simps
  by (intro balanced_check balanced_need other_unmoved find_missing_unmoved indifferent_steps indifferent_blind
      balanced_create_missing) simp

lemma balanced_create_pair: "monitored create_step {} (docker_create_pair (logged_docker d) p) balanced"
  unfolding docker_create_pair_def logged_docker_simps
proof (rule monitored_bind [where R = "\<lambda>r S. S = {}"])
  show "monitored create_step {} (log_op (\<lambda>_. DOther) (dk_lstat d)) (\<lambda>r S. S = {})"
    by (rule monitored_log) simp
  fix files S assume "S = ({} :: string set)"
  then show "monitored create_step S (case validate_create (dk_validator d) files p of Inl e \<Rightarrow> op_return (Inl e)
      | Inr w \<Rightarrow> need_op (ensure_mps (logged_docker d) p) same (create_in (logged_docker d) p w)) balanced"
    by (cases "validate_create (dk_validator d) files p")
       (auto intro: monitored_return intro!: balanced_need ensure_mps_unmoved indifferent_steps indifferent_blind balanced_create_in)
qed

end
