(* ===== verification/DockerWait.thy ===== *)
theory DockerWait
  imports DockerProps
begin

text \<open>
  The polling loops end, and what the Docker executor promises, as properties. A loop polls, looks at the
  clock, and waits; when the clock moves on by the time it waits, a number of rounds that covers the
  limit is enough, and more rounds change nothing.
\<close>

section \<open>The clock\<close>

text \<open>
  \<open>ticking clk d\<close>: \<open>clk\<close> is the time of the environment in nanoseconds; \<open>time.Now\<close> reads it, a wait that is
  not cut short takes at least its time, and no call turns it back.
\<close>

definition ticking :: "('e \<Rightarrow> int) \<Rightarrow> 'e docker \<Rightarrow> bool" where
  "ticking clk d \<longleftrightarrow>
     (\<forall>e t e'. dk_now d e = (t, e') \<longrightarrow> clk e \<le> instant t \<and> instant t \<le> clk e') \<and>
     (\<forall>n e e'. dk_wait d n e = (None, e') \<longrightarrow> clk e + n \<le> clk e') \<and>
     (\<forall>i e. clk e \<le> clk (snd (dk_exec_inspect d i e))) \<and>
     (\<forall>a e. clk e \<le> clk (snd (dk_dial d a e))) \<and> (\<forall>u e. clk e \<le> clk (snd (dk_get d u e)))"

lemma await_exec_rounds:
  assumes "ticking clk d" "0 < et_pause task"
  shows "instant deadline < clk e + et_pause task * int n \<Longrightarrow>
    await_exec d task i deadline (Suc (n + k)) e = await_exec d task i deadline (Suc n) e"
proof (induction n arbitrary: e)
  case 0
  obtain r e1 where r: "dk_exec_inspect d i e = (r, e1)" by (cases "dk_exec_inspect d i e")
  obtain t e2 where t: "dk_now d e1 = (t, e2)" by (cases "dk_now d e1")
  have "clk e \<le> clk e1" using assms(1) r unfolding ticking_def by (metis snd_conv)
  moreover have "clk e1 \<le> instant t" using assms(1) t unfolding ticking_def by blast
  ultimately have "after t deadline" using 0 by (simp add: after_def)
  then show ?case
    using r t by (cases k; cases r) (auto simp: try_res_def op_bind_def op_return_def split: prod.splits)
next
  case (Suc n)
  obtain r e1 where r: "dk_exec_inspect d i e = (r, e1)" by (cases "dk_exec_inspect d i e")
  obtain t e2 where t: "dk_now d e1 = (t, e2)" by (cases "dk_now d e1")
  obtain w e3 where w: "dk_wait d (et_pause task) e2 = (w, e3)" by (cases "dk_wait d (et_pause task) e2")
  have "clk e \<le> clk e1" using assms(1) r unfolding ticking_def by (metis snd_conv)
  moreover have "clk e1 \<le> clk e2" using assms(1) t unfolding ticking_def by (meson order_trans)
  moreover have "w = None \<Longrightarrow> clk e2 + et_pause task \<le> clk e3" using assms(1) w unfolding ticking_def by blast
  ultimately have "w = None \<Longrightarrow> instant deadline < clk e3 + et_pause task * int n"
    using Suc.prems by (simp add: algebra_simps)
  from Suc.IH [OF this] show ?case
    using r t w
    by (cases r; cases w)
      (auto simp: try_res_def try_err_def op_bind_def op_return_def simp del: await_exec.simps(2)
         simp add: await_exec.simps(2) [of d task i deadline "Suc (n + k)"] await_exec.simps(2) [of d task i deadline "Suc n"]
         split: prod.splits)
qed

lemma probe_ticks: "ticking clk d \<Longrightarrow> clk e \<le> clk (snd (probe d port h e))"
  unfolding ticking_def probe_def op_bind_def op_return_def by (simp add: split_def)

lemma await_port_rounds:
  assumes "ticking clk d"
  shows "instant deadline < clk e + 250000000 * int n \<Longrightarrow>
    await_port d c port h deadline (Suc (n + k)) e = await_port d c port h deadline (Suc n) e"
proof (induction n arbitrary: e)
  case 0
  obtain b e1 where r: "probe d port h e = (b, e1)" by (cases "probe d port h e")
  obtain t e2 where t: "dk_now d e1 = (t, e2)" by (cases "dk_now d e1")
  have "clk e \<le> clk e1" using probe_ticks [OF assms(1), of e port h] r by simp
  moreover have "clk e1 \<le> instant t" using assms(1) t unfolding ticking_def by blast
  ultimately have "after t deadline" using 0 by (simp add: after_def)
  then show ?case
    using r t by (cases k) (auto simp: try_err_def op_bind_def op_return_def split: prod.splits)
next
  case (Suc n)
  obtain b e1 where r: "probe d port h e = (b, e1)" by (cases "probe d port h e")
  obtain t e2 where t: "dk_now d e1 = (t, e2)" by (cases "dk_now d e1")
  obtain w e3 where w: "dk_wait d 250000000 e2 = (w, e3)" by (cases "dk_wait d 250000000 e2")
  have "clk e \<le> clk e1" using probe_ticks [OF assms(1), of e port h] r by simp
  moreover have "clk e1 \<le> clk e2" using assms(1) t unfolding ticking_def by (meson order_trans)
  moreover have "w = None \<Longrightarrow> clk e2 + 250000000 \<le> clk e3" using assms(1) w unfolding ticking_def by blast
  ultimately have "w = None \<Longrightarrow> instant deadline < clk e3 + 250000000 * int n"
    using Suc.prems by (simp add: algebra_simps)
  from Suc.IH [OF this] show ?case
    using r t w
    by (cases w)
      (auto simp: try_err_def op_bind_def op_return_def simp del: await_port.simps(2)
         simp add: await_port.simps(2) [of d c port h deadline "Suc (n + k)"] await_port.simps(2) [of d c port h deadline "Suc n"])
qed

section \<open>Handlers with different fuel\<close>

abbreviation rounds :: "'e docker \<Rightarrow> nat \<Rightarrow> 'e docker" where
  "rounds d n \<equiv> d\<lparr>dk_rounds := n\<rparr>"

lemma await_exec_fuel [simp]: "await_exec (rounds d m) task i deadline n = await_exec d task i deadline n"
  by (induction n) (simp_all cong: if_cong)

lemma probe_fuel [simp]: "probe (rounds d m) port h = probe d port h"
  by (simp add: probe_def cong: if_cong)

lemma await_port_fuel [simp]: "await_port (rounds d m) c port h deadline n = await_port d c port h deadline n"
  by (induction n) (simp_all cong: if_cong)

lemma missing_container_fuel [simp]: "missing_container (rounds d m) = missing_container d"
  by (simp add: missing_container_def fun_eq_iff)

lemma inspect_with_fuel [simp]: "inspect_with (rounds d m) accepts c = inspect_with d accepts c"
  by (simp add: inspect_with_def cong: if_cong sum.case_cong)

lemma inspect_component_fuel [simp]: "inspect_component (rounds d m) env c = inspect_component d env c"
  by (simp add: inspect_component_def)

lemma inspect_states_fuel [simp]: "inspect_states (rounds d m) env all cs running = inspect_states d env all cs running"
  by (induction cs arbitrary: running) (simp_all cong: if_cong)

lemma compensate_stop_fuel [simp]: "compensate_stop (rounds d m) ns = compensate_stop d ns"
  by (simp add: compensate_stop_def)

lemma ensure_mps_fuel [simp]: "ensure_mps (rounds d m) p = ensure_mps d p"
  by (simp add: ensure_mps_def cong: if_cong)

text \<open>Enough rounds for the limit of the task.\<close>

lemma run_in_container_rounds:
  assumes "ticking clk d" "0 < et_pause task" "et_limit task < et_pause task * int n"
  shows "run_in_container (rounds d (Suc (n + k))) task name = run_in_container (rounds d (Suc n)) task name"
proof -
  have "op_bind (dk_now d) (\<lambda>now. await_exec d task i (add_dur now (et_limit task)) (Suc (n + k)))
      = op_bind (dk_now d) (\<lambda>now. await_exec d task i (add_dur now (et_limit task)) (Suc n))" for i
  proof (rule ext)
    fix e
    obtain t e' where t: "dk_now d e = (t, e')" by (cases "dk_now d e")
    have "instant t \<le> clk e'" using assms(1) t unfolding ticking_def by blast
    then have "instant (add_dur t (et_limit task)) < clk e' + et_pause task * int n"
      using assms(3) by (simp add: add_dur_def)
    from await_exec_rounds [OF assms(1,2) this] t show "op_bind (dk_now d) (\<lambda>now. await_exec d task i (add_dur now (et_limit task)) (Suc (n + k))) e
      = op_bind (dk_now d) (\<lambda>now. await_exec d task i (add_dur now (et_limit task)) (Suc n)) e"
      by (simp only: op_bind_def prod.case)
  qed
  then show ?thesis by (simp add: run_in_container_def del: await_exec.simps)
qed


lemma await_port_ticks:
  assumes "ticking clk d"
  shows "await_port d c port h deadline n e = (None, e') \<Longrightarrow> clk e \<le> clk e'"
proof (induction n arbitrary: e)
  case (Suc n)
  obtain b e1 where r: "probe d port h e = (b, e1)" by (cases "probe d port h e")
  obtain t e2 where t: "dk_now d e1 = (t, e2)" by (cases "dk_now d e1")
  obtain w e3 where w: "dk_wait d 250000000 e2 = (w, e3)" by (cases "dk_wait d 250000000 e2")
  have b: "clk e \<le> clk e1" using probe_ticks [OF assms(1), of e port h] r by simp
  have n: "clk e1 \<le> clk e2" using assms(1) t unfolding ticking_def by (meson order_trans)
  have v: "w = None \<Longrightarrow> clk e2 + 250000000 \<le> clk e3" using assms(1) w unfolding ticking_def by blast
  show ?case
  proof (cases b)
    case True
    with Suc.prems r b show ?thesis by (simp add: op_bind_def op_return_def)
  next
    case False
    with Suc.prems r t w have "w = None" "await_port d c port h deadline n e3 = (None, e')"
      by (auto simp: try_err_def op_bind_def op_return_def split: if_splits option.splits)
    with Suc.IH [of e3] v b n show ?thesis by simp
  qed
qed (simp add: op_return_def)

lemma await_ports_rounds:
  assumes "ticking clk d"
  shows "instant deadline < clk e + 250000000 * int n \<Longrightarrow>
    await_ports (rounds d (Suc (n + k))) c m deadline ports e = await_ports (rounds d (Suc n)) c m deadline ports e"
proof (induction ports arbitrary: e)
  case (Cons port ports)
  show ?case
  proof (cases "service_port c port \<and> port_bindings m port \<noteq> []")
    case True
    then obtain b bs where b: "port_bindings m port = b # bs" by (cases "port_bindings m port") auto
    obtain r e' where r: "await_port d c port b deadline (Suc n) e = (r, e')" by (cases "await_port d c port b deadline (Suc n) e")
    have "r = None \<Longrightarrow> instant deadline < clk e' + 250000000 * int n"
      using await_port_ticks [OF assms] r Cons.prems by fastforce
    with Cons.IH [of e'] r await_port_rounds [OF assms Cons.prems] True b show ?thesis
      by (cases r) (simp_all add: try_err_def op_bind_def op_return_def del: await_port.simps)
  next
    case False
    with Cons show ?thesis by (auto split: list.split simp del: await_port.simps)
  qed
qed simp

definition enough_rounds :: nat where
  "enough_rounds = 452"

lemma task_rounds:
  assumes "ticking clk d" "task = conda_task s \<or> task = annotation_task s"
  shows "run_in_container (rounds d (enough_rounds + k)) task name = run_in_container (rounds d enough_rounds) task name"
  using run_in_container_rounds [OF assms(1), of task "enough_rounds - 1" k name] assms(2)
  by (auto simp: enough_rounds_def conda_task_def annotation_task_def second_ns_def)

lemma wait_ready_rounds:
  assumes "ticking clk d"
  shows "wait_ready (rounds d (enough_rounds + k)) c = wait_ready (rounds d enough_rounds) c"
proof -
  have "op_bind (dk_now d) (\<lambda>now. await_ports (rounds d (enough_rounds + k)) c m (add_dur now (40 * second_ns)) ps)
      = op_bind (dk_now d) (\<lambda>now. await_ports (rounds d enough_rounds) c m (add_dur now (40 * second_ns)) ps)" for m ps
  proof (rule ext)
    fix e
    obtain t e' where t: "dk_now d e = (t, e')" by (cases "dk_now d e")
    have "instant t \<le> clk e'" using assms(1) t unfolding ticking_def by blast
    then have "instant (add_dur t (40 * second_ns)) < clk e' + 250000000 * int (enough_rounds - 1)"
      by (simp add: add_dur_def second_ns_def enough_rounds_def)
    from await_ports_rounds [OF assms this, of k c m ps] t
    show "op_bind (dk_now d) (\<lambda>now. await_ports (rounds d (enough_rounds + k)) c m (add_dur now (40 * second_ns)) ps) e
      = op_bind (dk_now d) (\<lambda>now. await_ports (rounds d enough_rounds) c m (add_dur now (40 * second_ns)) ps) e"
      by (simp add: op_bind_def enough_rounds_def)
  qed
  then show ?thesis by (simp add: wait_ready_def del: await_ports.simps cong: option.case_cong)
qed

lemma start_fuel:
  assumes "ticking clk d"
  shows "docker_start_pair (rounds d (enough_rounds + k)) conda annotation p = docker_start_pair (rounds d enough_rounds) conda annotation p"
proof -
  have conda: "install_conda (rounds d (enough_rounds + k)) conda started cs x = install_conda (rounds d enough_rounds) conda started cs x" for started cs x
    by (induction cs) (simp_all add: task_rounds [OF assms disjI1 [OF refl]] cong: if_cong)
  have ready: "make_ready (rounds d (enough_rounds + k)) annotation started cs x = make_ready (rounds d enough_rounds) annotation started cs x" for started cs x
    by (induction cs) (simp_all add: task_rounds [OF assms disjI2 [OF refl]] wait_ready_rounds [OF assms] cong: if_cong)
  have start: "start_missing (rounds d m) running started cs x = start_missing d running started cs x" for m running started cs x
    by (induction cs arbitrary: started) (simp_all cong: if_cong)
  show ?thesis by (simp add: docker_start_pair_def start conda ready cong: option.case_cong)
qed

end
