(* ===== verification/DockerClaims.thy ===== *)
theory DockerClaims
  imports DockerWait
begin

text \<open>
  What the Docker executor promises, as properties, each for any Docker daemon, and a daemon to run
  them on: \<open>still_docker\<close> answers every inspection and every start the same way, and its clock only
  moves when the executor waits.
\<close>

section \<open>Events of a run\<close>

definition docker_events :: "('e \<times> docker_event list, 'r) op \<Rightarrow> 'e \<Rightarrow> docker_event list" where
  "docker_events m e = snd (snd (m (e, [])))"

fun touches :: "string \<Rightarrow> docker_event \<Rightarrow> bool" where
  "touches n (DStart m r) = (m = n)"
| "touches n (DStop m r) = (m = n)"
| "touches n (DRemove f m r) = (m = n)"
| "touches n (DExec m) = (m = n)"
| "touches n ev = False"

abbreviation operations :: "'e executor \<Rightarrow> (environment_payload \<Rightarrow> ('e, pair_result) res_op) set" where
  "operations ex \<equiv> insert (inspect_pair ex) (changes ex)"

lemma auth_operations: "f \<in> operations (docker_executor (logged_docker d) conda annotation) \<Longrightarrow> auth p K (f p) any"
  by (auto simp: docker_executor_def intro: auth_inspect_pair auth_create_pair auth_start_pair auth_stop_pair
      auth_restore_pair auth_delete_pair)

lemma auth_unsound: "\<not> snd (foldl (auth_step p) (K, False) t)"
proof (induction t arbitrary: K)
  case (Cons ev t)
  have "\<exists>K'. auth_step p (K, False) ev = (K', False)"
    by (cases "(p, (K, False), ev)" rule: auth_step.cases) auto
  with Cons show ?case by auto
qed simp

lemma auth_touches: "touches n ev \<Longrightarrow> auth_step p (K, ok) ev = (K, ok \<and> n \<in> K)"
  by (cases ev) auto

lemma auth_origin:
  "n \<in> fst (foldl (auth_step p) s u) \<Longrightarrow> n \<in> fst s \<or>
   (\<exists>i c. DInspect n (Inr i) \<in> set u \<and> c \<in> set (ev_components p) \<and> ec_container_name c = n \<and> owned (ev_environment_id p) c i) \<or>
   (\<exists>c h. DCreate n c h None \<in> set u)"
proof (induction u rule: rev_induct)
  case (snoc ev u)
  obtain K ok where s: "foldl (auth_step p) s u = (K, ok)" by (cases "foldl (auth_step p) s u")
  show ?case
  proof (cases "n \<in> K")
    case True
    with snoc s show ?thesis by auto
  next
    case False
    with snoc.prems s have "n \<in> fst (auth_step p (K, ok) ev)" by simp
    with False show ?thesis
      by (cases "(p, (K, ok), ev)" rule: auth_step.cases) (auto split: if_splits)
  qed
qed simp

lemma auth_touched:
  assumes "auth p {} m R" "docker_events m e = u @ ev # v" "touches n ev"
  shows "n \<in> fst (foldl (auth_step p) ({}, True) u)"
proof -
  obtain K ok where s: "foldl (auth_step p) ({}, True) u = (K, ok)" by (cases "foldl (auth_step p) ({}, True) u")
  have "snd (foldl (auth_step p) ({}, True) (u @ ev # v))"
    using monitored_run [OF assms(1) [unfolded auth_def], of e] assms(2) by (simp add: docker_events_def)
  with s auth_touches [OF assms(3)] auth_unsound [of p K v] show ?thesis by (cases "ok \<and> n \<in> K") auto
qed

text \<open>
  C6. Whatever the Docker daemon answers, no operation of the executor starts, stops or removes a
  container, or runs a command in one, unless earlier in the same operation an inspection of it showed
  the labels of this environment and of a component of the payload, or the operation itself created
  it. Containers that are not the agent's are not touched.
\<close>

theorem docker_touches_owned_only:
  assumes "f \<in> operations (docker_executor (logged_docker d) conda annotation)"
    "docker_events (f p) e = u @ ev # v" "touches n ev"
  shows "(\<exists>i c. DInspect n (Inr i) \<in> set u \<and> c \<in> set (ev_components p) \<and> ec_container_name c = n \<and>
      owned (ev_environment_id p) c i) \<or> (\<exists>c h. DCreate n c h None \<in> set u)"
  using auth_origin [OF auth_touched [OF auth_operations [OF assms(1)] assms(2,3)]] by simp

section \<open>A daemon to run\<close>

definition still_docker :: "goerr + inspection \<Rightarrow> goerr option \<Rightarrow> int docker" where
  "still_docker found start =
     \<lparr>dk_inspect = (\<lambda>n t. (found, t)), dk_create = (\<lambda>c h n t. (None, t)), dk_start = (\<lambda>n t. (start, t)),
      dk_stop = (\<lambda>n t. (None, t)), dk_remove = (\<lambda>f n t. (None, t)),
      dk_exec_create = (\<lambda>n c t. (Inr ''x'', t)), dk_exec_start = (\<lambda>i t. (None, t)),
      dk_exec_inspect = (\<lambda>i t. (Inr (False, 0), t)), dk_not_found = (\<lambda>x. False),
      dk_lstat = (\<lambda>t. (\<lambda>p. LstatMissing, t)), dk_mkdir = (\<lambda>p t. (None, t)), dk_chmod = (\<lambda>p t. (None, t)),
      dk_stat_regular = (\<lambda>p t. (Inr True, t)), dk_now = (\<lambda>t. (\<lparr>instant = t, utc_loc = True\<rparr>, t)),
      dk_wait = (\<lambda>n t. (None, t + n)), dk_dial = (\<lambda>a t. (None, t)), dk_get = (\<lambda>u t. (Inr 200, t)), dk_mps = None,
      dk_new_port = (\<lambda>proto port. Inr (port @ ''/'' @ proto)), dk_validator = school, dk_rounds = enough_rounds\<rparr>"

definition editor_inspection :: "bool \<Rightarrow> inspection" where
  "editor_inspection running =
     \<lparr>in_labels = Some [(''com.xkp.managed'', ''true''), (''com.xkp.environment.id'', ''e1''),
        (''com.xkp.component.type'', ''EDITOR''), (''com.xkp.config.fingerprint'', replicate 64 (CHR ''0''))],
      in_running = running, in_ports = None\<rparr>"

lemma editor_identical: "c \<in> set (ev_components editor_payload) \<Longrightarrow> identical (ev_environment_id editor_payload) c (editor_inspection running)"
  by (simp add: identical_def owned_def lookup_def editor_payload_def editor_inspection_def label_managed_def
      label_environment_def label_component_def label_fingerprint_def)

lemma still_docker_simps [simp]:
  "dk_inspect (still_docker found start) n t = (found, t)" "dk_create (still_docker found start) c h n t = (None, t)"
  "dk_start (still_docker found start) n t = (start, t)" "dk_stop (still_docker found start) n t = (None, t)"
  "dk_remove (still_docker found start) f n t = (None, t)" "dk_not_found (still_docker found start) x = False"
  "dk_lstat (still_docker found start) t = (\<lambda>p. LstatMissing, t)" "dk_mkdir (still_docker found start) p t = (None, t)"
  "dk_chmod (still_docker found start) p t = (None, t)" "dk_stat_regular (still_docker found start) p t = (Inr True, t)"
  "dk_now (still_docker found start) t = (\<lparr>instant = t, utc_loc = True\<rparr>, t)" "dk_wait (still_docker found start) w t = (None, t + w)"
  "dk_dial (still_docker found start) a t = (None, t)" "dk_get (still_docker found start) u t = (Inr 200, t)"
  "dk_mps (still_docker found start) = None" "dk_new_port (still_docker found start) proto port = Inr (port @ ''/'' @ proto)"
  "dk_validator (still_docker found start) = school" "dk_rounds (still_docker found start) = enough_rounds"
  by (simp_all add: still_docker_def)

definition the_editor :: environment_component where
  "the_editor = hd (ev_components editor_payload)"

lemma the_editor_simps:
  "ev_components editor_payload = [the_editor]" "ec_container_name the_editor = ''ed1''"
  "ec_component_type the_editor = ''EDITOR''" "\<not> ec_mps_enabled the_editor" "ev_environment_id editor_payload = ''e1''"
  by (simp_all add: the_editor_def editor_payload_def)

lemma inspect_editor:
  "inspect_component (logged_docker (still_docker (Inr (editor_inspection running)) start)) ''e1'' the_editor (t, tr) =
     (Inr (running, True), (t, tr @ [DInspect ''ed1'' (Inr (editor_inspection running))]))"
  using editor_identical [of the_editor running]
  by (simp add: inspect_component_def inspect_with_def op_bind_def op_return_def log_op_def
      the_editor_simps editor_inspection_def)

lemma stop_editor_events:
  "docker_events (docker_stop_pair (logged_docker (still_docker (Inr (editor_inspection True)) None)) editor_payload) 0 =
     [DInspect ''ed1'' (Inr (editor_inspection True)), DStop ''ed1'' None, DInspect ''ed1'' (Inr (editor_inspection True))]"
  by (simp add: docker_events_def docker_stop_pair_def validate_control_def editor_identity the_editor_simps
      need_op_def undo_op_def op_bind_def inspect_editor docker_inspect_payload_def op_return_def log_op_def)

theorem docker_touches_owned_only_witness:
  "\<exists>i. DInspect ''ed1'' (Inr i) \<in> set (docker_events (docker_stop_pair (logged_docker (still_docker (Inr (editor_inspection True)) None)) editor_payload) 0)"
  using docker_touches_owned_only [of "docker_stop_pair (logged_docker (still_docker (Inr (editor_inspection True)) None))"
      "still_docker (Inr (editor_inspection True)) None" "[]" "[]" editor_payload 0
      "[DInspect ''ed1'' (Inr (editor_inspection True))]" "DStop ''ed1'' None" "[DInspect ''ed1'' (Inr (editor_inspection True))]" "''ed1''"]
  by (auto simp: stop_editor_events docker_executor_def)

section \<open>Compensation\<close>

lemma start_stays: "n \<in> S \<Longrightarrow> n \<notin> foldl start_step S v \<Longrightarrow> \<exists>r. DStop n r \<in> set v"
proof (induction v arbitrary: S)
  case (Cons ev v)
  show ?case
  proof (cases "n \<in> start_step S ev")
    case True
    with Cons show ?thesis by fastforce
  next
    case False
    with Cons.prems(1) show ?thesis by (cases ev) (auto split: if_splits)
  qed
qed simp

lemma create_stays: "n \<in> S \<Longrightarrow> n \<notin> foldl create_step S v \<Longrightarrow> \<exists>r. DRemove True n r \<in> set v"
proof (induction v arbitrary: S)
  case (Cons ev v)
  show ?case
  proof (cases "n \<in> create_step S ev")
    case True
    with Cons show ?thesis by fastforce
  next
    case False
    with Cons.prems(1) show ?thesis by (cases ev) (auto split: if_splits)
  qed
qed simp

text \<open>
  C7. A start that returns an error leaves no container running that it started itself: whichever
  step failed (a start, the Conda command, the readiness probes, the annotation command), every
  container the operation started is stopped again before it returns.
\<close>

theorem failed_start_stops_what_it_started:
  assumes "fst (docker_start_pair (logged_docker d) conda annotation p (e, [])) = Inl x"
    "docker_events (docker_start_pair (logged_docker d) conda annotation p) e = u @ DStart n None # v"
  shows "\<exists>r. DStop n r \<in> set v"
proof (rule start_stays)
  show "n \<in> start_step (foldl start_step {} u) (DStart n None)" by simp
  show "n \<notin> foldl start_step (start_step (foldl start_step {} u) (DStart n None)) v"
    using monitored_run [OF balanced_start_pair, of d conda annotation p e] assms by (simp add: docker_events_def)
qed

text \<open>A service that never answers, and a context that ends while the executor waits for it.\<close>

definition silent_service :: "int docker" where
  "silent_service = (still_docker (Inr ((editor_inspection False)\<lparr>in_ports := Some [(int_str 8888 @ ''/tcp'', [''30001''])]\<rparr>)) None)
     \<lparr>dk_get := (\<lambda>u t. (Inl ContextCanceled, t)), dk_wait := (\<lambda>n t. (Some ContextCanceled, t))\<rparr>"

definition silent_editor :: inspection where
  "silent_editor = (editor_inspection False)\<lparr>in_ports := Some [(int_str 8888 @ ''/tcp'', [''30001''])]\<rparr>"

lemma silent_service_simps [simp]:
  "dk_inspect silent_service n t = (Inr silent_editor, t)" "dk_start silent_service n t = (None, t)"
  "dk_stop silent_service n t = (None, t)" "dk_rounds silent_service = Suc 451"
  "dk_now silent_service t = (\<lparr>instant = t, utc_loc = True\<rparr>, t)" "dk_wait silent_service w t = (Some ContextCanceled, t)"
  "dk_get silent_service u t = (Inl ContextCanceled, t)" "dk_mps silent_service = None"
  by (simp_all add: silent_service_def silent_editor_def enough_rounds_def)

theorem failed_start_stops_what_it_started_witness:
  "\<exists>r. DStop ''ed1'' r \<in> set (docker_events (docker_start_pair (logged_docker silent_service) [] [] editor_payload) 0)"
proof -
  have ports: "in_ports silent_editor = Some [(int_str 8888 @ ''/tcp'', [''30001''])]" "\<not> in_running silent_editor"
    by (simp_all add: silent_editor_def editor_inspection_def)
  have "identical ''e1'' the_editor silent_editor"
    using editor_identical [of the_editor False] by (simp add: silent_editor_def identical_def owned_def the_editor_simps)
  then have inspect: "inspect_component (logged_docker silent_service) ''e1'' the_editor (t, tr) =
     (Inr (False, True), (t, tr @ [DInspect ''ed1'' (Inr silent_editor)]))" for t tr
    by (simp add: inspect_component_def inspect_with_def op_bind_def op_return_def log_op_def the_editor_simps ports)
  have binding: "port_bindings [(int_str 8888 @ ''/tcp'', [''30001''])] 8888 = [''30001'']" "port_bindings [(int_str 8888 @ ''/tcp'', [''30001''])] 9090 = []"
    by (simp_all add: port_bindings_def int_str_inj)
  have get: "probe (logged_docker silent_service) 8888 h (t, tr) = (False, (t, tr @ [DOther]))" for h t tr
    by (simp add: probe_def op_bind_def log_op_def op_return_def)
  have port: "await_port (logged_docker silent_service) c 8888 h \<lparr>instant = 40000000000, utc_loc = True\<rparr> (Suc n) (0, tr) =
      (Some ContextCanceled, (0, tr @ [DOther, DOther, DOther]))" for c h n tr
    by (simp add: op_bind_def get log_op_def op_return_def after_def try_err_def same_def)
  have port: "await_port (logged_docker silent_service) c 8888 h \<lparr>instant = 40000000000, utc_loc = True\<rparr> 452 (0, tr) =
      (Some ContextCanceled, (0, tr @ [DOther, DOther, DOther]))" for c h tr
    using port [of c h 451 tr] by (simp del: await_port.simps)
  have ready: "wait_ready (logged_docker silent_service) the_editor (0, tr) =
      (Some ContextCanceled, (0, tr @ [DInspect ''ed1'' (Inr silent_editor), DOther, DOther, DOther, DOther]))" for tr
    by (simp add: wait_ready_def try_res_def try_err_def op_bind_def log_op_def op_return_def port service_port_def the_editor_simps
      ports binding add_dur_def second_ns_def same_def del: await_port.simps)
  have run: "docker_start_pair (logged_docker silent_service) [] [] editor_payload (0, []) =
      (Inl ContextCanceled, (0, [DInspect ''ed1'' (Inr silent_editor), DStart ''ed1'' None, DInspect ''ed1'' (Inr silent_editor),
         DOther, DOther, DOther, DOther, DStop ''ed1'' None]))"
    by (simp add: docker_start_pair_def validate_control_def editor_identity the_editor_simps ensure_mps_def
      need_op_def undo_op_def op_bind_def inspect op_return_def log_op_def
      ready same_def compensate_stop_def)
  from failed_start_stops_what_it_started [of silent_service "[]" "[]" editor_payload 0 ContextCanceled
      "[DInspect ''ed1'' (Inr silent_editor)]" "''ed1''" "[DInspect ''ed1'' (Inr silent_editor), DOther, DOther, DOther, DOther, DStop ''ed1'' None]"]
  show ?thesis by (simp add: docker_events_def run)
qed

text \<open>
  A create that returns an error leaves no container behind that it created itself: every one is
  removed, by force, before the operation returns.
\<close>

theorem failed_create_removes_what_it_created:
  assumes "fst (docker_create_pair (logged_docker d) p (e, [])) = Inl x"
    "docker_events (docker_create_pair (logged_docker d) p) e = u @ DCreate n c h None # v"
  shows "\<exists>r. DRemove True n r \<in> set v"
proof (rule create_stays)
  show "n \<in> create_step (foldl create_step {} u) (DCreate n c h None)" by simp
  show "n \<notin> foldl create_step (create_step (foldl create_step {} u) (DCreate n c h None)) v"
    using monitored_run [OF balanced_create_pair, of d p e] assms by (simp add: docker_events_def)
qed


text \<open>A payload of both components, and a daemon whose TLS certificate is not a regular file.\<close>

definition pair_payload :: environment_payload where
  "pair_payload = editor_payload\<lparr>ev_components :=
     [the_editor\<lparr>ec_component_type := ''ANNOTATION'', ec_container_name := ''an1'', ec_runtime_name := ''sysbox-runc'',
        ec_mount_target := ''/root/data'', ec_ports := [\<lparr>ep_container_port = 8080, ep_host_port = 30000, ep_protocol = ''tcp''\<rparr>]\<rparr>,
      the_editor]\<rparr>"

definition no_certificate :: "int docker" where
  "no_certificate = (still_docker (Inl (Plain ''No such container'')) None)\<lparr>dk_stat_regular := (\<lambda>p t. (Inr False, t))\<rparr>"

lemma pair_valid: "validate_create school (\<lambda>p. LstatMissing) pair_payload = Inr ''/srv/school/class''"
proof -
  have "validate_pair_identity pair_payload = None"
    by (simp add: pair_payload_def the_editor_def validate_pair_identity_def editor_payload_def container_name_iff fingerprint_iff
      byte_class_defs list_all_iff del: rx_match.simps)
  moreover have "check_creates [] (ev_components pair_payload) = None"
    by (simp add: pair_payload_def the_editor_def editor_payload_def check_create_def image_iff_pattern byte_class_defs cpu_invalid_def memory_invalid_def
      gpu_limit_invalid_def port_valid_def working_directory_invalid_def port_key_def int_str_inj del: rx_match.simps)
  ultimately show ?thesis
    using editor_workspace by (simp add: validate_create_def) (simp add: pair_payload_def editor_payload_def)
qed

lemma no_certificate_simps [simp]:
  "dk_inspect no_certificate n t = (Inl (Plain ''No such container''), t)" "dk_create no_certificate c h n t = (None, t)"
  "dk_remove no_certificate f n t = (None, t)" "dk_not_found no_certificate x = False"
  "dk_lstat no_certificate t = (\<lambda>p. LstatMissing, t)" "dk_mkdir no_certificate p t = (None, t)"
  "dk_chmod no_certificate p t = (None, t)" "dk_stat_regular no_certificate p t = (Inr False, t)"
  "dk_mps no_certificate = None" "dk_new_port no_certificate proto port = Inr (port @ ''/'' @ proto)"
  "dk_validator no_certificate = school"
  by (simp_all add: no_certificate_def)

lemma pair_simps:
  "ev_environment_id pair_payload = ''e1''"
  "ev_components pair_payload = [the_editor\<lparr>ec_component_type := ''ANNOTATION'', ec_container_name := ''an1'', ec_runtime_name := ''sysbox-runc'',
        ec_mount_target := ''/root/data'', ec_ports := [\<lparr>ep_container_port = 8080, ep_host_port = 30000, ep_protocol = ''tcp''\<rparr>]\<rparr>,
      the_editor]"
  by (simp_all add: pair_payload_def editor_payload_def)

theorem failed_create_removes_what_it_created_witness:
  "\<exists>r. DRemove True ''an1'' r \<in> set (docker_events (docker_create_pair (logged_docker no_certificate) pair_payload) 0)"
proof -
  let ?missing = "Inl (Plain ''No such container'') :: goerr + inspection"
  have inspect: "inspect_component (logged_docker no_certificate) env c (t, tr) =
     (Inr (False, False), (t, tr @ [DInspect (ec_container_name c) ?missing]))" for env c t tr
    by (simp add: inspect_component_def inspect_with_def op_bind_def op_return_def log_op_def missing_container_def)
  have found: "find_missing (logged_docker no_certificate) ''e1'' (ev_components pair_payload) [] (t, tr) =
     (Inr (ev_components pair_payload), (t, tr @ [DInspect ''an1'' ?missing, DInspect ''ed1'' ?missing]))" for t tr
    by (simp add: pair_simps need_op_def op_bind_def inspect op_return_def the_editor_simps)
  let ?config = "docker_configs (logged_docker no_certificate) ''e1'' ''/srv/school/class''"
  have "\<exists>c h. \<forall>t tr. ?config (hd (ev_components pair_payload)) [] (t, tr) = (Inr (c, h), (t, tr))"
    by (simp add: docker_configs_def pair_simps op_return_def Let_def)
  then obtain c h where annotation: "?config (hd (ev_components pair_payload)) [] (t, tr) = (Inr (c, h), (t, tr))" for t tr
    by blast
  have editor: "?config the_editor [] (t, tr) = (Inl (Plain ''code-cert.pem must be a regular file''), (t, tr @ [DOther]))" for t tr
  proof -
    have "\<exists>ps. port_maps (dk_new_port (logged_docker no_certificate)) (ec_ports the_editor) [] = Inr ps"
      by (simp add: the_editor_def editor_payload_def)
    then obtain ps where "port_maps (dk_new_port (logged_docker no_certificate)) (ec_ports the_editor) [] = Inr ps" ..
    moreover have "check_tls_files (logged_docker no_certificate) dir [''code-cert.pem'', n] (t, tr) =
        (Inl (Plain ''code-cert.pem must be a regular file''), (t, tr @ [DOther]))" for dir n
      by (simp add: need_op_def op_bind_def log_op_def op_return_def)
    ultimately show ?thesis
      by (simp add: docker_configs_def Let_def the_editor_simps need_op_def op_bind_def op_return_def same_def
          del: check_tls_files.simps logged_docker_simps)
  qed
  have create: "create_missing (logged_docker no_certificate) pair_payload ''/srv/school/class'' [] [] (ev_components pair_payload) (0, tr) =
      (Inl (Plain ''code-cert.pem must be a regular file''), (0, tr @ [DCreate ''an1'' c h None, DOther, DRemove True ''an1'' None]))" for tr
    using annotation editor
    by (simp add: pair_simps undo_op_def op_bind_def op_return_def log_op_def compensate_remove_def the_editor_simps)
  have "\<not> list_ex ec_mps_enabled (ev_components pair_payload)" by (simp add: pair_simps the_editor_simps)
  then have run: "docker_create_pair (logged_docker no_certificate) pair_payload (0, []) =
      (Inl (Plain ''code-cert.pem must be a regular file''), (0, [DOther, DOther, DOther, DInspect ''an1'' ?missing, DInspect ''ed1'' ?missing,
         DCreate ''an1'' c h None, DOther, DRemove True ''an1'' None]))"
    by (simp add: docker_create_pair_def create_in_def check_op_def need_op_def undo_op_def op_bind_def log_op_def op_return_def
        pair_valid ensure_mps_def found [folded pair_simps(1)] create)
  from failed_create_removes_what_it_created [of no_certificate pair_payload 0 "Plain ''code-cert.pem must be a regular file''"
      "[DOther, DOther, DOther, DInspect ''an1'' ?missing, DInspect ''ed1'' ?missing]" "''an1''" c h "[DOther, DRemove True ''an1'' None]"]
  show ?thesis by (simp add: docker_events_def run)
qed

section \<open>The start ends\<close>

text \<open>
  C8. Starting a pair ends. On a clock that advances by the time it waits, the loops that poll the Conda
  command (10 s every 100 ms), the ports (40 s every 250 ms) and the annotation command (90 s every
  200 ms) are over after 452 rounds each: with more the operation does exactly the same. So the
  operation returns, with a result that does not depend on a bound, whatever Docker and the services
  answer.
\<close>

theorem docker_start_ends:
  assumes "ticking clk d"
  shows "docker_start_pair (d\<lparr>dk_rounds := enough_rounds + k\<rparr>) conda annotation p =
    docker_start_pair (d\<lparr>dk_rounds := enough_rounds\<rparr>) conda annotation p"
  by (rule start_fuel [OF assms])

theorem docker_start_ends_witness:
  "docker_start_pair ((still_docker (Inr (editor_inspection False)) None)\<lparr>dk_rounds := enough_rounds + 1000\<rparr>) [] [] editor_payload =
    docker_start_pair ((still_docker (Inr (editor_inspection False)) None)\<lparr>dk_rounds := enough_rounds\<rparr>) [] [] editor_payload"
proof -
  have "ticking (\<lambda>t. t) (still_docker (Inr (editor_inspection False)) None)"
    by (simp add: ticking_def) (simp add: still_docker_def)
  from docker_start_ends [OF this] show ?thesis .
qed

section \<open>Configurations\<close>








section \<open>An existing container that runs\<close>

text \<open>
  A create that finds every component in place does nothing to them and reports them as
  stopped, also those that an inspection has just shown to be running.
\<close>

theorem create_reports_running_as_stopped:
  "docker_create_pair (still_docker (Inr (editor_inspection True)) start) editor_payload t =
     (Inr (pair_with_state editor_payload state_stopped), t) \<and>
   docker_inspect_pair (still_docker (Inr (editor_inspection True)) start) editor_payload t =
     (Inr (pair_with_state editor_payload state_running), t)"
proof -
  let ?d = "still_docker (Inr (editor_inspection True)) start"
  have i: "inspect_component ?d ''e1'' the_editor t = (Inr (True, True), t)"
    using editor_identical [of the_editor True]
    by (simp add: inspect_component_def inspect_with_def op_bind_def op_return_def the_editor_simps editor_inspection_def)
  have v: "validate_create school (\<lambda>p. LstatMissing) editor_payload = Inr ''/srv/school/class''"
    using editor_workspace editor_identity editor_create by (simp add: validate_create_def) (simp add: editor_payload_def)
  show ?thesis
    using i v editor_identity
    by (simp add: docker_create_pair_def create_in_def check_op_def need_op_def op_bind_def op_return_def ensure_mps_def
        the_editor_simps docker_inspect_pair_def validate_control_def docker_inspect_payload_def pair_with_state_def)
qed

end
