(* ===== verification/ValidatorClaims.thy ===== *)
theory ValidatorClaims
  imports DockerClaims
begin

text \<open>
  The executors' validator as properties: where a workspace can lie, and how the checks made before
  Docker is touched compare with the checks the decoder made on the same payload.
\<close>

section \<open>Workspaces\<close>

text \<open>
  C10. A resolved workspace is an absolute path strictly below the configured root: the root's elements
  followed by at least one more, none of them \<open>..\<close>. And the walk from the root met no symbolic link:
  each element that was reached through existing directories is not one.
\<close>

theorem workspace_below_root:
  assumes "resolve_workspace v lstat relative = Inr w"
  shows "\<exists>es. es \<noteq> [] \<and> dotdot \<notin> set es \<and> is_abs w \<and> clean_elems w = clean_elems (v_workspace_root v) @ es \<and>
    (\<forall>k<length es. (\<forall>j<k. lstat (below (path_clean (v_workspace_root v)) (take (Suc j) es)) = LstatOther) \<longrightarrow>
       lstat (below (path_clean (v_workspace_root v)) (take (Suc k) es)) \<noteq> LstatSymlink)"
proof -
  from resolved_below [OF assms] obtain es where es: "es \<noteq> []" "\<forall>e\<in>set es. clean_elem e \<and> e \<noteq> dotdot" "is_abs w"
    "clean_elems w = clean_elems (v_workspace_root v) @ es" "walk_segments lstat (path_clean (v_workspace_root v)) es = None"
    by blast
  with walk_no_symlink [OF es(5)] show ?thesis by (intro exI [of _ es]) blast
qed

theorem workspace_below_root_witness:
  "is_abs ''/srv/school/class'' \<and> clean_elems ''/srv/school/class'' \<noteq> clean_elems ''/srv/school''"
  using workspace_below_root [OF editor_workspace] by (auto simp: school_def)

text \<open>
  The decoder and the executor disagree on one relative path: the decoder accepts a workspace that
  starts with \<open>..\<close>, and the executor refuses it, for every root.
\<close>

theorem parent_workspace_is_refused_late:
  "valid_relative_workspace ''../x'' \<and> (\<exists>e. resolve_workspace v lstat ''../x'' = Inl e)"
proof
  show "valid_relative_workspace ''../x''" by code_simp
  have "path_clean ''../x'' = ''../x''" "\<not> is_abs ''../x''" by code_simp+
  then show "\<exists>e. resolve_workspace v lstat ''../x'' = Inl e" by (simp add: resolve_workspace_def Let_def)
qed

section \<open>The validator refines the decoder\<close>

lemma star_class: "list_all p s \<Longrightarrow> s \<in> rx_lang (RxStar (RxCls p))"
proof (induction s)
  case (Cons c s)
  then show ?case using rx_star.star_app [of "[c]" "{[c] |c. p c}" s] by simp
qed (simp add: rx_star.star_nil)

lemma identity_component:
  assumes "identity_spec c"
  shows "valid_container_name (ec_container_name c) \<and> valid_fingerprint (ec_config_fingerprint c)"
proof
  let ?n = "ec_container_name c" and ?f = "ec_config_fingerprint c"
  from assms have n: "3 \<le> length ?n" "length ?n \<le> 128" "list_all (\<lambda>c. is_alnum c \<or> one_of ''_.-'' c) ?n"
    by (cases ?n; simp add: identity_spec_def container_name_iff del: rx_match.simps)+
  then have "x \<notin> set [CHR '' '', CHR ''/'', CHR 0x5C]" if "x \<in> set ?n" for x
    using that by (auto simp: list_all_iff byte_class_defs)
  then have "\<not> contains_any ?n [CHR '' '', CHR ''/'', CHR 0x5C]"
    unfolding contains_any_def list_ex_iff by blast
  with n show "valid_container_name ?n" by (simp add: valid_container_name_def)
  from assms have f: "length ?f = 64" "list_all is_hex ?f" by (simp_all add: identity_spec_def fingerprint_iff del: rx_match.simps)
  then have "?f \<in> rx_lang (rx_plus (RxCls is_hex))"
    using star_class [of is_hex "tl ?f"] unfolding rx_plus_def rx_cls_seq by (cases ?f) auto
  with f show "valid_fingerprint ?f" by (simp add: valid_fingerprint_def rx_match_lang)
qed

lemma check_create_component:
  assumes "check_create ports c = Inr ports'" "identity_spec c"
  shows "component_spec True c \<and> distinct (map port_key (ec_ports c)) \<and> set (map port_key (ec_ports c)) \<inter> set ports = {} \<and>
    ports' = rev (map port_key (ec_ports c)) @ ports"
proof -
  note chain = assms(1) [unfolded check_create_def guards check_ports_spec]
  have "ec_image_reference c \<noteq> []" using chain by (auto simp: image_iff_pattern simp del: rx_match.simps)
  moreover have "ec_cpu_limit_millis c = 0 \<or> ec_cpu_limit_millis c \<in> {100..128000}"
    "ec_memory_limit_bytes c = 0 \<or> ec_memory_limit_bytes c \<in> {128 * 2 ^ 20..512 * 2 ^ 30}"
    "ec_gpu_enabled c \<longrightarrow> ec_gpu_compute_percent c \<in> {0..100}"
    using chain by (auto simp: cpu_invalid_def memory_invalid_def gpu_limit_invalid_def)
  moreover have "(ec_runtime_name c, ec_mount_target c) =
       (if ec_component_type c = ''ANNOTATION'' then (''sysbox-runc'', ''/root/data'') else (''nvidia'', ''/home/student/data''))"
    using chain by (cases "ec_component_type c = ''ANNOTATION''") simp_all
  ultimately have "full_component_spec c" using chain by (auto simp: full_component_spec_def)
  then show ?thesis
    using chain assms(2) identity_component [OF assms(2)] by (auto simp: component_spec_def identity_spec_def)
qed

lemma check_creates_spec:
  "check_creates ports cs = None \<Longrightarrow> list_all identity_spec cs \<Longrightarrow>
     list_all (component_spec True) cs \<and> distinct (map port_key (all_ports cs)) \<and> set (map port_key (all_ports cs)) \<inter> set ports = {}"
proof (induction cs arbitrary: ports)
  case (Cons c cs)
  then obtain ports' where p: "check_create ports c = Inr ports'" "check_creates ports' cs = None" by (auto simp: guards)
  from check_create_component [OF p(1)] Cons.prems have c: "component_spec True c" "distinct (map port_key (ec_ports c))"
    "set (map port_key (ec_ports c)) \<inter> set ports = {}" "ports' = rev (map port_key (ec_ports c)) @ ports" by auto
  with Cons.IH [OF p(2)] Cons.prems show ?case by auto
qed simp

text \<open>
  C11. How the executors' validator and the decoder fit. Of a payload the validator accepts for a create, the decoder
  still asks three things, and no more: that the two identifiers are UUIDs, and that the workspace path has the form of
  a relative path in a request, neither of which the validator looks at. Everything else the decoder checks of a create,
  the components, their resources and their ports, the validator has checked itself.
\<close>

theorem validator_refines_decoder:
  assumes "validate_create v lstat p = Inr w" "is_full_type t"
  shows "validate_environment t p = None \<longleftrightarrow>
    is_uuid (ev_environment_id p) \<and> is_uuid (ev_operation_id p) \<and> valid_relative_workspace (ev_workspace_relative_path p)"
proof -
  have i: "validate_pair_identity p = None" "check_creates [] (ev_components p) = None"
    using assms(1) by (auto simp: validate_create_def guards)
  then have "list_all identity_spec (ev_components p)" by (simp add: validate_pair_identity_spec)
  from check_creates_spec [OF i(2) this] i(1) assms(2) show ?thesis
    by (auto simp: validate_environment_spec environment_spec_def validate_pair_identity_spec simp flip: port_key_distinct)
qed

definition identified_payload :: environment_payload where
  "identified_payload = editor_payload
     \<lparr>ev_environment_id := ''11111111-1111-4111-8111-111111111111'', ev_operation_id := ''22222222-2222-4222-8222-222222222222''\<rparr>"

theorem validator_refines_decoder_witness: "validate_environment RestoreTrainingEnvironment identified_payload = None"
proof -
  have u: "is_uuid ''11111111-1111-4111-8111-111111111111''" "is_uuid ''22222222-2222-4222-8222-222222222222''"
    "valid_relative_workspace ''class''" by code_simp+
  have f: "ev_components identified_payload = ev_components editor_payload" "ev_workspace_relative_path identified_payload = ''class''"
    "ev_environment_id identified_payload = ''11111111-1111-4111-8111-111111111111''"
    "ev_operation_id identified_payload = ''22222222-2222-4222-8222-222222222222''"
    by (simp_all add: identified_payload_def editor_payload_def)
  have "validate_pair_identity identified_payload = None"
    using editor_identity by (simp add: validate_pair_identity_def f guards)
  then have "validate_create school (\<lambda>p. LstatMissing) identified_payload = Inr ''/srv/school/class''"
    using editor_workspace editor_create by (simp add: validate_create_def f)
  from validator_refines_decoder [OF this, of RestoreTrainingEnvironment] u f show ?thesis by (simp add: is_full_type_def)
qed

end
