(* ===== verification/RecoveryPath.thy ===== *)
theory RecoveryPath
  imports Validator
begin

text \<open>
  The path checks of the recovery store (\<open>internal/terminal/recovery_store.go\<close>): \<open>splitPath\<close>, which takes a
  relative path apart from its end with \<open>filepath.Split\<close> and \<open>filepath.Clean\<close>, and
  \<open>rejectSymlinkedParents\<close>, which looks at every directory above the file. The loop of \<open>splitPath\<close> ends
  because cleaning a path that ends in a slash makes it shorter; its result is the list of elements of the
  path.
\<close>

section \<open>Cleaning makes a path no longer\<close>

definition weight :: "string list \<Rightarrow> nat" where
  "weight es = sum_list (map (\<lambda>e. length e + 1) es)"

definition proper :: "string list \<Rightarrow> string list" where
  "proper es = filter (\<lambda>e. e \<noteq> []) es"

lemma weight_simps [simp]: "weight [] = 0" "weight (e # es) = length e + 1 + weight es" "weight (es @ fs) = weight es + weight fs"
  "weight (rev es) = weight es"
  by (simp_all add: weight_def sum_list_rev flip: rev_map)

lemma clean_step_weight: "weight (clean_step rooted st e) \<le> weight st + weight (proper [e])"
  by (cases st) (auto simp: proper_def dotdot_def)

lemma clean_fold_weight: "weight (foldl (clean_step rooted) st es) \<le> weight st + weight (proper es)"
proof (induction es arbitrary: st)
  case (Cons e es)
  have "weight (foldl (clean_step rooted) (clean_step rooted st e) es) \<le> weight (clean_step rooted st e) + weight (proper es)"
    by (rule Cons.IH)
  also have "\<dots> \<le> weight st + weight (proper [e]) + weight (proper es)"
    using clean_step_weight by (rule add_right_mono)
  also have "\<dots> = weight st + weight (proper (e # es))" by (simp add: proper_def)
  finally show ?case by (simp del: clean_step.simps)
qed (simp add: proper_def)

lemma clean_elems_weight: "weight (clean_elems p) \<le> weight (proper (split_on (CHR ''/'') p))"
  using clean_fold_weight [of "is_abs p" "[]"] by (simp add: clean_elems_def)

lemma join_weight: "es \<noteq> [] \<Longrightarrow> length (join_slash es) + 1 = weight es"
  unfolding join_slash_def by (induction "''/''" es rule: join_with.induct) auto

lemma split_weight: "weight (split_on d p) = length p + 1"
  by (induction p) (auto split: list.splits)

lemma split_not_Nil: "split_on d p \<noteq> []"
  by (rule split_on_not_nil)

lemma split_first: "is_abs p \<Longrightarrow> \<exists>es. split_on (CHR ''/'') p = [] # es \<and> es \<noteq> []"
  using split_not_Nil by (cases p) (auto simp: is_abs_def split: if_splits)

lemma split_last: "split_on d (p @ [d]) = split_on d p @ [[]]"
  by (induction p) (auto split: list.splits)

lemma proper_weight: "weight (proper es) + length (filter (\<lambda>e. e = []) es) = weight es"
  by (induction es) (auto simp: proper_def)

lemma clean_shorter:
  assumes "path_clean (p @ ''/'') \<noteq> ''/''" "path_clean (p @ ''/'') \<noteq> dot"
  shows "length (path_clean (p @ ''/'')) \<le> length p"
proof -
  let ?p = "p @ ''/''" and ?es = "split_on (CHR ''/'') (p @ ''/'')"
  have ne: "clean_elems ?p \<noteq> []" using assms by (auto simp: path_clean_def join_slash_def split: if_splits)
  have w: "weight (clean_elems ?p) + length (filter (\<lambda>e. e = []) ?es) \<le> length p + 2"
    using clean_elems_weight [of ?p] proper_weight [of ?es] split_weight [of "CHR ''/''" ?p] by simp
  have j: "length (join_slash (clean_elems ?p)) + 1 = weight (clean_elems ?p)" by (rule join_weight [OF ne])
  show ?thesis
  proof (cases "is_abs ?p")
    case True
    then obtain es where "?es = [] # es" "es \<noteq> []" using split_first by blast
    moreover have "last ?es = []" by (simp add: split_last)
    ultimately have "length (filter (\<lambda>e. e = []) ?es) \<ge> 2"
      by (cases es rule: rev_cases) auto
    with w j True ne show ?thesis by (simp add: path_clean_def)
  next
    case False
    have "length (filter (\<lambda>e. e = []) ?es) \<ge> 1" by (simp add: split_last)
    with w j False ne show ?thesis by (simp add: path_clean_def)
  qed
qed

section \<open>splitPath\<close>

text \<open>\<open>filepath.Split\<close>: up to and including the last slash, and the rest.\<close>

definition split_dir :: "string \<Rightarrow> string" where
  "split_dir p = rev (dropWhile (\<lambda>c. c \<noteq> CHR ''/'') (rev p))"

definition split_base :: "string \<Rightarrow> string" where
  "split_base p = rev (takeWhile (\<lambda>c. c \<noteq> CHR ''/'') (rev p))"

lemma split_dir_cases: "split_dir p = [] \<or> (\<exists>q. split_dir p = q @ ''/'' \<and> length q < length p)"
proof (cases "dropWhile (\<lambda>c. c \<noteq> CHR ''/'') (rev p)")
  case (Cons c r)
  then have "c = CHR ''/''" using hd_dropWhile [of "\<lambda>c. c \<noteq> CHR ''/''" "rev p"] by simp
  moreover have "length (c # r) \<le> length p" using Cons length_dropWhile_le [of "\<lambda>c. c \<noteq> CHR ''/''" "rev p"] by simp
  ultimately show ?thesis using Cons by (simp add: split_dir_def)
qed (simp add: split_dir_def)

definition path_size :: "string \<Rightarrow> nat" where
  "path_size p = (if p = dot then 0 else length p)"

lemma split_smaller:
  assumes "p \<noteq> dot" "p \<noteq> []" "path_clean (split_dir p) \<noteq> ''/''"
  shows "path_size (path_clean (split_dir p)) < path_size p"
  using split_dir_cases [of p]
proof (elim disjE exE conjE)
  assume "split_dir p = []"
  with assms show ?thesis by (simp add: path_size_def path_clean_def)
next
  fix q assume q: "split_dir p = q @ ''/''" "length q < length p"
  with assms clean_shorter [of q] show ?thesis by (auto simp: path_size_def)
qed

function split_path :: "string \<Rightarrow> string list" where
  "split_path p =
     (if p = dot \<or> p = [] then []
      else (if path_clean (split_dir p) = ''/'' then [] else split_path (path_clean (split_dir p)))
           @ (if split_base p \<noteq> [] then [split_base p] else []))"
  by pat_completeness auto
termination by (relation "measure path_size") (auto simp: split_smaller)

declare split_path.simps [simp del]

lemma split_append_slash:
  assumes "CHR ''/'' \<notin> set e"
  shows "split_dir (d @ CHR ''/'' # e) = d @ ''/''" "split_base (d @ CHR ''/'' # e) = e"
    "split_dir e = []" "split_base e = e"
proof -
  have e: "\<forall>c\<in>set (rev e). c \<noteq> CHR ''/''" using assms by auto
  then have t: "takeWhile (\<lambda>c. c \<noteq> CHR ''/'') (rev e) = rev e" by (auto simp: takeWhile_eq_all_conv)
  show "split_dir (d @ CHR ''/'' # e) = d @ ''/''" "split_base (d @ CHR ''/'' # e) = e" "split_dir e = []"
    using e by (simp_all add: split_dir_def split_base_def dropWhile_append takeWhile_append)
  show "split_base e = e" by (simp only: split_base_def t rev_rev_ident)
qed

lemma join_slash_snoc: "es \<noteq> [] \<Longrightarrow> join_slash (es @ [e]) = join_slash es @ CHR ''/'' # e"
  unfolding join_slash_def by (induction "''/''" es rule: join_with.induct) auto

lemma clean_dir_elems:
  assumes "es \<noteq> []" "\<forall>e\<in>set es. clean_elem e \<and> e \<noteq> dotdot"
  shows "path_clean (join_slash es @ ''/'') = join_slash es"
proof -
  have na: "\<not> is_abs (join_slash es)" using join_slash_not_abs assms by blast
  have ne: "join_slash es \<noteq> []" using join_slash_hd [OF assms(1)] assms by (auto simp: clean_elem_def)
  have abs: "\<not> is_abs (join_slash es @ ''/'')" using na ne by (cases "join_slash es") (auto simp: is_abs_def)
  have "clean_elems (join_slash es @ ''/'') = es"
    using assms abs by (simp add: clean_elems_def split_last split_join_slash clean_fold_proper)
  with abs assms(1) show ?thesis by (simp add: path_clean_def)
qed

lemma join_not_dot:
  assumes "es \<noteq> []" "\<forall>e\<in>set es. clean_elem e \<and> e \<noteq> dotdot"
  shows "join_slash es \<noteq> dot \<and> join_slash es \<noteq> ''/'' \<and> join_slash es \<noteq> []"
proof -
  have split: "split_on (CHR ''/'') (join_slash es) = es" by (rule split_join_slash) (use assms in auto)
  have bad: "\<not> clean_elem dot" "\<not> clean_elem []" by (simp_all add: clean_elem_def)
  have "join_slash es = s \<Longrightarrow> split_on (CHR ''/'') s = es" for s using split by simp
  from this [of dot] this [of "''/''"] this [of "[]"] assms bad show ?thesis by (auto simp: dot_def)
qed

text \<open>The result of \<open>splitPath\<close> on a path of proper elements: the elements.\<close>

lemma split_path_elems:
  "\<forall>e\<in>set es. clean_elem e \<and> e \<noteq> dotdot \<Longrightarrow> split_path (if es = [] then dot else join_slash es) = es"
proof (induction es rule: rev_induct)
  case Nil
  show ?case by (simp add: split_path.simps)
next
  case (snoc e es)
  then have e: "CHR ''/'' \<notin> set e" "e \<noteq> []" "e \<noteq> dot" by (auto simp: clean_elem_def)
  show ?case
  proof (cases "es = []")
    case True
    with e show ?thesis
      by (simp add: split_path.simps [of e] split_append_slash join_slash_def path_clean_def) (simp add: dot_def split_path.simps)
  next
    case False
    let ?p = "join_slash es @ CHR ''/'' # e"
    from snoc.prems have es: "\<forall>e\<in>set es. clean_elem e \<and> e \<noteq> dotdot" by simp
    have p: "?p \<noteq> dot" "?p \<noteq> []" using join_not_dot [OF False es] by (auto simp: dot_def append_eq_Cons_conv)
    have "split_path ?p = split_path (join_slash es) @ [e]"
      using p e join_not_dot [OF False es]
      by (subst split_path.simps) (simp add: split_append_slash clean_dir_elems [OF False es])
    with snoc.IH es False show ?thesis by (simp add: join_slash_snoc)
  qed
qed

section \<open>rejectSymlinkedParents\<close>

text \<open>The answer of \<open>os.Lstat\<close>.\<close>

datatype path_kind = PathMissing | PathError goerr | PathDirectory | PathSymlink | PathOther

definition unsafe_path :: goerr where
  "unsafe_path = Plain ''terminal recovery path is unsafe''"

fun walk_parents :: "(string \<Rightarrow> path_kind) \<Rightarrow> string \<Rightarrow> string list \<Rightarrow> goerr option" where
  "walk_parents kind current [] = None"
| "walk_parents kind current (c # cs) =
     (case kind (path_join [current, c]) of
        PathMissing \<Rightarrow> None
      | PathError e \<Rightarrow> Some (wrap ''inspect terminal recovery parent: '' e)
      | PathDirectory \<Rightarrow> walk_parents kind (path_join [current, c]) cs
      | _ \<Rightarrow> Some unsafe_path)"

definition reject_symlinked_parents :: "(string \<Rightarrow> path_kind) \<Rightarrow> string \<Rightarrow> goerr option" where
  "reject_symlinked_parents kind path =
     (case path_rel ''/'' (path_dir path) of
        None \<Rightarrow> Some unsafe_path
      | Some relative \<Rightarrow>
          if escapes relative then Some unsafe_path else walk_parents kind ''/'' (split_path relative))"

lemma clean_dir_abs: "is_abs path \<Longrightarrow> is_abs (path_dir path)"
proof -
  assume "is_abs path"
  then obtain r where "path = CHR ''/'' # r" by (cases path) (auto simp: is_abs_def split: if_splits)
  then have "split_dir path \<noteq> [] \<and> hd (split_dir path) = CHR ''/''"
    by (cases "takeWhile (\<lambda>c. c \<noteq> CHR ''/'') (rev r) = rev r")
       (auto simp: split_dir_def dropWhile_append hd_append takeWhile_eq_all_conv)
  then have "is_abs (split_dir path)" by (cases "split_dir path") (auto simp: is_abs_def)
  then show ?thesis using clean_elems_clean by (auto simp: path_dir_def split_dir_def)
qed

lemma root_elems: "clean_elems ''/'' = []" "path_clean ''/'' = ''/''" "is_abs ''/''"
  by (simp_all add: clean_elems_def path_clean_def is_abs_def join_slash_def)

text \<open>\<open>rejectSymlinkedParents\<close> walks down the elements of the cleaned directory, from the root.\<close>

lemma reject_walks:
  assumes "is_abs path"
  shows "reject_symlinked_parents kind path = walk_parents kind ''/'' (clean_elems (path_dir path))"
proof -
  let ?d = "path_dir path"
  let ?es = "clean_elems ?d"
  have d: "is_abs ?d" using assms by (rule clean_dir_abs)
  have es: "\<forall>e\<in>set ?es. clean_elem e \<and> e \<noteq> dotdot" using clean_elems_elem clean_elems_abs [OF d] by blast
  have "path_rel ''/'' ?d = Some (if ?es = [] then dot else join_slash ?es)"
  proof (cases "?es = []")
    case True
    then have "path_clean ?d = ''/''" using d by (auto simp: path_clean_def join_slash_def is_abs_def)
    with True show ?thesis by (simp add: path_rel_def root_elems)
  next
    case False
    with rel_below [of "''/''" ?d ?es] d show ?thesis by (simp add: root_elems)
  qed
  moreover have "\<not> escapes (if ?es = [] then dot else join_slash ?es)"
    using es escapes_join [of ?es] hd_in_set [of ?es] by (auto simp: escapes_def dot_def dotdot_def)
  ultimately show ?thesis
    using split_path_elems [OF es] by (simp add: reject_symlinked_parents_def)
qed

lemma walk_parents_plain:
  assumes "walk_parents kind d es = None" "k < length es" "\<forall>j<k. kind (below d (take (Suc j) es)) = PathDirectory"
  shows "kind (below d (take (Suc k) es)) \<in> {PathDirectory, PathMissing}"
  using assms
proof (induction es arbitrary: d k)
  case (Cons e es)
  show ?case
  proof (cases k)
    case 0
    with Cons.prems show ?thesis by (auto simp: below_def split: path_kind.splits)
  next
    case (Suc k')
    have first: "kind (path_join [d, e]) = PathDirectory" using Cons.prems(3) Suc by (auto simp: below_def)
    with Cons.prems(1) have "walk_parents kind (path_join [d, e]) es = None" by simp
    moreover have "\<forall>j<k'. kind (below (path_join [d, e]) (take (Suc j) es)) = PathDirectory"
      using Cons.prems(3) Suc by (auto simp: below_def dest: spec [of _ "Suc _"])
    ultimately have "kind (below (path_join [d, e]) (take (Suc k') es)) \<in> {PathDirectory, PathMissing}"
      using Cons.IH Cons.prems(2) Suc by simp
    then show ?thesis by (simp add: Suc below_def)
  qed
qed simp

end
