(* ===== verification/GoTimeProps.thy ===== *)
theory GoTimeProps
  imports GoTime
begin

text \<open>
  The calendar is consistent: writing a time of whole seconds and reading it back gives the same time.
  \<open>year_of_day\<close> finds the year of a day (its estimate is off by at most one), \<open>month_day\<close> the month and
  the day, and a padded number reads back as itself.
\<close>

section \<open>Years\<close>

lemma div_pred:
  fixes z k :: int
  assumes "0 < k"
  shows "(z + 1) div k - z div k = (if (z + 1) mod k = 0 then 1 else 0)"
proof -
  let ?q = "(z + 1) div k" and ?r = "(z + 1) mod k"
  have z: "z = k * ?q + (?r - 1)" using mult_div_mod_eq [of k "z + 1"] by linarith
  have r: "0 \<le> ?r" "?r < k" using assms by simp_all
  show ?thesis
  proof (cases "?r = 0")
    case True
    have "z div k = ?q - 1"
    proof (rule int_div_pos_eq)
      show "z = k * (?q - 1) + (k - 1)" using z True by (simp only: right_diff_distrib)
    qed (use assms in simp_all)
    with True show ?thesis by simp
  next
    case False
    have "z div k = ?q"
      by (rule int_div_pos_eq [OF z]) (use r False in linarith)+
    with False show ?thesis by simp
  qed
qed

lemma leap_arith:
  fixes y :: int
  assumes "a' - a = (if p then 1 else 0)" "b' - b = (if q then 1 else 0)" "c' - c = (if r then 1 else 0)" "q \<Longrightarrow> p" "r \<Longrightarrow> q"
  shows "365 * y + a' - b' + c' - (365 * (y - 1) + a - b + c) = (if p \<and> (\<not> q \<or> r) then 366 else 365)"
  using assms by (auto split: if_splits)

lemma year_length: "days_before_year (y + 1) - days_before_year y = (if is_leap y then 366 else 365)"
proof -
  have dvd: "100 dvd y \<Longrightarrow> 4 dvd y" "400 dvd y \<Longrightarrow> 100 dvd y"
    using dvd_trans [of 4 100 y] dvd_trans [of 100 400 y] by simp_all
  have d: "y div k - (y - 1) div k = (if k dvd y then 1 else 0)" if "0 < k" for k
    using div_pred [OF that, of "y - 1"] by (simp add: mod_eq_0_iff_dvd)
  show ?thesis
    unfolding days_before_year_def is_leap_def mod_eq_0_iff_dvd add_diff_cancel_right'
    by (rule leap_arith) (use d dvd in auto)
qed

lemma div_bounds: "0 < k \<Longrightarrow> k * (z div k) \<le> z \<and> z \<le> k * (z div k) + (k - 1)" for z k :: int
  using mult_div_mod_eq [of k z] pos_mod_bound [of k z] pos_mod_sign [of k z] by linarith

lemma year_error:
  "146097 * z - 699 \<le> 400 * days_before_year (z + 1) \<and> 400 * days_before_year (z + 1) \<le> 146097 * z + 396"
proof -
  have "4 * (z div 4) \<le> z" "z \<le> 4 * (z div 4) + 3" "100 * (z div 100) \<le> z" "z \<le> 100 * (z div 100) + 99"
    "400 * (z div 400) \<le> z" "z \<le> 400 * (z div 400) + 399"
    using div_bounds [of 4 z] div_bounds [of 100 z] div_bounds [of 400 z] by simp_all
  moreover have "days_before_year (z + 1) = 365 * z + z div 4 - z div 100 + z div 400"
    by (simp add: days_before_year_def)
  ultimately show ?thesis by linarith
qed

lemma year_of_day: "days_before_year (year_of_day n) \<le> n \<and> n < days_before_year (year_of_day n + 1)"
proof -
  define z where "z = n * 400 div 146097"
  have "146097 * z \<le> n * 400" "n * 400 < 146097 * (z + 1)"
    using div_bounds [of 146097 "n * 400"] unfolding z_def by (simp_all add: algebra_simps)
  moreover have "146097 * (z + 2) - 699 \<le> 400 * days_before_year (z + 3)"
    using year_error [of "z + 2"] by (simp only: add.assoc) simp
  ultimately have "days_before_year z \<le> n" "n < days_before_year (z + 3)"
    using year_error [of "z - 1"] by simp_all
  then show ?thesis
    unfolding year_of_day_def z_def [symmetric] Let_def by (auto simp: algebra_simps)
qed

section \<open>Months\<close>

lemma month_day:
  assumes "0 \<le> n" "n < sum_list ls" "month_day ls n m = (k, d)"
  shows "m \<le> k \<and> k < m + length ls \<and> 1 \<le> d \<and> d \<le> ls ! (k - m) \<and> sum_list (take (k - m) ls) + (d - 1) = n"
  using assms
proof (induction ls n m rule: month_day.induct)
  case (2 l ls n m)
  show ?case
  proof (cases "n < l")
    case False
    with 2 have IH: "Suc m \<le> k" "k < Suc m + length ls" "1 \<le> d" "d \<le> ls ! (k - Suc m)"
      "sum_list (take (k - Suc m) ls) + (d - 1) = n - l"
      by auto
    from IH(1) have k: "k - m = Suc (k - Suc m)" by simp
    from IH show ?thesis by (simp add: k)
  qed (use 2 in auto)
qed simp

lemma year_days: "sum_list (month_lengths y) = (if is_leap y then 366 else 365)"
  by (simp add: month_lengths_def)

lemma date_of_day:
  assumes "y = year_of_day n" "month_day (month_lengths y) (n - days_before_year y) 1 = (m, d)"
  shows "1 \<le> m \<and> m \<le> 12 \<and> 1 \<le> d \<and> d \<le> days_in y m \<and> day_number y m d = n"
proof -
  have "0 \<le> n - days_before_year y" "n - days_before_year y < sum_list (month_lengths y)"
    using year_of_day [of n] year_length [of y] assms(1) by (simp_all add: year_days)
  from month_day [OF this assms(2)] have "1 \<le> m" "m < 1 + length (month_lengths y)" "1 \<le> d"
    "d \<le> month_lengths y ! (m - 1)" "sum_list (take (m - 1) (month_lengths y)) + (d - 1) = n - days_before_year y"
    by auto
  then show ?thesis
    by (simp add: days_in_def day_number_def days_before_month_def month_lengths_def)
qed

lemma month_at_most_31: "1 \<le> m \<Longrightarrow> m \<le> 12 \<Longrightarrow> days_in y m \<le> 31"
  by (auto simp: days_in_def month_lengths_def numeral_eq_Suc nth_Cons' less_Suc_eq)

section \<open>Padded numbers\<close>

lemma val_of_append: "val_of (s @ [c]) = val_of s * 10 + digit_val c"
  by (simp add: val_of_def)

lemma val_of_zeros: "val_of (replicate k (CHR ''0'') @ s) = val_of s"
proof -
  have "foldl (\<lambda>a c. a * 10 + digit_val c) 0 (replicate k (CHR ''0'')) = 0"
    by (induction k) (simp_all add: digit_val_def)
  then show ?thesis by (simp add: val_of_def)
qed

lemma nat_str_length: "n < 10 ^ w \<Longrightarrow> 0 < w \<Longrightarrow> length (nat_str n) \<le> w"
proof (induction w arbitrary: n)
  case (Suc w)
  show ?case
  proof (cases "n < 10")
    case False
    with Suc.prems have "n div 10 < 10 ^ w" "0 < w" by (auto simp: Suc_le_eq intro: gr0I)
    with Suc.IH [of "n div 10"] False show ?thesis by (simp add: nat_str.simps [of n])
  qed (simp add: nat_str.simps [of n])
qed simp

lemma pad_digits:
  assumes "0 \<le> v" "v < 10 ^ w" "0 < w"
  shows "length (pad w v) = w" "list_all is_digit (pad w v)" "int (val_of (pad w v)) = v"
proof -
  have "length (nat_str (nat v)) \<le> w"
    by (rule nat_str_length) (use assms in \<open>simp_all add: nat_less_iff\<close>)
  moreover have "is_digit (CHR ''0'')" by (simp add: byte_class_defs)
  ultimately show "length (pad w v) = w" "list_all is_digit (pad w v)" "int (val_of (pad w v)) = v"
    using assms(1) nat_str_digits [of "nat v"] by (auto simp: pad_def val_of_zeros list_all_iff)
qed

section \<open>The round trip\<close>

definition year_of :: "gotime \<Rightarrow> int" where
  "year_of t = year_of_day (instant t div second_ns div 86400)"

lemma pad_two:
  assumes "0 \<le> v" "v < 100"
  obtains a b where "pad 2 v = [a, b]" "is_digit a" "is_digit b" "int (val_of [a, b]) = v"
proof -
  have v: "v < 10 ^ 2" using assms(2) by simp
  obtain a b where "pad 2 v = [a, b]"
    using pad_digits(1) [OF assms(1) v] by (auto simp: numeral_eq_Suc length_Suc_conv)
  with pad_digits(2,3) [OF assms(1) v] that show ?thesis by simp
qed

lemma pad_four:
  assumes "0 \<le> v" "v < 10000"
  obtains a b c d where "pad 4 v = [a, b, c, d]" "is_digit a" "is_digit b" "is_digit c" "is_digit d" "int (val_of [a, b, c, d]) = v"
proof -
  have v: "v < 10 ^ 4" using assms(2) by simp
  obtain a b c d where "pad 4 v = [a, b, c, d]"
    using pad_digits(1) [OF assms(1) v] by (auto simp: numeral_eq_Suc length_Suc_conv)
  with pad_digits(2,3) [OF assms(1) v] that show ?thesis by simp
qed

lemma no_digits: "\<not> is_digit (CHR '':'')" "\<not> is_digit (CHR ''Z'')" "\<not> is_digit (CHR ''-'')"
  by (simp_all add: byte_class_defs)

lemma clock_parses:
  assumes "0 \<le> h" "h < 24" "0 \<le> m" "m < 60" "0 \<le> s" "s < 60"
  shows "parse_clock (pad 2 h @ '':'' @ pad 2 m @ '':'' @ pad 2 s @ ''Z'') = Some ((h * 3600 + m * 60 + s) * second_ns, 0, True)"
proof -
  obtain h1 h2 where h: "pad 2 h = [h1, h2]" "is_digit h1" "is_digit h2" "int (val_of [h1, h2]) = h"
    by (rule pad_two [of h]) (use assms in simp_all)
  obtain m1 m2 where m: "pad 2 m = [m1, m2]" "is_digit m1" "is_digit m2" "int (val_of [m1, m2]) = m"
    by (rule pad_two [of m]) (use assms in simp_all)
  obtain s1 s2 where s: "pad 2 s = [s1, s2]" "is_digit s1" "is_digit s2" "int (val_of [s1, s2]) = s"
    by (rule pad_two [of s]) (use assms in simp_all)
  from h(4) m(4) s(4) assms have "val_of [h1, h2] < 24" "val_of [m1, m2] < 60" "val_of [s1, s2] < 60" by linarith+
  with h m s show ?thesis
    by (simp add: parse_clock_def Let_def no_digits parse_fraction_def parse_zone_def)
qed

lemma clock_reads:
  assumes "0 \<le> c" "c < 86400"
  shows "parse_clock (pad 2 (c div 3600) @ '':'' @ pad 2 (c mod 3600 div 60) @ '':'' @ pad 2 (c mod 60) @ ''Z'')
    = Some (c * second_ns, 0, True)"
proof -
  have b: "0 \<le> c div 3600" "c div 3600 < 24" "0 \<le> c mod 3600 div 60" "c mod 3600 div 60 < 60" "0 \<le> c mod 60" "c mod 60 < 60"
    using assms by simp_all
  have "c mod 3600 mod 60 = c mod 60" by (rule mod_mod_cancel) simp
  then have "c div 3600 * 3600 + c mod 3600 div 60 * 60 + c mod 60 = c div 3600 * 3600 + (c mod 3600 div 60 * 60 + c mod 3600 mod 60)"
    by (simp only: add.assoc)
  also have "\<dots> = c" by (simp only: div_mult_mod_eq)
  finally have sum: "c div 3600 * 3600 + c mod 3600 div 60 * 60 + c mod 60 = c" .
  from clock_parses [OF b] show ?thesis by (simp only: sum)
qed

lemma date_reads:
  assumes "0 \<le> y" "y < 10000" "1 \<le> m" "m \<le> 12" "1 \<le> d" "d \<le> days_in y m" "parse_clock r = Some (ns, off, u)"
  shows "parse_rfc3339 (pad 4 y @ ''-'' @ pad 2 (int m) @ ''-'' @ pad 2 d @ ''T'' @ r)
    = Some \<lparr>instant = day_number y m d * 86400 * second_ns + ns - off * second_ns, utc_loc = u\<rparr>"
proof -
  obtain y1 y2 y3 y4 where y: "pad 4 y = [y1, y2, y3, y4]" "is_digit y1" "is_digit y2" "is_digit y3" "is_digit y4"
    "int (val_of [y1, y2, y3, y4]) = y"
    by (rule pad_four [OF assms(1,2)])
  obtain m1 m2 where m: "pad 2 (int m) = [m1, m2]" "is_digit m1" "is_digit m2" "int (val_of [m1, m2]) = int m"
    by (rule pad_two [of "int m"]) (use assms(4) in simp_all)
  obtain d1 d2 where d: "pad 2 d = [d1, d2]" "is_digit d1" "is_digit d2" "int (val_of [d1, d2]) = d"
    by (rule pad_two [of d]) (use assms(3-6) month_at_most_31 [of m y] in simp_all)
  from m(4) have "val_of [m1, m2] = m" by simp
  with y m d assms show ?thesis
    by (simp add: parse_rfc3339_def Let_def)
qed

lemma format_reads:
  assumes "instant t mod second_ns = 0" "utc_loc t" "0 \<le> year_of t" "year_of t < 10000"
  shows "parse_rfc3339 (format_seconds_z t) = Some t"
proof -
  define s where "s = instant t div second_ns"
  define n where "n = s div 86400"
  define c where "c = s mod 86400"
  define y where "y = year_of_day n"
  obtain m d where md: "month_day (month_lengths y) (n - days_before_year y) 1 = (m, d)" by (metis prod.collapse)
  from date_of_day [OF y_def md] have date: "1 \<le> m" "m \<le> 12" "1 \<le> d" "d \<le> days_in y m" "day_number y m d = n" by simp_all
  have y: "0 \<le> y" "y < 10000" using assms(3,4) by (simp_all add: year_of_def y_def n_def s_def)
  have c: "0 \<le> c" "c < 86400" by (simp_all add: c_def)
  have "n * 86400 + c = s" by (simp add: n_def c_def)
  moreover have "s * second_ns = instant t"
    using assms(1) div_mult_mod_eq [of "instant t" second_ns] by (simp add: s_def)
  ultimately have i: "n * 86400 * second_ns + c * second_ns = instant t" by (metis distrib_right)
  have "format_seconds_z t = pad 4 y @ ''-'' @ pad 2 (int m) @ ''-'' @ pad 2 d @ ''T''
      @ (pad 2 (c div 3600) @ '':'' @ pad 2 (c mod 3600 div 60) @ '':'' @ pad 2 (c mod 60) @ ''Z'')"
    using md by (simp add: format_seconds_z_def Let_def s_def n_def c_def y_def)
  with date_reads [OF y date(1-4) clock_reads [OF c]] i date(5) assms(2)
  show ?thesis by simp
qed

text \<open>What a time within the four-digit years is written as: six groups of digits.\<close>

lemma format_shape:
  assumes "0 \<le> year_of t" "year_of t < 10000"
  obtains y1 y2 y3 y4 m1 m2 d1 d2 h1 h2 i1 i2 s1 s2 where
    "format_seconds_z t = [y1, y2, y3, y4, CHR ''-'', m1, m2, CHR ''-'', d1, d2, CHR ''T'', h1, h2, CHR '':'', i1, i2, CHR '':'', s1, s2, CHR ''Z'']"
    "list_all is_digit [y1, y2, y3, y4, m1, m2, d1, d2, h1, h2, i1, i2, s1, s2]"
proof -
  define n where "n = instant t div second_ns div 86400"
  define c where "c = instant t div second_ns mod 86400"
  define y where "y = year_of_day n"
  obtain m d where md: "month_day (month_lengths y) (n - days_before_year y) 1 = (m, d)" by (metis prod.collapse)
  from date_of_day [OF y_def md] have date: "m \<le> 12" "1 \<le> d" "d < 100" using month_at_most_31 [of m y] by auto
  have y: "0 \<le> y" "y < 10000" using assms by (simp_all add: year_of_def y_def n_def)
  have c: "0 \<le> c" "c < 86400" by (simp_all add: c_def)
  then have b: "0 \<le> c div 3600" "c div 3600 < 100" "0 \<le> c mod 3600 div 60" "c mod 3600 div 60 < 100" "0 \<le> c mod 60" "c mod 60 < 100"
    by simp_all
  obtain y1 y2 y3 y4 where 1: "pad 4 y = [y1, y2, y3, y4]" "is_digit y1" "is_digit y2" "is_digit y3" "is_digit y4"
    by (rule pad_four [OF y])
  obtain m1 m2 where 2: "pad 2 (int m) = [m1, m2]" "is_digit m1" "is_digit m2"
    by (rule pad_two [of "int m"]) (use date(1) in simp_all)
  obtain d1 d2 where 3: "pad 2 d = [d1, d2]" "is_digit d1" "is_digit d2"
    by (rule pad_two [of d]) (use date in simp_all)
  obtain h1 h2 where 4: "pad 2 (c div 3600) = [h1, h2]" "is_digit h1" "is_digit h2" by (rule pad_two [OF b(1,2)])
  obtain i1 i2 where 5: "pad 2 (c mod 3600 div 60) = [i1, i2]" "is_digit i1" "is_digit i2" by (rule pad_two [OF b(3,4)])
  obtain s1 s2 where 6: "pad 2 (c mod 60) = [s1, s2]" "is_digit s1" "is_digit s2" by (rule pad_two [OF b(5,6)])
  have "format_seconds_z t = [y1, y2, y3, y4, CHR ''-'', m1, m2, CHR ''-'', d1, d2, CHR ''T'', h1, h2, CHR '':'', i1, i2, CHR '':'', s1, s2, CHR ''Z'']"
    using md 1(1) 2(1) 3(1) 4(1) 5(1) 6(1) by (simp add: format_seconds_z_def Let_def flip: n_def c_def y_def)
  moreover have "list_all is_digit [y1, y2, y3, y4, m1, m2, d1, d2, h1, h2, i1, i2, s1, s2]"
    using 1 2 3 4 5 6 by simp
  ultimately show thesis by (rule that)
qed

end
