(* ===== verification/RecoveryStore.thy ===== *)
theory RecoveryStore
  imports CommandStore RecoveryPath GoTimeProps Monitors
begin

text \<open>
  The recovery store of the terminal (\<open>internal/terminal/recovery_store.go\<close>): the record of the session that
  is open, as JSON in one file, with the checks of \<open>Load\<close> and the sequence of file operations of \<open>Save\<close> and
  \<open>Clear\<close>, each of which may fail. The interface the terminal manager relies on is the locale
  \<open>recovery_store\<close>; the file store is its interpretation.
\<close>

section \<open>The record\<close>

record terminal_recovery =
  tr_session_id :: string
  tr_command_id :: string
  tr_lease_token :: string
  tr_connection_deadline :: gotime
  tr_expires_at :: gotime
  tr_pending_code :: string
  tr_pending_message :: string

definition max_recovery_bytes :: nat where "max_recovery_bytes = 4096"

definition canonical_whole_second :: "gotime \<Rightarrow> bool" where
  "canonical_whole_second t \<longleftrightarrow> \<not> is_zero t \<and> utc_loc t \<and> nanosecond t = 0"

definition validate_recovery :: "terminal_recovery \<Rightarrow> goerr option" where
  "validate_recovery r =
     (if \<not> is_canonical_uuid (tr_session_id r) \<or> \<not> is_canonical_uuid (tr_command_id r) \<or> \<not> is_canonical_uuid (tr_lease_token r)
      then Some (Plain ''terminal recovery identifiers are invalid'')
      else if \<not> canonical_whole_second (tr_connection_deadline r) \<or> \<not> canonical_whole_second (tr_expires_at r)
           \<or> \<not> after (tr_expires_at r) (tr_connection_deadline r)
      then Some (Plain ''terminal recovery deadlines are invalid'')
      else None)"

section \<open>Writing\<close>

text \<open>\<open>MarshalJSON\<close> of a time, for a UTC time of whole seconds: years beyond four digits are an error.\<close>

definition time_json :: "gotime \<Rightarrow> json option" where
  "time_json t = (if 0 \<le> year_of t \<and> year_of t < 10000 then Some (JStr (format_seconds_z t)) else None)"

definition omit_empty :: "string \<Rightarrow> string \<Rightarrow> (string \<times> json) list" where
  "omit_empty name s = (if s = [] then [] else [(name, JStr s)])"

definition recovery_json :: "terminal_recovery \<Rightarrow> json option" where
  "recovery_json r =
     (case (time_json (tr_connection_deadline r), time_json (tr_expires_at r)) of
        (Some deadline, Some expires) \<Rightarrow>
          Some (JObj
            ([(''sessionId'', JStr (tr_session_id r)), (''commandId'', JStr (tr_command_id r)),
              (''leaseToken'', JStr (tr_lease_token r)), (''agentConnectionDeadline'', deadline), (''absoluteExpiresAt'', expires)]
             @ omit_empty ''pendingCode'' (tr_pending_code r) @ omit_empty ''pendingMessage'' (tr_pending_message r)))
      | _ \<Rightarrow> None)"

section \<open>Reading\<close>

definition zero_recovery :: terminal_recovery where
  "zero_recovery =
     \<lparr>tr_session_id = [], tr_command_id = [], tr_lease_token = [], tr_connection_deadline = zero_time, tr_expires_at = zero_time,
      tr_pending_code = [], tr_pending_message = []\<rparr>"

definition recovery_fields :: "string list" where
  "recovery_fields = [''sessionId'', ''commandId'', ''leaseToken'', ''agentConnectionDeadline'', ''absoluteExpiresAt'',
     ''pendingCode'', ''pendingMessage'']"

definition set_recovery_field :: "string \<Rightarrow> terminal_recovery json_dec" where
  "set_recovery_field n v x =
     (if n = ''sessionId'' then map_sum id (\<lambda>s. x\<lparr>tr_session_id := s\<rparr>) (dec_string v (tr_session_id x))
      else if n = ''commandId'' then map_sum id (\<lambda>s. x\<lparr>tr_command_id := s\<rparr>) (dec_string v (tr_command_id x))
      else if n = ''leaseToken'' then map_sum id (\<lambda>s. x\<lparr>tr_lease_token := s\<rparr>) (dec_string v (tr_lease_token x))
      else if n = ''agentConnectionDeadline''
        then map_sum id (\<lambda>t. x\<lparr>tr_connection_deadline := t\<rparr>) (dec_time v (tr_connection_deadline x))
      else if n = ''absoluteExpiresAt'' then map_sum id (\<lambda>t. x\<lparr>tr_expires_at := t\<rparr>) (dec_time v (tr_expires_at x))
      else if n = ''pendingCode'' then map_sum id (\<lambda>s. x\<lparr>tr_pending_code := s\<rparr>) (dec_string v (tr_pending_code x))
      else map_sum id (\<lambda>s. x\<lparr>tr_pending_message := s\<rparr>) (dec_string v (tr_pending_message x)))"

definition dec_recovery :: "terminal_recovery json_dec" where
  "dec_recovery = dec_struct recovery_fields set_recovery_field"

text \<open>The text of the two times, decoded once more as strings with every other field skipped.\<close>

fun raw_times :: "(string \<times> json) list \<Rightarrow> string \<times> string \<Rightarrow> goerr + string \<times> string" where
  "raw_times [] t = Inr t"
| "raw_times ((k, v) # kvs) t =
     (case match_field [''agentConnectionDeadline'', ''absoluteExpiresAt''] k of
        None \<Rightarrow> raw_times kvs t
      | Some n \<Rightarrow>
          if n = ''agentConnectionDeadline''
          then (case dec_string v (fst t) of Inl e \<Rightarrow> Inl e | Inr s \<Rightarrow> raw_times kvs (s, snd t))
          else (case dec_string v (snd t) of Inl e \<Rightarrow> Inl e | Inr s \<Rightarrow> raw_times kvs (fst t, s)))"

definition canonical_raw_times :: "json \<Rightarrow> bool" where
  "canonical_raw_times v =
     (case v of
        JObj kvs \<Rightarrow>
          (case raw_times kvs ([], []) of
             Inl e \<Rightarrow> False
           | Inr (d, x) \<Rightarrow> rx_match canonical_time_pattern d \<and> rx_match canonical_time_pattern x)
      | _ \<Rightarrow> False)"

definition invalid_recovery :: goerr where
  "invalid_recovery = Plain ''terminal recovery is invalid''"

definition read_recovery :: "string \<Rightarrow> goerr + terminal_recovery" where
  "read_recovery data =
     (if length data = 0 \<or> length data > max_recovery_bytes then Inl (Plain ''terminal recovery size is invalid'')
      else case json_document data of
          None \<Rightarrow> Inl invalid_recovery
        | Some v \<Rightarrow>
            if \<not> dup_free v then Inl invalid_recovery
            else (case dec_recovery v zero_recovery of
                Inl e \<Rightarrow> Inl invalid_recovery
              | Inr r \<Rightarrow>
                  if validate_recovery r \<noteq> None \<or> \<not> canonical_raw_times v then Inl invalid_recovery else Inr r))"

section \<open>The file\<close>

text \<open>
  \<open>rd_kind\<close> is what \<open>Lstat\<close> answers for the directories, \<open>rd_dir\<close> the permissions of the file's own directory.
  Each file operation takes one answer from \<open>rd_faults\<close>: true is a failure, and so the operation does nothing.
\<close>

datatype entry = NoEntry | RegularFile int string | OddEntry

record rdisk =
  rd_kind :: "string \<Rightarrow> path_kind"
  rd_dir :: "int option"
  rd_entry :: entry
  rd_temp :: "(int \<times> string) option"
  rd_faults :: "bool list"

abbreviation "private_file \<equiv> 384 :: int"
abbreviation "private_dir \<equiv> 448 :: int"

definition file_op :: "(rdisk \<Rightarrow> rdisk) \<Rightarrow> rdisk err_op" where
  "file_op f k =
     (let k' = k\<lparr>rd_faults := tl (rd_faults k)\<rparr> in
      if rd_faults k \<noteq> [] \<and> hd (rd_faults k) then (Some (Plain ''i/o error''), k') else (None, f k'))"

text \<open>\<open>NewFileRecoveryStore\<close>: the cleaned path; \<open>None\<close> is its panic.\<close>

definition new_file_recovery_store :: "string \<Rightarrow> string option" where
  "new_file_recovery_store path = (if path = [] \<or> \<not> is_abs path then None else Some (path_clean path))"

definition check_parents :: "string \<Rightarrow> rdisk err_op" where
  "check_parents path k = (reject_symlinked_parents (rd_kind k) path, k)"

definition look :: "(rdisk \<Rightarrow> 'a) \<Rightarrow> (rdisk, 'a) op" where
  "look f k = (f k, k)"

definition unsafe_directory :: "goerr \<Rightarrow> goerr" where
  "unsafe_directory e = Plain ''terminal recovery directory is unsafe''"

definition check_private_dir :: "rdisk err_op" where
  "check_private_dir =
     try_err (file_op id) unsafe_directory
     (op_bind (look rd_dir) (\<lambda>perm. op_return (if perm = Some private_dir then None else Some (unsafe_directory unsafe_path))))"

definition recovery_load :: "string \<Rightarrow> (rdisk, terminal_recovery option) res_op" where
  "recovery_load path =
     check_op (check_parents path) same
     (check_op (file_op id) (wrap ''inspect terminal recovery: '')
     (op_bind (look rd_entry) (\<lambda>e. case e of
          NoEntry \<Rightarrow> op_return (Inr None)
        | OddEntry \<Rightarrow> op_return (Inl unsafe_path)
        | RegularFile perm data \<Rightarrow>
            if perm \<noteq> private_file then op_return (Inl unsafe_path)
            else check_op check_private_dir same
              (check_op (file_op id) (wrap ''read terminal recovery: '')
              (op_return (map_sum id Some (read_recovery data)))))))"

definition set_temp_perm :: "int \<Rightarrow> rdisk \<Rightarrow> rdisk" where
  "set_temp_perm perm k = k\<lparr>rd_temp := map_option (\<lambda>t. (perm, snd t)) (rd_temp k)\<rparr>"

definition write_temp :: "string \<Rightarrow> rdisk \<Rightarrow> rdisk" where
  "write_temp data k = k\<lparr>rd_temp := map_option (\<lambda>t. (fst t, snd t @ data)) (rd_temp k)\<rparr>"

definition rename_temp :: "rdisk \<Rightarrow> rdisk" where
  "rename_temp k = (case rd_temp k of None \<Rightarrow> k | Some (perm, data) \<Rightarrow> k\<lparr>rd_entry := RegularFile perm data, rd_temp := None\<rparr>)"

definition set_entry_perm :: "int \<Rightarrow> rdisk \<Rightarrow> rdisk" where
  "set_entry_perm perm k = k\<lparr>rd_entry := (case rd_entry k of RegularFile p data \<Rightarrow> RegularFile perm data | e \<Rightarrow> e)\<rparr>"

text \<open>After the temporary file is created; the deferred removal of it is in \<open>recovery_save\<close>.\<close>

definition replace_file :: "string \<Rightarrow> rdisk err_op" where
  "replace_file data =
     try_err (file_op (set_temp_perm private_file)) (wrap ''secure terminal recovery: '')
     (try_err (file_op (write_temp data)) (wrap ''write terminal recovery: '')
     (try_err (file_op id) (wrap ''sync terminal recovery: '')
     (try_err (file_op id) (wrap ''close terminal recovery: '')
     (try_err (file_op rename_temp) (wrap ''replace terminal recovery: '')
     (try_err (file_op (set_entry_perm private_file)) (wrap ''secure final terminal recovery: '')
     (try_err (file_op id) (wrap ''open terminal recovery directory: '')
     (try_err (file_op id) (wrap ''sync terminal recovery directory: '')
     (op_return None))))))))"

definition drop_temp :: "rdisk \<Rightarrow> rdisk" where
  "drop_temp k = snd (file_op (\<lambda>k. k\<lparr>rd_temp := None\<rparr>) k)"

definition write_file :: "string \<Rightarrow> string \<Rightarrow> rdisk err_op" where
  "write_file path data =
     try_err (check_parents path) same
     (try_err (file_op (\<lambda>k. k\<lparr>rd_dir := (case rd_dir k of None \<Rightarrow> Some private_dir | p \<Rightarrow> p)\<rparr>)) (wrap ''create terminal recovery directory: '')
     (try_err (file_op (\<lambda>k. k\<lparr>rd_dir := Some private_dir\<rparr>)) (wrap ''secure terminal recovery directory: '')
     (try_err (file_op id) (wrap ''inspect terminal recovery: '')
     (op_bind (look rd_entry) (\<lambda>e.
        if e = OddEntry then op_return (Some unsafe_path)
        else try_err (file_op (\<lambda>k. k\<lparr>rd_temp := Some (private_file, [])\<rparr>)) (wrap ''create terminal recovery: '')
          (\<lambda>k. case replace_file data k of (r, k') \<Rightarrow> (r, drop_temp k')))))))"

definition recovery_save :: "string \<Rightarrow> terminal_recovery \<Rightarrow> rdisk err_op" where
  "recovery_save path r =
     (case validate_recovery r of
        Some e \<Rightarrow> op_return (Some e)
      | None \<Rightarrow>
          (case recovery_json r of
             None \<Rightarrow> op_return (Some (Plain ''encode terminal recovery''))
           | Some v \<Rightarrow>
               if length (json_text v) > max_recovery_bytes then op_return (Some (Plain ''encode terminal recovery''))
               else write_file path (json_text v)))"

definition recovery_clear :: "string \<Rightarrow> rdisk err_op" where
  "recovery_clear path =
     try_err (check_parents path) same
     (try_err check_private_dir same
     (try_err (file_op id) (wrap ''inspect terminal recovery: '')
     (op_bind (look rd_entry) (\<lambda>e. case e of
          NoEntry \<Rightarrow> op_return None
        | OddEntry \<Rightarrow> op_return (Some unsafe_path)
        | RegularFile perm data \<Rightarrow>
            try_err (file_op (\<lambda>k. k\<lparr>rd_entry := NoEntry\<rparr>)) (wrap ''clear terminal recovery: '')
            (try_err (file_op id) (wrap ''sync terminal recovery directory: '')
            (op_return None))))))"

section \<open>The interface\<close>

text \<open>
  \<open>holds e\<close> is what a load would find, \<open>None\<close> when the record is unreadable; \<open>fits r\<close> is the condition under
  which a saved record comes back.
\<close>

locale recovery_store =
  fixes load :: "('e, terminal_recovery option) res_op"
    and save :: "terminal_recovery \<Rightarrow> 'e err_op"
    and clear :: "'e err_op"
    and holds :: "'e \<Rightarrow> terminal_recovery option option"
    and fits :: "terminal_recovery \<Rightarrow> bool"
  assumes load_holds: "load e = (Inr v, e') \<Longrightarrow> holds e = Some v \<and> holds e' = holds e"
    and load_fails: "load e = (Inl x, e') \<Longrightarrow> holds e' = holds e"
    and save_holds: "fits r \<Longrightarrow> save r e = (None, e') \<Longrightarrow> holds e' = Some (Some r)"
    and save_fails: "fits r \<Longrightarrow> save r e = (Some x, e') \<Longrightarrow> holds e' \<in> {holds e, Some (Some r)}"
    and clear_holds: "clear e = (None, e') \<Longrightarrow> holds e' = Some None"
    and clear_fails: "clear e = (Some x, e') \<Longrightarrow> holds e' \<in> {holds e, Some None}"

section \<open>What a text reads as\<close>

lemma recovery_field_names: "set recovery_fields = {''sessionId'', ''commandId'', ''leaseToken'', ''agentConnectionDeadline'',
    ''absoluteExpiresAt'', ''pendingCode'', ''pendingMessage''}"
  by (auto simp: recovery_fields_def)

lemma match_recovery_field: "n \<in> set recovery_fields \<Longrightarrow> match_field recovery_fields n = Some n"
  by (simp add: match_field_def)

lemma canonical_whole: "canonical_whole_second t \<Longrightarrow> 0 \<le> year_of t \<Longrightarrow> year_of t < 10000 \<Longrightarrow> parse_rfc3339 (format_seconds_z t) = Some t"
  by (rule format_reads) (simp_all add: canonical_whole_second_def nanosecond_def)

lemma uuid_utf8: "is_canonical_uuid s \<Longrightarrow> utf8_text s"
proof (rule ascii_utf8_text)
  assume "is_canonical_uuid s"
  then have "list_all (\<lambda>c. is_alnum c \<or> c = CHR ''-'') s" by (rule canonical_uuid_chars)
  then show "list_all (\<lambda>c. byte c < 128) s" by (auto simp: list_all_iff byte_class_defs)
qed

definition recovery_fits :: "terminal_recovery \<Rightarrow> bool" where
  "recovery_fits r \<longleftrightarrow> utf8_text (tr_pending_code r) \<and> utf8_text (tr_pending_message r)"

lemma recovery_dec:
  assumes "validate_recovery r = None" "recovery_json r = Some v"
  shows "dec_recovery v zero_recovery = Inr r"
proof -
  from assms(1) have w: "canonical_whole_second (tr_connection_deadline r)" "canonical_whole_second (tr_expires_at r)"
    by (auto simp: validate_recovery_def split: if_splits)
  from assms(2) have y: "0 \<le> year_of (tr_connection_deadline r)" "year_of (tr_connection_deadline r) < 10000"
    "0 \<le> year_of (tr_expires_at r)" "year_of (tr_expires_at r) < 10000"
    by (auto simp: recovery_json_def time_json_def split: if_splits)
  note t = canonical_whole [OF w(1) y(1,2)] canonical_whole [OF w(2) y(3,4)]
  from assms(2) y show ?thesis
    by (auto simp: recovery_json_def time_json_def dec_recovery_def omit_empty_def match_recovery_field recovery_field_names
        set_recovery_field_def t zero_recovery_def)
qed

lemma format_text:
  assumes "0 \<le> year_of t" "year_of t < 10000"
  shows "rx_match canonical_time_pattern (format_seconds_z t)" "utf8_text (format_seconds_z t)"
proof -
  from format_shape [OF assms] obtain y1 y2 y3 y4 m1 m2 d1 d2 h1 h2 i1 i2 s1 s2 where
    f: "format_seconds_z t = [y1, y2, y3, y4, CHR ''-'', m1, m2, CHR ''-'', d1, d2, CHR ''T'', h1, h2, CHR '':'', i1, i2, CHR '':'', s1, s2, CHR ''Z'']"
    and d: "list_all is_digit [y1, y2, y3, y4, m1, m2, d1, d2, h1, h2, i1, i2, s1, s2]" .
  have lang: "rx_fixed canonical_time_pattern = Some (replicate 4 is_digit @ [\<lambda>c. c = CHR ''-''] @ replicate 2 is_digit @ [\<lambda>c. c = CHR ''-'']
      @ replicate 2 is_digit @ [\<lambda>c. c = CHR ''T''] @ replicate 2 is_digit @ [\<lambda>c. c = CHR '':''] @ replicate 2 is_digit
      @ [\<lambda>c. c = CHR '':''] @ replicate 2 is_digit @ [\<lambda>c. c = CHR ''Z''])"
    by (simp add: canonical_time_pattern_def rx_cat_def rx_fixed_rep rx_fixed_lit)
  show "rx_match canonical_time_pattern (format_seconds_z t)"
    unfolding rx_match_fixed [OF lang] f using d by (simp add: numeral_eq_Suc)
  show "utf8_text (format_seconds_z t)"
    unfolding f using d by (intro ascii_utf8_text) (auto simp: byte_class_defs)
qed

lemma recovery_literals: "n \<in> set recovery_fields \<Longrightarrow> utf8_text n"
  unfolding recovery_field_names by (elim insertE emptyE) (simp_all add: ascii_utf8_text)

lemma recovery_document:
  assumes "validate_recovery r = None" "recovery_json r = Some v" "recovery_fits r"
  shows "json_document (json_text v) = Some v" "dup_free v" "canonical_raw_times v"
proof -
  from assms(1) have ids: "utf8_text (tr_session_id r)" "utf8_text (tr_command_id r)" "utf8_text (tr_lease_token r)"
    by (auto simp: validate_recovery_def uuid_utf8 split: if_splits)
  from assms(2) have y: "0 \<le> year_of (tr_connection_deadline r)" "year_of (tr_connection_deadline r) < 10000"
    "0 \<le> year_of (tr_expires_at r)" "year_of (tr_expires_at r) < 10000"
    and v: "v = JObj ([(''sessionId'', JStr (tr_session_id r)), (''commandId'', JStr (tr_command_id r)),
        (''leaseToken'', JStr (tr_lease_token r)), (''agentConnectionDeadline'', JStr (format_seconds_z (tr_connection_deadline r))),
        (''absoluteExpiresAt'', JStr (format_seconds_z (tr_expires_at r)))]
       @ omit_empty ''pendingCode'' (tr_pending_code r) @ omit_empty ''pendingMessage'' (tr_pending_message r))"
    by (auto simp: recovery_json_def time_json_def split: if_splits)
  note f = format_text [OF y(1,2)] format_text [OF y(3,4)]
  have "clean v" "numbers_ok v" "nested_within 0 v"
    using ids f assms(3) recovery_literals by (auto simp: v omit_empty_def recovery_fits_def recovery_field_names)
  then show "json_document (json_text v) = Some v"
    by (simp add: json_round_trip clean_fixed)
  show "dup_free v" by (simp add: v omit_empty_def)
  show "canonical_raw_times v" using f by (simp add: v omit_empty_def canonical_raw_times_def match_field_def)
qed

lemma read_written_recovery:
  assumes "validate_recovery r = None" "recovery_json r = Some v" "recovery_fits r" "length (json_text v) \<le> max_recovery_bytes"
  shows "read_recovery (json_text v) = Inr r"
proof -
  note d = recovery_document [OF assms(1-3)]
  have "json_text v \<noteq> []"
  proof
    assume "json_text v = []"
    with d(1) have "json_document [] = Some v" by simp
    then show False by (simp add: json_document_def)
  qed
  with d assms recovery_dec [OF assms(1,2)] show ?thesis by (simp add: read_recovery_def)
qed

section \<open>What the operations leave on disk\<close>

lemma file_op_cases: "file_op f k = (r, k') \<Longrightarrow>
    (r \<noteq> None \<and> k' = k\<lparr>rd_faults := tl (rd_faults k)\<rparr>) \<or> (r = None \<and> k' = f (k\<lparr>rd_faults := tl (rd_faults k)\<rparr>))"
  by (auto simp: file_op_def Let_def split: if_splits)

lemma try_file_op:
  assumes "try_err (file_op f) w m k = (r, k')"
  obtains (fails) e where "r = Some e" "k' = k\<lparr>rd_faults := tl (rd_faults k)\<rparr>"
  | (goes_on) "m (f (k\<lparr>rd_faults := tl (rd_faults k)\<rparr>)) = (r, k')"
  using assms by (auto simp: try_err_def op_bind_def op_return_def file_op_def Let_def split: if_splits)

lemma try_parents:
  assumes "try_err (check_parents path) w m k = (r, k')"
  obtains (fails) "r \<noteq> None" "k' = k" | (goes_on) "reject_symlinked_parents (rd_kind k) path = None" "m k = (r, k')"
  using assms by (auto simp: try_err_def op_bind_def op_return_def check_parents_def split: option.splits)

lemma check_private_dir_entry: "check_private_dir k = (r, k') \<Longrightarrow> rd_entry k' = rd_entry k"
  unfolding check_private_dir_def
  by (elim try_file_op) (auto simp: op_bind_def look_def op_return_def)

lemma drop_temp_entry [simp]: "rd_entry (drop_temp k) = rd_entry k"
  by (simp add: drop_temp_def file_op_def Let_def)

lemma replace_file_entry:
  assumes "replace_file data k = (r, k')" "rd_temp k = Some (p, [])"
  shows "(rd_entry k' = rd_entry k \<and> r \<noteq> None) \<or> rd_entry k' = RegularFile private_file data"
  using assms unfolding replace_file_def
  by (elim try_file_op)
     (auto simp: set_temp_perm_def write_temp_def rename_temp_def set_entry_perm_def op_return_def)

lemma write_file_entry:
  assumes "write_file path data k = (r, k')"
  shows "(rd_entry k' = rd_entry k \<and> r \<noteq> None) \<or> rd_entry k' = RegularFile private_file data"
  using assms unfolding write_file_def op_bind_def look_def
  by (elim try_parents try_file_op)
     (auto simp: op_return_def split: prod.splits if_splits elim!: try_file_op dest!: replace_file_entry)

text \<open>Whatever step of \<open>Save\<close> fails, the file is the old one or holds the new record.\<close>

lemma recovery_save_entry:
  assumes "recovery_save path r k = (x, k')"
  shows "(rd_entry k' = rd_entry k \<and> x \<noteq> None) \<or>
    (\<exists>v. validate_recovery r = None \<and> recovery_json r = Some v \<and> length (json_text v) \<le> max_recovery_bytes \<and>
      rd_entry k' = RegularFile private_file (json_text v))"
proof (cases "validate_recovery r")
  case None
  show ?thesis
  proof (cases "recovery_json r")
    case (Some v)
    with None assms write_file_entry [of path "json_text v" k x k'] show ?thesis
      by (auto simp: recovery_save_def op_return_def split: if_splits)
  qed (use None assms in \<open>auto simp: recovery_save_def op_return_def\<close>)
qed (use assms in \<open>auto simp: recovery_save_def op_return_def\<close>)

definition entry_holds :: "entry \<Rightarrow> terminal_recovery option option" where
  "entry_holds e =
     (case e of
        NoEntry \<Rightarrow> Some None
      | OddEntry \<Rightarrow> None
      | RegularFile perm data \<Rightarrow>
          if perm \<noteq> private_file then None
          else (case read_recovery data of Inl x \<Rightarrow> None | Inr r \<Rightarrow> Some (Some r)))"

lemma recovery_load_entry:
  assumes "recovery_load path k = (x, k')"
  shows "rd_entry k' = rd_entry k \<and> (\<forall>v. x = Inr v \<longrightarrow> entry_holds (rd_entry k) = Some v)"
  using assms
  by (auto simp: recovery_load_def check_op_def op_bind_def op_return_def look_def check_parents_def entry_holds_def map_sum_Inr
      split: prod.splits option.splits entry.splits if_splits sum.splits dest!: file_op_cases check_private_dir_entry)

lemma recovery_clear_entry:
  assumes "recovery_clear path k = (x, k')"
  shows "(rd_entry k' = rd_entry k \<and> x \<noteq> None) \<or> rd_entry k' = NoEntry"
  using assms unfolding recovery_clear_def op_bind_def look_def
  by (elim try_parents try_file_op)
     (auto simp: op_return_def try_err_def op_bind_def split: prod.splits option.splits entry.splits
        dest!: file_op_cases check_private_dir_entry)

interpretation recovery_on_disk: recovery_store "recovery_load path" "recovery_save path" "recovery_clear path"
    "entry_holds \<circ> rd_entry" recovery_fits
proof
  fix e v e' assume "recovery_load path e = (Inr v, e')"
  from recovery_load_entry [OF this] show "(entry_holds \<circ> rd_entry) e = Some v \<and> (entry_holds \<circ> rd_entry) e' = (entry_holds \<circ> rd_entry) e"
    by simp
next
  fix e x e' assume "recovery_load path e = (Inl x, e')"
  from recovery_load_entry [OF this] show "(entry_holds \<circ> rd_entry) e' = (entry_holds \<circ> rd_entry) e" by simp
next
  fix r e e' assume "recovery_fits r" "recovery_save path r e = (None, e')"
  with recovery_save_entry [of path r e None e'] read_written_recovery [of r]
  show "(entry_holds \<circ> rd_entry) e' = Some (Some r)" by (auto simp: entry_holds_def)
next
  fix r e x e' assume "recovery_fits r" "recovery_save path r e = (Some x, e')"
  with recovery_save_entry [of path r e "Some x" e'] read_written_recovery [of r]
  show "(entry_holds \<circ> rd_entry) e' \<in> {(entry_holds \<circ> rd_entry) e, Some (Some r)}" by (auto simp: entry_holds_def)
next
  fix e e' assume "recovery_clear path e = (None, e')"
  from recovery_clear_entry [OF this] show "(entry_holds \<circ> rd_entry) e' = Some None" by (simp add: entry_holds_def)
next
  fix e x e' assume "recovery_clear path e = (Some x, e')"
  from recovery_clear_entry [OF this] show "(entry_holds \<circ> rd_entry) e' \<in> {(entry_holds \<circ> rd_entry) e, Some None}"
    by (auto simp: entry_holds_def)
qed

end
