(* ===== verification/TerminalManager.thy ===== *)
theory TerminalManager
  imports RecoveryStore
begin

text \<open>
  The terminal manager (\<open>internal/terminal/manager.go\<close>). The fields the mutex protects are the record
  \<open>manager_state\<close>, a part of the world \<open>'w\<close>; each critical section is a function of it. The channel that
  a session closes when it has ended is its number. The store, the runner, the reporter, the clock and the
  start of the waiting goroutine are the parameters of \<open>'w terminal\<close>. \<open>TerminalSteps\<close> interleaves the same
  sections.
\<close>

section \<open>State\<close>

record manager_state =
  ms_active :: bool
  ms_pending :: bool
  ms_done :: "nat option"
  ms_next :: nat

record 'w terminal =
  te_state :: "'w \<Rightarrow> manager_state"
  te_set :: "manager_state \<Rightarrow> 'w \<Rightarrow> 'w"
  te_load :: "('w, terminal_recovery option) res_op"
  te_save :: "terminal_recovery \<Rightarrow> 'w err_op"
  te_clear :: "'w err_op"
  te_launch :: "nat \<Rightarrow> command \<Rightarrow> ('w, bool \<times> goerr option) op"
  te_await :: "nat \<Rightarrow> terminal_recovery \<Rightarrow> ('w, unit) op"
  te_finish :: "string \<Rightarrow> command_result \<Rightarrow> 'w err_op"
  te_now :: "('w, gotime) op"
  te_sleep :: "('w, unit) op"
  te_cancel :: "nat \<Rightarrow> ('w, unit) op"
  te_wait :: "nat \<Rightarrow> 'w err_op"

definition new_manager :: "'w terminal \<Rightarrow> ('w, manager_state) res_op" where
  "new_manager g =
     need_op (te_load g) (wrap ''load terminal recovery: '') (\<lambda>found.
       op_return (Inr \<lparr>ms_active = False, ms_pending = (found \<noteq> None), ms_done = None, ms_next = 0\<rparr>))"

section \<open>Critical sections\<close>

definition start_refused :: "manager_state \<Rightarrow> goerr option" where
  "start_refused s =
     (if ms_active s then Some (TerminalError ''TERMINAL_ALREADY_ACTIVE'')
      else if ms_pending s then Some (TerminalError ''TERMINAL_RECOVERY_PENDING'')
      else None)"

definition claim :: "manager_state \<Rightarrow> manager_state" where
  "claim s = s\<lparr>ms_active := True, ms_done := Some (ms_next s), ms_next := Suc (ms_next s)\<rparr>"

definition set_pending :: "bool \<Rightarrow> manager_state \<Rightarrow> manager_state" where
  "set_pending b s = s\<lparr>ms_pending := b\<rparr>"

text \<open>The end of \<open>rollbackStart\<close> and of \<open>awaitCompletion\<close>.\<close>

definition release :: "nat \<Rightarrow> manager_state \<Rightarrow> manager_state" where
  "release ch s = (if ms_done s = Some ch then s\<lparr>ms_active := False, ms_done := None\<rparr> else s)"

definition modify :: "'w terminal \<Rightarrow> (manager_state \<Rightarrow> manager_state) \<Rightarrow> ('w, unit) op" where
  "modify g f w = ((), te_set g (f (te_state g w)) w)"

definition look_state :: "'w terminal \<Rightarrow> ('w, manager_state) op" where
  "look_state g w = (te_state g w, w)"

section \<open>Start\<close>

definition recovery_of :: "command \<Rightarrow> terminal_payload \<Rightarrow> terminal_recovery" where
  "recovery_of c p =
     \<lparr>tr_session_id = tp_session_id p, tr_command_id = cmd_id c, tr_lease_token = cmd_lease_token c,
      tr_connection_deadline = tp_agent_connection_deadline p, tr_expires_at = tp_absolute_expires_at p,
      tr_pending_code = [], tr_pending_message = []\<rparr>"

definition start_expired :: "command \<Rightarrow> terminal_recovery \<Rightarrow> gotime \<Rightarrow> bool" where
  "start_expired c r now \<longleftrightarrow>
     \<not> after (cmd_lease_expires_at c) now \<or> \<not> after (tr_connection_deadline r) now \<or> \<not> after (tr_expires_at r) now"

definition start_record_of :: "command \<Rightarrow> terminal_recovery option" where
  "start_record_of c =
     (if cmd_type c \<noteq> OpenRootTerminal \<or> cmd_version c \<noteq> 1 then None
      else case cmd_terminal c of
          None \<Rightarrow> None
        | Some p \<Rightarrow> if validate_recovery (recovery_of c p) = None then Some (recovery_of c p) else None)"

text \<open>The first critical section: the number of the new session.\<close>

definition begin_session :: "'w terminal \<Rightarrow> command \<Rightarrow> terminal_recovery \<Rightarrow> ('w, nat) res_op" where
  "begin_session g c r =
     op_bind (look_state g) (\<lambda>s. case start_refused s of
        Some e \<Rightarrow> op_return (Inl e)
      | None \<Rightarrow>
          op_bind (te_now g) (\<lambda>latest.
          if start_expired c r latest then op_return (Inl (TerminalError ''TERMINAL_COMMAND_EXPIRED''))
          else op_bind (look_state g) (\<lambda>s. op_bind (modify g claim) (\<lambda>_. op_return (Inr (ms_next s))))))"

definition rollback_start :: "'w terminal \<Rightarrow> nat \<Rightarrow> ('w, unit) op" where
  "rollback_start g ch = op_bind (te_cancel g ch) (\<lambda>_. modify g (release ch))"

definition launch_session :: "'w terminal \<Rightarrow> command \<Rightarrow> terminal_recovery \<Rightarrow> nat \<Rightarrow> 'w err_op" where
  "launch_session g c r ch =
     op_bind (te_launch g ch c) (\<lambda>(started, err).
       if err \<noteq> None \<or> \<not> started then
         op_bind (te_clear g) (\<lambda>clear_err.
         op_bind (if clear_err \<noteq> None then modify g (set_pending True) else op_return ()) (\<lambda>_.
         op_bind (rollback_start g ch) (\<lambda>_.
         op_return (Some (if clear_err \<noteq> None then Plain ''launch terminal session and clear recovery failed''
           else TerminalError ''TERMINAL_START_FAILED'')))))
       else op_bind (te_await g ch r) (\<lambda>_. op_return None))"

definition manager_start :: "'w terminal \<Rightarrow> command \<Rightarrow> 'w err_op" where
  "manager_start g c =
     (case start_record_of c of
        None \<Rightarrow> op_return (Some (TerminalError ''TERMINAL_COMMAND_INVALID''))
      | Some r \<Rightarrow>
          op_bind (te_now g) (\<lambda>now.
          if start_expired c r now then op_return (Some (TerminalError ''TERMINAL_COMMAND_EXPIRED''))
          else try_res (begin_session g c r) same (\<lambda>ch.
            op_bind (te_save g r) (\<lambda>saved. case saved of
               Some e \<Rightarrow>
                 op_bind (modify g (set_pending True)) (\<lambda>_.
                 op_bind (rollback_start g ch) (\<lambda>_. op_return (Some (wrap ''persist terminal recovery: '' e))))
             | None \<Rightarrow> launch_session g c r ch))))"

section \<open>A start that failed\<close>

definition record_start_failure :: "'w terminal \<Rightarrow> command \<Rightarrow> string \<Rightarrow> string \<Rightarrow> 'w err_op" where
  "record_start_failure g c code message =
     (case cmd_terminal c of
        None \<Rightarrow> op_return (Some (TerminalError ''TERMINAL_COMMAND_INVALID''))
      | Some p \<Rightarrow>
          let r = (recovery_of c p)\<lparr>tr_pending_code := code, tr_pending_message := message\<rparr> in
          case validate_recovery r of
            Some e \<Rightarrow> op_return (Some e)
          | None \<Rightarrow>
              try_err (te_save g r) (wrap ''persist terminal start failure: '')
              (op_bind (modify g (set_pending True)) (\<lambda>_. op_return None)))"

definition clear_start_failure :: "'w terminal \<Rightarrow> 'w err_op" where
  "clear_start_failure g =
     try_err (te_clear g) same (op_bind (modify g (set_pending False)) (\<lambda>_. op_return None))"

section \<open>The end of a session\<close>

text \<open>
  What the waiting goroutine makes of the channel and of the session's context: \<open>Some v\<close> is a value from
  the channel (\<open>Some None\<close> also for a closed one), \<open>None\<close> the end of the context.
\<close>

definition await_error :: "goerr option option \<Rightarrow> goerr option \<Rightarrow> goerr option" where
  "await_error completion ctx = (case completion of Some (Some e) \<Rightarrow> Some e | _ \<Rightarrow> ctx)"

definition session_result :: "terminal_recovery \<Rightarrow> goerr option \<Rightarrow> command_result" where
  "session_result r err =
     (let res = \<lparr>cr_lease_token = tr_lease_token r, cr_success = (err = None), cr_code = ''TERMINAL_SESSION_CLOSED'',
                cr_message = ''terminal session closed'', cr_details = []\<rparr>;
          res = (if tr_pending_code r \<noteq> []
                 then res\<lparr>cr_success := False, cr_code := tr_pending_code r, cr_message := tr_pending_message r\<rparr> else res) in
      case err of
        None \<Rightarrow> res
      | Some e \<Rightarrow>
          if err_is e ContextDeadlineExceeded
          then res\<lparr>cr_success := False, cr_code := ''TERMINAL_ABSOLUTE_TIMEOUT'', cr_message := ''terminal session expired''\<rparr>
          else res\<lparr>cr_success := False, cr_code := ''TERMINAL_SESSION_FAILED'', cr_message := ''terminal session failed''\<rparr>)"

fun report_attempts :: "'w terminal \<Rightarrow> string \<Rightarrow> command_result \<Rightarrow> nat \<Rightarrow> ('w, bool) op" where
  "report_attempts g i res 0 = op_return False"
| "report_attempts g i res (Suc n) =
     op_bind (te_finish g i res) (\<lambda>err.
       if err = None then op_return True
       else if 0 < n then op_bind (te_sleep g) (\<lambda>_. report_attempts g i res n)
       else op_return False)"

definition await_completion :: "'w terminal \<Rightarrow> nat \<Rightarrow> terminal_recovery \<Rightarrow> goerr option \<Rightarrow> ('w, unit) op" where
  "await_completion g ch r err =
     op_bind (report_attempts g (tr_command_id r) (session_result r err) 3) (\<lambda>reported.
     op_bind (if reported then op_bind (te_clear g) (\<lambda>e. modify g (set_pending (e \<noteq> None)))
              else modify g (set_pending True)) (\<lambda>_.
     modify g (release ch)))"

section \<open>Close\<close>

definition allowed_close_reason :: "string \<Rightarrow> bool" where
  "allowed_close_reason reason \<longleftrightarrow>
     reason \<in> set [''agent-shutdown'', ''session-expired'', ''browser-disconnected'', ''operator-request'']"

definition manager_active :: "'w terminal \<Rightarrow> ('w, bool) op" where
  "manager_active g = op_bind (look_state g) (\<lambda>s. op_return (ms_active s))"

definition manager_close :: "'w terminal \<Rightarrow> string \<Rightarrow> 'w err_op" where
  "manager_close g reason =
     (if \<not> allowed_close_reason reason then op_return (Some (TerminalError ''TERMINAL_CLOSE_REASON_INVALID''))
      else op_bind (look_state g) (\<lambda>s.
        if \<not> ms_active s then op_return None
        else case ms_done s of
            None \<Rightarrow> op_return None
          | Some ch \<Rightarrow> op_bind (te_cancel g ch) (\<lambda>_. te_wait g ch)))"

section \<open>Recovery after a restart\<close>

definition interrupted_result :: "terminal_recovery \<Rightarrow> command_result" where
  "interrupted_result r =
     (let res = \<lparr>cr_lease_token = tr_lease_token r, cr_success = False, cr_code = ''TERMINAL_INTERRUPTED_BY_AGENT_RESTART'',
                cr_message = ''terminal session interrupted by agent restart'', cr_details = []\<rparr>
      in if tr_pending_code r \<noteq> [] then res\<lparr>cr_code := tr_pending_code r, cr_message := tr_pending_message r\<rparr> else res)"

definition retry_recovery :: "'w terminal \<Rightarrow> ('w, bool \<times> goerr option) op" where
  "retry_recovery g =
     op_bind (look_state g) (\<lambda>s.
       if ms_active s then op_return (False, Some (TerminalError ''TERMINAL_ALREADY_ACTIVE''))
       else op_bind (te_load g) (\<lambda>found. case found of
          Inl e \<Rightarrow> op_return (False, Some (wrap ''load terminal recovery: '' e))
        | Inr None \<Rightarrow> op_bind (modify g (set_pending False)) (\<lambda>_. op_return (False, None))
        | Inr (Some r) \<Rightarrow>
            op_bind (te_finish g (tr_command_id r) (interrupted_result r)) (\<lambda>reported. case reported of
               Some e \<Rightarrow> op_return (True, Some (wrap ''report terminal recovery: '' e))
             | None \<Rightarrow>
                 op_bind (te_clear g) (\<lambda>cleared. case cleared of
                    Some e \<Rightarrow> op_return (True, Some (wrap ''clear terminal recovery: '' e))
                  | None \<Rightarrow> op_bind (modify g (set_pending False)) (\<lambda>_. op_return (True, None))))))"

text \<open>The manager as the dispatcher sees it.\<close>

definition manager_interface :: "'w terminal \<Rightarrow> 'w terminal_manager" where
  "manager_interface g =
     \<lparr>tm_start = manager_start g, tm_close = manager_close g, tm_record_failure = Some (record_start_failure g),
      tm_clear_failure = clear_start_failure g\<rparr>"

end
