(* ===== verification/TerminalSteps.thy ===== *)
theory TerminalSteps
  imports TerminalManager
begin

text \<open>
  The terminal manager with its goroutines. One goroutine starts sessions (the command loop through
  \<open>dispatchTerminal\<close>, and \<open>main\<close> before it through \<open>RetryRecovery\<close>); each session that was launched has a
  goroutine in \<open>awaitCompletion\<close>. A step is one critical section or one call; between two steps of one
  goroutine the others may run. Calls may fail: a failed save leaves the old or the new record, a failed clear
  the old one or none. The parameter \<open>dirty\<close> says whether a failed save of \<open>RecordStartFailure\<close> may
  leave the new record.
\<close>

section \<open>Configurations\<close>

datatype start_pc =
    Idle
  | Claimed nat terminal_recovery
  | SaveFailed nat terminal_recovery
  | Saved nat terminal_recovery
  | LaunchFailed nat terminal_recovery
  | ClearFailed nat terminal_recovery
  | RollingBack nat terminal_recovery
  | StartFailed terminal_recovery
  | FailureSaved terminal_recovery
  | FailureKept terminal_recovery
  | FailureReported terminal_recovery
  | FailureCleared
  | RetryFound terminal_recovery
  | RetryReported terminal_recovery
  | RetryCleared

datatype session_pc =
    Waiting
  | Reporting nat command_result
  | SessionReported
  | SessionCleared bool
  | Unreported
  | Ending

record terminal_conf =
  tc_state :: manager_state
  tc_store :: "terminal_recovery option"
  tc_start :: start_pc
  tc_sessions :: "nat \<Rightarrow> (terminal_recovery \<times> session_pc) option"

datatype terminal_label =
    LInternal
  | LSave terminal_recovery bool
  | LLaunch string bool
  | LReport string command_result bool
  | LClear bool
  | LRefuse string command_result bool

definition fresh_conf :: "terminal_recovery option \<Rightarrow> terminal_conf" where
  "fresh_conf found =
     \<lparr>tc_state = \<lparr>ms_active = False, ms_pending = (found \<noteq> None), ms_done = None, ms_next = 0\<rparr>, tc_store = found,
      tc_start = Idle, tc_sessions = (\<lambda>ch. None)\<rparr>"

text \<open>The record \<open>RecordStartFailure\<close> writes, and the result the dispatcher reports.\<close>

definition failure_record :: "terminal_recovery \<Rightarrow> terminal_recovery" where
  "failure_record r =
     r\<lparr>tr_pending_code := ''TERMINAL_START_FAILED'', tr_pending_message := terminal_message ''TERMINAL_START_FAILED''\<rparr>"

definition failure_result :: "terminal_recovery \<Rightarrow> command_result" where
  "failure_result r =
     \<lparr>cr_lease_token = tr_lease_token r, cr_success = False, cr_code = ''TERMINAL_START_FAILED'',
      cr_message = terminal_message ''TERMINAL_START_FAILED'', cr_details = []\<rparr>"

section \<open>Steps\<close>

abbreviation at_start :: "start_pc \<Rightarrow> terminal_conf \<Rightarrow> terminal_conf" where
  "at_start pc c \<equiv> c\<lparr>tc_start := pc\<rparr>"

abbreviation change :: "(manager_state \<Rightarrow> manager_state) \<Rightarrow> terminal_conf \<Rightarrow> terminal_conf" where
  "change f c \<equiv> c\<lparr>tc_state := f (tc_state c)\<rparr>"

abbreviation at_session :: "nat \<Rightarrow> terminal_recovery \<Rightarrow> session_pc \<Rightarrow> terminal_conf \<Rightarrow> terminal_conf" where
  "at_session ch r pc c \<equiv> c\<lparr>tc_sessions := (tc_sessions c)(ch := Some (r, pc))\<rparr>"

text \<open>The goroutine that starts sessions.\<close>

inductive start_step :: "bool \<Rightarrow> terminal_conf \<Rightarrow> terminal_label \<Rightarrow> terminal_conf \<Rightarrow> bool" for dirty where
  claims: "tc_start c = Idle \<Longrightarrow> start_refused (tc_state c) = None \<Longrightarrow> tr_pending_code r = [] \<Longrightarrow>
    start_step dirty c LInternal (at_start (Claimed (ms_next (tc_state c)) r) (change claim c))"
| refuses: "tc_start c = Idle \<Longrightarrow> start_step dirty c (LRefuse i res b) c"
| saves: "tc_start c = Claimed ch r \<Longrightarrow>
    start_step dirty c (LSave r True) (at_start (Saved ch r) (c\<lparr>tc_store := Some r\<rparr>))"
| save_fails: "tc_start c = Claimed ch r \<Longrightarrow> s \<in> {tc_store c, Some r} \<Longrightarrow>
    start_step dirty c (LSave r False) (at_start (SaveFailed ch r) (c\<lparr>tc_store := s\<rparr>))"
| save_pending: "tc_start c = SaveFailed ch r \<Longrightarrow>
    start_step dirty c LInternal (at_start (RollingBack ch r) (change (set_pending True) c))"
| launches: "tc_start c = Saved ch r \<Longrightarrow>
    start_step dirty c (LLaunch (tr_command_id r) True) (at_start Idle (at_session ch r Waiting c))"
| launch_fails: "tc_start c = Saved ch r \<Longrightarrow>
    start_step dirty c (LLaunch (tr_command_id r) False) (at_start (LaunchFailed ch r) c)"
| clears: "tc_start c = LaunchFailed ch r \<Longrightarrow>
    start_step dirty c (LClear True) (at_start (RollingBack ch r) (c\<lparr>tc_store := None\<rparr>))"
| clear_fails: "tc_start c = LaunchFailed ch r \<Longrightarrow> s \<in> {tc_store c, None} \<Longrightarrow>
    start_step dirty c (LClear False) (at_start (ClearFailed ch r) (c\<lparr>tc_store := s\<rparr>))"
| clear_pending: "tc_start c = ClearFailed ch r \<Longrightarrow>
    start_step dirty c LInternal (at_start (RollingBack ch r) (change (set_pending True) c))"
| rolls_back: "tc_start c = RollingBack ch r \<Longrightarrow>
    start_step dirty c LInternal (at_start (StartFailed r) (change (release ch) c))"
| failure_saves: "tc_start c = StartFailed r \<Longrightarrow>
    start_step dirty c (LSave (failure_record r) True) (at_start (FailureSaved r) (c\<lparr>tc_store := Some (failure_record r)\<rparr>))"
| failure_save_fails: "tc_start c = StartFailed r \<Longrightarrow> s = tc_store c \<or> dirty \<and> s = Some (failure_record r) \<Longrightarrow>
    start_step dirty c (LSave (failure_record r) False) (at_start Idle (c\<lparr>tc_store := s\<rparr>))"
| failure_pending: "tc_start c = FailureSaved r \<Longrightarrow>
    start_step dirty c LInternal (at_start (FailureKept r) (change (set_pending True) c))"
| failure_reports: "tc_start c = FailureKept r \<Longrightarrow>
    start_step dirty c (LReport (tr_command_id r) (failure_result r) True) (at_start (FailureReported r) c)"
| failure_report_fails: "tc_start c = FailureKept r \<Longrightarrow>
    start_step dirty c (LReport (tr_command_id r) (failure_result r) False) (at_start Idle c)"
| failure_clears: "tc_start c = FailureReported r \<Longrightarrow>
    start_step dirty c (LClear True) (at_start FailureCleared (c\<lparr>tc_store := None\<rparr>))"
| failure_clear_fails: "tc_start c = FailureReported r \<Longrightarrow> s \<in> {tc_store c, None} \<Longrightarrow>
    start_step dirty c (LClear False) (at_start Idle (c\<lparr>tc_store := s\<rparr>))"
| failure_done: "tc_start c = FailureCleared \<Longrightarrow>
    start_step dirty c LInternal (at_start Idle (change (set_pending False) c))"
| retries: "tc_start c = Idle \<Longrightarrow> \<not> ms_active (tc_state c) \<Longrightarrow> tc_store c = Some r \<Longrightarrow>
    start_step dirty c LInternal (at_start (RetryFound r) c)"
| retry_empty: "tc_start c = Idle \<Longrightarrow> \<not> ms_active (tc_state c) \<Longrightarrow> tc_store c = None \<Longrightarrow>
    start_step dirty c LInternal (at_start RetryCleared c)"
| retry_reports: "tc_start c = RetryFound r \<Longrightarrow>
    start_step dirty c (LReport (tr_command_id r) (interrupted_result r) True) (at_start (RetryReported r) c)"
| retry_report_fails: "tc_start c = RetryFound r \<Longrightarrow>
    start_step dirty c (LReport (tr_command_id r) (interrupted_result r) False) (at_start Idle c)"
| retry_clears: "tc_start c = RetryReported r \<Longrightarrow>
    start_step dirty c (LClear True) (at_start RetryCleared (c\<lparr>tc_store := None\<rparr>))"
| retry_clear_fails: "tc_start c = RetryReported r \<Longrightarrow> s \<in> {tc_store c, None} \<Longrightarrow>
    start_step dirty c (LClear False) (at_start Idle (c\<lparr>tc_store := s\<rparr>))"
| retry_done: "tc_start c = RetryCleared \<Longrightarrow>
    start_step dirty c LInternal (at_start Idle (change (set_pending False) c))"

text \<open>The goroutine of a session.\<close>

inductive session_step :: "terminal_conf \<Rightarrow> terminal_label \<Rightarrow> terminal_conf \<Rightarrow> bool" where
  completes: "tc_sessions c ch = Some (r, Waiting) \<Longrightarrow>
    session_step c LInternal (at_session ch r (Reporting 3 (session_result r err)) c)"
| reports: "tc_sessions c ch = Some (r, Reporting (Suc n) res) \<Longrightarrow>
    session_step c (LReport (tr_command_id r) res True) (at_session ch r SessionReported c)"
| report_fails: "tc_sessions c ch = Some (r, Reporting (Suc n) res) \<Longrightarrow>
    session_step c (LReport (tr_command_id r) res False) (at_session ch r (if n = 0 then Unreported else Reporting n res) c)"
| session_clears: "tc_sessions c ch = Some (r, SessionReported) \<Longrightarrow>
    session_step c (LClear True) (at_session ch r (SessionCleared False) (c\<lparr>tc_store := None\<rparr>))"
| session_clear_fails: "tc_sessions c ch = Some (r, SessionReported) \<Longrightarrow> s \<in> {tc_store c, None} \<Longrightarrow>
    session_step c (LClear False) (at_session ch r (SessionCleared True) (c\<lparr>tc_store := s\<rparr>))"
| session_cleared: "tc_sessions c ch = Some (r, SessionCleared e) \<Longrightarrow>
    session_step c LInternal (at_session ch r Ending (change (set_pending e) c))"
| session_unreported: "tc_sessions c ch = Some (r, Unreported) \<Longrightarrow>
    session_step c LInternal (at_session ch r Ending (change (set_pending True) c))"
| session_ends: "tc_sessions c ch = Some (r, Ending) \<Longrightarrow>
    session_step c LInternal (change (release ch) (c\<lparr>tc_sessions := (tc_sessions c)(ch := None)\<rparr>))"

inductive terminal_run :: "bool \<Rightarrow> terminal_recovery option \<Rightarrow> terminal_label list \<Rightarrow> terminal_conf \<Rightarrow> bool" for dirty found where
  terminal_begin: "terminal_run dirty found [] (fresh_conf found)"
| terminal_start: "terminal_run dirty found ls c \<Longrightarrow> start_step dirty c l d \<Longrightarrow> terminal_run dirty found (ls @ [l]) d"
| terminal_session: "terminal_run dirty found ls c \<Longrightarrow> session_step c l d \<Longrightarrow> terminal_run dirty found (ls @ [l]) d"

section \<open>The invariant\<close>

definition reported :: "terminal_label list \<Rightarrow> terminal_recovery \<Rightarrow> bool" where
  "reported ls r \<longleftrightarrow> (\<exists>res. LReport (tr_command_id r) res True \<in> set ls)"

definition not_launched :: "terminal_label list \<Rightarrow> terminal_recovery \<Rightarrow> bool" where
  "not_launched ls r \<longleftrightarrow> LLaunch (tr_command_id r) False \<in> set ls"

text \<open>
  The record in the store, if there is one, is a record whose own save reported an error (\<open>unsaved\<close>: it
  is the record of a failed start, and the last calls of its \<open>Save\<close> may fail).
\<close>

definition broken :: "terminal_label list \<Rightarrow> terminal_recovery option \<Rightarrow> bool" where
  "broken ls store = (case store of None \<Rightarrow> True | Some x \<Rightarrow> LSave x False \<in> set ls)"

definition unsaved :: "bool \<Rightarrow> terminal_label list \<Rightarrow> terminal_recovery option \<Rightarrow> bool" where
  "unsaved dirty ls store = (case store of None \<Rightarrow> True | Some x \<Rightarrow> dirty \<and> tr_pending_code x \<noteq> [] \<and> LSave x False \<in> set ls)"

definition start_ok :: "bool \<Rightarrow> terminal_label list \<Rightarrow> terminal_conf \<Rightarrow> bool" where
  "start_ok dirty ls c =
     (let s = tc_state c; store = tc_store c; free = (tc_sessions c = (\<lambda>ch. None));
          failed = (\<lambda>r. (broken ls store \<or> store = Some r \<and> not_launched ls r) \<and> (ms_pending s \<or> unsaved dirty ls store)) in
      case tc_start c of
        Idle \<Rightarrow> (case ms_done s of Some ch \<Rightarrow> tc_sessions c ch \<noteq> None | None \<Rightarrow> free \<and> (ms_pending s \<or> unsaved dirty ls store))
      | Claimed ch r \<Rightarrow> ms_done s = Some ch \<and> free \<and> unsaved dirty ls store
      | SaveFailed ch r \<Rightarrow> ms_done s = Some ch \<and> free \<and> broken ls store
      | Saved ch r \<Rightarrow> ms_done s = Some ch \<and> free \<and> store = Some r
      | LaunchFailed ch r \<Rightarrow> ms_done s = Some ch \<and> free \<and> store = Some r \<and> not_launched ls r
      | ClearFailed ch r \<Rightarrow> ms_done s = Some ch \<and> free \<and> store \<in> {None, Some r} \<and> not_launched ls r
      | RollingBack ch r \<Rightarrow> ms_done s = Some ch \<and> free \<and> failed r
      | StartFailed r \<Rightarrow> ms_done s = None \<and> free \<and> failed r
      | FailureSaved r \<Rightarrow> ms_done s = None \<and> free \<and> store = Some (failure_record r)
      | FailureKept r \<Rightarrow> ms_done s = None \<and> free \<and> store = Some (failure_record r) \<and> ms_pending s
      | FailureReported r \<Rightarrow> ms_done s = None \<and> free \<and> store = Some (failure_record r) \<and> ms_pending s \<and> reported ls r
      | FailureCleared \<Rightarrow> ms_done s = None \<and> free \<and> store = None
      | RetryFound r \<Rightarrow> ms_done s = None \<and> free \<and> store = Some r \<and> (ms_pending s \<or> unsaved dirty ls store)
      | RetryReported r \<Rightarrow> ms_done s = None \<and> free \<and> store = Some r \<and> (ms_pending s \<or> unsaved dirty ls store) \<and> reported ls r
      | RetryCleared \<Rightarrow> ms_done s = None \<and> free \<and> store = None)"

definition session_ok :: "terminal_label list \<Rightarrow> terminal_conf \<Rightarrow> nat \<Rightarrow> terminal_recovery \<Rightarrow> session_pc \<Rightarrow> bool" where
  "session_ok ls c ch r pc =
     (ms_done (tc_state c) = Some ch \<and> tc_start c = Idle \<and>
      (case pc of
         Reporting n res \<Rightarrow> tc_store c = Some r \<and> n \<in> {1..3}
       | SessionReported \<Rightarrow> tc_store c = Some r \<and> reported ls r
       | SessionCleared e \<Rightarrow> tc_store c \<in> {None, Some r} \<and> (e \<or> tc_store c = None)
       | Ending \<Rightarrow> tc_store c \<in> {None, Some r} \<and> (ms_pending (tc_state c) \<or> tc_store c = None)
       | _ \<Rightarrow> tc_store c = Some r))"

definition terminal_inv :: "bool \<Rightarrow> terminal_label list \<Rightarrow> terminal_conf \<Rightarrow> bool" where
  "terminal_inv dirty ls c \<longleftrightarrow>
     (ms_active (tc_state c) \<longleftrightarrow> ms_done (tc_state c) \<noteq> None) \<and> start_ok dirty ls c \<and>
     (\<forall>ch r pc. tc_sessions c ch = Some (r, pc) \<longrightarrow> session_ok ls c ch r pc)"

lemma broken_simps [simp]:
  "broken ls None" "unsaved dirty ls None" "broken ls (Some x) \<longleftrightarrow> LSave x False \<in> set ls"
  "unsaved dirty ls (Some x) \<longleftrightarrow> dirty \<and> tr_pending_code x \<noteq> [] \<and> LSave x False \<in> set ls"
  by (simp_all add: broken_def unsaved_def)

lemma broken_more: "broken ls s \<Longrightarrow> broken (ls @ ks) s" "unsaved dirty ls s \<Longrightarrow> unsaved dirty (ls @ ks) s"
  "unsaved dirty ls s \<Longrightarrow> broken (ls @ ks) s"
  by (auto simp: broken_def unsaved_def split: option.splits)

lemmas inv_defs = terminal_inv_def start_ok_def session_ok_def Let_def

lemma fresh_inv: "terminal_inv dirty [] (fresh_conf found)"
  by (cases found) (simp_all add: inv_defs fresh_conf_def)

lemma reported_more: "reported ls r \<Longrightarrow> reported (ls @ ks) r"
  by (auto simp: reported_def)

lemma not_launched_more: "not_launched ls r \<Longrightarrow> not_launched (ls @ ks) r"
  by (auto simp: not_launched_def)

lemma reported_now [simp]: "reported (ls @ [LReport (tr_command_id r) res True]) r"
  by (auto simp: reported_def)

lemma not_launched_now [simp]: "not_launched (ls @ [LLaunch (tr_command_id r) False]) r"
  by (simp add: not_launched_def)

lemma failure_record_simps [simp]: "tr_command_id (failure_record r) = tr_command_id r" "reported ls (failure_record r) = reported ls r"
  "tr_pending_code (failure_record r) \<noteq> []"
  by (simp_all add: failure_record_def reported_def)

lemmas section_defs = claim_def set_pending_def release_def start_refused_def

lemma no_session: "tc_sessions c = (\<lambda>ch. None) \<Longrightarrow> tc_sessions c ch = Some p \<Longrightarrow> False"
  by simp

lemma session_more: "session_ok ls c ch r pc \<Longrightarrow> session_ok (ls @ ks) c ch r pc"
  by (auto simp: session_ok_def reported_more split: session_pc.splits)

lemma start_more: "start_ok dirty ls c \<Longrightarrow> start_ok dirty (ls @ ks) c"
  by (cases "tc_start c")
     (auto simp: start_ok_def Let_def reported_more not_launched_more broken_more split: option.splits)

lemma inv_more: "terminal_inv dirty ls c \<Longrightarrow> terminal_inv dirty (ls @ ks) c"
  by (simp add: terminal_inv_def start_more session_more)

lemma start_step_inv:
  assumes "start_step dirty c l d" "terminal_inv dirty ls c"
  shows "terminal_inv dirty (ls @ [l]) d"
  using assms
proof cases
  case (launches ch r)
  with assms(2) show ?thesis by (auto simp: inv_defs section_defs)
next
  case (refuses i res b)
  with assms(2) show ?thesis by (simp add: inv_more)
qed (use assms(2) in \<open>auto simp: inv_defs section_defs reported_more not_launched_more broken_more split: if_splits option.splits\<close>)

lemma only_session:
  assumes "terminal_inv dirty ls c" "tc_sessions c ch = Some (r, pc)" "tc_sessions c ch' = Some p"
  shows "ch' = ch"
proof -
  obtain r' pc' where p: "p = (r', pc')" by (cases p)
  have "session_ok ls c ch r pc" "session_ok ls c ch' r' pc'" using assms p by (auto simp: terminal_inv_def)
  then show ?thesis by (simp add: session_ok_def)
qed

lemma session_step_inv:
  assumes "session_step c l d" "terminal_inv dirty ls c"
  shows "terminal_inv dirty (ls @ [l]) d"
proof -
  note inv = assms(2)
  have keep: "terminal_inv dirty (ls @ [l]) d"
    if "tc_sessions c ch = Some (r, pc)" "session_ok ls c ch r pc"
      "tc_sessions d = (tc_sessions c)(ch := Some (r, pc'))" "session_ok (ls @ [l]) d ch r pc'"
      "ms_active (tc_state d) = ms_active (tc_state c)" for ch r pc pc'
  proof -
    have one: "ch' = ch" if "tc_sessions c ch' = Some p" for ch' p
      using only_session [OF inv \<open>tc_sessions c ch = Some (r, pc)\<close> that] .
    have idle: "tc_start d = Idle" "ms_done (tc_state d) = Some ch" "ms_done (tc_state c) = Some ch"
      using that(2,4) by (simp_all add: session_ok_def)
    then have start: "start_ok dirty (ls @ [l]) d" by (simp add: start_ok_def that(3))
    have sessions: "session_ok (ls @ [l]) d ch' r' q" if "tc_sessions d ch' = Some (r', q)" for ch' r' q
    proof (cases "ch' = ch")
      case True
      with that \<open>tc_sessions d = _\<close> \<open>session_ok (ls @ [l]) d ch r pc'\<close> show ?thesis by simp
    next
      case False
      with that \<open>tc_sessions d = _\<close> have "tc_sessions c ch' = Some (r', q)" by simp
      from one [OF this] False show ?thesis by simp
    qed
    have "ms_active (tc_state d) \<longleftrightarrow> ms_done (tc_state d) \<noteq> None"
      using inv that(5) idle by (simp add: terminal_inv_def)
    with start sessions show ?thesis by (simp add: terminal_inv_def)
  qed
  show ?thesis using assms(1)
  proof cases
    case (completes ch r err)
    with inv have "session_ok ls c ch r Waiting" by (simp add: terminal_inv_def)
    with completes show ?thesis
      by (intro keep [where ch = ch and r = r and pc = Waiting and pc' = "Reporting 3 (session_result r err)"]) (auto simp: session_ok_def)
  next
    case (reports ch r n res)
    with inv have "session_ok ls c ch r (Reporting (Suc n) res)" by (simp add: terminal_inv_def)
    with reports show ?thesis
      by (intro keep [where ch = ch and r = r and pc = "Reporting (Suc n) res" and pc' = "SessionReported"]) (auto simp: session_ok_def)
  next
    case (report_fails ch r n res)
    with inv have "session_ok ls c ch r (Reporting (Suc n) res)" by (simp add: terminal_inv_def)
    with report_fails show ?thesis
      by (intro keep [where ch = ch and r = r and pc = "Reporting (Suc n) res" and pc' = "if n = 0 then Unreported else Reporting n res"]) (auto simp: session_ok_def)
  next
    case (session_clears ch r)
    with inv have "session_ok ls c ch r SessionReported" by (simp add: terminal_inv_def)
    with session_clears show ?thesis
      by (intro keep [where ch = ch and r = r and pc = SessionReported and pc' = "SessionCleared False"]) (auto simp: session_ok_def)
  next
    case (session_clear_fails ch r st)
    with inv have "session_ok ls c ch r SessionReported" by (simp add: terminal_inv_def)
    with session_clear_fails show ?thesis
      by (intro keep [where ch = ch and r = r and pc = SessionReported and pc' = "SessionCleared True"]) (auto simp: session_ok_def)
  next
    case (session_cleared ch r e)
    with inv have "session_ok ls c ch r (SessionCleared e)" by (simp add: terminal_inv_def)
    with session_cleared show ?thesis
      by (intro keep [where ch = ch and r = r and pc = "SessionCleared e" and pc' = "Ending"]) (auto simp: session_ok_def set_pending_def)
  next
    case (session_unreported ch r)
    with inv have "session_ok ls c ch r Unreported" by (simp add: terminal_inv_def)
    with session_unreported show ?thesis
      by (intro keep [where ch = ch and r = r and pc = Unreported and pc' = "Ending"]) (auto simp: session_ok_def set_pending_def)
  next
    case (session_ends ch r)
    with inv have s: "session_ok ls c ch r Ending" by (simp add: terminal_inv_def)
    have none: "(tc_sessions c)(ch := None) = (\<lambda>ch. None)"
    proof
      fix x show "((tc_sessions c)(ch := None)) x = None"
        using only_session [OF inv session_ends(3), of x] by (cases "tc_sessions c x") auto
    qed
    have c: "ms_done (tc_state c) = Some ch" "tc_start c = Idle" "ms_pending (tc_state c) \<or> tc_store c = None"
      using s by (simp_all add: session_ok_def)
    have d: "tc_state d = (tc_state c)\<lparr>ms_active := False, ms_done := None\<rparr>" "tc_start d = Idle" "tc_store d = tc_store c"
      "tc_sessions d = (\<lambda>ch. None)"
      using session_ends(2) c none by (simp_all add: release_def)
    have "start_ok dirty (ls @ [l]) d" using c(3) by (auto simp: start_ok_def d)
    then show ?thesis by (simp add: terminal_inv_def d)
  qed
qed

lemma terminal_run_inv: "terminal_run dirty found ls c \<Longrightarrow> terminal_inv dirty ls c"
  by (induction rule: terminal_run.induct) (auto intro: fresh_inv start_step_inv session_step_inv)

text \<open>What is left for the goroutine of a session once the session has ended.\<close>

fun session_left :: "session_pc \<Rightarrow> nat" where
  "session_left Waiting = 7"
| "session_left (Reporting n res) = n + 3"
| "session_left SessionReported = 3"
| "session_left (SessionCleared e) = 2"
| "session_left Unreported = 2"
| "session_left Ending = 1"

definition conf_left :: "terminal_conf \<Rightarrow> nat" where
  "conf_left c = (case ms_done (tc_state c) of None \<Rightarrow> 0
     | Some ch \<Rightarrow> (case tc_sessions c ch of None \<Rightarrow> 0 | Some (r, pc) \<Rightarrow> session_left pc))"

lemma session_step_left:
  assumes "session_step c l d" "terminal_inv dirty ls c"
  shows "conf_left d < conf_left c"
  using assms
proof cases
  case (session_ends ch r)
  with assms(2) have "ms_done (tc_state c) = Some ch" by (auto simp: terminal_inv_def session_ok_def)
  with session_ends show ?thesis by (simp add: conf_left_def release_def)
qed (use assms(2) in \<open>auto simp: terminal_inv_def session_ok_def conf_left_def set_pending_def\<close>)

text \<open>What can happen to the record in the store in one step.\<close>

lemma start_step_store:
  assumes "start_step dirty c l d" "terminal_inv dirty ls c" "tc_store c = Some r" "tc_store d \<noteq> Some r"
  shows "reported ls r \<or> not_launched ls r \<or> LSave r False \<in> set ls"
  using assms
  by cases (auto simp: inv_defs split: if_splits option.splits)

lemma session_inv: "terminal_inv dirty ls c \<Longrightarrow> tc_sessions c ch = Some (r, pc) \<Longrightarrow> session_ok ls c ch r pc"
  by (simp add: terminal_inv_def)

lemma session_step_store:
  assumes "session_step c l d" "terminal_inv dirty ls c" "tc_store c = Some r" "tc_store d \<noteq> Some r"
  shows "reported ls r"
  using assms(1)
proof cases
  case (session_clears ch q)
  with session_inv [OF assms(2), of ch q] assms(3) show ?thesis by (simp add: session_ok_def)
next
  case (session_clear_fails ch q s)
  with session_inv [OF assms(2), of ch q] assms(3) show ?thesis by (simp add: session_ok_def)
qed (use assms(3,4) in auto)

end
