(* ===== verification/TerminalRefine.thy ===== *)
theory TerminalRefine
  imports TerminalSteps
begin

text \<open>
  The code of the manager and of the dispatcher's \<open>dispatchTerminal\<close> takes the steps of \<open>TerminalSteps\<close>. The
  world is a configuration with a list of answers for the calls that may fail: whether the call succeeds,
  and, for a failed call on the store, whether it took effect; and a log of the calls. Waiting for a session
  that was closed runs its goroutine to the end, or times out.
\<close>

section \<open>A world\<close>

record sim =
  sm_conf :: terminal_conf
  sm_answers :: "(bool \<times> bool) list"
  sm_log :: "terminal_label list"

definition answer :: "sim \<Rightarrow> bool \<times> bool" where
  "answer w = (case sm_answers w of [] \<Rightarrow> (True, False) | a # as \<Rightarrow> a)"

definition called :: "terminal_label \<Rightarrow> (terminal_conf \<Rightarrow> terminal_conf) \<Rightarrow> sim \<Rightarrow> sim" where
  "called l f w = \<lparr>sm_conf = f (sm_conf w), sm_answers = tl (sm_answers w), sm_log = sm_log w @ [l]\<rparr>"

definition sim_store :: "(bool \<Rightarrow> terminal_label) \<Rightarrow> terminal_recovery option \<Rightarrow> sim err_op" where
  "sim_store l new w =
     (case answer w of
        (True, dirty) \<Rightarrow> (None, called (l True) (\<lambda>c. c\<lparr>tc_store := new\<rparr>) w)
      | (False, dirty) \<Rightarrow> (Some ContextCanceled, called (l False) (\<lambda>c. if dirty then c\<lparr>tc_store := new\<rparr> else c) w))"

definition sim_call :: "(bool \<Rightarrow> terminal_label) \<Rightarrow> sim err_op" where
  "sim_call l w = (if fst (answer w) then None else Some ContextDeadlineExceeded, called (l (fst (answer w))) id w)"

definition sim_terminal0 :: "gotime \<Rightarrow> sim terminal" where
  "sim_terminal0 now =
     \<lparr>te_state = (\<lambda>w. tc_state (sm_conf w)), te_set = (\<lambda>s w. w\<lparr>sm_conf := (sm_conf w)\<lparr>tc_state := s\<rparr>\<rparr>),
      te_load = (\<lambda>w. (Inr (tc_store (sm_conf w)), w)), te_save = (\<lambda>r. sim_store (LSave r) (Some r)), te_clear = sim_store LClear None,
      te_launch = (\<lambda>ch c w. case sim_call (LLaunch (cmd_id c)) w of (e, w') \<Rightarrow> ((e = None, e), w')),
      te_await = (\<lambda>ch r w. ((), w\<lparr>sm_conf := at_session ch r Waiting (sm_conf w)\<rparr>)),
      te_finish = (\<lambda>i res. sim_call (LReport i res)), te_now = (\<lambda>w. (now, w)), te_sleep = (\<lambda>w. ((), w)), te_cancel = (\<lambda>ch w. ((), w)),
      te_wait = (\<lambda>ch w. (None, w))\<rparr>"

definition drop_session :: "nat \<Rightarrow> sim \<Rightarrow> sim" where
  "drop_session ch w = w\<lparr>sm_conf := (sm_conf w)\<lparr>tc_sessions := (tc_sessions (sm_conf w))(ch := None)\<rparr>\<rparr>"

definition sim_wait :: "gotime \<Rightarrow> nat \<Rightarrow> sim err_op" where
  "sim_wait now ch w =
     (case (fst (answer w), tc_sessions (sm_conf w) ch) of
        (True, Some (r, Waiting)) \<Rightarrow>
          (None, drop_session ch (snd (await_completion (sim_terminal0 now) ch r (Some ContextCanceled) w)))
      | q \<Rightarrow> (Some ContextDeadlineExceeded, w))"

definition sim_terminal :: "gotime \<Rightarrow> sim terminal" where
  "sim_terminal now = (sim_terminal0 now)\<lparr>te_wait := sim_wait now\<rparr>"

section \<open>Traces\<close>

definition visible :: "terminal_label \<Rightarrow> terminal_label list" where
  "visible l = (if l = LInternal then [] else [l])"

lemma visible_simps [simp]: "visible LInternal = []" "visible (LSave r b) = [LSave r b]" "visible (LLaunch i b) = [LLaunch i b]"
  "visible (LReport i x b) = [LReport i x b]" "visible (LClear b) = [LClear b]"
  "visible (LRefuse i x b) = [LRefuse i x b]"
  by (simp_all add: visible_def)

inductive terminal_trace :: "bool \<Rightarrow> terminal_conf \<Rightarrow> terminal_label list \<Rightarrow> terminal_conf \<Rightarrow> bool" for dirty where
  trace_nil: "terminal_trace dirty c [] c"
| trace_start: "start_step dirty c l d \<Longrightarrow> terminal_trace dirty d ls e \<Longrightarrow> terminal_trace dirty c (visible l @ ls) e"
| trace_session: "session_step c l d \<Longrightarrow> terminal_trace dirty d ls e \<Longrightarrow> terminal_trace dirty c (visible l @ ls) e"

lemma trace_append: "terminal_trace dirty c ls d \<Longrightarrow> terminal_trace dirty d ks e \<Longrightarrow> terminal_trace dirty c (ls @ ks) e"
  by (induction rule: terminal_trace.induct) (auto intro: terminal_trace.intros)

lemma trace_run:
  "terminal_trace dirty c ks d \<Longrightarrow> terminal_run dirty found ls c \<Longrightarrow>
   \<exists>js. terminal_run dirty found (ls @ js) d \<and> concat (map visible js) = ks"
proof (induction arbitrary: ls rule: terminal_trace.induct)
  case (trace_nil c)
  then show ?case by (intro exI [of _ "[]"]) simp
next
  case (trace_start c l d ks e)
  from trace_start.IH [OF terminal_start [OF trace_start.prems trace_start.hyps(1)]]
  obtain js where "terminal_run dirty found ((ls @ [l]) @ js) e" "concat (map visible js) = ks" by blast
  then show ?case by (intro exI [of _ "l # js"]) simp
next
  case (trace_session c l d ks e)
  from trace_session.IH [OF terminal_session [OF trace_session.prems trace_session.hyps(1)]]
  obtain js where "terminal_run dirty found ((ls @ [l]) @ js) e" "concat (map visible js) = ks" by blast
  then show ?case by (intro exI [of _ "l # js"]) simp
qed

lemma one_session: "session_step c l d \<Longrightarrow> ls = visible l \<Longrightarrow> terminal_trace dirty c ls d"
  using trace_session [OF _ trace_nil] by fastforce

lemma one_start: "start_step dirty c l d \<Longrightarrow> ls = visible l \<Longrightarrow> terminal_trace dirty c ls d"
  using trace_start [OF _ trace_nil] by fastforce

lemma first_start: "start_step dirty c l d \<Longrightarrow> terminal_trace dirty d ls e \<Longrightarrow> ks = visible l @ ls \<Longrightarrow> terminal_trace dirty c ks e"
  by (simp add: trace_start)

lemma first_session: "session_step c l d \<Longrightarrow> terminal_trace dirty d ls e \<Longrightarrow> ks = visible l @ ls \<Longrightarrow> terminal_trace dirty c ks e"
  by (simp add: trace_session)

section \<open>The goroutine of a session\<close>

lemma sim0_finish: "te_finish (sim_terminal0 now) i res w =
    (if fst (answer w) then None else Some ContextDeadlineExceeded, called (LReport i res (fst (answer w))) id w)"
  by (simp add: sim_terminal0_def sim_call_def)

lemma sim0_sleep: "te_sleep (sim_terminal0 now) w = ((), w)"
  by (simp add: sim_terminal0_def)

lemma called_simps [simp]: "sm_conf (called l f w) = f (sm_conf w)" "sm_log (called l f w) = sm_log w @ [l]"
  by (simp_all add: called_def)

lemma report_trace:
  assumes "report_attempts (sim_terminal0 now) (tr_command_id r) res n w = (b, w')" "0 < n"
    "tc_sessions c ch = Some (r, Reporting n res)"
  shows "sm_conf w' = sm_conf w \<and> (\<exists>ls. sm_log w' = sm_log w @ ls \<and>
    terminal_trace dirty c ls (at_session ch r (if b then SessionReported else Unreported) c))"
  using assms
proof (induction n arbitrary: w c)
  case (Suc n)
  let ?ok = "fst (answer w)" and ?w = "called (LReport (tr_command_id r) res (fst (answer w))) id w"
  consider "?ok" "b" "w' = ?w" | "\<not> ?ok" "n = 0" "\<not> b" "w' = ?w"
    | "\<not> ?ok" "0 < n" "report_attempts (sim_terminal0 now) (tr_command_id r) res n ?w = (b, w')"
    using Suc.prems(1) by (auto simp: op_bind_def op_return_def sim0_finish sim0_sleep split: if_splits)
  then show ?case
  proof cases
    case 1
    have "terminal_trace dirty c [LReport (tr_command_id r) res True] (at_session ch r SessionReported c)"
      by (rule one_session [OF reports [OF Suc.prems(3)]]) simp
    with 1 show ?thesis by (simp del: fun_upd_apply)
  next
    case 2
    have "session_step c (LReport (tr_command_id r) res False) (at_session ch r Unreported c)"
      using report_fails [OF Suc.prems(3)] 2(2) by simp
    from one_session [OF this] have "terminal_trace dirty c [LReport (tr_command_id r) res False] (at_session ch r Unreported c)"
      by simp
    with 2 show ?thesis by (simp del: fun_upd_apply)
  next
    case 3
    let ?c = "at_session ch r (Reporting n res) c"
    have step: "session_step c (LReport (tr_command_id r) res False) ?c"
      using report_fails [OF Suc.prems(3)] 3(2) by simp
    have "tc_sessions ?c ch = Some (r, Reporting n res)" by simp
    from Suc.IH [OF 3(3,2) this] obtain ls where ls: "sm_conf w' = sm_conf ?w" "sm_log w' = sm_log ?w @ ls"
      "terminal_trace dirty ?c ls (at_session ch r (if b then SessionReported else Unreported) ?c)" by blast
    from first_session [OF step ls(3)] ls(1,2) 3(1) show ?thesis by (simp del: fun_upd_apply)
  qed
qed simp

text \<open>The whole of \<open>awaitCompletion\<close>.\<close>

definition clean_conf :: "terminal_conf \<Rightarrow> nat \<Rightarrow> terminal_conf" where
  "clean_conf c ch = c\<lparr>tc_sessions := (tc_sessions c)(ch := None)\<rparr>"

lemma sim0_clear: "te_clear (sim_terminal0 now) = sim_store LClear None"
  by (simp add: sim_terminal0_def)

lemma sim0_modify: "modify (sim_terminal0 now) f w = ((), w\<lparr>sm_conf := change f (sm_conf w)\<rparr>)"
  by (simp add: sim_terminal0_def modify_def)

lemma sim_store_cases:
  assumes "sim_store l new w = (e, w')"
  obtains (ok) "e = None" "sm_conf w' = (sm_conf w)\<lparr>tc_store := new\<rparr>" "sm_log w' = sm_log w @ [l True]"
  | (fails) s where "e = Some ContextCanceled" "s \<in> {tc_store (sm_conf w), new}" "sm_conf w' = (sm_conf w)\<lparr>tc_store := s\<rparr>" "sm_log w' = sm_log w @ [l False]"
proof (cases "answer w")
  case (Pair b dirty)
  show thesis
  proof (cases b)
    case True
    with Pair assms show thesis by (intro ok) (auto simp: sim_store_def)
  next
    case False
    with Pair assms show thesis
      by (intro fails [of "if dirty then new else tc_store (sm_conf w)"]) (auto simp: sim_store_def)
  qed
qed

lemma await_trace:
  assumes "await_completion (sim_terminal0 now) ch r err w = ((), w')" "tc_sessions (sm_conf w) ch = Some (r, Waiting)"
  shows "tc_start (sm_conf w') = tc_start (sm_conf w) \<and>
    (\<exists>ls. sm_log w' = sm_log w @ ls \<and> terminal_trace dirty (sm_conf w) ls (clean_conf (sm_conf w') ch))"
proof -
  let ?c = "sm_conf w" and ?res = "session_result r err"
  let ?c1 = "at_session ch r (Reporting 3 ?res) ?c"
  obtain b w1 where rep: "report_attempts (sim_terminal0 now) (tr_command_id r) ?res 3 w = (b, w1)" by (metis prod.collapse)
  have "tc_sessions ?c1 ch = Some (r, Reporting 3 ?res)" by simp
  from report_trace [OF rep _ this, of dirty] obtain ls1 where w1: "sm_conf w1 = ?c" "sm_log w1 = sm_log w @ ls1"
    and t1: "terminal_trace dirty ?c1 ls1 (at_session ch r (if b then SessionReported else Unreported) ?c1)" by auto
  let ?c2 = "at_session ch r (if b then SessionReported else Unreported) ?c"
  have t: "terminal_trace dirty ?c ls1 ?c2"
    using first_session [OF completes [OF assms(2), of err] t1] by simp
  have ends: "terminal_trace dirty (at_session ch r Ending c) [] (clean_conf (change (release ch) c) ch)" for c
  proof (rule one_session)
    have "tc_sessions (at_session ch r Ending c) ch = Some (r, Ending)" by simp
    note session_ends [OF this]
    moreover have "change (release ch) ((at_session ch r Ending c)\<lparr>tc_sessions := (tc_sessions (at_session ch r Ending c))(ch := None)\<rparr>)
        = clean_conf (change (release ch) c) ch"
      by (cases c) (simp add: clean_conf_def)
    ultimately show "session_step (at_session ch r Ending c) LInternal (clean_conf (change (release ch) c) ch)" by simp
  qed simp
  show ?thesis
  proof (cases b)
    case True
    obtain e w2 where cl: "sim_store LClear None w1 = (e, w2)" by (metis prod.collapse)
    have run: "w' = w2\<lparr>sm_conf := change (release ch) (change (set_pending (e \<noteq> None)) (sm_conf w2))\<rparr>"
      using assms(1) rep True cl by (simp add: await_completion_def op_bind_def sim0_clear sim0_modify)
    have c2: "tc_sessions ?c2 ch = Some (r, SessionReported)" using True by simp
    obtain k where k: "sm_log w2 = sm_log w1 @ [k]" "terminal_trace dirty ?c2 [k] (at_session ch r (SessionCleared (e \<noteq> None)) (sm_conf w2))"
      "tc_start (sm_conf w2) = tc_start (sm_conf w1)"
    proof (rule sim_store_cases [OF cl])
      assume e: "e = None" "sm_conf w2 = (sm_conf w1)\<lparr>tc_store := None\<rparr>" "sm_log w2 = sm_log w1 @ [LClear True]"
      have "terminal_trace dirty ?c2 [LClear True] (at_session ch r (SessionCleared False) (?c2\<lparr>tc_store := None\<rparr>))"
        by (rule one_session [OF session_clears [OF c2]]) simp
      with e w1 show thesis by (intro that [of "LClear True"]) simp_all
    next
      fix s assume e: "e = Some ContextCanceled" "s \<in> {tc_store (sm_conf w1), None}" "sm_conf w2 = (sm_conf w1)\<lparr>tc_store := s\<rparr>" "sm_log w2 = sm_log w1 @ [LClear False]"
      have "terminal_trace dirty ?c2 [LClear False] (at_session ch r (SessionCleared True) (?c2\<lparr>tc_store := s\<rparr>))"
        by (rule one_session [OF session_clear_fails [OF c2]]) (use e(2) w1 in simp_all)
      with e w1 show thesis by (intro that [of "LClear False"]) simp_all
    qed
    have "terminal_trace dirty (at_session ch r (SessionCleared (e \<noteq> None)) (sm_conf w2)) []
        (at_session ch r Ending (change (set_pending (e \<noteq> None)) (sm_conf w2)))"
      using one_session [OF session_cleared [of "at_session ch r (SessionCleared (e \<noteq> None)) (sm_conf w2)" ch r "e \<noteq> None"]] by simp
    from trace_append [OF t trace_append [OF k(2) trace_append [OF this ends]]] k(1) w1(2) run
    show ?thesis using k(3) w1(1) by (intro conjI exI [of _ "ls1 @ [k]"]) simp_all
  next
    case False
    have run: "w' = w1\<lparr>sm_conf := change (release ch) (change (set_pending True) (sm_conf w1))\<rparr>"
      using assms(1) rep False by (simp add: await_completion_def op_bind_def sim0_modify)
    have "terminal_trace dirty ?c2 [] (at_session ch r Ending (change (set_pending True) ?c))"
      using one_session [OF session_unreported [of ?c2 ch r]] False by simp
    from trace_append [OF t trace_append [OF this ends]] w1 run
    show ?thesis by (intro conjI exI [of _ ls1]) simp_all
  qed
qed

section \<open>Starting a session\<close>

lemma sim_simps:
  "te_state (sim_terminal now) w = tc_state (sm_conf w)" "te_set (sim_terminal now) s w = w\<lparr>sm_conf := (sm_conf w)\<lparr>tc_state := s\<rparr>\<rparr>"
  "te_save (sim_terminal now) r = sim_store (LSave r) (Some r)" "te_clear (sim_terminal now) = sim_store LClear None"
  "te_launch (sim_terminal now) ch c w = (case sim_call (LLaunch (cmd_id c)) w of (e, w') \<Rightarrow> ((e = None, e), w'))"
  "te_await (sim_terminal now) ch r w = ((), w\<lparr>sm_conf := at_session ch r Waiting (sm_conf w)\<rparr>)"
  "te_finish (sim_terminal now) i res = sim_call (LReport i res)" "te_now (sim_terminal now) w = (now, w)"
  "te_cancel (sim_terminal now) ch w = ((), w)" "te_wait (sim_terminal now) = sim_wait now"
  by (simp_all add: sim_terminal_def sim_terminal0_def)

lemma sim_modify: "modify (sim_terminal now) f w = ((), w\<lparr>sm_conf := change f (sm_conf w)\<rparr>)"
  by (simp add: sim_simps modify_def)

lemma sim_rollback: "rollback_start (sim_terminal now) ch w = ((), w\<lparr>sm_conf := change (release ch) (sm_conf w)\<rparr>)"
  by (simp add: rollback_start_def op_bind_def sim_simps sim_modify)

text \<open>
  What a start has done: it ended as it began, or with a session more, or it failed after it had
  claimed the session.
\<close>

definition start_outcome :: "command \<Rightarrow> sim \<Rightarrow> goerr option \<Rightarrow> sim \<Rightarrow> bool" where
  "start_outcome c w x w' \<longleftrightarrow>
     (\<exists>e. x = Some (TerminalError e) \<and> terminal_code (TerminalError e) \<noteq> ''TERMINAL_START_FAILED'' \<and> w' = w) \<or>
     (\<exists>r ls pc. start_record_of c = Some r \<and> sm_log w' = sm_log w @ ls \<and>
        terminal_trace True (sm_conf w) ls (at_start pc (sm_conf w')) \<and> tc_start (sm_conf w') = Idle \<and>
        (x = None \<and> pc = Idle \<or> (\<exists>e. x = Some e \<and> terminal_code e = ''TERMINAL_START_FAILED'') \<and> pc = StartFailed r))"

lemma launch_trace:
  assumes "launch_session (sim_terminal now) c r ch w = (x, w')" "tr_command_id r = cmd_id c" "tc_start (sm_conf w) = Idle"
  shows "\<exists>ls pc. sm_log w' = sm_log w @ ls \<and> terminal_trace True (at_start (Saved ch r) (sm_conf w)) ls (at_start pc (sm_conf w')) \<and>
    tc_start (sm_conf w') = Idle \<and>
    (x = None \<and> pc = Idle \<or> (\<exists>e. x = Some e \<and> terminal_code e = ''TERMINAL_START_FAILED'') \<and> pc = StartFailed r)"
proof (cases "fst (answer w)")
  case True
  let ?w = "called (LLaunch (cmd_id c) True) id w"
  have run: "x = None" "w' = ?w\<lparr>sm_conf := at_session ch r Waiting (sm_conf w)\<rparr>"
    using assms(1) True by (auto simp: launch_session_def op_bind_def op_return_def sim_simps sim_call_def)
  have "terminal_trace True (at_start (Saved ch r) (sm_conf w)) [LLaunch (cmd_id c) True] (at_start Idle (at_session ch r Waiting (at_start (Saved ch r) (sm_conf w))))"
    using one_start [OF launches [of "at_start (Saved ch r) (sm_conf w)" ch r True]] assms(2) by simp
  moreover have "at_start Idle (at_session ch r Waiting (at_start (Saved ch r) (sm_conf w))) = at_session ch r Waiting (sm_conf w)"
    using assms(3) by (cases "sm_conf w") simp
  ultimately show ?thesis
    using run assms(3) by (intro exI [of _ "[LLaunch (cmd_id c) True]"] exI [of _ Idle]) (simp del: fun_upd_apply)
next
  case False
  let ?c = "sm_conf w" and ?w = "called (LLaunch (cmd_id c) False) id w"
  have fail: "terminal_trace True (at_start (Saved ch r) ?c) [LLaunch (cmd_id c) False] (at_start (LaunchFailed ch r) ?c)"
    using one_start [OF launch_fails [of "at_start (Saved ch r) ?c" ch r True]] assms(2) by simp
  have undone: "terminal_trace True (at_start (RollingBack ch r) k) [] (at_start (StartFailed r) (change (release ch) k))" for k
    using one_start [OF rolls_back [of "at_start (RollingBack ch r) k" ch r True]] by (cases k) simp
  obtain e w1 where cl: "sim_store LClear None ?w = (e, w1)" by (metis prod.collapse)
  show ?thesis
    using cl
  proof (cases rule: sim_store_cases)
    case ok
    have run: "x = Some (TerminalError ''TERMINAL_START_FAILED'')" "w' = w1\<lparr>sm_conf := change (release ch) (sm_conf w1)\<rparr>"
      using assms(1) False cl ok
      by (auto simp: launch_session_def op_bind_def op_return_def sim_simps sim_call_def sim_rollback)
    have "terminal_trace True (at_start (LaunchFailed ch r) ?c) [LClear True] (at_start (RollingBack ch r) (sm_conf w1))"
      using one_start [OF clears [of "at_start (LaunchFailed ch r) ?c" ch r True]] ok(2) by (cases "?c") simp
    from trace_append [OF fail trace_append [OF this undone]] ok run assms(3)
    show ?thesis
      by (intro exI [of _ "[LLaunch (cmd_id c) False, LClear True]"] exI [of _ "StartFailed r"])
         (simp add: terminal_code_def terminal_codes_def)
  next
    case (fails s)
    then have y: "e = Some ContextCanceled" by simp
    have run: "x = Some (Plain ''launch terminal session and clear recovery failed'')"
      "w' = w1\<lparr>sm_conf := change (release ch) (change (set_pending True) (sm_conf w1))\<rparr>"
      using assms(1) False cl y
      by (auto simp: launch_session_def op_bind_def op_return_def sim_simps sim_call_def sim_rollback sim_modify)
    have "terminal_trace True (at_start (LaunchFailed ch r) ?c) [LClear False] (at_start (ClearFailed ch r) (sm_conf w1))"
      using one_start [OF clear_fails [of "at_start (LaunchFailed ch r) ?c" ch r s True]] fails(2,3) by (cases "?c") simp
    moreover have "terminal_trace True (at_start (ClearFailed ch r) k) [] (at_start (RollingBack ch r) (change (set_pending True) k))" for k
      using one_start [OF clear_pending [of "at_start (ClearFailed ch r) k" ch r True]] by (cases k) simp
    ultimately have "terminal_trace True (at_start (Saved ch r) ?c) [LLaunch (cmd_id c) False, LClear False]
        (at_start (StartFailed r) (change (release ch) (change (set_pending True) (sm_conf w1))))"
      using trace_append [OF fail trace_append [OF _ trace_append [OF _ undone]]] by fastforce
    with fails run assms(3) show ?thesis
      by (intro exI [of _ "[LLaunch (cmd_id c) False, LClear False]"] exI [of _ "StartFailed r"])
         (simp add: terminal_code_def terminal_codes_def)
  qed
qed

lemma kept_codes:
  "terminal_code (TerminalError ''TERMINAL_ALREADY_ACTIVE'') \<noteq> ''TERMINAL_START_FAILED''"
  "terminal_code (TerminalError ''TERMINAL_RECOVERY_PENDING'') \<noteq> ''TERMINAL_START_FAILED''"
  "terminal_code (TerminalError ''TERMINAL_COMMAND_INVALID'') \<noteq> ''TERMINAL_START_FAILED''"
  "terminal_code (TerminalError ''TERMINAL_COMMAND_EXPIRED'') \<noteq> ''TERMINAL_START_FAILED''"
  by (simp_all add: terminal_code_def terminal_codes_def)

lemma sim_begin:
  "begin_session (sim_terminal now) c r w =
     (case start_refused (tc_state (sm_conf w)) of
        Some e \<Rightarrow> (Inl e, w)
      | None \<Rightarrow>
          if start_expired c r now then (Inl (TerminalError ''TERMINAL_COMMAND_EXPIRED''), w)
          else (Inr (ms_next (tc_state (sm_conf w))), w\<lparr>sm_conf := change claim (sm_conf w)\<rparr>))"
  by (simp add: begin_session_def op_bind_def op_return_def look_state_def sim_simps sim_modify split: option.split)

lemma start_trace:
  assumes "manager_start (sim_terminal now) c w = (x, w')" "tc_start (sm_conf w) = Idle"
  shows "start_outcome c w x w'"
proof -
  let ?c = "sm_conf w"
  have refused: "start_outcome c w x w'" if "x = Some (TerminalError e)" "terminal_code (TerminalError e) \<noteq> ''TERMINAL_START_FAILED''" "w' = w" for e
    using that by (auto simp: start_outcome_def)
  show ?thesis
  proof (cases "start_record_of c")
    case None
    with assms(1) show ?thesis by (intro refused [of "''TERMINAL_COMMAND_INVALID''"]) (simp_all add: manager_start_def op_return_def kept_codes)
  next
    case (Some r)
    then have r: "tr_pending_code r = []" "tr_command_id r = cmd_id c"
      by (auto simp: start_record_of_def recovery_of_def split: if_splits option.splits)
    show ?thesis
    proof (cases "start_expired c r now")
      case True
      with assms(1) Some show ?thesis
        by (intro refused [of "''TERMINAL_COMMAND_EXPIRED''"])
           (simp_all add: manager_start_def op_return_def op_bind_def sim_simps kept_codes)
    next
      case fresh: False
      show ?thesis
      proof (cases "start_refused (tc_state ?c)")
        case (Some e)
        with assms(1) \<open>start_record_of c = Some r\<close> fresh have "x = Some e" "w' = w"
          by (simp_all add: manager_start_def op_return_def op_bind_def try_res_def sim_simps sim_begin same_def)
        moreover obtain n where "e = TerminalError n" "terminal_code (TerminalError n) \<noteq> ''TERMINAL_START_FAILED''"
          using Some kept_codes by (auto simp: start_refused_def split: if_splits)
        ultimately show ?thesis by (intro refused) simp_all
      next
        case None
        let ?ch = "ms_next (tc_state ?c)" and ?w = "w\<lparr>sm_conf := change claim ?c\<rparr>"
        have claimed: "terminal_trace True ?c [] (at_start (Claimed ?ch r) (change claim ?c))"
          using one_start [OF claims [OF assms(2) None r(1), of True]] by simp
        obtain e w1 where sv: "sim_store (LSave r) (Some r) ?w = (e, w1)" by (metis prod.collapse)
        have run: "manager_start (sim_terminal now) c w = (case e of
             Some y \<Rightarrow> (Some (wrap ''persist terminal recovery: '' y), w1\<lparr>sm_conf := change (release ?ch) (change (set_pending True) (sm_conf w1))\<rparr>)
           | None \<Rightarrow> launch_session (sim_terminal now) c r ?ch w1)"
          using \<open>start_record_of c = Some r\<close> fresh None sv
          by (simp add: manager_start_def op_return_def op_bind_def try_res_def sim_simps sim_begin sim_modify sim_rollback split: option.split)
        show ?thesis
          using sv
        proof (cases rule: sim_store_cases)
          case ok
          have save: "terminal_trace True (at_start (Claimed ?ch r) (change claim ?c)) [LSave r True] (at_start (Saved ?ch r) (sm_conf w1))"
            using one_start [OF saves [of "at_start (Claimed ?ch r) (change claim ?c)" ?ch r True]] ok(2) by (cases "?c") simp
          have "launch_session (sim_terminal now) c r ?ch w1 = (x, w')" using run assms(1) ok by simp
          moreover have "tc_start (sm_conf w1) = Idle" using ok(2) assms(2) by simp
          ultimately obtain ls pc where l: "sm_log w' = sm_log w1 @ ls" "tc_start (sm_conf w') = Idle"
            "terminal_trace True (at_start (Saved ?ch r) (sm_conf w1)) ls (at_start pc (sm_conf w'))"
            "x = None \<and> pc = Idle \<or> (\<exists>e. x = Some e \<and> terminal_code e = ''TERMINAL_START_FAILED'') \<and> pc = StartFailed r"
            using launch_trace r(2) by blast
          from trace_append [OF claimed trace_append [OF save l(3)]] l ok(3)
          show ?thesis using \<open>start_record_of c = Some r\<close> by (auto simp: start_outcome_def)
        next
          case (fails s)
          then have y: "e = Some ContextCanceled" by simp
          have out: "x = Some (wrap ''persist terminal recovery: '' ContextCanceled)" "w' = w1\<lparr>sm_conf := change (release ?ch) (change (set_pending True) (sm_conf w1))\<rparr>"
            using run assms(1) y by simp_all
          have save: "terminal_trace True (at_start (Claimed ?ch r) (change claim ?c)) [LSave r False] (at_start (SaveFailed ?ch r) (sm_conf w1))"
            using one_start [OF save_fails [of "at_start (Claimed ?ch r) (change claim ?c)" ?ch r s True]] fails(2,3) by (cases "?c") simp
          have pend: "terminal_trace True (at_start (SaveFailed ?ch r) k) [] (at_start (RollingBack ?ch r) (change (set_pending True) k))" for k
            using one_start [OF save_pending [of "at_start (SaveFailed ?ch r) k" ?ch r True]] by (cases k) simp
          have undone: "terminal_trace True (at_start (RollingBack ?ch r) k) [] (at_start (StartFailed r) (change (release ?ch) k))" for k
            using one_start [OF rolls_back [of "at_start (RollingBack ?ch r) k" ?ch r True]] by (cases k) simp
          have "terminal_trace True ?c [LSave r False] (at_start (StartFailed r) (sm_conf w'))"
            using trace_append [OF claimed trace_append [OF save trace_append [OF pend undone]]] out(2) by simp
          moreover have "terminal_code (wrap ''persist terminal recovery: '' ContextCanceled) = ''TERMINAL_START_FAILED''"
            by (simp add: terminal_code_def wrap_def)
          ultimately show ?thesis using out fails(3,4) assms(2) \<open>start_record_of c = Some r\<close> by (auto simp: start_outcome_def)
        qed
      qed
    qed
  qed
qed

section \<open>The dispatcher\<close>

definition sim_dispatcher :: "gotime \<Rightarrow> sim dispatcher" where
  "sim_dispatcher now =
     \<lparr>d_start = (\<lambda>i l w. (if fst (answer w) then None else Some ContextCanceled, w\<lparr>sm_answers := tl (sm_answers w)\<rparr>)),
      d_finish = (\<lambda>i res. sim_call (if cr_code res = ''TERMINAL_START_FAILED'' then LReport i res else LRefuse i res)),
      d_shutdown = (\<lambda>w. (None, w)), d_load = (\<lambda>w. (Inr None, w)), d_save = (\<lambda>s w. (None, w)), d_clear = (\<lambda>w. (None, w)),
      d_executor = None, d_grant = None, d_terminal = Some (manager_interface (sim_terminal now)), d_upgrade = None, d_image = None,
      d_transfer = None, d_model = None, d_inventory = None,
      d_bash = (\<lambda>s w. (([], None), w)), d_now = (\<lambda>w. (now, w)), d_ref_ok = (\<lambda>s. None)\<rparr>"

definition goes :: "sim \<Rightarrow> start_pc \<Rightarrow> sim \<Rightarrow> start_pc \<Rightarrow> bool" where
  "goes w pc w' pc' \<longleftrightarrow> (\<exists>ls. sm_log w' = sm_log w @ ls \<and> terminal_trace True (at_start pc (sm_conf w)) ls (at_start pc' (sm_conf w')))"

lemma idle_conf: "tc_start k = Idle \<Longrightarrow> at_start Idle k = k"
  by (cases k) simp

lemma goes_refl: "goes w pc w pc"
  by (auto simp: goes_def intro: trace_nil)

lemma goes_trans: "goes w pc w' pc' \<Longrightarrow> goes w' pc' w'' pc'' \<Longrightarrow> goes w pc w'' pc''"
  unfolding goes_def by (metis append.assoc trace_append)

lemma goes_one:
  "start_step True (at_start pc (sm_conf w)) l (at_start pc' (sm_conf w')) \<Longrightarrow> sm_log w' = sm_log w @ visible l \<Longrightarrow> goes w pc w' pc'"
  unfolding goes_def using one_start by blast

lemma failure_goes:
  assumes "report_start_failure (sim_dispatcher now) (manager_interface (sim_terminal now)) c e w = (x, w')"
    "start_record_of c = Some r" "terminal_code e = ''TERMINAL_START_FAILED''"
  shows "goes w (StartFailed r) w' Idle \<and> tc_start (sm_conf w') = tc_start (sm_conf w)"
proof -
  let ?f = "failure_record r" and ?k = "sm_conf w" and ?g = "sim_terminal now"
  from assms(2) obtain p where p: "cmd_terminal c = Some p" "r = recovery_of c p" "validate_recovery r = None"
    by (auto simp: start_record_of_def split: if_splits option.splits)
  have fields: "tr_session_id ?f = tr_session_id r" "tr_command_id ?f = tr_command_id r" "tr_lease_token ?f = tr_lease_token r"
    "tr_connection_deadline ?f = tr_connection_deadline r" "tr_expires_at ?f = tr_expires_at r"
    by (simp_all add: failure_record_def)
  have "validate_recovery ?f = validate_recovery r" by (simp only: validate_recovery_def fields)
  with p(3) have v: "validate_recovery ?f = None" by simp
  have f: "(recovery_of c p)\<lparr>tr_pending_code := ''TERMINAL_START_FAILED'', tr_pending_message := terminal_message ''TERMINAL_START_FAILED''\<rparr> = ?f"
    "tr_command_id r = cmd_id c"
    "terminal_result c ''TERMINAL_START_FAILED'' = failure_result r"
    using p(2) by (simp_all add: failure_record_def recovery_of_def terminal_result_def failure_result_def)
  have recorded: "record_start_failure ?g c ''TERMINAL_START_FAILED'' (terminal_message ''TERMINAL_START_FAILED'') =
      try_err (te_save ?g ?f) (wrap ''persist terminal start failure: '') (op_bind (modify ?g (set_pending True)) (\<lambda>_. op_return None))"
    by (simp add: record_start_failure_def p(1) f(1) v Let_def)
  have report: "report_start_failure (sim_dispatcher now) (manager_interface ?g) c e =
      try_err (record_start_failure ?g c ''TERMINAL_START_FAILED'' (terminal_message ''TERMINAL_START_FAILED'')) (wrap ''persist terminal start failure: '')
      (try_err (sim_call (LReport (cmd_id c) (failure_result r))) (wrap ''report terminal start failure: '')
      (try_err (clear_start_failure ?g) (wrap ''clear terminal start failure: '')
      (op_return (Some (Plain (''start terminal session: '' @ ''TERMINAL_START_FAILED''))))))"
    by (simp add: report_start_failure_def assms(3) recorder_for_def manager_interface_def sim_dispatcher_def f(3) Let_def
        failure_result_def)
  obtain s w1 where sv: "sim_store (LSave ?f) (Some ?f) w = (s, w1)" by (metis prod.collapse)
  show ?thesis
    using sv
  proof (cases rule: sim_store_cases)
    case (fails st)
    have "w' = w1"
      using assms(1) sv fails(1) by (simp add: report recorded sim_simps op_defs)
    moreover have "start_step True (at_start (StartFailed r) ?k) (LSave ?f False) (at_start Idle ((at_start (StartFailed r) ?k)\<lparr>tc_store := st\<rparr>))"
      by (rule failure_save_fails) (use fails(2) in auto)
    ultimately have "goes w (StartFailed r) w' Idle" using fails(3,4) by (intro goes_one [where l = "LSave ?f False"]) simp_all
    with \<open>w' = w1\<close> fails(3) show ?thesis by simp
  next
    case ok
    let ?w2 = "w1\<lparr>sm_conf := change (set_pending True) (sm_conf w1)\<rparr>"
    have 1: "goes w (StartFailed r) w1 (FailureSaved r)"
      by (rule goes_one [where l = "LSave ?f True"]) (use failure_saves [of "at_start (StartFailed r) ?k" r] ok in simp_all)
    have 2: "goes w1 (FailureSaved r) ?w2 (FailureKept r)"
      by (rule goes_one [where l = LInternal]) (use failure_pending [of "at_start (FailureSaved r) (sm_conf w1)" r] in simp_all)
    let ?ok = "fst (answer ?w2)"
    let ?w3 = "called (LReport (cmd_id c) (failure_result r) ?ok) id ?w2"
    have rec: "record_start_failure ?g c ''TERMINAL_START_FAILED'' (terminal_message ''TERMINAL_START_FAILED'') w = (None, ?w2)"
      using sv ok(1) by (simp add: recorded sim_simps op_defs sim_modify)
    show ?thesis
    proof (cases ?ok)
      case False
      have "w' = ?w3" using assms(1) rec False by (simp add: report try_err_def op_bind_def op_return_def sim_call_def)
      moreover have "goes ?w2 (FailureKept r) ?w3 Idle"
        by (rule goes_one [where l = "LReport (cmd_id c) (failure_result r) False"])
           (use failure_report_fails [of "at_start (FailureKept r) (sm_conf ?w2)" r True] f(2) False in simp_all)
      ultimately have "goes w (StartFailed r) w' Idle" using goes_trans [OF 1 goes_trans [OF 2]] by blast
      with \<open>w' = ?w3\<close> ok(2) show ?thesis by simp
    next
      case True
      have 3: "goes ?w2 (FailureKept r) ?w3 (FailureReported r)"
        by (rule goes_one [where l = "LReport (cmd_id c) (failure_result r) True"])
           (use failure_reports [of "at_start (FailureKept r) (sm_conf ?w2)" r True] f(2) True in simp_all)
      obtain y w4 where cl: "sim_store LClear None ?w3 = (y, w4)" by (metis prod.collapse)
      have run: "w' = (if y = None then w4\<lparr>sm_conf := change (set_pending False) (sm_conf w4)\<rparr> else w4)"
        using assms(1) rec True cl
        by (cases y) (auto simp: report clear_start_failure_def sim_simps sim_modify try_err_def op_bind_def op_return_def sim_call_def)
      have 4: "goes ?w3 (FailureReported r) w' Idle"
        using cl
      proof (cases rule: sim_store_cases)
        case ok
        have "goes ?w3 (FailureReported r) w4 FailureCleared"
          by (rule goes_one [where l = "LClear True"])
             (use failure_clears [of "at_start (FailureReported r) (sm_conf ?w3)" r True] ok in simp_all)
        moreover have "goes w4 FailureCleared w' Idle"
          by (rule goes_one [where l = LInternal])
             (use failure_done [of "at_start FailureCleared (sm_conf w4)" True] run ok(1) in simp_all)
        ultimately show ?thesis by (rule goes_trans)
      next
        case (fails s)
        have "w' = w4" using run fails(1) by simp
        then show ?thesis
          by (intro goes_one [where l = "LClear False"])
             (use failure_clear_fails [of "at_start (FailureReported r) (sm_conf ?w3)" r s True] fails(2-4) in simp_all)
      qed
      have "tc_start (sm_conf w4) = tc_start (sm_conf ?w3)"
        using cl by (cases rule: sim_store_cases) simp_all
      with run ok(2) have "tc_start (sm_conf w') = tc_start (sm_conf w)" by (simp split: if_splits)
      with goes_trans [OF 1 goes_trans [OF 2 goes_trans [OF 3 4]]] show ?thesis by simp
    qed
  qed
qed

lemma wait_goes:
  assumes "sim_wait now ch w = (e, w')" "tc_start (sm_conf w) = Idle"
  shows "goes w Idle w' Idle \<and> tc_start (sm_conf w') = Idle"
proof (cases "\<exists>r. fst (answer w) \<and> tc_sessions (sm_conf w) ch = Some (r, Waiting)")
  case False
  with assms(1) have "w' = w" by (auto simp: sim_wait_def split: bool.splits option.splits prod.splits session_pc.splits)
  with assms(2) show ?thesis by (simp add: goes_refl)
next
  case True
  then obtain r where r: "fst (answer w)" "tc_sessions (sm_conf w) ch = Some (r, Waiting)" by blast
  obtain w1 where run: "await_completion (sim_terminal0 now) ch r (Some ContextCanceled) w = ((), w1)" by (metis prod.collapse old.unit.exhaust)
  with assms(1) r have w': "w' = drop_session ch w1" by (simp add: sim_wait_def)
  from await_trace [OF run r(2), of True] obtain ls where t: "tc_start (sm_conf w1) = tc_start (sm_conf w)" "sm_log w1 = sm_log w @ ls"
    "terminal_trace True (sm_conf w) ls (clean_conf (sm_conf w1) ch)" by blast
  have d: "sm_conf w' = clean_conf (sm_conf w1) ch" "sm_log w' = sm_log w1" by (simp_all add: w' drop_session_def clean_conf_def)
  have s: "tc_start (sm_conf w') = Idle" using d(1) t(1) assms(2) by (simp add: clean_conf_def)
  have "terminal_trace True (at_start Idle (sm_conf w)) ls (at_start Idle (sm_conf w'))"
    unfolding idle_conf [OF assms(2)] idle_conf [OF s] using t(3) d(1) by simp
  with t(2) d(2) s show ?thesis by (auto simp: goes_def)
qed

lemma close_goes:
  assumes "manager_close (sim_terminal now) reason w = (e, w')" "tc_start (sm_conf w) = Idle"
  shows "goes w Idle w' Idle \<and> tc_start (sm_conf w') = Idle"
  using assms wait_goes
  by (auto simp: manager_close_def op_bind_def op_return_def look_state_def sim_simps goes_refl split: if_splits option.splits)

lemma start_goes:
  assumes "manager_start (sim_terminal now) c w = (x, w')" "tc_start (sm_conf w) = Idle"
  shows "tc_start (sm_conf w') = Idle \<and>
    (goes w Idle w' Idle \<and> (\<forall>e. x = Some e \<longrightarrow> terminal_code e \<noteq> ''TERMINAL_START_FAILED'') \<or>
     (\<exists>r e. start_record_of c = Some r \<and> x = Some e \<and> terminal_code e = ''TERMINAL_START_FAILED'' \<and> goes w Idle w' (StartFailed r)))"
proof -
  have idle: "at_start Idle (sm_conf w) = sm_conf w" using assms(2) by (rule idle_conf)
  from start_trace [OF assms] consider (refused) e where "x = Some (TerminalError e)" "terminal_code (TerminalError e) \<noteq> ''TERMINAL_START_FAILED''" "w' = w"
    | (ran) r ls pc where "start_record_of c = Some r" "sm_log w' = sm_log w @ ls" "terminal_trace True (sm_conf w) ls (at_start pc (sm_conf w'))"
      "tc_start (sm_conf w') = Idle" "x = None \<and> pc = Idle \<or> (\<exists>e. x = Some e \<and> terminal_code e = ''TERMINAL_START_FAILED'') \<and> pc = StartFailed r"
    unfolding start_outcome_def by blast
  then show ?thesis
  proof cases
    case refused
    with assms(2) show ?thesis by (simp add: goes_refl)
  next
    case ran
    then have "goes w Idle w' pc" unfolding goes_def idle by blast
    with ran show ?thesis by auto
  qed
qed

lemma refuse_goes: "goes w Idle (called (LRefuse i res b) id w) Idle"
  by (rule goes_one [where l = "LRefuse i res b"]) (auto intro: refuses)

text \<open>
  \<open>dispatchTerminal\<close> as a whole, with the failure report: from an idle configuration to an idle one, by
  steps of the model, and its calls are the labels of those steps.
\<close>

lemma dispatch_goes:
  assumes "dispatch_terminal (sim_dispatcher now) c w = (x, w')" "tc_start (sm_conf w) = Idle"
  shows "goes w Idle w' Idle \<and> tc_start (sm_conf w') = Idle"
proof -
  let ?d = "sim_dispatcher now" and ?m = "manager_interface (sim_terminal now)"
  have m: "d_terminal ?d = Some ?m" "tm_start ?m = manager_start (sim_terminal now)" "tm_close ?m = manager_close (sim_terminal now)"
    by (simp_all add: sim_dispatcher_def manager_interface_def)
  show ?thesis
  proof (cases "cmd_version c \<noteq> 1 \<or> cmd_terminal c = None")
    case True
    with assms show ?thesis by (auto simp: dispatch_terminal_def op_return_def goes_refl)
  next
    case False
    then obtain p where p: "cmd_version c = 1" "cmd_terminal c = Some p" by auto
    let ?v = "w\<lparr>sm_answers := tl (sm_answers w)\<rparr>"
    have v: "goes w Idle ?v Idle" "tc_start (sm_conf ?v) = Idle" using assms(2) by (auto simp: goes_def intro: trace_nil)
    show ?thesis
    proof (cases "fst (answer w)")
      case unacked: False
      have "w' = ?v" using assms(1) unacked
        by (simp add: dispatch_terminal_def p m op_defs) (simp add: sim_dispatcher_def op_return_def)
      with v show ?thesis by simp
    next
      case True
      have acked: "d_start ?d i l w = (None, ?v)" for i l using True by (simp add: sim_dispatcher_def)
      obtain r1 w1 where r1: "start_or_replace ?m c ?v = (r1, w1)" by (metis prod.collapse)
      have run: "(case r1 of None \<Rightarrow> op_return None | Some e \<Rightarrow> report_start_failure ?d ?m c e) w1 = (x, w')"
        using assms(1) r1 by (cases r1) (simp_all add: dispatch_terminal_def p m op_defs acked)
      have started: "tc_start (sm_conf w1) = Idle \<and>
        (goes ?v Idle w1 Idle \<and> (\<forall>e. r1 = Some e \<longrightarrow> terminal_code e \<noteq> ''TERMINAL_START_FAILED'') \<or>
         (\<exists>r e. start_record_of c = Some r \<and> r1 = Some e \<and> terminal_code e = ''TERMINAL_START_FAILED'' \<and> goes ?v Idle w1 (StartFailed r)))"
      proof -
        obtain x1 u1 where x1: "manager_start (sim_terminal now) c ?v = (x1, u1)" by (metis prod.collapse)
        note first = start_goes [OF x1 v(2)]
        show ?thesis
        proof (cases "Option.bind x1 err_as_terminal = Some ''TERMINAL_ALREADY_ACTIVE''")
          case False
          then have "r1 = x1" "w1 = u1" using r1 x1 by (simp_all add: start_or_replace_def m op_defs)
          with first show ?thesis by simp
        next
          case True
          obtain e u2 where e: "manager_close (sim_terminal now) ''operator-request'' u1 = (e, u2)" by (metis prod.collapse)
          have keeps: "goes ?v Idle u1 Idle \<and> terminal_code (the x1) \<noteq> ''TERMINAL_START_FAILED''"
            using first True by (auto simp: terminal_code_def terminal_codes_def bind_eq_Some_conv)
          note closed = close_goes [OF e conjunct1 [OF first]]
          show ?thesis
          proof (cases e)
            case None
            then have "manager_start (sim_terminal now) c u2 = (r1, w1)"
              using r1 x1 True e by (simp add: start_or_replace_def m op_defs)
            note again = start_goes [OF this conjunct2 [OF closed]]
            have "goes ?v Idle u2 Idle" using keeps closed by (blast intro: goes_trans)
            then have "goes u2 Idle w1 pc \<Longrightarrow> goes ?v Idle w1 pc" for pc by (rule goes_trans)
            with again show ?thesis by blast
          next
            case (Some y)
            then have "r1 = x1" "w1 = u2" using r1 x1 True e by (simp_all add: start_or_replace_def m op_defs)
            moreover have "goes ?v Idle w1 Idle" using keeps closed \<open>w1 = u2\<close> by (blast intro: goes_trans)
            ultimately show ?thesis using keeps closed by auto
          qed
        qed
      qed
      have first: "goes w Idle ?v Idle" by (rule v)
      show ?thesis
      proof (cases r1)
        case None
        with run started v show ?thesis by (auto simp: op_return_def intro: goes_trans)
      next
        case (Some e)
        show ?thesis
        proof (cases "terminal_code e = ''TERMINAL_START_FAILED''")
          case True
          with started Some obtain r where r: "start_record_of c = Some r" "goes ?v Idle w1 (StartFailed r)" by auto
          have rep: "report_start_failure ?d ?m c e w1 = (x, w')" using run Some by simp
          note f = failure_goes [OF rep r(1) True]
          from f r(2) v(1) have "goes w Idle w' Idle" by (meson goes_trans)
          with f started show ?thesis by simp
        next
          case False
          with started Some have g: "goes ?v Idle w1 Idle" "tc_start (sm_conf w1) = Idle" by auto
          have "recorder_for ?m (terminal_code e) = None" using False by (simp add: recorder_for_def)
          then have "report_start_failure ?d ?m c e w1 =
              try_err (d_finish ?d (cmd_id c) (terminal_result c (terminal_code e))) (wrap ''report terminal start failure: '')
                (op_return (Some (Plain (''start terminal session: '' @ terminal_code e)))) w1"
            by (simp add: report_start_failure_def Let_def)
          moreover have "d_finish ?d (cmd_id c) (terminal_result c (terminal_code e)) = sim_call (LRefuse (cmd_id c) (terminal_result c (terminal_code e)))"
            using False by (simp add: sim_dispatcher_def terminal_result_def)
          ultimately have "w' = called (LRefuse (cmd_id c) (terminal_result c (terminal_code e)) (fst (answer w1))) id w1"
            using run Some by (auto simp: op_defs sim_call_def split: if_splits)
          with refuse_goes [of w1] g v(1) show ?thesis by (simp, meson goes_trans)
        qed
      qed
    qed
  qed
qed

end
