(* ===== verification/TerminalClaims.thy ===== *)
theory TerminalClaims
  imports TerminalRefine CommandProps
begin

text \<open>
  Properties of the terminal: of its recovery store (what a save leaves, that it comes back, and that no
  symbolic link above the file is followed) and of its manager with all its goroutines (one session at a
  time, the record kept until its report, the end of a session's goroutine, and that the manager's code takes
  the steps of the model).
\<close>

section \<open>Samples\<close>

definition record1 :: terminal_recovery where
  "record1 = recovery_of terminal_command terminal_payload1"

definition year_2029 :: gotime where
  "year_2029 = \<lparr>instant = 64000000000 * second_ns, utc_loc = True\<rparr>"

lemma record1_valid: "validate_recovery record1 = None" "recovery_fits record1" "tr_pending_code record1 = []"
proof -
  have "canonical_whole_second year_2030" "canonical_whole_second (tp_absolute_expires_at terminal_payload1)"
    "after (tp_absolute_expires_at terminal_payload1) year_2030"
    by code_simp+
  then show "validate_recovery record1 = None"
    using uuid1_patterns
    by (simp add: validate_recovery_def record1_def recovery_of_def terminal_command_def sample_fields terminal_payload1_def)
qed (simp_all add: record1_def recovery_of_def recovery_fits_def ascii_utf8_text)

lemma record1_started: "start_record_of terminal_command = Some record1"
  using record1_valid sample_fields
  by (simp add: start_record_of_def record1_def terminal_command_def terminal_raw_def)

definition empty_disk :: "bool list \<Rightarrow> rdisk" where
  "empty_disk faults =
     \<lparr>rd_kind = (\<lambda>p. PathMissing), rd_dir = None, rd_entry = NoEntry, rd_temp = None, rd_faults = faults\<rparr>"

section \<open>The recovery store\<close>

lemma replace_file_dir: "replace_file data k = (r, k') \<Longrightarrow> rd_dir k' = rd_dir k \<and> rd_kind k' = rd_kind k"
  unfolding replace_file_def
  by (elim try_file_op)
     (auto simp: set_temp_perm_def write_temp_def rename_temp_def set_entry_perm_def op_return_def split: option.splits)

lemma drop_temp_dir [simp]: "rd_dir (drop_temp k) = rd_dir k" "rd_kind (drop_temp k) = rd_kind k"
  by (simp_all add: drop_temp_def file_op_def Let_def)

lemma write_file_dir:
  assumes "write_file path data k = (None, k')"
  shows "rd_dir k' = Some private_dir \<and> rd_kind k' = rd_kind k \<and> reject_symlinked_parents (rd_kind k) path = None"
  using assms unfolding write_file_def op_bind_def look_def
  by (elim try_parents try_file_op)
     (auto simp: op_return_def split: prod.splits if_splits elim!: try_file_op dest!: replace_file_dir)

lemma recovery_save_dir:
  assumes "recovery_save path r k = (None, k')"
  shows "rd_dir k' = Some private_dir \<and> rd_kind k' = rd_kind k \<and> reject_symlinked_parents (rd_kind k) path = None"
  using assms write_file_dir
  by (auto simp: recovery_save_def op_return_def split: option.splits if_splits)

text \<open>
  C24. What \<open>Save\<close> wrote, \<open>Load\<close> reads. After a save that returned no error, a load whose file operations
  succeed returns the record that was saved: all its checks accept it (the parents, the permissions of the
  file and its directory, the size, duplicate names, identifiers and deadlines, and the text of the times).
\<close>

theorem recovery_round_trip:
  assumes "recovery_fits r" "recovery_save path r k = (None, k')" "rd_faults k' = []"
  shows "recovery_load path k' = (Inr (Some r), k')"
proof -
  have "entry_holds (rd_entry k') = Some (Some r)" using recovery_on_disk.save_holds [OF assms(1,2)] by simp
  then obtain data where e: "rd_entry k' = RegularFile private_file data" "read_recovery data = Inr r"
    by (auto simp: entry_holds_def split: entry.splits if_splits sum.splits)
  have "k'\<lparr>rd_faults := []\<rparr> = k'" using assms(3) by (cases k') simp
  with e recovery_save_dir [OF assms(2)] assms(3) show ?thesis
    by (simp add: recovery_load_def check_op_def check_private_dir_def try_err_def op_bind_def op_return_def look_def
        check_parents_def file_op_def Let_def)
qed

definition file1 :: string where "file1 = ''/var/x/t.json''"

lemma file1_parents: "reject_symlinked_parents (\<lambda>p. PathMissing) file1 = None"
  by code_simp

lemma record1_fields:
  "tr_session_id record1 = uuid1" "tr_command_id record1 = uuid1" "tr_lease_token record1 = uuid1"
  "tr_connection_deadline record1 = year_2030" "tr_expires_at record1 = tp_absolute_expires_at terminal_payload1"
  "tr_pending_code record1 = []" "tr_pending_message record1 = []"
  by (simp_all add: record1_def recovery_of_def terminal_command_def sample_fields terminal_payload1_def)

lemma record1_times:
  "time_json year_2030 = Some (JStr ''2030-01-01T00:00:00Z'')"
  "time_json (tp_absolute_expires_at terminal_payload1) = Some (JStr ''2030-01-01T02:00:00Z'')"
  by code_simp+

lemma record1_json: "case recovery_json record1 of Some v \<Rightarrow> length (json_text v) \<le> max_recovery_bytes | None \<Rightarrow> False"
  by (simp add: recovery_json_def record1_fields record1_times omit_empty_def printable_length printable_def uuid1_def
      max_recovery_bytes_def)

lemma saved1: "fst (recovery_save file1 record1 (empty_disk [])) = None" "rd_faults (snd (recovery_save file1 record1 (empty_disk []))) = []"
  using record1_valid(1) file1_parents record1_json
  by (auto simp: recovery_save_def write_file_def replace_file_def try_err_def op_bind_def op_return_def look_def
      check_parents_def file_op_def drop_temp_def Let_def empty_disk_def set_temp_perm_def write_temp_def
      rename_temp_def set_entry_perm_def split: option.splits)

theorem recovery_round_trip_witness:
  "fst (recovery_load file1 (snd (recovery_save file1 record1 (empty_disk [])))) = Inr (Some record1)"
  using recovery_round_trip [OF record1_valid(2) _ saved1(2)] saved1(1) by (metis fst_conv prod.collapse)

text \<open>
  \<open>Save\<close> is atomic. Whichever of its file operations fails, what a later load finds is what it found before
  or the new record, and it is the new record when \<open>Save\<close> returned no error.
\<close>

theorem recovery_save_atomic:
  assumes "recovery_fits r" "recovery_save path r k = (x, k')"
  shows "entry_holds (rd_entry k') \<in> {entry_holds (rd_entry k), Some (Some r)} \<and>
    (x = None \<longrightarrow> entry_holds (rd_entry k') = Some (Some r))"
  using recovery_on_disk.save_fails [OF assms(1), of path k _ k'] recovery_on_disk.save_holds [OF assms(1), of path k k'] assms(2)
  by (cases x) simp_all

theorem recovery_save_atomic_witness:
  "entry_holds (rd_entry (snd (recovery_save file1 record1 (empty_disk (replicate 8 False @ [True]))))) \<in> {Some None, Some (Some record1)}"
proof -
  let ?s = "recovery_save file1 record1 (empty_disk (replicate 8 False @ [True]))"
  have "?s = (fst ?s, snd ?s)" by simp
  from recovery_save_atomic [OF record1_valid(2) this] show ?thesis by (simp add: empty_disk_def entry_holds_def)
qed

text \<open>
  No symbolic link is followed. For every directory above the file that is reached through plain
  directories: when it is a symbolic link, or no directory, then \<open>Load\<close>, \<open>Save\<close> of a valid record and \<open>Clear\<close> return an error
  and do nothing to the disk.
\<close>

theorem symlinked_parent_refused:
  assumes "is_abs path" "j < length (clean_elems (path_dir path))"
    "\<forall>i<j. rd_kind k (below ''/'' (take (Suc i) (clean_elems (path_dir path)))) = PathDirectory"
    "rd_kind k (below ''/'' (take (Suc j) (clean_elems (path_dir path)))) \<in> {PathSymlink, PathOther}"
  shows "snd (recovery_load path k) = k \<and> isl (fst (recovery_load path k)) \<and>
    snd (recovery_save path r k) = k \<and> fst (recovery_save path r k) \<noteq> None \<and>
    snd (recovery_clear path k) = k \<and> fst (recovery_clear path k) \<noteq> None"
proof -
  have "walk_parents (rd_kind k) ''/'' (clean_elems (path_dir path)) \<noteq> None"
  proof
    assume "walk_parents (rd_kind k) ''/'' (clean_elems (path_dir path)) = None"
    from walk_parents_plain [OF this assms(2,3)] assms(4) show False by auto
  qed
  then obtain e where "check_parents path k = (Some e, k)" by (auto simp: check_parents_def reject_walks [OF assms(1)])
  then show ?thesis
    by (auto simp: recovery_load_def recovery_save_def recovery_clear_def write_file_def check_op_def try_err_def op_bind_def
        op_return_def split: option.splits)
qed

theorem symlinked_parent_refused_witness:
  "fst (recovery_save file1 record1 ((empty_disk [])\<lparr>rd_kind := \<lambda>p. if p = ''/var'' then PathSymlink else PathDirectory\<rparr>)) \<noteq> None"
proof -
  have es: "clean_elems (path_dir file1) = [''var'', ''x'']" "is_abs file1" "below ''/'' [''var''] = ''/var''" by code_simp+
  show ?thesis using symlinked_parent_refused [of file1 0 "(empty_disk [])\<lparr>rd_kind := \<lambda>p. if p = ''/var'' then PathSymlink else PathDirectory\<rparr>" record1] es
    by simp
qed

section \<open>The manager\<close>

text \<open>
  C20. One session at a time, and its record stays on disk. In every configuration that the goroutines can
  reach, whatever calls fail: a session
  that exists is the active one, and there is no other; while it waits and while its end is not yet reported, the store holds its record;
  and with no session and no start under way, a record in the store means that recovery is pending, so that
  the next start cannot overwrite it. The one exception to the last point is the record of a failed start
  whose own \<open>Save\<close> reported an error after it had replaced the file (\<open>dirty\<close>).
\<close>

theorem terminal_sessions_exclusive:
  assumes "terminal_run dirty found ls c"
  shows "(ms_active (tc_state c) \<longleftrightarrow> ms_done (tc_state c) \<noteq> None) \<and>
    (\<forall>ch ch' p q. tc_sessions c ch = Some p \<and> tc_sessions c ch' = Some q \<longrightarrow> ch = ch' \<and> ms_done (tc_state c) = Some ch) \<and>
    (\<forall>ch r. tc_sessions c ch = Some (r, Waiting) \<or> (\<exists>n res. tc_sessions c ch = Some (r, Reporting n res)) \<longrightarrow> tc_store c = Some r) \<and>
    (\<forall>r. tc_start c = Idle \<and> \<not> ms_active (tc_state c) \<and> tc_store c = Some r \<longrightarrow>
       ms_pending (tc_state c) \<or> dirty \<and> tr_pending_code r \<noteq> [] \<and> LSave r False \<in> set ls)"
proof -
  note inv = terminal_run_inv [OF assms]
  have "ch = ch' \<and> ms_done (tc_state c) = Some ch" if "tc_sessions c ch = Some p" "tc_sessions c ch' = Some q" for ch ch' p q
  proof -
    obtain r pc where p: "p = (r, pc)" by (cases p)
    with that have "tc_sessions c ch = Some (r, pc)" by simp
    with only_session [OF inv this that(2)] session_inv [OF inv this] show ?thesis by (simp add: session_ok_def)
  qed
  moreover have "tc_store c = Some r"
    if "tc_sessions c ch = Some (r, Waiting) \<or> (\<exists>n res. tc_sessions c ch = Some (r, Reporting n res))" for ch r
    using that session_inv [OF inv, of ch r Waiting] session_inv [OF inv, of ch r "Reporting _ _"]
    by (elim disjE exE) (simp_all add: session_ok_def)
  moreover have "ms_pending (tc_state c) \<or> dirty \<and> tr_pending_code r \<noteq> [] \<and> LSave r False \<in> set ls"
    if "tc_start c = Idle" "\<not> ms_active (tc_state c)" "tc_store c = Some r" for r
    using inv that by (auto simp: terminal_inv_def start_ok_def Let_def)
  ultimately show ?thesis using inv unfolding terminal_inv_def by blast
qed

definition conf_claimed :: terminal_conf where
  "conf_claimed = at_start (Claimed 0 record1) (change claim (fresh_conf None))"

definition conf_saved :: terminal_conf where
  "conf_saved = at_start (Saved 0 record1) (conf_claimed\<lparr>tc_store := Some record1\<rparr>)"

definition conf_open :: terminal_conf where
  "conf_open = at_start Idle (at_session 0 record1 Waiting conf_saved)"

lemma run_saved: "terminal_run dirty None [LInternal, LSave record1 True] conf_saved"
proof -
  have "start_step dirty (fresh_conf None) LInternal conf_claimed"
    using claims [of "fresh_conf None" record1 dirty] record1_valid(3)
    by (simp add: conf_claimed_def fresh_conf_def start_refused_def)
  moreover have "start_step dirty conf_claimed (LSave record1 True) conf_saved"
    using saves [of conf_claimed 0 record1 dirty] by (simp add: conf_saved_def) (simp add: conf_claimed_def)
  ultimately show ?thesis using terminal_start [OF terminal_start [OF terminal_begin]] by fastforce
qed

lemma run_open: "terminal_run dirty None [LInternal, LSave record1 True, LLaunch (tr_command_id record1) True] conf_open"
proof -
  have "start_step dirty conf_saved (LLaunch (tr_command_id record1) True) conf_open"
    using launches [of conf_saved 0 record1 dirty] by (simp add: conf_open_def) (simp add: conf_saved_def)
  from terminal_start [OF run_saved this] show ?thesis by simp
qed

lemma open_fields: "tc_sessions conf_open 0 = Some (record1, Waiting)" "tc_store conf_open = Some record1" "tc_start conf_open = Idle"
  "ms_active (tc_state conf_open)" "\<not> ms_pending (tc_state conf_open)"
  by (simp_all add: conf_open_def conf_saved_def conf_claimed_def fresh_conf_def claim_def)

theorem terminal_sessions_exclusive_witness: "ms_done (tc_state conf_open) = Some 0"
  using terminal_sessions_exclusive [OF run_open] open_fields(1) by blast

text \<open>
  C21. The record of a session leaves the store only when the server has its result. Any step of any goroutine
  after which the store no longer holds the record, whatever calls fail, comes after a report of its command that succeeded, or
  after the launch of its shell failed, or after the save of that very record had reported an error.
\<close>

theorem terminal_record_kept:
  assumes "terminal_run dirty found ls c" "start_step dirty c l d \<or> session_step c l d"
    "tc_store c = Some r" "tc_store d \<noteq> Some r"
  shows "reported ls r \<or> not_launched ls r \<or> LSave r False \<in> set ls"
  using assms(2) start_step_store [OF _ terminal_run_inv [OF assms(1)] assms(3,4)]
    session_step_store [OF _ terminal_run_inv [OF assms(1)] assms(3,4)]
  by blast

definition conf_reported :: terminal_conf where
  "conf_reported = at_session 0 record1 SessionReported conf_open"

lemma run_reported: "\<exists>ls. terminal_run dirty None ls conf_reported"
proof -
  let ?res = "session_result record1 None"
  let ?c = "at_session 0 record1 (Reporting 3 ?res) conf_open"
  have "session_step conf_open LInternal ?c" by (rule completes [OF open_fields(1)])
  moreover have "session_step ?c (LReport (tr_command_id record1) ?res True) conf_reported"
    using reports [of ?c 0 record1 2 ?res] by (simp add: conf_reported_def)
  ultimately show ?thesis using terminal_session [OF terminal_session [OF run_open]] by blast
qed

lemma reported_clears: "session_step conf_reported (LClear True) (at_session 0 record1 (SessionCleared False) (conf_reported\<lparr>tc_store := None\<rparr>))"
  by (rule session_clears) (simp add: conf_reported_def)

theorem terminal_record_kept_witness:
  "\<exists>ls. terminal_run True None ls conf_reported \<and> (reported ls record1 \<or> not_launched ls record1 \<or> LSave record1 False \<in> set ls)"
proof -
  from run_reported [of True] obtain ls where run: "terminal_run True None ls conf_reported" by blast
  have "tc_store conf_reported = Some record1" by (simp add: conf_reported_def open_fields(2))
  with terminal_record_kept [OF run disjI2 [OF reported_clears], of record1] run show ?thesis by auto
qed

text \<open>
  C22. The goroutine of a session ends. From any configuration that can be reached in which a session has
  just ended, its goroutine takes at most 7 steps, whichever reports and clears fail; and when it
  can take no more, no session is left and the manager is free for another.
\<close>

theorem terminal_session_ends:
  assumes "terminal_run dirty found ls c" "tc_sessions c ch = Some (r, Waiting)"
    "((\<lambda>c d. \<exists>l. session_step c l d) ^^ n) c d"
  shows "n \<le> 7 \<and> ((\<nexists>l e. session_step d l e) \<longrightarrow> tc_sessions d = (\<lambda>ch. None) \<and> \<not> ms_active (tc_state d))"
proof -
  note inv = terminal_run_inv [OF assms(1)]
  have chain: "n + conf_left d \<le> conf_left c \<and> (\<exists>ls. terminal_inv dirty ls d) \<and> tc_start d = tc_start c"
    using assms(3)
  proof (induction n arbitrary: d)
    case 0
    with inv show ?case by auto
  next
    case (Suc n)
    then obtain e l where e: "((\<lambda>c d. \<exists>l. session_step c l d) ^^ n) c e" "session_step e l d" by auto
    from Suc.IH [OF e(1)] obtain ks where ks: "n + conf_left e \<le> conf_left c" "terminal_inv dirty ks e" "tc_start e = tc_start c" by auto
    have "tc_start d = tc_start e" using e(2) by cases auto
    with session_step_left [OF e(2) ks(2)] session_step_inv [OF e(2) ks(2)] ks show ?case by auto
  qed
  have c: "ms_done (tc_state c) = Some ch" "tc_start c = Idle" using session_inv [OF inv assms(2)] by (simp_all add: session_ok_def)
  then have "conf_left c = 7" by (simp add: conf_left_def assms(2))
  with chain have "n \<le> 7" by simp
  moreover have "tc_sessions d = (\<lambda>ch. None) \<and> \<not> ms_active (tc_state d)" if stuck: "\<nexists>l e. session_step d l e"
  proof -
    have none: "tc_sessions d ch = None" for ch
    proof (cases "tc_sessions d ch")
      case (Some p)
      then obtain r pc where p: "tc_sessions d ch = Some (r, pc)" by (cases p) auto
      have False
      proof (cases pc)
        case (Reporting n res)
        from chain obtain ks where ks: "terminal_inv dirty ks d" by blast
        have "n \<noteq> 0" using session_inv [OF ks p] Reporting by (simp add: session_ok_def)
        then obtain m where "n = Suc m" using not0_implies_Suc by blast
        with stuck p Reporting reports show ?thesis by blast
      qed (use stuck p completes session_clears session_cleared session_unreported session_ends in blast)+
      then show ?thesis ..
    qed
    from chain obtain ks where ks: "terminal_inv dirty ks d" "tc_start d = Idle" using c by auto
    with none show ?thesis by (auto simp: terminal_inv_def start_ok_def Let_def split: option.splits)
  qed
  ultimately show ?thesis by blast
qed

theorem terminal_session_ends_witness:
  "((\<lambda>c d. \<exists>l. session_step c l d) ^^ 1) conf_open (at_session 0 record1 (Reporting 3 (session_result record1 None)) conf_open) \<and> (1::nat) \<le> 7"
proof -
  have "session_step conf_open LInternal (at_session 0 record1 (Reporting 3 (session_result record1 None)) conf_open)"
    by (rule completes [OF open_fields(1)])
  then have "((\<lambda>c d. \<exists>l. session_step c l d) ^^ 1) conf_open (at_session 0 record1 (Reporting 3 (session_result record1 None)) conf_open)"
    by (auto simp del: fun_upd_apply)
  with terminal_session_ends [OF run_open open_fields(1) this] show ?thesis by blast
qed

text \<open>
  C23. The manager and the dispatcher take the steps of the model. Started between two commands in a
  configuration the model reaches, \<open>dispatchTerminal\<close> for any command, with \<open>Start\<close>, the closing of an active session and
  its goroutine, the second \<open>Start\<close>, \<open>RecordStartFailure\<close>, the report and \<open>ClearStartFailure\<close>, and with
  any of its calls failing, ends in a configuration the model reaches from there, and the calls it made are
  the visible labels of that run.
\<close>

theorem dispatch_terminal_refines:
  assumes "terminal_run True found ls (sm_conf w)" "tc_start (sm_conf w) = Idle"
    "dispatch_terminal (sim_dispatcher now) c w = (x, w')"
  shows "\<exists>js. terminal_run True found (ls @ js) (sm_conf w') \<and> sm_log w' = sm_log w @ concat (map visible js)"
proof -
  from dispatch_goes [OF assms(3,2)] have g: "goes w Idle w' Idle" "tc_start (sm_conf w') = Idle" by simp_all
  from g(1) obtain ks where ks: "sm_log w' = sm_log w @ ks" "terminal_trace True (sm_conf w) ks (sm_conf w')"
    unfolding goes_def idle_conf [OF assms(2)] idle_conf [OF g(2)] by blast
  from trace_run [OF ks(2) assms(1)] ks(1) show ?thesis by auto
qed

definition open_world :: "(bool \<times> bool) list \<Rightarrow> sim" where
  "open_world given = \<lparr>sm_conf = conf_open, sm_answers = given, sm_log = []\<rparr>"

theorem dispatch_terminal_refines_witness:
  "\<exists>ls. terminal_run True None ls (sm_conf (snd (dispatch_terminal (sim_dispatcher year_2029) terminal_command (open_world [(True, False), (False, True)]))))"
proof -
  let ?s = "dispatch_terminal (sim_dispatcher year_2029) terminal_command (open_world [(True, False), (False, True)])"
  have run: "terminal_run True None [LInternal, LSave record1 True, LLaunch (tr_command_id record1) True] (sm_conf (open_world a))" for a
    using run_open by (simp add: open_world_def)
  have idle: "tc_start (sm_conf (open_world a)) = Idle" for a by (simp add: open_world_def open_fields)
  have "?s = (fst ?s, snd ?s)" by simp
  from dispatch_terminal_refines [OF run idle this] show ?thesis by blast
qed

section \<open>Pending recovery\<close>

definition stuck_conf :: "terminal_conf \<Rightarrow> bool" where
  "stuck_conf c \<longleftrightarrow> tc_start c = Idle \<and> \<not> ms_active (tc_state c) \<and> ms_pending (tc_state c)"

lemma start_pending:
  assumes "stuck_conf (sm_conf w)"
  shows "\<exists>e. manager_start (sim_terminal now) c w = (Some (TerminalError e), w) \<and>
    e \<in> {''TERMINAL_COMMAND_INVALID'', ''TERMINAL_COMMAND_EXPIRED'', ''TERMINAL_RECOVERY_PENDING''}"
  using assms
  by (auto simp: manager_start_def begin_session_def start_refused_def stuck_conf_def sim_simps look_state_def op_bind_def
      op_return_def try_res_def same_def split: option.splits)

lemma dispatch_pending:
  assumes "stuck_conf (sm_conf w)"
  shows "\<exists>x w'. dispatch_terminal (sim_dispatcher now) c w = (x, w') \<and> sm_conf w' = sm_conf w \<and>
    (\<exists>ls. sm_log w' = sm_log w @ ls \<and> (\<forall>l\<in>set ls. \<exists>res b. l = LRefuse (cmd_id c) res b))"
proof -
  let ?d = "sim_dispatcher now" and ?m = "manager_interface (sim_terminal now)"
  let ?v = "w\<lparr>sm_answers := tl (sm_answers w)\<rparr>"
  obtain e where e: "manager_start (sim_terminal now) c ?v = (Some (TerminalError e), ?v)"
    "e \<in> {''TERMINAL_COMMAND_INVALID'', ''TERMINAL_COMMAND_EXPIRED'', ''TERMINAL_RECOVERY_PENDING''}"
    using start_pending [of ?v] assms by auto
  have code: "terminal_code (TerminalError e) \<noteq> ''TERMINAL_START_FAILED''" "e \<noteq> ''TERMINAL_ALREADY_ACTIVE''"
    using e(2) by (auto simp: terminal_code_def terminal_codes_def)
  have m: "d_terminal ?d = Some ?m" "tm_start ?m = manager_start (sim_terminal now)"
    "\<And>i l. d_start ?d i l w = (if fst (answer w) then None else Some ContextCanceled, ?v)"
    by (simp_all add: sim_dispatcher_def manager_interface_def)
  have rep: "report_start_failure ?d ?m c (TerminalError e) =
      try_err (sim_call (LRefuse (cmd_id c) (terminal_result c (terminal_code (TerminalError e)))))
        (wrap ''report terminal start failure: '') (op_return (Some (Plain (''start terminal session: '' @ terminal_code (TerminalError e)))))"
    using code(1) by (simp add: report_start_failure_def Let_def recorder_for_def) (simp add: sim_dispatcher_def terminal_result_def)
  show ?thesis
  proof (cases "cmd_version c = 1 \<and> cmd_terminal c \<noteq> None \<and> fst (answer w)")
    case True
    then have "dispatch_terminal ?d c w = report_start_failure ?d ?m c (TerminalError e) ?v"
      using e(1) code(2) by (auto simp: dispatch_terminal_def m op_defs start_or_replace_def)
    then show ?thesis
      by (auto simp: rep try_err_def op_bind_def op_return_def sim_call_def)
  next
    case False
    then have "\<exists>x. dispatch_terminal ?d c w = (x, w) \<or> dispatch_terminal ?d c w = (x, ?v)"
      by (auto simp: dispatch_terminal_def m op_defs split: option.splits)
    then show ?thesis by auto
  qed
qed

text \<open>
  Pending recovery blocks the terminal until a restart. Once recovery is pending with no session, no sequence of
  terminal commands, whatever calls fail, changes anything: every command is refused, none opens a session, and recovery stays pending.
  (Only \<open>RetryRecovery\<close> ends it, and \<open>main\<close> calls it once, before the loops start.)
\<close>

theorem pending_blocks_terminal:
  assumes "stuck_conf (sm_conf w)" "w' = fold (\<lambda>c w. snd (dispatch_terminal (sim_dispatcher now) c w)) cs w"
  shows "sm_conf w' = sm_conf w \<and>
    (\<exists>ls. sm_log w' = sm_log w @ ls \<and> (\<forall>l\<in>set ls. \<exists>c\<in>set cs. \<exists>res b. l = LRefuse (cmd_id c) res b))"
  using assms
proof (induction cs arbitrary: w)
  case (Cons c cs)
  obtain x v ls where v: "dispatch_terminal (sim_dispatcher now) c w = (x, v)" "sm_conf v = sm_conf w" "sm_log v = sm_log w @ ls"
    "\<forall>l\<in>set ls. \<exists>res b. l = LRefuse (cmd_id c) res b"
    using dispatch_pending [OF Cons.prems(1)] by meson
  have "stuck_conf (sm_conf v)" "w' = fold (\<lambda>c w. snd (dispatch_terminal (sim_dispatcher now) c w)) cs v"
    using Cons.prems v by simp_all
  from Cons.IH [OF this] obtain ks where ks: "sm_conf w' = sm_conf v" "sm_log w' = sm_log v @ ks"
    "\<forall>l\<in>set ks. \<exists>c\<in>set cs. \<exists>res b. l = LRefuse (cmd_id c) res b" by blast
  have "\<forall>l\<in>set (ls @ ks). \<exists>c\<in>set (c # cs). \<exists>res b. l = LRefuse (cmd_id c) res b"
    using v(4) ks(3) by fastforce
  with ks(1,2) v(2,3) show ?case by auto
qed simp

definition pending_world :: sim where
  "pending_world = \<lparr>sm_conf = fresh_conf (Some record1), sm_answers = [], sm_log = []\<rparr>"

theorem pending_blocks_terminal_witness:
  "sm_conf (fold (\<lambda>c w. snd (dispatch_terminal (sim_dispatcher year_2029) c w)) [terminal_command, terminal_command] pending_world)
     = fresh_conf (Some record1)"
proof -
  have "stuck_conf (sm_conf pending_world)" by (simp add: stuck_conf_def pending_world_def fresh_conf_def)
  from conjunct1 [OF pending_blocks_terminal [OF this refl]] have
    "sm_conf (fold (\<lambda>c w. snd (dispatch_terminal (sim_dispatcher year_2029) c w)) [terminal_command, terminal_command] pending_world)
      = sm_conf pending_world" .
  then show ?thesis by (simp only: pending_world_def sim.simps)
qed

section \<open>A record that is lost\<close>

definition idle_world :: "(bool \<times> bool) list \<Rightarrow> sim" where
  "idle_world given = \<lparr>sm_conf = fresh_conf None, sm_answers = given, sm_log = []\<rparr>"

definition uuid2 :: string where "uuid2 = ''22222222-2222-4222-8222-222222222222''"

definition lost_world :: sim where
  "lost_world = snd (dispatch_terminal (sim_dispatcher year_2029) terminal_command
     (idle_world [(True, False), (True, False), (False, False), (True, False), (False, True)]))"

definition next_world :: sim where
  "next_world = snd (dispatch_terminal (sim_dispatcher year_2029) (terminal_command\<lparr>cmd_id := uuid2\<rparr>) lost_world)"

lemma sample_starts:
  "cmd_version terminal_command = 1" "cmd_terminal terminal_command = Some terminal_payload1" "cmd_id terminal_command = uuid1"
  "start_record_of (terminal_command\<lparr>cmd_id := uuid2\<rparr>) = Some (record1\<lparr>tr_command_id := uuid2\<rparr>)"
  "\<not> start_expired terminal_command record1 year_2029"
  "\<not> start_expired (terminal_command\<lparr>cmd_id := uuid2\<rparr>) (record1\<lparr>tr_command_id := uuid2\<rparr>) year_2029"
  "validate_recovery (failure_record record1) = None"
proof -
  show "cmd_version terminal_command = 1" "cmd_terminal terminal_command = Some terminal_payload1" "cmd_id terminal_command = uuid1"
    using sample_fields by (simp_all add: terminal_command_def terminal_raw_def)
  have "is_canonical_uuid uuid2" by code_simp
  then have "validate_recovery (record1\<lparr>tr_command_id := uuid2\<rparr>) = None"
    using record1_valid(1) by (auto simp: validate_recovery_def split: if_splits)
  moreover have "recovery_of (terminal_command\<lparr>cmd_id := uuid2\<rparr>) terminal_payload1 = record1\<lparr>tr_command_id := uuid2\<rparr>"
    by (simp add: record1_def recovery_of_def)
  ultimately show "start_record_of (terminal_command\<lparr>cmd_id := uuid2\<rparr>) = Some (record1\<lparr>tr_command_id := uuid2\<rparr>)"
    using sample_fields by (simp add: start_record_of_def terminal_command_def terminal_raw_def)
  show "validate_recovery (failure_record record1) = None"
    using record1_valid(1) by (auto simp: validate_recovery_def failure_record_def split: if_splits)
  have "after year_2030 year_2029" "after (tp_absolute_expires_at terminal_payload1) year_2029" by code_simp+
  then show "\<not> start_expired terminal_command record1 year_2029"
    "\<not> start_expired (terminal_command\<lparr>cmd_id := uuid2\<rparr>) (record1\<lparr>tr_command_id := uuid2\<rparr>) year_2029"
    using sample_fields by (simp_all add: start_expired_def record1_fields terminal_command_def)
qed

lemmas run_defs = sim_simps sim_modify sim_rollback look_state_def sim_store_def sim_call_def answer_def called_def op_defs section_defs same_def

lemma failed_start:
  "manager_start (sim_terminal year_2029) terminal_command (idle_world [(True, False), (False, False), (True, False), (False, True)]) =
     (Some (TerminalError ''TERMINAL_START_FAILED''),
      \<lparr>sm_conf = (fresh_conf None)\<lparr>tc_state := \<lparr>ms_active = False, ms_pending = False, ms_done = None, ms_next = 1\<rparr>\<rparr>,
       sm_answers = [(False, True)], sm_log = [LSave record1 True, LLaunch uuid1 False, LClear True]\<rparr>)"
  by (simp add: manager_start_def record1_started sample_starts begin_session_def launch_session_def idle_world_def
      fresh_conf_def run_defs)

lemma lost_conf:
  "lost_world = \<lparr>sm_conf = (fresh_conf (Some (failure_record record1)))
       \<lparr>tc_state := \<lparr>ms_active = False, ms_pending = False, ms_done = None, ms_next = 1\<rparr>\<rparr>,
     sm_answers = [], sm_log = [LSave record1 True, LLaunch uuid1 False, LClear True, LSave (failure_record record1) False]\<rparr>"
proof -
  have code: "terminal_code (TerminalError ''TERMINAL_START_FAILED'') = ''TERMINAL_START_FAILED''"
    by (simp add: terminal_code_def terminal_codes_def)
  have written: "(recovery_of terminal_command terminal_payload1)\<lparr>tr_pending_code := ''TERMINAL_START_FAILED'',
      tr_pending_message := terminal_message ''TERMINAL_START_FAILED''\<rparr> = failure_record record1"
    by (simp add: record1_def failure_record_def)
  have saved: "record_start_failure (sim_terminal year_2029) terminal_command ''TERMINAL_START_FAILED'' (terminal_message ''TERMINAL_START_FAILED'') w =
      try_err (sim_store (LSave (failure_record record1)) (Some (failure_record record1))) (wrap ''persist terminal start failure: '')
        (op_bind (modify (sim_terminal year_2029) (set_pending True)) (\<lambda>_. op_return None)) w" for w
    by (simp add: record_start_failure_def sample_starts written Let_def sim_simps)
  let ?g = "sim_terminal year_2029" and ?d = "sim_dispatcher year_2029"
  let ?m = "manager_interface ?g"
  let ?w1 = "idle_world [(True, False), (False, False), (True, False), (False, True)]"
  have m: "d_terminal ?d = Some ?m" "tm_start ?m = manager_start ?g" "tm_record_failure ?m = Some (record_start_failure ?g)"
    by (simp_all add: sim_dispatcher_def manager_interface_def)
  have acked: "d_start ?d i l (idle_world ((True, False) # as)) = (None, idle_world as)" for i l as
    by (simp add: sim_dispatcher_def answer_def idle_world_def)
  have tried: "start_or_replace ?m terminal_command ?w1 = manager_start ?g terminal_command ?w1"
    by (simp add: start_or_replace_def m op_defs failed_start)
  show ?thesis
    unfolding lost_world_def
    by (simp add: dispatch_terminal_def sample_starts m try_err_def op_bind_def op_return_def acked tried failed_start
        report_start_failure_def recorder_for_def code Let_def saved sim_store_def answer_def called_def fresh_conf_def)
qed

text \<open>
  A failure record that is half written is lost. The launch fails, and saving the record of the failure
  fails after the file was replaced (the last calls of \<open>Save\<close> can fail then): the record is in the store, but
  recovery is not pending, and no report was sent. The next terminal command is not refused; its record overwrites
  the other, whose failure is never reported.
\<close>

theorem failed_record_lost:
  "tc_store (sm_conf lost_world) = Some (failure_record record1) \<and> \<not> ms_pending (tc_state (sm_conf lost_world)) \<and>
   tc_store (sm_conf next_world) = Some (record1\<lparr>tr_command_id := uuid2\<rparr>) \<and>
   ms_active (tc_state (sm_conf next_world)) \<and> \<not> reported (sm_log next_world) record1"
proof -
  have "cmd_id (terminal_command\<lparr>cmd_id := uuid2\<rparr>) = uuid2" "cmd_version (terminal_command\<lparr>cmd_id := uuid2\<rparr>) = 1"
    "cmd_terminal (terminal_command\<lparr>cmd_id := uuid2\<rparr>) = Some terminal_payload1"
    using sample_starts(1,2) by simp_all
  then show ?thesis
    by (simp add: lost_conf next_world_def dispatch_terminal_def sim_dispatcher_def manager_interface_def start_or_replace_def
        op_defs answer_def manager_start_def sample_starts(4,6) begin_session_def launch_session_def fresh_conf_def run_defs reported_def)
qed

end
