(* ===== verification/Relay.thy ===== *)
theory Relay
  imports CommandStore CommandProps
begin

text \<open>
  The relay's pure parts (\<open>internal/terminal/relay.go\<close>): the check of the relay's URL, the control frames a
  browser sends.
\<close>

section \<open>The URL\<close>

definition validate_relay_url :: "string \<Rightarrow> string \<Rightarrow> bool \<Rightarrow> goerr option" where
  "validate_relay_url raw session development =
     (case url_parse raw of
        None \<Rightarrow> Some (Plain ''invalid relay URL'')
      | Some u \<Rightarrow>
          if u_opaque u \<noteq> [] \<or> u_user u \<or> u_raw_query u \<noteq> [] \<or> u_force_query u \<or> u_fragment u \<noteq> [] \<or> hostname u = []
          then Some (Plain ''invalid relay URL'')
          else (let scheme_error =
              (if development \<and> u_scheme u = ''ws'' then
                 (if to_lower (hostname u) \<noteq> ''127.0.0.1'' \<and> to_lower (hostname u) \<noteq> ''::1'' \<and> to_lower (hostname u) \<noteq> ''localhost''
                  then Some (Plain ''invalid development relay URL'') else None)
               else if u_scheme u \<noteq> ''wss'' then Some (Plain ''relay URL must use WSS'') else None);
              expected = ''/terminal/v1/agent/'' @ session in
            if scheme_error \<noteq> None then scheme_error
            else if session = [] \<or> u_path u \<noteq> expected \<or> escaped_path u \<noteq> expected then Some (Plain ''invalid relay path'')
            else None))"

definition relay_path :: "string \<Rightarrow> string \<Rightarrow> goerr + string" where
  "relay_path raw session =
     (case validate_relay_url raw session (has_prefix raw ''ws://'') of Some e \<Rightarrow> Inl e | None \<Rightarrow> Inr raw)"

lemma relay_guards:
  fixes s ws wss :: string and e1 e2 e3 e4 :: goerr
  assumes "ws \<noteq> wss"
  shows "((if A then Some e1
      else (let x = (if d \<and> s = ws then (if L then Some e2 else None) else if s \<noteq> wss then Some e3 else None) in
        if x \<noteq> None then x else if P then Some e4 else None)) = None) \<longleftrightarrow>
    \<not> A \<and> (s = wss \<or> d \<and> s = ws \<and> \<not> L) \<and> \<not> P"
  using assms by (auto simp: Let_def)

lemma relay_url_same:
  assumes "session \<noteq> []"
  shows "validate_relay_url raw session d = None \<longleftrightarrow> validate_terminal_relay_url raw session d = None"
proof (cases "url_parse raw")
  case (Some u)
  have loopback: "is_exact_loopback h \<longleftrightarrow> \<not> (to_lower h \<noteq> ''127.0.0.1'' \<and> to_lower h \<noteq> ''::1'' \<and> to_lower h \<noteq> ''localhost'')" for h
    unfolding is_exact_loopback_def by blast
  have relay: "validate_relay_url raw session d = None \<longleftrightarrow>
      \<not> (u_opaque u \<noteq> [] \<or> u_user u \<or> u_raw_query u \<noteq> [] \<or> u_force_query u \<or> u_fragment u \<noteq> [] \<or> hostname u = []) \<and>
      (u_scheme u = ''wss'' \<or> d \<and> u_scheme u = ''ws'' \<and> is_exact_loopback (hostname u)) \<and>
      u_path u = terminal_path session \<and> escaped_path u = terminal_path session"
    unfolding validate_relay_url_def Some option.case loopback terminal_path_def Let_def
    by (subst relay_guards [unfolded Let_def], simp, use assms in blast)
  show ?thesis
    unfolding relay unfolding validate_terminal_relay_url_def Some option.case Let_def by auto
qed (simp add: validate_relay_url_def validate_terminal_relay_url_def)

section \<open>Control frames\<close>

abbreviation "max_relay_frame \<equiv> 65536 :: nat"
abbreviation "max_outbound_bytes \<equiv> 1048576 :: int"
abbreviation "max_outbound_messages \<equiv> 64 :: nat"

definition max_control_frame :: nat where "max_control_frame = 4096"

record control =
  ct_kind :: string
  ct_columns :: int
  ct_rows :: int
  ct_reason :: string

definition invalid_control :: "goerr + control" where
  "invalid_control = Inl (Plain ''invalid control'')"

text \<open>\<open>json.Unmarshal\<close> of a member into a zero variable; a member that is missing is an error.\<close>

definition member :: "'a json_dec \<Rightarrow> 'a \<Rightarrow> string \<Rightarrow> (string \<times> json) list \<Rightarrow> 'a option" where
  "member d z n kvs =
     (case map_of kvs n of None \<Rightarrow> None | Some v \<Rightarrow> (case d v z of Inl e \<Rightarrow> None | Inr x \<Rightarrow> Some x))"

definition close_reasons :: "string list" where
  "close_reasons = [''browser-disconnected'', ''session-expired'', ''operator-request'']"

definition control_of :: "string \<Rightarrow> (string \<times> json) list \<Rightarrow> goerr + control" where
  "control_of kind kvs =
     (if kind = ''ping'' \<or> kind = ''pong'' then
        (if length kvs \<noteq> 1 then invalid_control else Inr \<lparr>ct_kind = kind, ct_columns = 0, ct_rows = 0, ct_reason = []\<rparr>)
      else if kind = ''resize'' then
        (if length kvs \<noteq> 3 then invalid_control
         else case (member dec_int 0 ''columns'' kvs, member dec_int 0 ''rows'' kvs) of
           (Some c, Some r) \<Rightarrow>
             if c < 20 \<or> c > 500 \<or> r < 5 \<or> r > 200 then invalid_control
             else Inr \<lparr>ct_kind = kind, ct_columns = c, ct_rows = r, ct_reason = []\<rparr>
         | _ \<Rightarrow> invalid_control)
      else if kind = ''close'' then
        (if length kvs \<noteq> 2 then invalid_control
         else case member dec_string [] ''reason'' kvs of
           Some reason \<Rightarrow>
             if reason \<notin> set close_reasons then invalid_control
             else Inr \<lparr>ct_kind = kind, ct_columns = 0, ct_rows = 0, ct_reason = reason\<rparr>
         | None \<Rightarrow> invalid_control)
      else invalid_control)"

text \<open>\<open>rejectDuplicateControlFields\<close>: an object, whose own names are distinct.\<close>

definition distinct_object :: "json \<Rightarrow> (string \<times> json) list option" where
  "distinct_object v = (case v of JObj kvs \<Rightarrow> if distinct (map fst kvs) then Some kvs else None | _ \<Rightarrow> None)"

definition parse_control :: "string \<Rightarrow> goerr + control" where
  "parse_control data =
     (if data = [] \<or> length data > max_control_frame then invalid_control
      else case Option.bind (json_document data) distinct_object of
        None \<Rightarrow> invalid_control
      | Some kvs \<Rightarrow>
          (case member dec_string [] ''type'' kvs of
             None \<Rightarrow> invalid_control
           | Some kind \<Rightarrow> control_of kind kvs))"

text \<open>What a control frame may be, and the text of one.\<close>

definition control_ok :: "control \<Rightarrow> bool" where
  "control_ok c \<longleftrightarrow>
     (ct_kind c \<in> {''ping'', ''pong''} \<and> ct_columns c = 0 \<and> ct_rows c = 0 \<and> ct_reason c = []) \<or>
     (ct_kind c = ''resize'' \<and> ct_columns c \<in> {20..500} \<and> ct_rows c \<in> {5..200} \<and> ct_reason c = []) \<or>
     (ct_kind c = ''close'' \<and> ct_columns c = 0 \<and> ct_rows c = 0 \<and>
        ct_reason c \<in> set close_reasons)"

definition control_json :: "control \<Rightarrow> json" where
  "control_json c =
     JObj ((''type'', JStr (ct_kind c)) #
       (if ct_kind c = ''resize'' then [(''columns'', JNum (int_str (ct_columns c))), (''rows'', JNum (int_str (ct_rows c)))]
        else if ct_kind c = ''close'' then [(''reason'', JStr (ct_reason c))] else []))"

lemma control_of_cases:
  assumes "control_of kind kvs = Inr c"
  obtains (simple) "kind \<in> {''ping'', ''pong''}" "c = \<lparr>ct_kind = kind, ct_columns = 0, ct_rows = 0, ct_reason = []\<rparr>"
  | (resize) m n where "kind = ''resize''" "m \<in> {20..500}" "n \<in> {5..200}"
      "c = \<lparr>ct_kind = kind, ct_columns = m, ct_rows = n, ct_reason = []\<rparr>"
  | (close) r where "kind = ''close''" "r \<in> set close_reasons"
      "c = \<lparr>ct_kind = kind, ct_columns = 0, ct_rows = 0, ct_reason = r\<rparr>"
proof (cases "kind = ''ping'' \<or> kind = ''pong''")
  case True
  with assms have "c = \<lparr>ct_kind = kind, ct_columns = 0, ct_rows = 0, ct_reason = []\<rparr>"
    by (simp only: control_of_def invalid_control_def if_True split: if_split_asm) simp_all
  with True show thesis by (intro simple) simp_all
next
  case a: False
  show thesis
  proof (cases "kind = ''resize''")
    case True
    with a assms obtain m n where "c = \<lparr>ct_kind = kind, ct_columns = m, ct_rows = n, ct_reason = []\<rparr>"
      "\<not> m < 20" "\<not> m > 500" "\<not> n < 5" "\<not> n > 200"
      by (simp only: control_of_def invalid_control_def if_True if_False split: if_split_asm option.splits prod.splits) auto
    with True show thesis by (intro resize [of m n]) simp_all
  next
    case b: False
    show thesis
    proof (cases "kind = ''close''")
      case True
      with a b assms obtain r where "c = \<lparr>ct_kind = kind, ct_columns = 0, ct_rows = 0, ct_reason = r\<rparr>"
        "r \<in> set close_reasons"
        by (simp only: control_of_def invalid_control_def if_True if_False split: if_split_asm option.splits) auto
      with True show thesis by (intro close [of r]) simp_all
    next
      case False
      with a b assms show thesis by (simp only: control_of_def invalid_control_def if_False) simp
    qed
  qed
qed

lemma control_of_ok: "control_of kind kvs = Inr c \<Longrightarrow> control_ok c"
  by (erule control_of_cases) (simp_all only: control_ok_def control.simps simp_thms)

lemma parse_control_ok: "parse_control data = Inr c \<Longrightarrow> control_ok c"
  by (auto simp: parse_control_def invalid_control_def dest: control_of_ok split: if_splits option.splits)

text \<open>Every control frame that may be is read back from its text.\<close>

lemma nat_str_short: "n < 1000 \<Longrightarrow> length (nat_str n) \<le> 3"
proof -
  have one: "k < 10 \<Longrightarrow> length (nat_str k) \<le> 1" for k by (simp add: nat_str.simps [of k])
  have two: "k < 100 \<Longrightarrow> length (nat_str k) \<le> 2" for k using one [of "k div 10"] by (simp add: nat_str.simps [of k])
  show "n < 1000 \<Longrightarrow> ?thesis" using two [of "n div 10"] by (simp add: nat_str.simps [of n])
qed

lemma int_str_short: "0 \<le> i \<Longrightarrow> i < 1000 \<Longrightarrow> length (int_str i) \<le> 3"
  by (simp add: int_str_def nat_str_short)

lemma control_names: "distinct [''type'', ''columns'', ''rows'']" "distinct [''type'', ''reason'']"
  by simp_all

lemma close_reasons_printable: "list_all (\<lambda>r. list_all printable r \<and> length r \<le> 30) close_reasons"
  by (simp add: close_reasons_def printable_def)

lemma control_reads:
  assumes "control_ok c"
  shows "parse_control (json_text (control_json c)) = Inr c"
proof -
  have read: "parse_control (json_text (JObj kvs)) = (case member dec_string [] ''type'' kvs of None \<Rightarrow> invalid_control | Some kind \<Rightarrow> control_of kind kvs)"
    if "printable_json (JObj kvs)" "numbers_ok (JObj kvs)" "nested_within 0 (JObj kvs)" "distinct (map fst kvs)"
      "sum_list (map token_length (value_tokens (JObj kvs))) \<in> {1..4096}" for kvs
  proof -
    have "json_document (json_text (JObj kvs)) = Some (JObj kvs)"
      using that json_round_trip clean_fixed printable_clean by metis
    moreover have "json_text (JObj kvs) \<noteq> []" "length (json_text (JObj kvs)) \<le> max_control_frame"
      using that(5) printable_length [OF that(1)] by (auto simp: max_control_frame_def)
    ultimately show ?thesis using that(4) by (simp add: parse_control_def distinct_object_def)
  qed
  obtain kind m n r where c: "c = \<lparr>ct_kind = kind, ct_columns = m, ct_rows = n, ct_reason = r\<rparr>" by (cases c)
  have cases: "(kind \<in> {''ping'', ''pong''} \<and> m = 0 \<and> n = 0 \<and> r = []) \<or>
    (kind = ''resize'' \<and> m \<in> {20..500} \<and> n \<in> {5..200} \<and> r = []) \<or>
    (kind = ''close'' \<and> m = 0 \<and> n = 0 \<and> r \<in> set close_reasons)"
    using assms by (simp add: c control_ok_def)
  show ?thesis
    using cases
  proof (elim disjE conjE)
    assume k: "kind \<in> {''ping'', ''pong''}" "m = 0" "n = 0" "r = []"
    have "parse_control (json_text (JObj [(''type'', JStr kind)])) = control_of kind [(''type'', JStr kind)]"
      by (subst read) (use k(1) in \<open>auto simp: printable_def member_def\<close>)
    with k show ?thesis by (auto simp: c control_json_def control_of_def)
  next
    assume k: "kind = ''resize''" "m \<in> {20..500}" "n \<in> {5..200}" "r = []"
    let ?kvs = "[(''type'', JStr ''resize''), (''columns'', JNum (int_str m)), (''rows'', JNum (int_str n))]"
    have mn: "length (int_str m) \<le> 3" "length (int_str n) \<le> 3" using k by (auto intro: int_str_short)
    have "parse_control (json_text (JObj ?kvs)) = control_of ''resize'' ?kvs"
      by (subst read) (use mn number_int in \<open>auto simp: printable_def member_def\<close>)
    moreover have "int_literal (int_str m) = Some m" "int_literal (int_str n) = Some n" using k by (auto intro: int_literal_int)
    ultimately show ?thesis using k by (simp add: c control_json_def control_of_def member_def)
  next
    assume k: "kind = ''close''" "m = 0" "n = 0" "r \<in> set close_reasons"
    let ?kvs = "[(''type'', JStr ''close''), (''reason'', JStr r)]"
    have rp: "list_all printable r" "length r \<le> 30" using k(4) close_reasons_printable by (auto simp: list_all_iff)
    have "parse_control (json_text (JObj ?kvs)) = control_of ''close'' ?kvs"
      by (subst read) (use rp in \<open>auto simp: printable_def member_def\<close>)
    with k show ?thesis by (simp add: c control_json_def control_of_def member_def)
  qed
qed

end
