(* ===== verification/RelayRate.thy ===== *)
theory RelayRate
  imports GoTime Complex_Main "HOL-Library.Signed_Division"
begin

text \<open>
  The token bucket of \<open>internal/terminal/relay.go\<close>, which bounds the rate of each direction of a terminal. Of its
  floating-point numbers the model keeps the rounding as a parameter: every operation is exact on rational
  numbers and then rounded.
\<close>

section \<open>The token bucket\<close>

text \<open>
  The counts are of type \<open>float64\<close>; \<open>fl\<close> is its rounding. What the lemmas use of it is \<open>float_rounding\<close>: monotone,
  exact on the integers below \<open>2\<^sup>5\<^sup>3\<close>, and the error of a rounding to nearest.
\<close>

definition token_rate :: rat where "token_rate = 2097152"
definition token_burst :: rat where "token_burst = 8388608"

record token_bucket =
  tb_tokens :: rat
  tb_last :: gotime

definition new_token_bucket :: "gotime \<Rightarrow> token_bucket" where
  "new_token_bucket now = \<lparr>tb_tokens = token_burst, tb_last = now\<rparr>"

text \<open>\<open>Duration.Seconds\<close>; \<open>now.Sub\<close> saturates, here at the largest duration.\<close>

definition duration_sub :: "gotime \<Rightarrow> gotime \<Rightarrow> int" where
  "duration_sub t u = max (- (2 ^ 63)) (min (2 ^ 63 - 1) (instant t - instant u))"

definition seconds :: "(rat \<Rightarrow> rat) \<Rightarrow> int \<Rightarrow> rat" where
  "seconds fl d = fl (fl (of_int (d sdiv second_ns)) + fl (fl (of_int (d smod second_ns)) / 1000000000))"

definition refill :: "(rat \<Rightarrow> rat) \<Rightarrow> gotime \<Rightarrow> token_bucket \<Rightarrow> token_bucket" where
  "refill fl now b =
     (let elapsed = seconds fl (duration_sub now (tb_last b)) in
      if elapsed > 0 then
        (let t = fl (tb_tokens b + fl (elapsed * token_rate)) in
         b\<lparr>tb_tokens := (if t > token_burst then token_burst else t), tb_last := now\<rparr>)
      else b)"

definition allow :: "(rat \<Rightarrow> rat) \<Rightarrow> token_bucket \<Rightarrow> int \<Rightarrow> gotime \<Rightarrow> bool \<times> token_bucket" where
  "allow fl b n now =
     (if n < 0 then (False, b)
      else let b' = refill fl now b in
        if fl (of_int n) > tb_tokens b' then (False, b')
        else (True, b'\<lparr>tb_tokens := fl (tb_tokens b' - fl (of_int n))\<rparr>))"

definition float_rounding :: "(rat \<Rightarrow> rat) \<Rightarrow> bool" where
  "float_rounding fl \<longleftrightarrow> mono fl \<and> (\<forall>n. \<bar>n\<bar> \<le> 2 ^ 53 \<longrightarrow> fl (of_int n) = of_int n) \<and>
     (\<forall>x. \<bar>x\<bar> \<le> 2 ^ 100 \<longrightarrow> \<bar>fl x - x\<bar> \<le> \<bar>x\<bar> / 2 ^ 53 + 1 / 2 ^ 100)"

text \<open>The bytes that a sequence of calls lets through, and the bucket after it.\<close>

fun allowed :: "(rat \<Rightarrow> rat) \<Rightarrow> token_bucket \<Rightarrow> (int \<times> gotime) list \<Rightarrow> int \<times> token_bucket" where
  "allowed fl b [] = (0, b)"
| "allowed fl b ((n, now) # cs) =
     (case allow fl b n now of (ok, b') \<Rightarrow>
       (case allowed fl b' cs of (rest, b'') \<Rightarrow> ((if ok then n else 0) + rest, b'')))"


subsection \<open>Bounds of one call\<close>

lemma rounding:
  assumes "float_rounding fl"
  shows "mono fl" "\<bar>n\<bar> \<le> 2 ^ 53 \<Longrightarrow> fl (of_int n) = of_int n" "fl 0 = 0" "fl token_burst = token_burst"
    "0 \<le> x \<Longrightarrow> x \<le> 2 ^ 100 \<Longrightarrow> fl x \<le> x + x / 2 ^ 53 + 1 / 2 ^ 100" "0 \<le> x \<Longrightarrow> 0 \<le> fl x"
proof -
  show m: "mono fl" and i: "\<bar>n\<bar> \<le> 2 ^ 53 \<Longrightarrow> fl (of_int n) = of_int n" for n
    using assms by (simp_all add: float_rounding_def)
  show z: "fl 0 = 0" using i [of 0] by simp
  show "fl token_burst = token_burst" using i [of 8388608] by (simp add: token_burst_def)
  show "0 \<le> x \<Longrightarrow> 0 \<le> fl x" using monoD [OF m, of 0 x] z by simp
  assume x: "0 \<le> x" "x \<le> 2 ^ 100"
  have "\<bar>x\<bar> \<le> 2 ^ 100 \<longrightarrow> \<bar>fl x - x\<bar> \<le> \<bar>x\<bar> / 2 ^ 53 + 1 / 2 ^ 100"
    using assms unfolding float_rounding_def by blast
  with x show "fl x \<le> x + x / 2 ^ 53 + 1 / 2 ^ 100" by linarith
qed

lemma seconds_nonpos:
  assumes "float_rounding fl" "d \<le> 0" "- (2 ^ 63) \<le> d"
  shows "seconds fl d \<le> 0"
proof -
  note m = monoD [OF rounding(1) [OF assms(1)]] and z = rounding(3) [OF assms(1)]
  have "d sdiv second_ns \<le> 0" "d smod second_ns \<le> 0"
    using assms(2) pos_imp_zdiv_nonneg_iff [of second_ns "- d"]
    by (auto simp: signed_divide_int_def signed_modulo_int_def second_ns_def sgn_if)
  then have a: "fl (of_int (d sdiv second_ns)) \<le> 0" "fl (of_int (d smod second_ns)) \<le> 0"
    using m [of _ 0] z by auto
  then have "fl (fl (of_int (d smod second_ns)) / 1000000000) \<le> 0" using m [of _ 0] z by auto
  with a show ?thesis unfolding seconds_def using m [of _ 0] z by (metis add_nonpos_nonpos)
qed

lemma seconds_upper:
  assumes "float_rounding fl" "0 < d" "d < 2 ^ 63"
  shows "0 \<le> seconds fl d" "seconds fl d \<le> of_int d / 10 ^ 9 * (1 + 1 / 2 ^ 51) + 1 / 2 ^ 98" "seconds fl d \<le> 2 ^ 40"
proof -
  note r = rounding [OF assms(1)]
  define q m where "q = d div second_ns" and "m = d mod second_ns"
  have qm: "d = 1000000000 * q + m" "0 \<le> m" "m < 1000000000" by (simp_all add: q_def m_def second_ns_def)
  have "d < 9223372036854775808" using assms(3) by simp
  with qm assms(2) have q: "0 \<le> q" "q \<le> 9223372037" by linarith+
  have s: "d sdiv second_ns = q" "d smod second_ns = m"
    using assms(2) by (simp_all add: signed_divide_int_def signed_modulo_int_def q_def m_def second_ns_def minus_div_mult_eq_mod [symmetric])
  have exact: "fl (of_int q) = of_int q" "fl (of_int m) = of_int m" using r(2) q qm by simp_all
  define b where "b = fl (of_int m / 1000000000)"
  have dr: "(of_int d :: rat) = 1000000000 * of_int q + of_int m" by (simp add: qm(1))
  have ir: "(0 :: rat) \<le> of_int q" "(of_int q :: rat) \<le> 9223372037" "(0 :: rat) \<le> of_int m" "(of_int m :: rat) < 1000000000"
    using q qm by simp_all
  have b: "0 \<le> b" "b \<le> of_int m / 1000000000 + of_int m / 1000000000 / 2 ^ 53 + 1 / 2 ^ 100"
    unfolding b_def using ir by (intro r(5,6); simp)+
  have e: "seconds fl d = fl (of_int q + b)" by (simp add: seconds_def s exact b_def)
  have sum: "0 \<le> of_int q + b" "of_int q + b \<le> 2 ^ 36" using ir b by simp_all
  have "seconds fl d \<le> (of_int q + b) + (of_int q + b) / 2 ^ 53 + 1 / 2 ^ 100"
    unfolding e using sum by (intro r(5)) simp_all
  with b sum ir dr show "seconds fl d \<le> of_int d / 10 ^ 9 * (1 + 1 / 2 ^ 51) + 1 / 2 ^ 98" "seconds fl d \<le> 2 ^ 40"
    by (simp_all add: field_simps)
  show "0 \<le> seconds fl d" unfolding e using sum by (intro r(6)) simp
qed

definition bucket_ok :: "token_bucket \<Rightarrow> bool" where
  "bucket_ok b \<longleftrightarrow> 0 \<le> tb_tokens b \<and> tb_tokens b \<le> token_burst"

definition passed :: "token_bucket \<Rightarrow> token_bucket \<Rightarrow> rat" where
  "passed b b' = of_int (instant (tb_last b') - instant (tb_last b)) / 10 ^ 9"

lemma refill_bounds:
  assumes "float_rounding fl" "bucket_ok b"
  shows "bucket_ok (refill fl now b)" "0 \<le> passed b (refill fl now b)"
    "tb_tokens (refill fl now b) \<le> tb_tokens b + token_rate * (1 + 1 / 2 ^ 50) * passed b (refill fl now b) + 1 / 2 ^ 29"
proof -
  note r = rounding [OF assms(1)]
  define d where "d = duration_sub now (tb_last b)"
  define s where "s = seconds fl d"
  have range: "- (2 ^ 63) \<le> d" "d < 2 ^ 63" by (simp_all add: d_def duration_sub_def)
  have "bucket_ok (refill fl now b) \<and> 0 \<le> passed b (refill fl now b) \<and>
    tb_tokens (refill fl now b) \<le> tb_tokens b + token_rate * (1 + 1 / 2 ^ 50) * passed b (refill fl now b) + 1 / 2 ^ 29"
  proof (cases "0 < s")
    case False
    then have "refill fl now b = b" by (simp add: refill_def s_def d_def)
    with assms(2) show ?thesis by (simp add: passed_def)
  next
    case True
    have d: "0 < d" using True seconds_nonpos [OF assms(1) _ range(1)] by (force simp: s_def)
    note su = seconds_upper [OF assms(1) d range(2), folded s_def]
    define y where "y = fl (s * token_rate)"
    define t where "t = fl (tb_tokens b + y)"
    have e: "refill fl now b = b\<lparr>tb_tokens := (if t > token_burst then token_burst else t), tb_last := now\<rparr>"
      using True by (simp add: refill_def Let_def s_def d_def y_def t_def)
    define D where "D = passed b (refill fl now b)"
    have dD: "of_int d / 10 ^ 9 \<le> D" "0 \<le> D"
      using d by (auto simp: D_def passed_def e d_def duration_sub_def)
    have sD: "s \<le> D * (1 + 1 / 2 ^ 51) + 1 / 2 ^ 98" using su(2) dD by simp
    have y: "0 \<le> y" "y \<le> s * 2097152 + s * 2097152 / 2 ^ 53 + 1 / 2 ^ 100"
      unfolding y_def token_rate_def using su by (intro r(5,6); simp)+
    have b: "0 \<le> tb_tokens b" "tb_tokens b \<le> 8388608" using assms(2) by (simp_all add: bucket_ok_def token_burst_def)
    have ty: "0 \<le> tb_tokens b + y" "tb_tokens b + y \<le> 2 ^ 70" using b y su by simp_all
    have t: "0 \<le> t" "t \<le> tb_tokens b + y + (tb_tokens b + y) / 2 ^ 53 + 1 / 2 ^ 100"
      unfolding t_def using ty by (intro r(5,6); simp)+
    have "t \<le> tb_tokens b + token_rate * (1 + 1 / 2 ^ 50) * D + 1 / 2 ^ 29"
      using t(2) y(2) sD b dD(2) su(1) by (simp add: token_rate_def field_simps)
    moreover have "tb_tokens (refill fl now b) = (if t > token_burst then token_burst else t)" by (simp add: e)
    ultimately show ?thesis
      unfolding D_def [symmetric] bucket_ok_def using t(1) dD(2) by (simp add: token_burst_def)
  qed
  then show "bucket_ok (refill fl now b)" "0 \<le> passed b (refill fl now b)"
    "tb_tokens (refill fl now b) \<le> tb_tokens b + token_rate * (1 + 1 / 2 ^ 50) * passed b (refill fl now b) + 1 / 2 ^ 29"
    by blast+
qed

lemma passed_add: "passed a b + passed b c = passed a c"
  by (simp add: passed_def flip: add_divide_distrib)

lemma allow_bounds:
  assumes "float_rounding fl" "bucket_ok b" "allow fl b n now = (ok, b')"
  shows "bucket_ok b'" "0 \<le> passed b b'" "ok \<Longrightarrow> 0 \<le> n"
    "of_int (if ok then n else 0) + tb_tokens b' \<le> tb_tokens b + token_rate * (1 + 1 / 2 ^ 50) * passed b b' + 1 / 2 ^ 28"
proof -
  note r = rounding [OF assms(1)] and f = refill_bounds [OF assms(1,2), of now]
  let ?b = "refill fl now b"
  have "bucket_ok b' \<and> 0 \<le> passed b b' \<and> (ok \<longrightarrow> 0 \<le> n) \<and>
    of_int (if ok then n else 0) + tb_tokens b' \<le> tb_tokens b + token_rate * (1 + 1 / 2 ^ 50) * passed b b' + 1 / 2 ^ 28"
  proof (cases "n < 0")
    case True
    with assms show ?thesis by (simp add: allow_def passed_def)
  next
    case n: False
    show ?thesis
    proof (cases "fl (of_int n) > tb_tokens ?b")
      case True
      with assms(3) n have "b' = ?b" "\<not> ok" by (simp_all add: allow_def Let_def)
      with f show ?thesis by (simp add: token_rate_def)
    next
      case False
      with assms(3) n have b': "b' = ?b\<lparr>tb_tokens := fl (tb_tokens ?b - fl (of_int n))\<rparr>" "ok"
        by (simp_all add: allow_def Let_def)
      have "n \<le> 2 ^ 53"
      proof (rule ccontr)
        assume "\<not> n \<le> 2 ^ 53"
        then have "fl (of_int (2 ^ 53)) \<le> fl (of_int n)" by (intro monoD [OF r(1)]) (simp only: of_int_le_iff)
        moreover have "fl (of_int (2 ^ 53)) = of_int (2 ^ 53)" by (rule r(2)) simp
        ultimately have "(2 ^ 53 :: rat) \<le> tb_tokens ?b" using False by simp
        with f(1) show False by (simp add: bucket_ok_def token_burst_def)
      qed
      with n r(2) have exact: "fl (of_int n) = of_int n" by simp
      define x where "x = tb_tokens ?b - of_int n"
      have x: "0 \<le> x" "x \<le> token_burst" using False exact f(1) n by (simp_all add: x_def bucket_ok_def)
      have fx: "0 \<le> fl x" "fl x \<le> x + x / 2 ^ 53 + 1 / 2 ^ 100" "fl x \<le> token_burst"
        using x r(5,6) monoD [OF r(1) x(2)] r(4) by (simp_all add: token_burst_def)
      have t: "tb_tokens b' = fl x" "tb_last b' = tb_last ?b" by (simp_all add: b' exact x_def)
      have p: "passed b b' = passed b ?b" by (simp add: passed_def t)
      have "of_int n + fl x \<le> tb_tokens ?b + 1 / 2 ^ 29" using fx(2) x by (simp add: x_def token_burst_def field_simps)
      with f(3) have "of_int n + fl x \<le> tb_tokens b + token_rate * (1 + 1 / 2 ^ 50) * passed b ?b + 1 / 2 ^ 28" by simp
      with fx f(2) b'(2) n show ?thesis unfolding p t bucket_ok_def by simp
    qed
  qed
  then show "bucket_ok b'" "0 \<le> passed b b'" "ok \<Longrightarrow> 0 \<le> n"
    "of_int (if ok then n else 0) + tb_tokens b' \<le> tb_tokens b + token_rate * (1 + 1 / 2 ^ 50) * passed b b' + 1 / 2 ^ 28"
    by blast+
qed

lemma allowed_bounds:
  assumes "float_rounding fl" "bucket_ok b" "allowed fl b cs = (bytes, b')"
  shows "bucket_ok b' \<and> 0 \<le> passed b b' \<and>
    of_int bytes + tb_tokens b' \<le> tb_tokens b + token_rate * (1 + 1 / 2 ^ 50) * passed b b' + of_nat (length cs) / 2 ^ 28"
  using assms(2,3)
proof (induction cs arbitrary: b bytes)
  case Nil
  then show ?case by (simp add: passed_def)
next
  case (Cons c cs)
  obtain n now where c: "c = (n, now)" by (cases c)
  obtain ok b1 where a: "allow fl b n now = (ok, b1)" by (cases "allow fl b n now")
  obtain t1 where t: "allowed fl b1 cs = (t1, b')" "bytes = (if ok then n else 0) + t1"
    using Cons.prems(2) by (auto simp: c a split: prod.splits)
  note one = allow_bounds [OF assms(1) Cons.prems(1) a]
  note more = Cons.IH [OF one(1) t(1)]
  have p: "passed b b' = passed b b1 + passed b1 b'" by (simp add: passed_add)
  show ?case
    using one more unfolding p t(2) by (simp add: field_simps)
qed

end
