(* ===== verification/RelaySession.thy ===== *)
theory RelaySession
  imports Relay RelayRate
begin

text \<open>
  A relay session (\<open>relaySession\<close> in \<open>internal/terminal/manager_linux.go\<close>): the goroutine that writes to the
  connection, the one that reads the shell, the one that reads the connection, and the loop that waits for the end and then
  terminates the shell (\<open>terminateProcess\<close>, deferred). They share
  the channel of outbound messages with the count of its bytes, the channel of errors, the time of the last
  input or output, and the state of the contexts. A step is one atomic operation on what they share, or one call.
  A read, or a write, of what has been closed fails.
\<close>

section \<open>State\<close>

datatype outbound = PingMessage | PongText | BinaryData string

fun out_size :: "outbound \<Rightarrow> int" where
  "out_size PingMessage = 0"
| "out_size PongText = int (length ''{\"type\":\"pong\"}'')"
| "out_size (BinaryData data) = int (length data)"

datatype relay_error = RelayEOF | RelayError string

text \<open>\<open>send\<close>: add to the count; offer to the channel; take back from the count.\<close>

datatype send_pc = Adding outbound | Offering outbound | Undoing outbound

datatype writer_pc =
    WSelect
  | WTaken outbound
  | WWriting outbound
  | WSend send_pc
  | WFail relay_error
  | WDone

datatype shell_pc =
    PRead
  | PGot string "relay_error option" gotime
  | PSend send_pc "relay_error option" gotime
  | PSent "relay_error option" gotime
  | PAfter "relay_error option"
  | PFail relay_error
  | PDone

datatype reader_pc =
    RRead
  | RBinary string gotime
  | RWriting nat gotime
  | RWritten gotime
  | RText string gotime
  | RResize int int
  | RSend send_pc
  | RAfter relay_error
  | RFail relay_error
  | RDone

datatype main_pc =
    MSelect
  | MStop "goerr option"
  | MWait "goerr option"
  | MSignal "goerr option"
  | MGrace "goerr option"
  | MKill "goerr option"
  | MReap "goerr option"
  | MReturned "goerr option"

record relay =
  rs_queued :: int
  rs_channel :: "outbound list"
  rs_errs :: "relay_error list"
  rs_cancelled :: bool
  rs_ctx_done :: bool
  rs_closed :: bool
  rs_last_io :: gotime
  rs_output :: token_bucket
  rs_input :: token_bucket
  rs_controls :: token_bucket
  rs_writer :: writer_pc
  rs_shell :: shell_pc
  rs_reader :: reader_pc
  rs_main :: main_pc
  rs_signals :: "string list"
  rs_exited :: bool
  rs_reaped :: bool

definition new_relay :: "gotime \<Rightarrow> relay" where
  "new_relay now =
     \<lparr>rs_queued = 0, rs_channel = [], rs_errs = [], rs_cancelled = False, rs_ctx_done = False, rs_closed = False,
      rs_last_io = now, rs_output = new_token_bucket now, rs_input = new_token_bucket now,
      rs_controls = new_token_bucket now, rs_writer = WSelect, rs_shell = PRead, rs_reader = RRead, rs_main = MSelect,
      rs_signals = [], rs_exited = False, rs_reaped = False\<rparr>"

abbreviation "max_errs \<equiv> 4 :: nat"

text \<open>The select with a default: the error is dropped when the channel is full.\<close>

definition push_error :: "relay_error \<Rightarrow> relay \<Rightarrow> relay" where
  "push_error e s = (if length (rs_errs s) < max_errs then s\<lparr>rs_errs := rs_errs s @ [e]\<rparr> else s)"

definition relay_idle :: "int \<Rightarrow> int" where
  "relay_idle idle_seconds =
     (let idle = wrap64 (idle_seconds * second_ns) in if idle \<le> 0 then 600 * second_ns else idle)"

section \<open>Steps\<close>

text \<open>One step of \<open>send\<close>: the new state of the sender, or whether the message is in the channel.\<close>

inductive send_step :: "relay \<Rightarrow> send_pc \<Rightarrow> relay \<Rightarrow> send_pc + bool \<Rightarrow> bool" where
  send_adds: "rs_queued s + out_size m \<le> max_outbound_bytes \<Longrightarrow>
    send_step s (Adding m) (s\<lparr>rs_queued := rs_queued s + out_size m\<rparr>) (Inl (Offering m))"
| send_exceeds: "rs_queued s + out_size m > max_outbound_bytes \<Longrightarrow>
    send_step s (Adding m) (s\<lparr>rs_queued := rs_queued s + out_size m\<rparr>) (Inl (Undoing m))"
| send_offers: "length (rs_channel s) < max_outbound_messages \<Longrightarrow>
    send_step s (Offering m) (s\<lparr>rs_channel := rs_channel s @ [m]\<rparr>) (Inr True)"
| send_full: "\<not> length (rs_channel s) < max_outbound_messages \<Longrightarrow> send_step s (Offering m) s (Inl (Undoing m))"
| send_undoes: "send_step s (Undoing m) (s\<lparr>rs_queued := rs_queued s - out_size m\<rparr>) (Inr False)"

definition queue_full :: relay_error where
  "queue_full = RelayError ''outbound queue full''"

inductive writer_step :: "relay \<Rightarrow> writer_pc \<Rightarrow> relay \<Rightarrow> writer_pc \<Rightarrow> bool" where
  takes: "rs_channel s = m # ms \<Longrightarrow> writer_step s WSelect (s\<lparr>rs_channel := ms\<rparr>) (WTaken m)"
| ticks: "writer_step s WSelect s (WSend (Adding PingMessage))"
| leaves: "rs_cancelled s \<Longrightarrow> writer_step s WSelect s WDone"
| counts: "writer_step s (WTaken m) (s\<lparr>rs_queued := rs_queued s - out_size m\<rparr>) (WWriting m)"
| writes: "\<not> rs_closed s \<Longrightarrow> writer_step s (WWriting m) s WSelect"
| write_fails: "writer_step s (WWriting m) s (WFail e)"
| pings: "send_step s p s' (Inl q) \<Longrightarrow> writer_step s (WSend p) s' (WSend q)"
| pinged: "send_step s p s' (Inr b) \<Longrightarrow> writer_step s (WSend p) s' (if b then WSelect else WFail queue_full)"
| writer_reports: "writer_step s (WFail e) (push_error e s) WDone"

inductive shell_step :: "(rat \<Rightarrow> rat) \<Rightarrow> relay \<Rightarrow> shell_pc \<Rightarrow> relay \<Rightarrow> shell_pc \<Rightarrow> bool" for fl where
  shell_reads: "\<not> rs_closed s \<Longrightarrow> 0 < length data \<Longrightarrow> length data \<le> max_relay_frame \<Longrightarrow>
    shell_step fl s PRead s (PGot data e stamp)"
| shell_reads_nothing: "\<not> rs_closed s \<or> e \<noteq> None \<Longrightarrow> shell_step fl s PRead s (PAfter e)"
| shell_allowed: "allow fl (rs_output s) (int (length data)) stamp = (True, b) \<Longrightarrow>
    shell_step fl s (PGot data e stamp) (s\<lparr>rs_output := b\<rparr>) (PSend (Adding (BinaryData data)) e stamp)"
| shell_denied: "allow fl (rs_output s) (int (length data)) stamp = (False, b) \<Longrightarrow>
    shell_step fl s (PGot data e stamp) (s\<lparr>rs_output := b\<rparr>) (PFail (RelayError ''terminal output rate exceeded''))"
| shell_sends: "send_step s p s' (Inl q) \<Longrightarrow> shell_step fl s (PSend p e stamp) s' (PSend q e stamp)"
| shell_sent: "send_step s p s' (Inr b) \<Longrightarrow>
    shell_step fl s (PSend p e stamp) s' (if b then PSent e stamp else PFail queue_full)"
| shell_notes: "shell_step fl s (PSent e stamp) (s\<lparr>rs_last_io := stamp\<rparr>) (PAfter e)"
| shell_again: "shell_step fl s (PAfter None) s PRead"
| shell_ends: "shell_step fl s (PAfter (Some e)) s (if rs_cancelled s then PDone else PFail e)"
| shell_reports: "shell_step fl s (PFail e) (push_error e s) PDone"

inductive reader_step :: "(rat \<Rightarrow> rat) \<Rightarrow> relay \<Rightarrow> reader_pc \<Rightarrow> relay \<Rightarrow> reader_pc \<Rightarrow> bool" for fl where
  read_binary: "\<not> rs_closed s \<Longrightarrow> reader_step fl s RRead s (RBinary data stamp)"
| read_text: "\<not> rs_closed s \<Longrightarrow> reader_step fl s RRead s (RText data stamp)"
| read_other: "\<not> rs_closed s \<Longrightarrow> reader_step fl s RRead s RRead"
| read_fails: "reader_step fl s RRead s (RAfter e)"
| reader_ends: "reader_step fl s (RAfter e) s (if rs_cancelled s then RDone else RFail e)"
| input_large: "length data > max_relay_frame \<Longrightarrow>
    reader_step fl s (RBinary data stamp) s (RFail (RelayError ''terminal input rate exceeded''))"
| input_denied: "length data \<le> max_relay_frame \<Longrightarrow> allow fl (rs_input s) (int (length data)) stamp = (False, b) \<Longrightarrow>
    reader_step fl s (RBinary data stamp) (s\<lparr>rs_input := b\<rparr>) (RFail (RelayError ''terminal input rate exceeded''))"
| input_allowed: "length data \<le> max_relay_frame \<Longrightarrow> allow fl (rs_input s) (int (length data)) stamp = (True, b) \<Longrightarrow>
    reader_step fl s (RBinary data stamp) (s\<lparr>rs_input := b\<rparr>) (RWriting (length data) stamp)"
| input_written: "reader_step fl s (RWriting 0 stamp) s (RWritten stamp)"
| input_writes: "\<not> rs_closed s \<Longrightarrow> 0 < k \<Longrightarrow> k \<le> n \<Longrightarrow> reader_step fl s (RWriting n stamp) s (RWriting (n - k) stamp)"
| input_fails: "0 < n \<Longrightarrow> reader_step fl s (RWriting n stamp) s (RFail e)"
| input_noted: "reader_step fl s (RWritten stamp) (s\<lparr>rs_last_io := stamp\<rparr>) RRead"
| control_denied: "allow fl (rs_controls s) (int (length data)) stamp = (False, b) \<Longrightarrow>
    reader_step fl s (RText data stamp) (s\<lparr>rs_controls := b\<rparr>) (RFail (RelayError ''control rate exceeded''))"
| control_invalid: "allow fl (rs_controls s) (int (length data)) stamp = (True, b) \<Longrightarrow> parse_control data = Inl e \<Longrightarrow>
    reader_step fl s (RText data stamp) (s\<lparr>rs_controls := b\<rparr>) (RFail (RelayError (err_text e)))"
| control_acts: "allow fl (rs_controls s) (int (length data)) stamp = (True, b) \<Longrightarrow> parse_control data = Inr c \<Longrightarrow>
    reader_step fl s (RText data stamp) (s\<lparr>rs_controls := b\<rparr>)
      (if ct_kind c = ''resize'' then RResize (ct_columns c) (ct_rows c)
       else if ct_kind c = ''ping'' then RSend (Adding PongText)
       else if ct_kind c = ''close'' then RFail RelayEOF
       else RRead)"
| resized: "reader_step fl s (RResize m n) s RRead"
| resize_fails: "reader_step fl s (RResize m n) s (RFail e)"
| pong_sends: "send_step s p s' (Inl q) \<Longrightarrow> reader_step fl s (RSend p) s' (RSend q)"
| pong_sent: "send_step s p s' (Inr b) \<Longrightarrow> reader_step fl s (RSend p) s' (if b then RRead else RFail queue_full)"
| reader_reports: "reader_step fl s (RFail e) (push_error e s) RDone"

definition relay_result :: "relay_error \<Rightarrow> goerr option" where
  "relay_result e = (if e = RelayEOF then None else Some (TerminalError ''TERMINAL_RELAY_FAILED''))"

inductive main_step :: "int \<Rightarrow> gotime \<Rightarrow> relay \<Rightarrow> main_pc \<Rightarrow> relay \<Rightarrow> main_pc \<Rightarrow> bool" for idle absolute where
  main_error: "rs_errs s = e # es \<Longrightarrow> main_step idle absolute s MSelect (s\<lparr>rs_errs := es\<rparr>) (MStop (relay_result e))"
| main_cancelled: "rs_ctx_done s \<Longrightarrow>
    main_step idle absolute s MSelect s (MStop (Some (TerminalError ''TERMINAL_SESSION_CANCELLED'')))"
| main_idle: "duration_sub stamp (rs_last_io s) \<ge> idle \<Longrightarrow>
    main_step idle absolute s MSelect s (MStop (Some (TerminalError ''TERMINAL_IDLE_TIMEOUT'')))"
| main_expired: "\<not> duration_sub stamp (rs_last_io s) \<ge> idle \<Longrightarrow> \<not> is_zero absolute \<Longrightarrow> \<not> before stamp absolute \<Longrightarrow>
    main_step idle absolute s MSelect s (MStop (Some (TerminalError ''TERMINAL_ABSOLUTE_TIMEOUT'')))"
| main_ticks: "\<not> duration_sub stamp (rs_last_io s) \<ge> idle \<Longrightarrow> is_zero absolute \<or> before stamp absolute \<Longrightarrow>
    main_step idle absolute s MSelect s MSelect"
| main_stops: "main_step idle absolute s (MStop r) (s\<lparr>rs_cancelled := True, rs_closed := True\<rparr>) (MWait r)"
| main_waited: "rs_writer s = WDone \<Longrightarrow> rs_shell s = PDone \<Longrightarrow> rs_reader s = RDone \<Longrightarrow>
    main_step idle absolute s (MWait r) s (MSignal r)"
| main_terms: "main_step idle absolute s (MSignal r) (s\<lparr>rs_signals := rs_signals s @ [''TERM'']\<rparr>) (MGrace r)"
| main_gone: "rs_reaped s \<Longrightarrow> main_step idle absolute s (MGrace r) s (MReturned r)"
| main_grace_over: "main_step idle absolute s (MGrace r) s (MKill r)"
| main_kills: "main_step idle absolute s (MKill r) (s\<lparr>rs_signals := rs_signals s @ [''KILL'']\<rparr>) (MReap r)"
| main_reaps: "rs_reaped s \<Longrightarrow> main_step idle absolute s (MReap r) s (MReturned r)"

text \<open>The session's context ends, and with it the relay's own; the shell exits, and the goroutine of
  \<open>terminateProcess\<close> that waits for it closes its channel.\<close>

fun terminating :: "main_pc \<Rightarrow> bool" where
  "terminating (MGrace r) = True"
| "terminating (MKill r) = True"
| "terminating (MReap r) = True"
| "terminating pc = False"

inductive relay_step :: "(rat \<Rightarrow> rat) \<Rightarrow> int \<Rightarrow> gotime \<Rightarrow> relay \<Rightarrow> relay \<Rightarrow> bool" for fl idle absolute where
  by_writer: "writer_step s (rs_writer s) s' pc \<Longrightarrow> relay_step fl idle absolute s (s'\<lparr>rs_writer := pc\<rparr>)"
| by_shell: "shell_step fl s (rs_shell s) s' pc \<Longrightarrow> relay_step fl idle absolute s (s'\<lparr>rs_shell := pc\<rparr>)"
| by_reader: "reader_step fl s (rs_reader s) s' pc \<Longrightarrow> relay_step fl idle absolute s (s'\<lparr>rs_reader := pc\<rparr>)"
| by_main: "main_step idle absolute s (rs_main s) s' pc \<Longrightarrow> relay_step fl idle absolute s (s'\<lparr>rs_main := pc\<rparr>)"
| by_context: "\<not> rs_ctx_done s \<Longrightarrow> relay_step fl idle absolute s (s\<lparr>rs_ctx_done := True, rs_cancelled := True\<rparr>)"
| by_exit: "\<not> rs_exited s \<Longrightarrow> relay_step fl idle absolute s (s\<lparr>rs_exited := True\<rparr>)"
| by_waiter: "rs_exited s \<Longrightarrow> \<not> rs_reaped s \<Longrightarrow> terminating (rs_main s) \<Longrightarrow>
    relay_step fl idle absolute s (s\<lparr>rs_reaped := True\<rparr>)"

inductive relay_run :: "(rat \<Rightarrow> rat) \<Rightarrow> int \<Rightarrow> gotime \<Rightarrow> gotime \<Rightarrow> relay \<Rightarrow> bool" for fl idle absolute now where
  relay_begins: "relay_run fl idle absolute now (new_relay now)"
| relay_goes: "relay_run fl idle absolute now s \<Longrightarrow> relay_step fl idle absolute s t \<Longrightarrow> relay_run fl idle absolute now t"

inductive_cases send_cases: "send_step s p s' r"
inductive_cases writer_cases: "writer_step s pc s' pc'"
inductive_cases shell_cases: "shell_step fl s pc s' pc'"
inductive_cases reader_cases: "reader_step fl s pc s' pc'"
inductive_cases main_cases: "main_step idle absolute s pc s' pc'"
inductive_cases relay_cases: "relay_step fl idle absolute s t"

section \<open>The invariant\<close>

text \<open>The bytes a sender has added to the count, and those of them that are not to be taken back.\<close>

fun send_held :: "send_pc \<Rightarrow> int" where
  "send_held (Adding m) = 0"
| "send_held (Offering m) = out_size m"
| "send_held (Undoing m) = out_size m"

fun send_kept :: "send_pc \<Rightarrow> int" where
  "send_kept (Offering m) = out_size m"
| "send_kept p = 0"

fun send_small :: "send_pc \<Rightarrow> bool" where
  "send_small (Adding m) = (out_size m \<le> int max_relay_frame)"
| "send_small (Offering m) = (out_size m \<le> int max_relay_frame)"
| "send_small (Undoing m) = (out_size m \<le> int max_relay_frame)"

fun writer_held :: "writer_pc \<Rightarrow> int" where
  "writer_held (WTaken m) = out_size m"
| "writer_held (WSend p) = send_held p"
| "writer_held pc = 0"

fun writer_kept :: "writer_pc \<Rightarrow> int" where
  "writer_kept (WTaken m) = out_size m"
| "writer_kept (WSend p) = send_kept p"
| "writer_kept pc = 0"

fun shell_held :: "shell_pc \<Rightarrow> int" where
  "shell_held (PSend p e now) = send_held p"
| "shell_held pc = 0"

fun shell_kept :: "shell_pc \<Rightarrow> int" where
  "shell_kept (PSend p e now) = send_kept p"
| "shell_kept pc = 0"

fun reader_held :: "reader_pc \<Rightarrow> int" where
  "reader_held (RSend p) = send_held p"
| "reader_held pc = 0"

fun reader_kept :: "reader_pc \<Rightarrow> int" where
  "reader_kept (RSend p) = send_kept p"
| "reader_kept pc = 0"

fun pcs_small :: "writer_pc \<Rightarrow> shell_pc \<Rightarrow> reader_pc \<Rightarrow> bool" where
  "pcs_small w p r =
     ((case w of WSend q \<Rightarrow> send_small q | _ \<Rightarrow> True) \<and>
      (case p of PGot data e now \<Rightarrow> length data \<le> max_relay_frame | PSend q e now \<Rightarrow> send_small q | _ \<Rightarrow> True) \<and>
      (case r of RSend q \<Rightarrow> send_small q | _ \<Rightarrow> True))"

definition channel_bytes :: "relay \<Rightarrow> int" where
  "channel_bytes s = sum_list (map out_size (rs_channel s))"

definition queue_inv :: "relay \<Rightarrow> bool" where
  "queue_inv s \<longleftrightarrow>
     rs_queued s = channel_bytes s + writer_held (rs_writer s) + shell_held (rs_shell s) + reader_held (rs_reader s) \<and>
     channel_bytes s + writer_kept (rs_writer s) + shell_kept (rs_shell s) + reader_kept (rs_reader s) \<le> max_outbound_bytes \<and>
     length (rs_channel s) \<le> max_outbound_messages \<and> pcs_small (rs_writer s) (rs_shell s) (rs_reader s)"

definition error_inv :: "relay \<Rightarrow> bool" where
  "error_inv s \<longleftrightarrow>
     length (rs_errs s) \<le> of_bool (rs_writer s = WDone) + of_bool (rs_shell s = PDone) + of_bool (rs_reader s = RDone)"

definition goroutines_ended :: "relay \<Rightarrow> bool" where
  "goroutines_ended s \<longleftrightarrow> rs_writer s = WDone \<and> rs_shell s = PDone \<and> rs_reader s = RDone"

definition stop_inv :: "relay \<Rightarrow> bool" where
  "stop_inv s \<longleftrightarrow> (rs_reaped s \<longrightarrow> rs_exited s) \<and>
     (case rs_main s of
        MSelect \<Rightarrow> rs_signals s = []
      | MStop r \<Rightarrow> rs_signals s = []
      | MWait r \<Rightarrow> rs_cancelled s \<and> rs_closed s \<and> rs_signals s = []
      | MSignal r \<Rightarrow> rs_cancelled s \<and> rs_closed s \<and> goroutines_ended s \<and> rs_signals s = []
      | MGrace r \<Rightarrow> rs_cancelled s \<and> rs_closed s \<and> goroutines_ended s \<and> rs_signals s = [''TERM'']
      | MKill r \<Rightarrow> rs_cancelled s \<and> rs_closed s \<and> goroutines_ended s \<and> rs_signals s = [''TERM'']
      | MReap r \<Rightarrow> rs_cancelled s \<and> rs_closed s \<and> goroutines_ended s \<and> rs_signals s = [''TERM'', ''KILL'']
      | MReturned r \<Rightarrow> rs_cancelled s \<and> rs_closed s \<and> goroutines_ended s \<and> rs_exited s \<and> rs_reaped s \<and>
          rs_signals s \<in> {[''TERM''], [''TERM'', ''KILL'']})"

lemma out_size_nonneg [simp]: "0 \<le> out_size m"
  by (cases m) simp_all

lemma send_held_nonneg [simp]: "0 \<le> send_held p" "send_kept p \<le> send_held p" "0 \<le> send_kept p"
  by (cases p; simp)+

lemma writer_kept_held: "writer_kept w \<le> writer_held w" "0 \<le> writer_kept w"
  by (cases w; simp)+

lemma shell_kept_held: "shell_kept p \<le> shell_held p" "0 \<le> shell_kept p"
  by (cases p; simp)+

lemma reader_kept_held: "reader_kept r \<le> reader_held r" "0 \<le> reader_kept r"
  by (cases r; simp)+

text \<open>What a step of \<open>send\<close> does to the count and the channel.\<close>

lemma send_step_queue:
  assumes "send_step s p s' r"
  shows "rs_queued s' - channel_bytes s' - (case r of Inl q \<Rightarrow> send_held q | Inr b \<Rightarrow> 0)
      = rs_queued s - channel_bytes s - send_held p"
    "length (rs_channel s) \<le> max_outbound_messages \<Longrightarrow> length (rs_channel s') \<le> max_outbound_messages"
    "send_small p \<Longrightarrow> case r of Inl q \<Rightarrow> send_small q | Inr b \<Rightarrow> True"
    "channel_bytes s' + (case r of Inl q \<Rightarrow> send_kept q | Inr b \<Rightarrow> 0) \<le> channel_bytes s + send_kept p \<or>
     (channel_bytes s' = channel_bytes s \<and> rs_queued s' \<le> max_outbound_bytes \<and> (\<exists>m. p = Adding m \<and> r = Inl (Offering m)))"
  using assms by (cases; auto simp: channel_bytes_def)+

lemma send_step_frame:
  assumes "send_step s p s' r"
  shows "rs_errs s' = rs_errs s" "rs_writer s' = rs_writer s" "rs_shell s' = rs_shell s" "rs_reader s' = rs_reader s"
    "rs_main s' = rs_main s" "rs_cancelled s' = rs_cancelled s" "rs_closed s' = rs_closed s"
    "rs_signals s' = rs_signals s \<and> rs_exited s' = rs_exited s \<and> rs_reaped s' = rs_reaped s"
  using assms by (cases; simp)+

lemma push_error_frame [simp]:
  "rs_queued (push_error e s) = rs_queued s" "rs_channel (push_error e s) = rs_channel s" "rs_writer (push_error e s) = rs_writer s"
  "rs_shell (push_error e s) = rs_shell s" "rs_reader (push_error e s) = rs_reader s" "rs_main (push_error e s) = rs_main s"
  "rs_cancelled (push_error e s) = rs_cancelled s" "rs_closed (push_error e s) = rs_closed s"
  "channel_bytes (push_error e s) = channel_bytes s" "rs_signals (push_error e s) = rs_signals s"
  "rs_exited (push_error e s) = rs_exited s" "rs_reaped (push_error e s) = rs_reaped s"
  by (simp_all add: push_error_def channel_bytes_def)


lemma channel_bytes_update [simp]:
  "channel_bytes (s\<lparr>rs_writer := w\<rparr>) = channel_bytes s" "channel_bytes (s\<lparr>rs_shell := p\<rparr>) = channel_bytes s"
  "channel_bytes (s\<lparr>rs_reader := r\<rparr>) = channel_bytes s" "channel_bytes (s\<lparr>rs_main := m\<rparr>) = channel_bytes s"
  "channel_bytes (s\<lparr>rs_queued := n\<rparr>) = channel_bytes s" "channel_bytes (s\<lparr>rs_last_io := now\<rparr>) = channel_bytes s"
  "channel_bytes (s\<lparr>rs_output := b\<rparr>) = channel_bytes s" "channel_bytes (s\<lparr>rs_input := b\<rparr>) = channel_bytes s"
  "channel_bytes (s\<lparr>rs_controls := b\<rparr>) = channel_bytes s" "channel_bytes (s\<lparr>rs_errs := es\<rparr>) = channel_bytes s"
  "channel_bytes (s\<lparr>rs_cancelled := c\<rparr>) = channel_bytes s" "channel_bytes (s\<lparr>rs_closed := c\<rparr>) = channel_bytes s"
  "channel_bytes (s\<lparr>rs_ctx_done := c\<rparr>) = channel_bytes s" "channel_bytes (s\<lparr>rs_exited := c\<rparr>) = channel_bytes s"
  "channel_bytes (s\<lparr>rs_reaped := c\<rparr>) = channel_bytes s" "channel_bytes (s\<lparr>rs_signals := l\<rparr>) = channel_bytes s"
  by (simp_all add: channel_bytes_def)

lemma kept_below: "writer_kept (rs_writer s) \<le> writer_held (rs_writer s)" "shell_kept (rs_shell s) \<le> shell_held (rs_shell s)"
  "reader_kept (rs_reader s) \<le> reader_held (rs_reader s)"
  by (rule writer_kept_held shell_kept_held reader_kept_held)+

text \<open>The invariant of the queue, goroutine by goroutine: what a step leaves for the others.\<close>

lemma writer_step_queue:
  assumes "writer_step s w s' w'" "queue_inv (s\<lparr>rs_writer := w\<rparr>)"
  shows "queue_inv (s'\<lparr>rs_writer := w'\<rparr>)"
  using assms(1)
proof cases
  case (takes m ms)
  with assms(2) show ?thesis by (simp add: queue_inv_def channel_bytes_def)
next
  case (counts m)
  with out_size_nonneg [of m] assms(2) show ?thesis by (auto simp: queue_inv_def simp del: out_size_nonneg)
next
  case (pings p q)
  from send_step_queue [OF pings(3)] send_step_frame(2-5) [OF pings(3)] kept_below [of s] assms(2) pings(1,2) show ?thesis
    by (auto simp: queue_inv_def)
next
  case (pinged p b)
  from send_step_queue [OF pinged(3)] send_step_frame(2-5) [OF pinged(3)] kept_below [of s] assms(2) pinged(1,2) show ?thesis
    by (auto simp: queue_inv_def)
qed (use assms(2) in \<open>simp_all add: queue_inv_def\<close>)

lemma shell_step_queue:
  assumes "shell_step fl s p s' p'" "queue_inv (s\<lparr>rs_shell := p\<rparr>)"
  shows "queue_inv (s'\<lparr>rs_shell := p'\<rparr>)"
  using assms(1)
proof cases
  case (shell_sends q r e stamp)
  from send_step_queue [OF shell_sends(3)] send_step_frame(2-5) [OF shell_sends(3)] kept_below [of s] assms(2) shell_sends(1,2) show ?thesis
    by (auto simp: queue_inv_def)
next
  case (shell_sent q b e stamp)
  from send_step_queue [OF shell_sent(3)] send_step_frame(2-5) [OF shell_sent(3)] kept_below [of s] assms(2) shell_sent(1,2) show ?thesis
    by (auto simp: queue_inv_def)
qed (use assms(2) in \<open>auto simp: queue_inv_def\<close>)

lemma reader_step_queue:
  assumes "reader_step fl s r s' r'" "queue_inv (s\<lparr>rs_reader := r\<rparr>)"
  shows "queue_inv (s'\<lparr>rs_reader := r'\<rparr>)"
  using assms(1)
proof cases
  case (pong_sends q p)
  from send_step_queue [OF pong_sends(3)] send_step_frame(2-5) [OF pong_sends(3)] kept_below [of s] assms(2) pong_sends(1,2) show ?thesis
    by (auto simp: queue_inv_def)
next
  case (pong_sent q b)
  from send_step_queue [OF pong_sent(3)] send_step_frame(2-5) [OF pong_sent(3)] kept_below [of s] assms(2) pong_sent(1,2) show ?thesis
    by (auto simp: queue_inv_def)
qed (use assms(2) in \<open>auto simp: queue_inv_def\<close>)

lemma relay_step_queue:
  assumes "relay_step fl idle absolute s t" "queue_inv s"
  shows "queue_inv t"
  using assms(1)
proof cases
  case (by_writer s' pc)
  have "queue_inv (s\<lparr>rs_writer := rs_writer s\<rparr>)" using assms(2) by simp
  from writer_step_queue [OF by_writer(2) this] by_writer(1) show ?thesis by simp
next
  case (by_shell s' pc)
  have "queue_inv (s\<lparr>rs_shell := rs_shell s\<rparr>)" using assms(2) by simp
  from shell_step_queue [OF by_shell(2) this] by_shell(1) show ?thesis by simp
next
  case (by_reader s' pc)
  have "queue_inv (s\<lparr>rs_reader := rs_reader s\<rparr>)" using assms(2) by simp
  from reader_step_queue [OF by_reader(2) this] by_reader(1) show ?thesis by simp
next
  case (by_main s' pc)
  from by_main(2) have "queue_inv s'" by cases (use assms(2) in \<open>simp_all add: queue_inv_def\<close>)
  with by_main(1) show ?thesis by (simp add: queue_inv_def)
qed (use assms(2) in \<open>simp_all add: queue_inv_def\<close>)

lemma new_relay_inv: "queue_inv (new_relay now)" "error_inv (new_relay now)" "stop_inv (new_relay now)"
  by (simp_all add: queue_inv_def error_inv_def stop_inv_def new_relay_def channel_bytes_def)

lemma run_queue: "relay_run fl idle absolute now s \<Longrightarrow> queue_inv s"
  by (induction rule: relay_run.induct) (blast intro: new_relay_inv relay_step_queue)+

lemma errs_push: "length (rs_errs (push_error e s)) \<le> Suc (length (rs_errs s))"
  by (simp add: push_error_def)

lemma writer_step_frame:
  assumes "writer_step s w s' w'"
  shows "rs_shell s' = rs_shell s" "rs_reader s' = rs_reader s" "rs_main s' = rs_main s" "rs_cancelled s' = rs_cancelled s"
    "rs_closed s' = rs_closed s" "w \<noteq> WDone" "length (rs_errs s') \<le> length (rs_errs s) + of_bool (w' = WDone)"
    "rs_signals s' = rs_signals s \<and> rs_exited s' = rs_exited s \<and> rs_reaped s' = rs_reaped s"
  using assms by (cases; simp add: send_step_frame errs_push)+

lemma shell_step_frame:
  assumes "shell_step fl s p s' p'"
  shows "rs_writer s' = rs_writer s" "rs_reader s' = rs_reader s" "rs_main s' = rs_main s" "rs_cancelled s' = rs_cancelled s"
    "rs_closed s' = rs_closed s" "p \<noteq> PDone" "length (rs_errs s') \<le> length (rs_errs s) + of_bool (p' = PDone)"
    "rs_signals s' = rs_signals s \<and> rs_exited s' = rs_exited s \<and> rs_reaped s' = rs_reaped s"
  using assms by (cases; simp add: send_step_frame errs_push)+

lemma reader_step_frame:
  assumes "reader_step fl s r s' r'"
  shows "rs_writer s' = rs_writer s" "rs_shell s' = rs_shell s" "rs_main s' = rs_main s" "rs_cancelled s' = rs_cancelled s"
    "rs_closed s' = rs_closed s" "r \<noteq> RDone" "length (rs_errs s') \<le> length (rs_errs s) + of_bool (r' = RDone)"
    "rs_signals s' = rs_signals s \<and> rs_exited s' = rs_exited s \<and> rs_reaped s' = rs_reaped s"
  using assms by (cases; simp add: send_step_frame errs_push)+

text \<open>Each goroutine reports at most one error, so that none is dropped.\<close>

lemma relay_step_errors:
  assumes "relay_step fl idle absolute s t" "error_inv s"
  shows "error_inv t"
  using assms(1)
proof cases
  case (by_writer s' pc)
  with writer_step_frame [OF by_writer(2)] assms(2) show ?thesis by (simp add: error_inv_def)
next
  case (by_shell s' pc)
  with shell_step_frame [OF by_shell(2)] assms(2) show ?thesis by (simp add: error_inv_def)
next
  case (by_reader s' pc)
  with reader_step_frame [OF by_reader(2)] assms(2) show ?thesis by (simp add: error_inv_def)
next
  case (by_main s' pc)
  from by_main(2) have "error_inv s'" by cases (use assms(2) in \<open>simp_all add: error_inv_def\<close>)
  with by_main(1) show ?thesis by (simp add: error_inv_def)
qed (use assms(2) in \<open>simp_all add: error_inv_def\<close>)

lemma relay_step_stop:
  assumes "relay_step fl idle absolute s t" "stop_inv s"
  shows "stop_inv t"
  using assms(1)
proof cases
  case (by_writer s' pc)
  with writer_step_frame [OF by_writer(2)] assms(2) show ?thesis
    by (auto simp: stop_inv_def goroutines_ended_def split: main_pc.splits)
next
  case (by_shell s' pc)
  with shell_step_frame [OF by_shell(2)] assms(2) show ?thesis
    by (auto simp: stop_inv_def goroutines_ended_def split: main_pc.splits)
next
  case (by_reader s' pc)
  with reader_step_frame [OF by_reader(2)] assms(2) show ?thesis
    by (auto simp: stop_inv_def goroutines_ended_def split: main_pc.splits)
next
  case (by_main s' pc)
  from by_main(2) show ?thesis
    by cases (use assms(2) by_main(1) in \<open>simp_all add: stop_inv_def goroutines_ended_def\<close>)
qed (use assms(2) in \<open>auto simp: stop_inv_def goroutines_ended_def split: main_pc.splits\<close>)

lemma run_errors: "relay_run fl idle absolute now s \<Longrightarrow> error_inv s"
  by (induction rule: relay_run.induct) (blast intro: new_relay_inv relay_step_errors)+

lemma run_stop: "relay_run fl idle absolute now s \<Longrightarrow> stop_inv s"
  by (induction rule: relay_run.induct) (blast intro: new_relay_inv relay_step_stop)+

section \<open>The end\<close>

text \<open>What is left to do once the connection and the shell are closed.\<close>

fun writer_left :: "writer_pc \<Rightarrow> nat" where
  "writer_left WSelect = 20"
| "writer_left (WSend (Adding m)) = 19"
| "writer_left (WSend (Offering m)) = 18"
| "writer_left (WSend (Undoing m)) = 17"
| "writer_left (WTaken m) = 11"
| "writer_left (WWriting m) = 10"
| "writer_left (WFail e) = 1"
| "writer_left WDone = 0"

fun shell_left :: "shell_pc \<Rightarrow> nat" where
  "shell_left (PGot data e now) = 7"
| "shell_left (PSend (Adding m) e now) = 6"
| "shell_left (PSend (Offering m) e now) = 5"
| "shell_left (PSend (Undoing m) e now) = 4"
| "shell_left (PSent e now) = 6"
| "shell_left (PAfter None) = 5"
| "shell_left PRead = 4"
| "shell_left (PAfter (Some e)) = 2"
| "shell_left (PFail e) = 1"
| "shell_left PDone = 0"

fun reader_left :: "reader_pc \<Rightarrow> nat" where
  "reader_left (RBinary data now) = 12"
| "reader_left (RText data now) = 12"
| "reader_left (RWriting n now) = 9"
| "reader_left (RWritten now) = 8"
| "reader_left (RSend (Adding m)) = 8"
| "reader_left (RSend (Offering m)) = 7"
| "reader_left (RSend (Undoing m)) = 6"
| "reader_left (RResize m n) = 6"
| "reader_left RRead = 4"
| "reader_left (RAfter e) = 2"
| "reader_left (RFail e) = 1"
| "reader_left RDone = 0"

definition room :: "relay \<Rightarrow> nat" where
  "room s = max_outbound_messages - length (rs_channel s)"

fun main_left :: "main_pc \<Rightarrow> nat" where
  "main_left (MWait r) = 5"
| "main_left (MSignal r) = 4"
| "main_left (MGrace r) = 3"
| "main_left (MKill r) = 2"
| "main_left (MReap r) = 1"
| "main_left pc = 0"

definition relay_left :: "relay \<Rightarrow> nat" where
  "relay_left s =
     8 * room s + writer_left (rs_writer s) + shell_left (rs_shell s) + reader_left (rs_reader s)
     + main_left (rs_main s) + of_bool (\<not> rs_ctx_done s) + of_bool (\<not> rs_exited s) + of_bool (\<not> rs_reaped s)"

text \<open>The loop from the stop on, with its result.\<close>

definition ending :: "goerr option \<Rightarrow> main_pc set" where
  "ending r = {MWait r, MSignal r, MGrace r, MKill r, MReap r, MReturned r}"

lemma send_step_room:
  assumes "send_step s p s' r" "length (rs_channel s) \<le> max_outbound_messages"
  shows "r = Inr True \<Longrightarrow> Suc (room s') = room s" "r \<noteq> Inr True \<Longrightarrow> room s' = room s" "rs_ctx_done s' = rs_ctx_done s"
  using assms by (cases; auto simp: room_def)+

lemma push_error_room [simp]: "room (push_error e s) = room s" "rs_ctx_done (push_error e s) = rs_ctx_done s"
  by (simp_all add: room_def push_error_def)

lemma writer_step_left:
  assumes "writer_step s w s' w'" "rs_closed s" "length (rs_channel s) \<le> max_outbound_messages"
  shows "8 * room s' + writer_left w' < 8 * room s + writer_left w" "rs_ctx_done s' = rs_ctx_done s"
proof -
  have "8 * room s' + writer_left w' < 8 * room s + writer_left w \<and> rs_ctx_done s' = rs_ctx_done s"
    using assms(1)
  proof cases
    case (takes m ms)
    with assms(3) show ?thesis by (simp add: room_def)
  next
    case (pings p q)
    from pings(3) send_step_room [OF pings(3) assms(3)] pings(1,2) show ?thesis by cases auto
  next
    case (pinged p b)
    from pinged(3) send_step_room [OF pinged(3) assms(3)] pinged(1,2) show ?thesis by cases auto
  qed (use assms(2) in \<open>simp_all add: room_def\<close>)
  then show "8 * room s' + writer_left w' < 8 * room s + writer_left w" "rs_ctx_done s' = rs_ctx_done s" by blast+
qed

lemma shell_step_left:
  assumes "shell_step fl s p s' p'" "rs_closed s" "length (rs_channel s) \<le> max_outbound_messages"
  shows "8 * room s' + shell_left p' < 8 * room s + shell_left p" "rs_ctx_done s' = rs_ctx_done s"
proof -
  have "8 * room s' + shell_left p' < 8 * room s + shell_left p \<and> rs_ctx_done s' = rs_ctx_done s"
    using assms(1)
  proof cases
    case (shell_sends p q e stamp)
    from shell_sends(3) send_step_room [OF shell_sends(3) assms(3)] shell_sends(1,2) show ?thesis by cases auto
  next
    case (shell_sent p b e stamp)
    from shell_sent(3) send_step_room [OF shell_sent(3) assms(3)] shell_sent(1,2) show ?thesis by cases auto
  next
    case (shell_notes e stamp)
    then show ?thesis by (cases e) (simp_all add: room_def)
  qed (use assms(2) in \<open>auto simp: room_def\<close>)
  then show "8 * room s' + shell_left p' < 8 * room s + shell_left p" "rs_ctx_done s' = rs_ctx_done s" by blast+
qed

lemma reader_step_left:
  assumes "reader_step fl s r s' r'" "rs_closed s" "length (rs_channel s) \<le> max_outbound_messages"
  shows "8 * room s' + reader_left r' < 8 * room s + reader_left r" "rs_ctx_done s' = rs_ctx_done s"
proof -
  have "8 * room s' + reader_left r' < 8 * room s + reader_left r \<and> rs_ctx_done s' = rs_ctx_done s"
    using assms(1)
  proof cases
    case (pong_sends p q)
    from pong_sends(3) send_step_room [OF pong_sends(3) assms(3)] pong_sends(1,2) show ?thesis by cases auto
  next
    case (pong_sent p b)
    from pong_sent(3) send_step_room [OF pong_sent(3) assms(3)] pong_sent(1,2) show ?thesis by cases auto
  qed (use assms(2) in \<open>simp_all add: room_def\<close>)
  then show "8 * room s' + reader_left r' < 8 * room s + reader_left r" "rs_ctx_done s' = rs_ctx_done s" by blast+
qed

lemma room_update [simp]:
  "room (s\<lparr>rs_writer := w\<rparr>) = room s" "room (s\<lparr>rs_shell := p\<rparr>) = room s" "room (s\<lparr>rs_reader := r\<rparr>) = room s"
  "room (s\<lparr>rs_main := m\<rparr>) = room s" "room (s\<lparr>rs_cancelled := c\<rparr>) = room s" "room (s\<lparr>rs_ctx_done := c\<rparr>) = room s"
  "room (s\<lparr>rs_exited := c\<rparr>) = room s" "room (s\<lparr>rs_reaped := c\<rparr>) = room s" "room (s\<lparr>rs_signals := l\<rparr>) = room s"
  by (simp_all add: room_def)

lemma ending_closed: "stop_inv s \<Longrightarrow> rs_main s \<in> ending r \<Longrightarrow> rs_closed s \<and> rs_cancelled s"
  by (auto simp: stop_inv_def ending_def)

lemma stopped_step:
  assumes "relay_step fl idle absolute s t" "queue_inv s" "stop_inv s" "rs_main s \<in> ending r"
  shows "relay_left t < relay_left s" "rs_main t \<in> ending r"
proof -
  have len: "length (rs_channel s) \<le> max_outbound_messages" using assms(2) by (simp add: queue_inv_def)
  have closed: "rs_closed s" using ending_closed [OF assms(3,4)] by simp
  have "relay_left t < relay_left s \<and> rs_main t \<in> ending r"
    using assms(1)
  proof cases
    case (by_writer s' pc)
    with writer_step_left [OF by_writer(2) closed len] writer_step_frame [OF by_writer(2)] assms(4)
    show ?thesis by (simp add: relay_left_def)
  next
    case (by_shell s' pc)
    with shell_step_left [OF by_shell(2) closed len] shell_step_frame [OF by_shell(2)] assms(4)
    show ?thesis by (simp add: relay_left_def)
  next
    case (by_reader s' pc)
    with reader_step_left [OF by_reader(2) closed len] reader_step_frame [OF by_reader(2)] assms(4)
    show ?thesis by (simp add: relay_left_def)
  next
    case (by_main s' pc)
    from by_main(2) show ?thesis
      by cases (use assms(4) by_main(1) in \<open>auto simp: relay_left_def ending_def\<close>)
  qed (use assms(4) in \<open>simp_all add: relay_left_def\<close>)
  then show "relay_left t < relay_left s" "rs_main t \<in> ending r" by blast+
qed

lemma send_goes: "\<exists>s' r. send_step s p s' r"
proof (cases p)
  case (Adding m)
  then show ?thesis using send_adds [of s m] send_exceeds [of s m] by (cases "rs_queued s + out_size m \<le> max_outbound_bytes") auto
next
  case (Offering m)
  then show ?thesis using send_offers [of s m] send_full [of s m] by blast
next
  case (Undoing m)
  then show ?thesis using send_undoes by blast
qed

lemma writer_goes: "rs_cancelled s \<Longrightarrow> w \<noteq> WDone \<Longrightarrow> \<exists>s' w'. writer_step s w s' w'"
proof (cases w)
  case (WSend p)
  obtain s' r where "send_step s p s' r" using send_goes by blast
  with WSend show ?thesis by (cases r) (auto intro: pings pinged)
qed (auto intro: leaves counts write_fails writer_reports)

lemma shell_goes: "p \<noteq> PDone \<Longrightarrow> \<exists>s' p'. shell_step fl s p s' p'"
proof (cases p)
  case PRead
  then show ?thesis using shell_reads_nothing [of s "Some RelayEOF"] by blast
next
  case (PGot data e stamp)
  obtain ok b where "allow fl (rs_output s) (int (length data)) stamp = (ok, b)" by (metis prod.collapse)
  with PGot show ?thesis
    using shell_allowed [of fl s data stamp b e] shell_denied [of fl s data stamp b e] by (cases ok) auto
next
  case (PSend q e stamp)
  obtain s' r where "send_step s q s' r" using send_goes by blast
  with PSend show ?thesis by (cases r) (blast intro: shell_sends shell_sent)+
next
  case (PAfter e)
  then show ?thesis by (cases e) (blast intro: shell_again shell_ends)+
qed (blast intro: shell_notes shell_reports)+

lemma reader_goes: "r \<noteq> RDone \<Longrightarrow> \<exists>s' r'. reader_step fl s r s' r'"
proof (cases r)
  case (RBinary data stamp)
  obtain ok b where "allow fl (rs_input s) (int (length data)) stamp = (ok, b)" by (metis prod.collapse)
  with RBinary show ?thesis
    using input_large [of data fl s stamp] input_denied [of data fl s stamp b] input_allowed [of data fl s stamp b]
    by (cases "length data > max_relay_frame"; cases ok) auto
next
  case (RText data stamp)
  obtain ok b where a: "allow fl (rs_controls s) (int (length data)) stamp = (ok, b)" by (metis prod.collapse)
  show ?thesis
    using a RText control_denied [of fl s data stamp b] control_invalid [of fl s data stamp b] control_acts [of fl s data stamp b]
    by (cases ok; cases "parse_control data") (auto simp del: if_split_asm)
next
  case (RWriting n stamp)
  then show ?thesis by (cases n) (blast intro: input_written input_fails zero_less_Suc)+
next
  case (RSend q)
  obtain s' r where "send_step s q s' r" using send_goes by blast
  with RSend show ?thesis by (cases r) (blast intro: pong_sends pong_sent)+
qed (blast intro: read_fails reader_ends input_noted resized reader_reports)+

lemma main_ends:
  assumes "rs_main s \<in> ending r" "goroutines_ended s" "rs_main s \<noteq> MReturned r"
  shows "\<exists>t. relay_step fl idle absolute s t"
proof -
  consider "\<exists>s' pc. main_step idle absolute s (rs_main s) s' pc" | "rs_main s = MReap r" "\<not> rs_reaped s"
    using assms unfolding ending_def goroutines_ended_def
    by (elim insertE) (fastforce intro: main_waited main_terms main_grace_over main_kills main_reaps)+
  then show ?thesis
  proof cases
    case 1
    then show ?thesis by (blast intro: by_main)
  next
    case 2
    then have "terminating (rs_main s)" by simp
    with 2 show ?thesis by (cases "rs_exited s") (blast intro: by_exit by_waiter)+
  qed
qed

lemma stopped_goes:
  assumes "rs_cancelled s" "rs_main s \<in> ending r" "rs_main s \<noteq> MReturned r"
  shows "\<exists>t. relay_step fl idle absolute s t"
proof (cases "goroutines_ended s")
  case True
  from main_ends [OF assms(2) this assms(3)] show ?thesis .
next
  case False
  with writer_goes [OF assms(1)] shell_goes [of "rs_shell s" fl s] reader_goes [of "rs_reader s" fl s] show ?thesis
    unfolding goroutines_ended_def by (metis by_writer by_shell by_reader)
qed

lemma relay_left_bound: "relay_left s \<le> 559"
proof -
  have "writer_left w \<le> 20" for w by (cases w rule: writer_left.cases) simp_all
  moreover have "shell_left p \<le> 7" for p by (cases p rule: shell_left.cases) simp_all
  moreover have "reader_left r \<le> 12" for r by (cases r rule: reader_left.cases) simp_all
  moreover have "room s \<le> 64" by (simp add: room_def)
  moreover have "main_left m \<le> 5" for m by (cases m) simp_all
  ultimately have "8 * room s + writer_left (rs_writer s) + shell_left (rs_shell s) + reader_left (rs_reader s)
      + main_left (rs_main s) + of_bool (\<not> rs_ctx_done s) + of_bool (\<not> rs_exited s) + of_bool (\<not> rs_reaped s)
      \<le> 8 * 64 + 20 + 7 + 12 + 5 + 1 + 1 + 1"
    by (intro add_mono mult_left_mono) simp_all
  then show ?thesis unfolding relay_left_def by simp
qed

text \<open>From the stop on: what every chain of steps keeps.\<close>

definition stopped :: "goerr option \<Rightarrow> relay \<Rightarrow> bool" where
  "stopped r s \<longleftrightarrow> queue_inv s \<and> stop_inv s \<and> rs_main s \<in> ending r"

lemma stopped_next:
  assumes "relay_step fl idle absolute s t" "stopped r s"
  shows "stopped r t \<and> relay_left t < relay_left s"
  using assms(2) stopped_step [OF assms(1), of r] relay_step_queue [OF assms(1)] relay_step_stop [OF assms(1)]
  by (simp add: stopped_def)

lemma stopped_chain:
  "(relay_step fl idle absolute ^^ n) s t \<Longrightarrow> stopped r s \<Longrightarrow> stopped r t \<and> n + relay_left t \<le> relay_left s"
proof (induction n arbitrary: t)
  case (Suc n)
  then obtain u where u: "(relay_step fl idle absolute ^^ n) s u" "relay_step fl idle absolute u t" by auto
  from Suc.IH [OF u(1) Suc.prems(2)] stopped_next [OF u(2)] show ?case by fastforce
qed simp

end
