(* ===== verification/TerminalRunner.thy ===== *)
theory TerminalRunner
  imports RelaySession TerminalManager
begin

text \<open>
  The runner of a terminal session on Linux (\<open>internal/terminal/manager_linux.go\<close>): \<open>Start\<close> exchanges the
  ticket, dials the relay and starts the shell, each call bounded by the deadline of the connection, and leaves
  nothing open when one of them fails; \<open>terminateProcess\<close>; and the root shell it starts.
\<close>

section \<open>The shell\<close>

record shell_command =
  sh_args :: "string list"
  sh_dir :: string
  sh_env :: "(string \<times> string) list"
  sh_setsid :: bool
  sh_setctty :: bool

definition root_shell_command :: shell_command where
  "root_shell_command =
     \<lparr>sh_args = [''/bin/bash'', ''--noprofile'', ''--norc''], sh_dir = ''/root'',
      sh_env = [(''HOME'', ''/root''), (''PATH'', ''/usr/local/sbin:/usr/local/bin:/usr/sbin:/usr/bin:/sbin:/bin''),
        (''TERM'', ''xterm-256color''), (''SHELL'', ''/bin/bash''), (''USER'', ''root''), (''LOGNAME'', ''root''), (''LANG'', ''C.UTF-8'')],
      sh_setsid = True, sh_setctty = True\<rparr>"

section \<open>Start\<close>

definition stable_subprotocol :: string where "stable_subprotocol = ''xkp-terminal-v1''"

record 'w runner =
  rn_development :: bool
  rn_now :: "('w, gotime) op"
  rn_ticket :: "string \<Rightarrow> string \<Rightarrow> string \<Rightarrow> ('w, string) res_op"
  rn_expired :: "('w, bool) op"
  rn_dial :: "string \<Rightarrow> string list \<Rightarrow> ('w, string) res_op"
  rn_close_conn :: "('w, unit) op"
  rn_start_pty :: "shell_command \<Rightarrow> 'w err_op"
  rn_close_pty :: "('w, unit) op"
  rn_signal :: "string \<Rightarrow> ('w, unit) op"
  rn_exits_soon :: "('w, bool) op"
  rn_wait :: "('w, unit) op"
  rn_serve :: "int \<Rightarrow> gotime \<Rightarrow> ('w, unit) op"

definition terminate_process :: "'w runner \<Rightarrow> ('w, unit) op" where
  "terminate_process g =
     op_bind (rn_signal g ''TERM'') (\<lambda>_. op_bind (rn_exits_soon g) (\<lambda>gone.
       if gone then op_return () else op_bind (rn_signal g ''KILL'') (\<lambda>_. rn_wait g)))"

definition runner_error :: "string \<Rightarrow> ('w, unit) res_op" where
  "runner_error code = op_return (Inl (TerminalError code))"

text \<open>What a call that failed is reported as: its own code, or that the deadline has passed.\<close>

definition expired_or :: "'w runner \<Rightarrow> string \<Rightarrow> ('w, unit) res_op" where
  "expired_or g code =
     op_bind (rn_expired g) (\<lambda>late. runner_error (if late then ''TERMINAL_COMMAND_EXPIRED'' else code))"

definition start_shell :: "'w runner \<Rightarrow> terminal_payload \<Rightarrow> ('w, unit) res_op" where
  "start_shell g p =
     op_bind (rn_start_pty g root_shell_command) (\<lambda>err.
       if err \<noteq> None then op_bind (rn_close_conn g) (\<lambda>_. runner_error ''TERMINAL_PTY_FAILED'')
       else op_bind (rn_expired g) (\<lambda>late.
         if late then
           op_bind (rn_close_conn g) (\<lambda>_. op_bind (rn_close_pty g) (\<lambda>_. op_bind (terminate_process g) (\<lambda>_.
             runner_error ''TERMINAL_COMMAND_EXPIRED'')))
         else op_bind (rn_serve g (tp_idle_timeout_seconds p) (tp_absolute_expires_at p)) (\<lambda>_. op_return (Inr ()))))"

definition connect_relay :: "'w runner \<Rightarrow> terminal_payload \<Rightarrow> string \<Rightarrow> ('w, unit) res_op" where
  "connect_relay g p ticket =
     op_bind (rn_dial g (tp_relay_url p) [stable_subprotocol, ''xkp-terminal-ticket.'' @ ticket]) (\<lambda>dialed. case dialed of
        Inl e \<Rightarrow> expired_or g ''TERMINAL_RELAY_FAILED''
      | Inr subprotocol \<Rightarrow>
          if subprotocol \<noteq> stable_subprotocol
          then op_bind (rn_close_conn g) (\<lambda>_. runner_error ''TERMINAL_RELAY_FAILED'')
          else start_shell g p)"

definition linux_start :: "'w runner \<Rightarrow> command \<Rightarrow> ('w, unit) res_op" where
  "linux_start g c =
     (case cmd_terminal c of
        None \<Rightarrow> runner_error ''TERMINAL_COMMAND_INVALID''
      | Some p \<Rightarrow>
          if validate_relay_url (tp_relay_url p) (tp_session_id p) (rn_development g) \<noteq> None
          then runner_error ''TERMINAL_START_FAILED''
          else op_bind (rn_now g) (\<lambda>now.
            if \<not> after (tp_agent_connection_deadline p) now then runner_error ''TERMINAL_COMMAND_EXPIRED''
            else op_bind (rn_ticket g (tp_session_id p) (cmd_id c) (cmd_lease_token c)) (\<lambda>ticket. case ticket of
                Inl e \<Rightarrow> expired_or g ''TERMINAL_TICKET_FAILED''
              | Inr t \<Rightarrow> connect_relay g p t)))"

section \<open>What is open\<close>

text \<open>
  A world that keeps what is open, whatever the calls answer: \<open>late k\<close> is the state of the deadline at its
  \<open>k\<close>-th inspection.
\<close>

record open_world =
  ow_conn :: bool
  ow_pty :: bool
  ow_shell :: bool
  ow_serving :: bool
  ow_checks :: nat
  ow_dials :: "(string \<times> string list) list"
  ow_tickets :: "(string \<times> string \<times> string) list"

definition nothing_open :: open_world where
  "nothing_open =
     \<lparr>ow_conn = False, ow_pty = False, ow_shell = False, ow_serving = False, ow_checks = 0, ow_dials = [], ow_tickets = []\<rparr>"

definition open_runner :: "bool \<Rightarrow> gotime \<Rightarrow> goerr + string \<Rightarrow> goerr + string \<Rightarrow> goerr option \<Rightarrow> (nat \<Rightarrow> bool) \<Rightarrow> bool \<Rightarrow> open_world runner" where
  "open_runner development now ticket dialed pty late gone =
     \<lparr>rn_development = development, rn_now = (\<lambda>w. (now, w)),
      rn_ticket = (\<lambda>i c l w. (ticket, w\<lparr>ow_tickets := (i, c, l) # ow_tickets w\<rparr>)),
      rn_expired = (\<lambda>w. (late (ow_checks w), w\<lparr>ow_checks := Suc (ow_checks w)\<rparr>)),
      rn_dial = (\<lambda>url subs w. (dialed, w\<lparr>ow_conn := \<not> isl dialed, ow_dials := (url, subs) # ow_dials w\<rparr>)),
      rn_close_conn = (\<lambda>w. ((), w\<lparr>ow_conn := False\<rparr>)),
      rn_start_pty = (\<lambda>cmd w. (pty, w\<lparr>ow_pty := (pty = None), ow_shell := (pty = None)\<rparr>)),
      rn_close_pty = (\<lambda>w. ((), w\<lparr>ow_pty := False\<rparr>)),
      rn_signal = (\<lambda>sig w. ((), w\<lparr>ow_shell := (ow_shell w \<and> sig \<noteq> ''KILL'')\<rparr>)),
      rn_exits_soon = (\<lambda>w. (gone, w\<lparr>ow_shell := (ow_shell w \<and> \<not> gone)\<rparr>)), rn_wait = (\<lambda>w. ((), w)),
      rn_serve = (\<lambda>idle absolute w. ((), w\<lparr>ow_serving := True\<rparr>))\<rparr>"

lemmas runner_defs = open_runner_def runner_error_def expired_or_def terminate_process_def nothing_open_def op_bind_def op_return_def

end
