(* ===== verification/RelayClaims.thy ===== *)
theory RelayClaims
  imports TerminalRunner CommandProps
begin

text \<open>
  Properties of the relay of a terminal session: the check of its URL, its control frames, the bound on its rate, its
  queue of outbound messages, the end of its goroutines, and what a start that fails leaves open.
\<close>

section \<open>URL and control frames\<close>

text \<open>
  The runner's check of the relay URL is the decoder's. For every URL and session identifier (which is never empty in an
  accepted command) \<open>validateRelayURL\<close> and \<open>validateTerminalRelayURL\<close> accept the same, in development
  and outside it; so the runner never refuses the URL of a decoded command when both are configured alike.
\<close>

theorem relay_url_agrees:
  assumes "session \<noteq> []"
  shows "validate_relay_url raw session development = None \<longleftrightarrow> validate_terminal_relay_url raw session development = None"
  by (rule relay_url_same [OF assms])

theorem relay_url_agrees_witness:
  "validate_relay_url (tp_relay_url terminal_payload1) uuid1 False = None"
  using relay_url_agrees [of uuid1 "tp_relay_url terminal_payload1" False] terminal_url by (simp add: uuid1_def)

text \<open>
  \<open>parseControl\<close> accepts exactly the frames of the protocol: there is a text that it reads as \<open>c\<close> if and only
  if \<open>c\<close> is a ping or a pong, a resize to 20 to 500 columns and 5 to 200 rows (which fit the 16 bits they are cut
  to), or a close with one of the three reasons a browser may give.
\<close>

theorem control_frames_exact: "(\<exists>data. parse_control data = Inr c) = control_ok c"
  using parse_control_ok control_reads by blast

section \<open>The rate\<close>

text \<open>
  C25. The bytes of one direction are bounded. Through a new token bucket, whatever sizes are asked for and at whatever times
  (the clock may also go back), there pass at most 8 MiB, and 2 MiB for each second between the start and the
  last refill, up to the rounding of the floating-point numbers (one part in \<open>2\<^sup>5\<^sup>0\<close>, and \<open>2\<^sup>-\<^sup>2\<^sup>8\<close> bytes for each
  call); and the tokens stay between 0 and 8 MiB.
\<close>

theorem relay_rate_bounded:
  assumes "float_rounding fl" "allowed fl (new_token_bucket now) calls = (bytes, b)"
  shows "of_int bytes \<le> 8388608 + 2097152 * (1 + 1 / 2 ^ 50) * passed (new_token_bucket now) b + of_nat (length calls) / 2 ^ 28 \<and>
    0 \<le> tb_tokens b \<and> tb_tokens b \<le> 8388608"
proof -
  have "bucket_ok (new_token_bucket now)" by (simp add: bucket_ok_def new_token_bucket_def token_burst_def)
  from allowed_bounds [OF assms(1) this assms(2)] show ?thesis
    by (simp add: bucket_ok_def token_burst_def token_rate_def new_token_bucket_def)
qed

lemma exact_rounding: "float_rounding id"
  by (simp add: float_rounding_def mono_def)

theorem relay_rate_bounded_witness:
  "0 \<le> tb_tokens (snd (allowed id (new_token_bucket zero_time) [(8388608, zero_time), (1, zero_time)]))"
  using relay_rate_bounded [OF exact_rounding, of zero_time "[(8388608, zero_time), (1, zero_time)]"] by (metis prod.collapse)

section \<open>The session\<close>

text \<open>
  C26. The outbound queue is bounded and its count is exact. In every state the goroutines of a session can reach, the channel
  holds at most 64 messages and 1 MiB; the shared count is the bytes of the channel, of the message being
  written, and of those being added or taken back; so it is never negative, and at rest it is the bytes of the
  channel.
\<close>

theorem relay_queue_bounded:
  assumes "relay_run fl idle absolute now s"
  shows "length (rs_channel s) \<le> 64 \<and> channel_bytes s \<le> 1048576 \<and>
    rs_queued s = channel_bytes s + writer_held (rs_writer s) + shell_held (rs_shell s) + reader_held (rs_reader s) \<and>
    channel_bytes s \<le> rs_queued s"
proof -
  have held: "0 \<le> writer_held (rs_writer s)" "0 \<le> shell_held (rs_shell s)" "0 \<le> reader_held (rs_reader s)"
    using kept_below [of s] writer_kept_held(2) [of "rs_writer s"] shell_kept_held(2) [of "rs_shell s"]
      reader_kept_held(2) [of "rs_reader s"] by linarith+
  with run_queue [OF assms] writer_kept_held(2) [of "rs_writer s"] shell_kept_held(2) [of "rs_shell s"]
    reader_kept_held(2) [of "rs_reader s"] show ?thesis by (simp add: queue_inv_def)
qed

theorem relay_queue_bounded_witness: "channel_bytes (new_relay zero_time) \<le> rs_queued (new_relay zero_time)"
  using relay_queue_bounded [OF relay_begins [of id 1 zero_time zero_time]] by blast

text \<open>
  No error of a session is dropped. The goroutines report without waiting, to a channel of four; in every state they can
  reach there is room in it whenever one of them reports, so that the first error always ends the session.
\<close>

theorem relay_errors_kept:
  assumes "relay_run fl idle absolute now s" "rs_writer s = WFail e \<or> rs_shell s = PFail e \<or> rs_reader s = RFail e"
  shows "rs_errs (push_error e s) = rs_errs s @ [e]"
proof -
  have "length (rs_errs s) < 4"
    using run_errors [OF assms(1)] assms(2) by (auto simp: error_inv_def of_bool_def split: if_splits)
  then show ?thesis by (simp add: push_error_def)
qed

definition failing_relay :: relay where
  "failing_relay = (new_relay zero_time)\<lparr>rs_reader := RAfter RelayEOF\<rparr>\<lparr>rs_reader := RFail RelayEOF\<rparr>"

lemma failing_run: "relay_run fl idle absolute zero_time failing_relay"
proof -
  let ?s = "new_relay zero_time"
  have "relay_step fl idle absolute ?s (?s\<lparr>rs_reader := RAfter RelayEOF\<rparr>)"
    by (rule by_reader) (simp add: new_relay_def read_fails)
  moreover have "relay_step fl idle absolute (?s\<lparr>rs_reader := RAfter RelayEOF\<rparr>) failing_relay"
  proof -
    have "reader_step fl (?s\<lparr>rs_reader := RAfter RelayEOF\<rparr>) (RAfter RelayEOF) (?s\<lparr>rs_reader := RAfter RelayEOF\<rparr>) (RFail RelayEOF)"
      using reader_ends [of fl "?s\<lparr>rs_reader := RAfter RelayEOF\<rparr>" RelayEOF] by (simp add: new_relay_def)
    then show ?thesis unfolding failing_relay_def by (intro by_reader) simp
  qed
  ultimately show ?thesis by (meson relay_begins relay_goes)
qed

theorem relay_errors_kept_witness: "rs_errs (push_error RelayEOF failing_relay) = rs_errs failing_relay @ [RelayEOF]"
  by (rule relay_errors_kept [OF failing_run [of id 1 zero_time]]) (simp add: failing_relay_def)



section \<open>Starting a session\<close>

text \<open>
  C39. A start that fails leaves nothing open. Whatever the ticket exchange, the dial, the shell and the deadline answer: when
  the runner's \<open>Start\<close> returns an error, the connection and the terminal are closed, no shell runs and no session is served;
  when it returns none, all of them are there. It dials only the URL that it has checked, with the ticket as its second subprotocol.
\<close>

theorem runner_releases:
  assumes "linux_start (open_runner development now ticket dialed pty late gone) c nothing_open = (x, w)"
  shows "(isl x \<longrightarrow> \<not> ow_conn w \<and> \<not> ow_pty w \<and> \<not> ow_shell w \<and> \<not> ow_serving w) \<and>
    (\<not> isl x \<longrightarrow> ow_conn w \<and> ow_pty w \<and> ow_shell w \<and> ow_serving w) \<and>
    (\<forall>d\<in>set (ow_dials w). \<exists>p t. cmd_terminal c = Some p \<and> ticket = Inr t \<and>
       d = (tp_relay_url p, [''xkp-terminal-v1'', ''xkp-terminal-ticket.'' @ t]) \<and>
       validate_relay_url (tp_relay_url p) (tp_session_id p) development = None)"
  using assms
  by (auto simp: linux_start_def connect_relay_def start_shell_def runner_defs stable_subprotocol_def
      split: option.splits sum.splits if_splits)

theorem runner_releases_witness:
  "\<not> ow_shell (snd (linux_start (open_runner False zero_time (Inr ''t'') (Inr ''xkp-terminal-v1'') None (\<lambda>k. True) False)
      terminal_command nothing_open))"
proof -
  let ?s = "linux_start (open_runner False zero_time (Inr ''t'') (Inr ''xkp-terminal-v1'') None (\<lambda>k. True) False) terminal_command nothing_open"
  have s: "?s = (fst ?s, snd ?s)" by simp
  have url: "validate_relay_url (tp_relay_url terminal_payload1) (tp_session_id terminal_payload1) False = None"
    using relay_url_same [of uuid1 "tp_relay_url terminal_payload1" False] terminal_url by (simp add: terminal_payload1_def uuid1_def)
  have "isl (fst ?s)"
    by (auto simp: linux_start_def connect_relay_def start_shell_def runner_defs stable_subprotocol_def terminal_command_def url
      split: if_splits)
  with runner_releases [OF s] show ?thesis by blast
qed

text \<open>
  Why a session ended is lost. Whatever code the relay ends a session with, other than success (an idle session, the end
  of its time, a lost relay, a close by the operator), the manager reports \<open>TERMINAL_SESSION_FAILED\<close>.
\<close>

theorem session_codes_lost:
  "cr_code (session_result r (await_error (Some (Some (TerminalError code))) ctx)) = ''TERMINAL_SESSION_FAILED'' \<and>
   \<not> cr_success (session_result r (await_error (Some (Some (TerminalError code))) ctx))"
  by (simp add: session_result_def await_error_def Let_def)

end
