(* ===== verification/ModelDeploy.thy ===== *)
theory ModelDeploy
  imports Dispatcher Monitors "HOL-Library.List_Lexorder" "HOL-Library.Char_ord"
begin

text \<open>
  Model deployment (\<open>internal/modeldeploy\<close>): the list of a student's files, and the shell command that copies a
  model and its configuration inside a container. The command is text for \<open>sh -lc\<close>; \<open>sh_read\<close> is the part of
  the shell's grammar it may use, so that the lemmas can say which programs the shell runs with which
  arguments.
\<close>

section \<open>Running a command in a container\<close>

text \<open>The Docker calls of \<open>DockerRunner\<close>; \<open>xa_copy\<close> is \<open>stdcopy.StdCopy\<close>, which returns both outputs.\<close>

record 'e exec_api =
  xa_create :: "string \<Rightarrow> string list \<Rightarrow> ('e, string) res_op"
  xa_attach :: "string \<Rightarrow> 'e err_op"
  xa_copy :: "string \<Rightarrow> ('e, string \<times> string) res_op"
  xa_close :: "string \<Rightarrow> ('e, unit) op"
  xa_inspect :: "string \<Rightarrow> ('e, int) res_op"

definition exec_outcome :: "'e exec_api \<Rightarrow> string \<Rightarrow> ('e, string) res_op" where
  "exec_outcome a i =
     need_op (xa_copy a i) same (\<lambda>(out, err).
     need_op (xa_inspect a i) same (\<lambda>code.
     op_return (if code \<noteq> 0 then Inl (Plain (''container command failed: '' @ err)) else Inr out)))"

definition docker_run :: "'e exec_api \<Rightarrow> string \<Rightarrow> string list \<Rightarrow> ('e, string) res_op" where
  "docker_run a container command =
     need_op (xa_create a container command) same (\<lambda>i.
     check_op (xa_attach a i) same
     (op_bind (exec_outcome a i) (\<lambda>r. op_bind (xa_close a i) (\<lambda>_. op_return r))))"

section \<open>List\<close>

definition student_root :: string where "student_root = ''/home/student''"
definition target_root :: string where "target_root = ''/usr/local/zy-T100/utils_x86/models/A''"
definition config_target_root :: string where "config_target_root = ''/usr/local/zy-T100/utils_x86''"

definition listed_files :: "string \<Rightarrow> string list" where
  "listed_files output =
     sort (map (\<lambda>f. trim_prefix f (student_root @ ''/''))
       (filter (\<lambda>f. has_prefix f (student_root @ ''/'')) (split_on (CHR 0x0A) output)))"

type_synonym 'e command_runner = "string \<Rightarrow> string list \<Rightarrow> ('e, string) res_op"

definition model_list :: "'e command_runner \<Rightarrow> string \<Rightarrow> ('e, string list option \<times> goerr option) op" where
  "model_list run container =
     op_bind (run container [''find'', student_root, ''-type'', ''f'']) (\<lambda>r. op_return (case r of
        Inl e \<Rightarrow> (None, Some e)
      | Inr output \<Rightarrow> (Some (listed_files output), None)))"

section \<open>Deploy\<close>

definition quote :: "string \<Rightarrow> string" where
  "quote v = [CHR 0x27] @ replace_byte (CHR 0x27) [CHR 0x27, CHR 0x5C, CHR 0x27, CHR 0x27] v @ [CHR 0x27]"

definition model_source :: "model_workspace_payload \<Rightarrow> string" where
  "model_source p = path_join [student_root, mw_model_path p]"

definition config_source :: "model_workspace_payload \<Rightarrow> string" where
  "config_source p = path_join [student_root, mw_config_path p]"

definition model_target :: "model_workspace_payload \<Rightarrow> string" where
  "model_target p = path_join [target_root, path_base (mw_model_path p)]"

definition config_target :: "model_workspace_payload \<Rightarrow> string" where
  "config_target p = path_join [config_target_root, path_base (mw_config_path p)]"

definition detector_name :: string where "detector_name = ''object_detector.py''"
definition detector_target :: string where
  "detector_target = ''/usr/local/zy-T100/utils_x86/object_detector.py''"

definition force_flag :: "model_workspace_payload \<Rightarrow> string" where
  "force_flag p = (if mw_overwrite p then '' -f'' else [])"

definition deploy_command :: "model_workspace_payload \<Rightarrow> string" where
  "deploy_command p =
     ''mkdir -p '' @ quote target_root
     @ (if \<not> mw_overwrite p
        then '' && test ! -e '' @ quote (model_target p) @ '' && test ! -e '' @ quote (config_target p) else [])
     @ '' && cp'' @ force_flag p @ '' -- '' @ quote (model_source p) @ '' '' @ quote (model_target p)
     @ '' && cp'' @ force_flag p @ '' -- '' @ quote (config_source p) @ '' '' @ quote (config_target p)
     @ (if path_base (mw_config_path p) = detector_name
        then '' && cp'' @ force_flag p @ '' -- '' @ quote (config_source p) @ '' '' @ quote detector_target else [])"

definition model_deploy :: "'e command_runner \<Rightarrow> model_workspace_payload \<Rightarrow> 'e err_op" where
  "model_deploy run p =
     op_bind (run (mw_container_name p) [''sh'', ''-lc'', deploy_command p]) (\<lambda>r. op_return (case r of
        Inl e \<Rightarrow> Some (wrap ''deploy model files: '' e)
      | Inr output \<Rightarrow> None))"

definition new_model_manager :: "'e command_runner \<Rightarrow> 'e model_manager" where
  "new_model_manager run = \<lparr>mm_list = model_list run, mm_deploy = model_deploy run\<rparr>"

section \<open>Reading a command as the shell does\<close>

text \<open>
  Words and \<open>&&\<close>. Inside single quotes every byte stands for itself; outside, a backslash quotes the next
  byte, blanks end a word, and \<open>sh_plain\<close> are the bytes without a meaning to the shell. Every other byte,
  a quote that is not closed and a NUL byte are refused: nothing is expanded in a text that is read. This is the
  quoting and the splitting into words of the POSIX shell, cut down to the texts it does not expand.
\<close>

datatype sh_token = ShWord string | ShAnd

definition sh_plain :: "char \<Rightarrow> bool" where
  "sh_plain c = (is_alnum c \<or> one_of ''-_./!,:@+'' c)"

definition sh_flush :: "string option \<Rightarrow> sh_token list" where
  "sh_flush cur = (case cur of None \<Rightarrow> [] | Some w \<Rightarrow> [ShWord w])"

definition sh_add :: "string option \<Rightarrow> string \<Rightarrow> string option" where
  "sh_add cur s = Some ((case cur of None \<Rightarrow> [] | Some w \<Rightarrow> w) @ s)"

fun sh_lex :: "bool \<Rightarrow> string option \<Rightarrow> string \<Rightarrow> sh_token list option" where
  "sh_lex quoting cur [] = (if quoting then None else Some (sh_flush cur))"
| "sh_lex True cur (c # s) =
     (if c = CHR 0x00 then None
      else if c = CHR 0x27 then sh_lex False cur s
      else sh_lex True (sh_add cur [c]) s)"
| "sh_lex False cur (c # s) =
     (if c = CHR 0x27 then sh_lex True (sh_add cur []) s
      else if c = CHR 0x5C then
        (case s of [] \<Rightarrow> None
         | d # r \<Rightarrow> if d = CHR 0x0A \<or> d = CHR 0x00 then None else sh_lex False (sh_add cur [d]) r)
      else if c = CHR '' '' \<or> c = CHR 0x09 then map_option (\<lambda>ts. sh_flush cur @ ts) (sh_lex False None s)
      else if c = CHR ''&'' then
        (case s of [] \<Rightarrow> None
         | d # r \<Rightarrow> if d = CHR ''&'' then map_option (\<lambda>ts. sh_flush cur @ ShAnd # ts) (sh_lex False None r) else None)
      else if sh_plain c then sh_lex False (sh_add cur [c]) s
      else None)"

fun sh_commands :: "sh_token list \<Rightarrow> string list list" where
  "sh_commands [] = [[]]"
| "sh_commands (ShWord w # ts) =
     (case sh_commands ts of [] \<Rightarrow> [[w]] | ws # cs \<Rightarrow> (w # ws) # cs)"
| "sh_commands (ShAnd # ts) = [] # sh_commands ts"

definition sh_read :: "string \<Rightarrow> string list list option" where
  "sh_read s = map_option sh_commands (sh_lex False None s)"

subsection \<open>Quoting\<close>

lemma sh_add_add [simp]: "sh_add (sh_add cur s) t = sh_add cur (s @ t)"
  by (simp add: sh_add_def)

lemma sh_lex_inside:
  "CHR 0x00 \<notin> set v \<Longrightarrow>
   sh_lex True (sh_add cur w) (replace_byte (CHR 0x27) [CHR 0x27, CHR 0x5C, CHR 0x27, CHR 0x27] v @ CHR 0x27 # r)
     = sh_lex False (sh_add cur (w @ v)) r"
  by (induction v arbitrary: w) auto

text \<open>A quoted value is read as one word, the value itself.\<close>

lemma sh_lex_quote: "CHR 0x00 \<notin> set v \<Longrightarrow> sh_lex False cur (quote v @ r) = sh_lex False (sh_add cur v) r"
  using sh_lex_inside [of v cur "[]" r] by (simp add: quote_def)

lemma sh_lex_quote_end: "CHR 0x00 \<notin> set v \<Longrightarrow> sh_lex False cur (quote v) = Some (sh_flush (sh_add cur v))"
  using sh_lex_quote [of v cur "[]"] by simp

lemma sh_lex_plain: "list_all sh_plain w \<Longrightarrow> sh_lex False cur (w @ r) = (if w = [] then sh_lex False cur r else sh_lex False (sh_add cur w) r)"
proof (induction w arbitrary: cur)
  case (Cons c w)
  have "c \<noteq> CHR 0x27 \<and> c \<noteq> CHR 0x5C \<and> c \<noteq> CHR '' '' \<and> c \<noteq> CHR 0x09 \<and> c \<noteq> CHR ''&''"
    using Cons.prems by (auto simp: sh_plain_def byte_class_defs)
  with Cons show ?case by auto
qed simp

lemma sh_plain_words [simp]:
  "list_all sh_plain ''mkdir''" "list_all sh_plain ''-p''" "list_all sh_plain ''test''" "list_all sh_plain ''!''"
  "list_all sh_plain ''-e''" "list_all sh_plain ''cp''" "list_all sh_plain ''-f''" "list_all sh_plain ''--''"
  by (simp_all add: sh_plain_def byte_class_defs)

lemma sh_lex_blank: "sh_lex False cur (CHR '' '' # r) = map_option (\<lambda>ts. sh_flush cur @ ts) (sh_lex False None r)"
  by simp

lemma sh_lex_and: "sh_lex False cur (CHR ''&'' # CHR ''&'' # r) = map_option (\<lambda>ts. sh_flush cur @ ShAnd # ts) (sh_lex False None r)"
  by simp

subsection \<open>The pieces of the deploy command\<close>

definition cp_words :: "bool \<Rightarrow> string list" where
  "cp_words force = ''cp'' # (if force then [''-f''] else []) @ [''--'']"

lemma lex_pieces:
  "sh_lex False None (''mkdir -p '' @ r) = map_option (\<lambda>ts. ShWord ''mkdir'' # ShWord ''-p'' # ts) (sh_lex False None r)"
  "sh_lex False cur ('' && test ! -e '' @ r) =
     map_option (\<lambda>ts. sh_flush cur @ ShAnd # map ShWord [''test'', ''!'', ''-e''] @ ts) (sh_lex False None r)"
  "sh_lex False cur ('' '' @ r) = map_option (\<lambda>ts. sh_flush cur @ ts) (sh_lex False None r)"
  by (simp_all add: sh_plain_def byte_class_defs sh_flush_def sh_add_def option.map_comp comp_def)

lemma lex_cp:
  "sh_lex False cur ('' && cp'' @ force_flag p @ '' -- '' @ r) =
     map_option (\<lambda>ts. sh_flush cur @ ShAnd # map ShWord (cp_words (mw_overwrite p)) @ ts) (sh_lex False None r)"
  by (simp add: force_flag_def cp_words_def sh_plain_def byte_class_defs sh_flush_def sh_add_def option.map_comp comp_def)

text \<open>The commands that are meant.\<close>

definition deploy_commands :: "model_workspace_payload \<Rightarrow> string list list" where
  "deploy_commands p =
     [[''mkdir'', ''-p'', target_root]]
     @ (if mw_overwrite p then [] else [[''test'', ''!'', ''-e'', model_target p], [''test'', ''!'', ''-e'', config_target p]])
     @ [cp_words (mw_overwrite p) @ [model_source p, model_target p],
        cp_words (mw_overwrite p) @ [config_source p, config_target p]]
     @ (if path_base (mw_config_path p) = detector_name
        then [cp_words (mw_overwrite p) @ [config_source p, detector_target]] else [])"

lemma sh_commands_words [simp]:
  "sh_commands (map ShWord ws) = [ws]" "sh_commands (map ShWord ws @ ShAnd # ts) = ws # sh_commands ts"
  by (induction ws) auto

lemma no_nul_roots: "CHR 0x00 \<notin> set target_root" "CHR 0x00 \<notin> set detector_target"
  by (simp_all add: target_root_def detector_target_def)

lemma deploy_command_read:
  assumes "CHR 0x00 \<notin> set (model_source p)" "CHR 0x00 \<notin> set (model_target p)"
    "CHR 0x00 \<notin> set (config_source p)" "CHR 0x00 \<notin> set (config_target p)"
  shows "sh_read (deploy_command p) = Some (deploy_commands p)"
proof -
  note lex = lex_pieces lex_cp sh_lex_quote sh_lex_quote_end no_nul_roots assms sh_flush_def sh_add_def
  have toks: "sh_lex False None (deploy_command p) =
     Some (map ShWord [''mkdir'', ''-p'', target_root]
       @ (if mw_overwrite p then [] else
            ShAnd # map ShWord [''test'', ''!'', ''-e'', model_target p] @ ShAnd # map ShWord [''test'', ''!'', ''-e'', config_target p])
       @ ShAnd # map ShWord (cp_words (mw_overwrite p) @ [model_source p, model_target p])
       @ ShAnd # map ShWord (cp_words (mw_overwrite p) @ [config_source p, config_target p])
       @ (if path_base (mw_config_path p) = detector_name
          then ShAnd # map ShWord (cp_words (mw_overwrite p) @ [config_source p, detector_target]) else []))"
    unfolding deploy_command_def
    by (cases "mw_overwrite p"; cases "path_base (mw_config_path p) = detector_name";
        simp add: lex del: append_Cons sh_lex.simps; simp)
  show ?thesis
    unfolding sh_read_def toks deploy_commands_def option.map
    by (cases "mw_overwrite p"; cases "path_base (mw_config_path p) = detector_name")
       (simp_all only: if_True if_False append_Nil2 append_Nil append_Cons sh_commands_words simp_thms option.inject append_assoc)
qed

section \<open>Where the files lie\<close>

definition proper_elems :: "string list \<Rightarrow> bool" where
  "proper_elems es \<longleftrightarrow> es \<noteq> [] \<and> (\<forall>e\<in>set es. clean_elem e \<and> e \<noteq> dotdot)"

lemma join_slash_append: "ds \<noteq> [] \<Longrightarrow> es \<noteq> [] \<Longrightarrow> join_slash (ds @ es) = join_slash ds @ ''/'' @ join_slash es"
proof (induction ds)
  case (Cons d ds)
  then show ?case by (cases ds; cases es) (auto simp: join_slash_def)
qed simp

lemma join_slash_single: "join_slash [e] = e"
  by (simp add: join_slash_def)

lemma path_clean_proper:
  assumes "proper_elems es"
  shows "path_clean (CHR ''/'' # join_slash es) = CHR ''/'' # join_slash es"
proof -
  have es: "es \<noteq> []" "\<forall>e\<in>set es. clean_elem e \<and> e \<noteq> dotdot" using assms by (auto simp: proper_elems_def)
  have "split_on (CHR ''/'') (CHR ''/'' # join_slash es) = [] # es"
    using split_join_slash es by simp
  then have "clean_elems (CHR ''/'' # join_slash es) = es"
    using es by (simp add: clean_elems_def clean_fold_proper)
  then show ?thesis by (simp add: path_clean_def is_abs_def)
qed

lemma path_join_proper:
  assumes "proper_elems ds" "proper_elems es"
  shows "path_join [CHR ''/'' # join_slash ds, join_slash es] = CHR ''/'' # join_slash ds @ ''/'' @ join_slash es"
proof -
  have ne: "ds \<noteq> []" "es \<noteq> []" "hd es \<noteq> []" using assms by (auto simp: proper_elems_def clean_elem_def)
  have "join_slash es \<noteq> []" using join_slash_hd [OF ne(2,3)] by simp
  then have "path_join [CHR ''/'' # join_slash ds, join_slash es] = path_clean (CHR ''/'' # join_slash (ds @ es))"
    using ne by (simp add: path_join_def join_slash_append) (simp add: join_slash_def)
  moreover have "proper_elems (ds @ es)" using assms by (auto simp: proper_elems_def)
  ultimately show ?thesis using path_clean_proper [of "ds @ es"] ne by (simp add: join_slash_append)
qed

lemma valid_model_elems:
  assumes "valid_model_path v"
  shows "proper_elems (split_on (CHR ''/'') v)" "join_slash (split_on (CHR ''/'') v) = v"
proof -
  have "path_clean v = v" "\<not> is_abs v" "v \<noteq> dot" "\<not> escapes v"
    using assms unfolding valid_model_path_def escapes_def by blast+
  from clean_local_elems [OF this] show "proper_elems (split_on (CHR ''/'') v)" by (simp add: proper_elems_def)
  show "join_slash (split_on (CHR ''/'') v) = v" by (simp add: join_slash_def join_split)
qed

lemma proper_no_empty: "proper_elems es \<Longrightarrow> [] \<notin> set es"
  unfolding proper_elems_def clean_elem_def by blast

lemma split_on_sep: "split_on d (w @ d # s) = split_on d w @ split_on d s"
  by (induction w) (simp_all split: list.split)

lemma split_no_trailing:
  assumes "proper_elems (split_on (CHR ''/'') v)"
  shows "v \<noteq> []" "last v \<noteq> CHR ''/''"
proof -
  note ne = proper_no_empty [OF assms]
  show v: "v \<noteq> []" using ne by (cases v) simp_all
  show "last v \<noteq> CHR ''/''"
  proof
    assume "last v = CHR ''/''"
    with v have "v = butlast v @ CHR ''/'' # []" by (metis append_butlast_last_id)
    then have "split_on (CHR ''/'') v = split_on (CHR ''/'') (butlast v) @ [[]]"
      by (metis split_on_sep split_on.simps(1))
    with ne show False by simp
  qed
qed

lemma path_base_valid:
  assumes "valid_model_path v"
  shows "path_base v = last (split_on (CHR ''/'') v)" "proper_elems [path_base v]"
proof -
  note e = valid_model_elems [OF assms]
  have v: "v \<noteq> []" "last v \<noteq> CHR ''/''" using split_no_trailing [OF e(1)] by simp_all
  have "strip_trailing (CHR ''/'') v = v"
    using v by (cases v rule: rev_cases) (auto simp: strip_trailing_def)
  with v show b: "path_base v = last (split_on (CHR ''/'') v)" by (simp add: path_base_def)
  show "proper_elems [path_base v]" unfolding b using e(1) by (simp add: proper_elems_def)
qed

text \<open>The directories of the program, by their elements.\<close>

lemma roots_join:
  "student_root = CHR ''/'' # join_slash [''home'', ''student'']"
  "target_root = CHR ''/'' # join_slash [''usr'', ''local'', ''zy-T100'', ''utils_x86'', ''models'', ''A'']"
  "config_target_root = CHR ''/'' # join_slash [''usr'', ''local'', ''zy-T100'', ''utils_x86'']"
  by (simp_all add: student_root_def target_root_def config_target_root_def join_slash_def)

lemma roots_proper: "proper_elems [''home'', ''student'']"
  "proper_elems [''usr'', ''local'', ''zy-T100'', ''utils_x86'', ''models'', ''A'']"
  "proper_elems [''usr'', ''local'', ''zy-T100'', ''utils_x86'']"
  by (simp_all add: proper_elems_def clean_elem_def dot_def dotdot_def)

lemma source_below: "valid_model_path v \<Longrightarrow> path_join [student_root, v] = student_root @ ''/'' @ v"
  using path_join_proper [OF roots_proper(1) valid_model_elems(1)] valid_model_elems(2) by (simp add: roots_join(1))

lemma base_below:
  assumes "valid_model_path v"
  shows "path_join [target_root, path_base v] = target_root @ ''/'' @ path_base v"
    "path_join [config_target_root, path_base v] = config_target_root @ ''/'' @ path_base v"
  using path_join_proper [OF roots_proper(2) path_base_valid(2) [OF assms]]
    path_join_proper [OF roots_proper(3) path_base_valid(2) [OF assms]]
  by (simp_all add: roots_join(2,3) join_slash_single)

lemma split_on_chars: "w \<in> set (split_on d s) \<Longrightarrow> set w \<subseteq> set s"
proof (induction s arbitrary: w)
  case (Cons c s)
  obtain u us where u: "split_on d s = u # us" by (meson split_on_not_nil neq_Nil_conv)
  with Cons.prems have "w = [] \<or> w \<in> set (u # us) \<or> w = c # u" by (auto split: if_splits)
  with Cons.IH u show ?case by fastforce
qed simp

lemma base_chars:
  assumes "valid_model_path v"
  shows "set (path_base v) \<subseteq> set v" "CHR ''/'' \<notin> set (path_base v)"
proof -
  have "path_base v \<in> set (split_on (CHR ''/'') v)" by (simp add: path_base_valid(1) [OF assms])
  then show "set (path_base v) \<subseteq> set v" by (rule split_on_chars)
  show "CHR ''/'' \<notin> set (path_base v)"
    using path_base_valid(2) [OF assms] by (simp add: proper_elems_def clean_elem_def)
qed

lemma deploy_paths:
  assumes "valid_model_path (mw_model_path p)" "valid_model_path (mw_config_path p)"
  shows "model_source p = student_root @ ''/'' @ mw_model_path p" "config_source p = student_root @ ''/'' @ mw_config_path p"
    "model_target p = target_root @ ''/'' @ path_base (mw_model_path p)"
    "config_target p = config_target_root @ ''/'' @ path_base (mw_config_path p)"
  using assms by (simp_all add: model_source_def config_source_def model_target_def config_target_def source_below base_below)

lemma deploy_paths_no_nul:
  assumes "valid_model_path (mw_model_path p)" "valid_model_path (mw_config_path p)"
  shows "CHR 0x00 \<notin> set (model_source p)" "CHR 0x00 \<notin> set (model_target p)"
    "CHR 0x00 \<notin> set (config_source p)" "CHR 0x00 \<notin> set (config_target p)"
proof -
  have n: "CHR 0x00 \<notin> set (mw_model_path p)" "CHR 0x00 \<notin> set (mw_config_path p)"
    using assms by (auto simp: valid_model_path_def)
  then have "CHR 0x00 \<notin> set (path_base (mw_model_path p))" "CHR 0x00 \<notin> set (path_base (mw_config_path p))"
    using base_chars(1) [OF assms(1)] base_chars(1) [OF assms(2)] by blast+
  with n show "CHR 0x00 \<notin> set (model_source p)" "CHR 0x00 \<notin> set (model_target p)"
    "CHR 0x00 \<notin> set (config_source p)" "CHR 0x00 \<notin> set (config_target p)"
    unfolding deploy_paths [OF assms] by (simp_all add: student_root_def target_root_def config_target_root_def)
qed

end
