(* ===== verification/Guards.thy ===== *)
theory Guards
  imports Monitors
begin

text \<open>
  Guarded traces: every event of a trace is allowed after the events before it. The monitor keeps the events
  so far, so that the rules of \<open>Monitors\<close> execute a handler and leave one condition for each call.
\<close>

definition guard_step :: "('v list \<Rightarrow> 'v \<Rightarrow> bool) \<Rightarrow> 'v list \<times> bool \<Rightarrow> 'v \<Rightarrow> 'v list \<times> bool" where
  "guard_step ok s v = (fst s @ [v], snd s \<and> ok (fst s) v)"

definition guarded :: "('v list \<Rightarrow> 'v \<Rightarrow> bool) \<Rightarrow> 'v list \<Rightarrow> bool" where
  "guarded ok tr \<longleftrightarrow> (\<forall>i<length tr. ok (take i tr) (tr ! i))"

lemma guarded_nil [simp]: "guarded ok []"
  by (simp add: guarded_def)

lemma guarded_snoc [simp]: "guarded ok (tr @ [v]) \<longleftrightarrow> guarded ok tr \<and> ok tr v"
  by (auto simp: guarded_def nth_append less_Suc_eq)

lemma guard_fold: "foldl (guard_step ok) (h, guarded ok h) tr = (h @ tr, guarded ok (h @ tr))"
proof (induction tr arbitrary: h)
  case (Cons v tr)
  from Cons.IH [of "h @ [v]"] show ?case by (simp add: guard_step_def)
qed simp

text \<open>The form the proofs use: \<open>h\<close> are the events so far, and the handler ends with its result and all events.\<close>

definition guards :: "('v list \<Rightarrow> 'v \<Rightarrow> bool) \<Rightarrow> 'v list \<Rightarrow> ('e \<times> 'v list, 'r) op \<Rightarrow> ('r \<Rightarrow> 'v list \<Rightarrow> bool) \<Rightarrow> bool" where
  "guards ok h m Q \<longleftrightarrow> monitored (guard_step ok) (h, True) m (\<lambda>r s. snd s \<and> Q r (fst s))"

lemma guards_run:
  assumes "guards ok [] m Q" "m (e, []) = (r, (e', tr))"
  shows "guarded ok tr \<and> Q r tr"
  using monitored_run [OF assms(1) [unfolded guards_def], of e] assms(2) guard_fold [of ok "[]" tr] by simp

lemma guards_conseq: "guards ok h m Q \<Longrightarrow> (\<And>r t. Q r t \<Longrightarrow> R r t) \<Longrightarrow> guards ok h m R"
  unfolding guards_def by (rule monitored_conseq, assumption, simp)

lemma guards_return: "Q x h \<Longrightarrow> guards ok h (op_return x) Q"
  unfolding guards_def by (rule monitored_return) simp

lemma guards_log: "(\<And>x. ok h (ev x) \<and> Q x (h @ [ev x])) \<Longrightarrow> guards ok h (log_op ev m) Q"
  unfolding guards_def by (rule monitored_log) (simp add: guard_step_def)

lemma guards_bind:
  assumes "guards ok h m R" "\<And>x t. R x t \<Longrightarrow> guards ok t (f x) Q"
  shows "guards ok h (op_bind m f) Q"
  unfolding guards_def
proof (rule monitored_bind [OF assms(1) [unfolded guards_def]])
  fix x s assume "snd s \<and> R x (fst s)"
  then show "monitored (guard_step ok) s (f x) (\<lambda>r s. snd s \<and> Q r (fst s))"
    using assms(2) [of x "fst s"] unfolding guards_def by (cases s) simp
qed

lemma guards_log_bind:
  "(\<And>x. ok h (ev x)) \<Longrightarrow> (\<And>x. guards ok (h @ [ev x]) (f x) Q) \<Longrightarrow> guards ok h (op_bind (log_op ev m) f) Q"
  by (rule guards_bind [where R = "\<lambda>x t. t = h @ [ev x]"], rule guards_log) simp_all

lemma guards_check:
  "(\<And>x. ok h (ev x)) \<Longrightarrow> (\<And>x. Q (Inl (w x)) (h @ [ev (Some x)])) \<Longrightarrow> guards ok (h @ [ev None]) k Q \<Longrightarrow>
   guards ok h (check_op (log_op ev m) w k) Q"
  unfolding check_op_def by (rule guards_log_bind) (auto intro: guards_return split: option.split)

lemma guards_need:
  "(\<And>x. ok h (ev x)) \<Longrightarrow> (\<And>x. Q (Inl (w x)) (h @ [ev (Inl x)])) \<Longrightarrow> (\<And>v. guards ok (h @ [ev (Inr v)]) (k v) Q) \<Longrightarrow>
   guards ok h (need_op (log_op ev m) w k) Q"
  unfolding need_op_def by (rule guards_log_bind) (auto intro: guards_return split: sum.split)

lemma guards_try_err:
  "(\<And>x. ok h (ev x)) \<Longrightarrow> (\<And>x. Q (Some (w x)) (h @ [ev (Some x)])) \<Longrightarrow> guards ok (h @ [ev None]) k Q \<Longrightarrow>
   guards ok h (try_err (log_op ev m) w k) Q"
  unfolding try_err_def by (rule guards_log_bind) (auto intro: guards_return split: option.split)

lemma guards_try_res:
  "(\<And>x. ok h (ev x)) \<Longrightarrow> (\<And>x. Q (Some (w x)) (h @ [ev (Inl x)])) \<Longrightarrow> (\<And>v. guards ok (h @ [ev (Inr v)]) (k v) Q) \<Longrightarrow>
   guards ok h (try_res (log_op ev m) w k) Q"
  unfolding try_res_def by (rule guards_log_bind) (auto intro: guards_return split: sum.split)

lemma guards_if: "(b \<Longrightarrow> guards ok h x Q) \<Longrightarrow> (\<not> b \<Longrightarrow> guards ok h y Q) \<Longrightarrow> guards ok h (if b then x else y) Q"
  by simp

lemma guards_option:
  "(x = None \<Longrightarrow> guards ok h a Q) \<Longrightarrow> (\<And>v. x = Some v \<Longrightarrow> guards ok h (b v) Q) \<Longrightarrow>
   guards ok h (case x of None \<Rightarrow> a | Some v \<Rightarrow> b v) Q"
  by (cases x) auto

lemma guards_sum:
  "(\<And>e. x = Inl e \<Longrightarrow> guards ok h (a e) Q) \<Longrightarrow> (\<And>v. x = Inr v \<Longrightarrow> guards ok h (b v) Q) \<Longrightarrow>
   guards ok h (case x of Inl e \<Rightarrow> a e | Inr v \<Rightarrow> b v) Q"
  by (cases x) auto

lemma guards_prod: "(\<And>a b. x = (a, b) \<Longrightarrow> guards ok h (f a b) Q) \<Longrightarrow> guards ok h (case x of (a, b) \<Rightarrow> f a b) Q"
  by (cases x) auto

lemma guards_Let: "guards ok h (f v) Q \<Longrightarrow> guards ok h (let x = v in f x) Q"
  by simp

lemmas guards_intros = guards_Let guards_if guards_option guards_sum guards_prod guards_check guards_need
  guards_try_err guards_try_res guards_log_bind guards_log guards_return

end
