(* ===== verification/DockerInventory.thy ===== *)
theory DockerInventory
  imports Dispatcher Guards
begin

text \<open>
  The Docker inventory (\<open>internal/dockerinventory/manager.go\<close>): the inspection of an image, and the removal of an
  image or of a container that the platform does not manage. The record \<open>inventory_docker\<close> holds the Docker calls; \<open>reference.Parse\<close> and
  \<open>errdefs.IsNotFound\<close>, which belong to other packages, are parameters beside them. A parsed reference is its
  name and its tag, each if it has one.
\<close>

section \<open>Docker as the manager sees it\<close>

record image_inspection =
  ii_id :: string
  ii_repo_tags :: "string list option"
  ii_repo_digests :: "string list"
  ii_size :: int
  ii_created :: string

text \<open>Of a container: its identifier unless \<open>ContainerJSONBase\<close> is nil, and its labels unless \<open>Config\<close> is nil.\<close>

record container_inspection =
  ci_id :: "string option"
  ci_labels :: "(string \<times> string) list option"

record container_summary =
  cs_id :: string
  cs_image_id :: string

record 'e inventory_docker =
  iv_image :: "string \<Rightarrow> ('e, image_inspection) res_op"
  iv_list :: "('e, container_summary list) res_op"
  iv_container :: "string \<Rightarrow> ('e, container_inspection) res_op"
  iv_remove_image :: "string \<Rightarrow> 'e err_op"
  iv_remove_container :: "string \<Rightarrow> 'e err_op"
  iv_not_found :: "goerr \<Rightarrow> bool"
  iv_ref_ok :: "string \<Rightarrow> goerr option"
  iv_parse :: "string \<Rightarrow> (string option \<times> string option) option"

section \<open>Messages\<close>

definition container_invalid_text :: string where
  "container_invalid_text = utf8_encode [0x5BB9, 0x5668, 0x68C0, 0x67E5, 0x7ED3, 0x679C, 0x65E0, 0x6548]"

definition container_managed_text :: string where
  "container_managed_text = utf8_encode [0x5E73, 0x53F0, 0x73AF, 0x5883, 0x5BB9, 0x5668, 0x8BF7, 0x901A, 0x8FC7, 0x73AF,
     0x5883, 0x5220, 0x9664, 0x64CD, 0x4F5C, 0x79FB, 0x9664]"

definition image_invalid_text :: string where
  "image_invalid_text = utf8_encode [0x955C, 0x50CF, 0x68C0, 0x67E5, 0x7ED3, 0x679C, 0x65E0, 0x6548]"

definition image_used_text :: "string \<Rightarrow> string" where
  "image_used_text i = utf8_encode [0x955C, 0x50CF, 0x4ECD, 0x88AB, 0x5BB9, 0x5668, 0x0020] @ i
     @ utf8_encode [0x0020, 0x4F7F, 0x7528, 0xFF0C, 0x8BF7, 0x5148, 0x5220, 0x9664, 0x5BB9, 0x5668, 0xFF08, 0x5305, 0x62EC,
         0x5DF2, 0x505C, 0x6B62, 0x7684, 0x5BB9, 0x5668, 0xFF09]"

definition tag_changed_text :: string where
  "tag_changed_text = utf8_encode [0x955C, 0x50CF, 0x6807, 0x7B7E, 0x5DF2, 0x53D8, 0x5316, 0xFF0C, 0x5220, 0x9664, 0x4E2D,
     0x6B62, 0xFF0C, 0x8BF7, 0x5237, 0x65B0, 0x6E05, 0x5355, 0x540E, 0x91CD, 0x8BD5]"

definition image_remains_text :: string where
  "image_remains_text = utf8_encode [0x955C, 0x50CF, 0x4ECD, 0x7136, 0x5B58, 0x5728, 0xFF0C, 0x53EF, 0x80FD, 0x6709, 0x65B0,
     0x589E, 0x6807, 0x7B7E, 0x6216, 0x5F15, 0x7528, 0xFF1B, 0x90E8, 0x5206, 0x6807, 0x7B7E, 0x53EF, 0x80FD, 0x5DF2, 0x79FB,
     0x9664, 0xFF0C, 0x8BF7, 0x5237, 0x65B0, 0x6E05, 0x5355, 0x540E, 0x91CD, 0x8BD5]"

definition image_created_text :: string where
  "image_created_text = utf8_encode [0x955C, 0x50CF, 0x521B, 0x5EFA, 0x65F6, 0x95F4, 0x65E0, 0x6548, 0x003A, 0x0020]"

section \<open>Removing a container\<close>

text \<open>A label that is missing reads as the empty string.\<close>

definition label_of :: "(string \<times> string) list \<Rightarrow> string \<Rightarrow> string" where
  "label_of kvs k = (case map_of kvs k of None \<Rightarrow> [] | Some v \<Rightarrow> v)"

definition platform_managed :: "(string \<times> string) list \<Rightarrow> bool" where
  "platform_managed l = (label_of l ''com.xkp.managed'' = ''true'' \<or> label_of l ''com.xkp.environment.id'' \<noteq> [])"

definition remove_container :: "'e inventory_docker \<Rightarrow> string \<Rightarrow> ('e, details) res_op" where
  "remove_container d target =
     need_op (iv_container d target) same (\<lambda>c.
       case (ci_labels c, ci_id c) of
         (Some labels, Some i) \<Rightarrow>
           if i = [] then op_return (Inl (Plain container_invalid_text))
           else if platform_managed labels then op_return (Inl (Plain container_managed_text))
           else check_op (iv_remove_container d i) same (op_return (Inr [(''id'', DString i)]))
       | _ \<Rightarrow> op_return (Inl (Plain container_invalid_text)))"

section \<open>Removing an image\<close>

fun untag_all :: "'e inventory_docker \<Rightarrow> string \<Rightarrow> string list \<Rightarrow> ('e, unit) res_op" where
  "untag_all d i [] = op_return (Inr ())"
| "untag_all d i (r # rs) =
     need_op (iv_image d r) same (\<lambda>current.
       if ii_id current \<noteq> i then op_return (Inl (Plain tag_changed_text))
       else check_op (iv_remove_image d r) same (untag_all d i rs))"

definition image_refs :: "image_inspection \<Rightarrow> string list" where
  "image_refs i = (case ii_repo_tags i of Some (t # ts) \<Rightarrow> t # ts | _ \<Rightarrow> [ii_id i])"

definition confirm_removed :: "'e inventory_docker \<Rightarrow> string \<Rightarrow> ('e, details) res_op" where
  "confirm_removed d i =
     op_bind (iv_image d i) (\<lambda>r. op_return
       (case r of
          Inl e \<Rightarrow> if iv_not_found d e then Inr [(''id'', DString i)] else Inl e
        | Inr v \<Rightarrow> Inl (Plain image_remains_text)))"

definition remove_image :: "'e inventory_docker \<Rightarrow> image_inspection \<Rightarrow> ('e, details) res_op" where
  "remove_image d i =
     need_op (iv_list d) same (\<lambda>cs.
       case find (\<lambda>c. cs_image_id c = ii_id i) cs of
         Some c \<Rightarrow> op_return (Inl (Plain (image_used_text (cs_id c))))
       | None \<Rightarrow> need_op (untag_all d (ii_id i) (image_refs i)) same (\<lambda>_. confirm_removed d (ii_id i)))"

section \<open>Describing an image\<close>

definition image_reference :: "(string \<Rightarrow> (string option \<times> string option) option) \<Rightarrow> string \<Rightarrow> string \<times> string" where
  "image_reference parse target =
     (let ref = (if has_prefix target ''sha256:'' then [] else target) in
      case parse ref of
        None \<Rightarrow> ([], [])
      | Some (name, tag) \<Rightarrow>
          ((case name of None \<Rightarrow> [] | Some n \<Rightarrow> n),
           (case tag of Some t \<Rightarrow> t | None \<Rightarrow> if \<not> contains_str ref ''@'' then ''latest'' else [])))"

text \<open>\<open>Time.Unix\<close>: the seconds since 1970; the year 1 is 62135596800 seconds before.\<close>

definition unix_seconds :: "gotime \<Rightarrow> int" where
  "unix_seconds t = instant t div second_ns - 62135596800"

definition describe_image ::
    "(string \<Rightarrow> (string option \<times> string option) option) \<Rightarrow> string \<Rightarrow> image_inspection \<Rightarrow> goerr + details" where
  "describe_image parse target i =
     (case parse_rfc3339 (ii_created i) of
        None \<Rightarrow> Inl (wrap image_created_text (Plain ''parsing time''))
      | Some t \<Rightarrow>
          Inr [(''id'', DString (ii_id i)),
               (''repository'', DString (fst (image_reference parse target))),
               (''tag'', DString (snd (image_reference parse target))),
               (''digest'', DString (case ii_repo_digests i of [] \<Rightarrow> [] | g # gs \<Rightarrow> g)),
               (''sizeBytes'', DInt (ii_size i)),
               (''created'', DInt (unix_seconds t)),
               (''repoTags'', string_slice (ii_repo_tags i))])"

section \<open>Execute\<close>

definition execute_inventory :: "'e inventory_docker \<Rightarrow> docker_inventory_payload \<Rightarrow> ('e, details) res_op" where
  "execute_inventory d p =
     (case docker_inventory_validate (iv_ref_ok d) p of
        Some e \<Rightarrow> op_return (Inl e)
      | None \<Rightarrow>
          if di_action p = ''DELETE_CONTAINER'' then remove_container d (di_target p)
          else need_op (iv_image d (di_target p)) same (\<lambda>i.
            if ii_id i = [] then op_return (Inl (Plain image_invalid_text))
            else if di_action p = ''DELETE_IMAGE'' then remove_image d i
            else op_return (describe_image (iv_parse d) (di_target p) i)))"

text \<open>The manager as the dispatcher calls it: a failure has a nil map beside its error.\<close>

definition inventory_manager :: "'e inventory_docker \<Rightarrow> docker_inventory_payload \<Rightarrow> ('e, details \<times> goerr option) op" where
  "inventory_manager d p =
     op_bind (execute_inventory d p) (\<lambda>r. op_return (case r of Inl e \<Rightarrow> ([], Some e) | Inr v \<Rightarrow> (v, None)))"

section \<open>What is removed, and when\<close>

datatype inventory_event =
    SawImage string "goerr + image_inspection"
  | SawContainers "goerr + container_summary list"
  | SawContainer string "goerr + container_inspection"
  | RemovedImage string "goerr option"
  | RemovedContainer string "goerr option"

definition logged_inventory :: "'e inventory_docker \<Rightarrow> ('e \<times> inventory_event list) inventory_docker" where
  "logged_inventory d =
     \<lparr>iv_image = (\<lambda>r. log_op (SawImage r) (iv_image d r)), iv_list = log_op SawContainers (iv_list d),
      iv_container = (\<lambda>c. log_op (SawContainer c) (iv_container d c)),
      iv_remove_image = (\<lambda>r. log_op (RemovedImage r) (iv_remove_image d r)),
      iv_remove_container = (\<lambda>c. log_op (RemovedContainer c) (iv_remove_container d c)),
      iv_not_found = iv_not_found d, iv_ref_ok = iv_ref_ok d, iv_parse = iv_parse d\<rparr>"

text \<open>
  A container may be removed only under the identifier that the inspection right before showed, with labels
  that are not the platform's. A reference may be removed only when the inspection right before showed it
  to be the image of the command's target, and the list of containers showed none that uses it.
\<close>

definition shown_free :: "inventory_event list \<Rightarrow> string \<Rightarrow> string \<Rightarrow> bool" where
  "shown_free h target i \<longleftrightarrow>
     (\<exists>v cs rest. h = SawImage target (Inr v) # SawContainers (Inr cs) # rest \<and> ii_id v = i \<and> i \<noteq> [] \<and>
        i \<notin> cs_image_id ` set cs)"

fun removal_allowed :: "docker_inventory_payload \<Rightarrow> inventory_event list \<Rightarrow> inventory_event \<Rightarrow> bool" where
  "removal_allowed p h (RemovedContainer i r) =
     (di_action p = ''DELETE_CONTAINER'' \<and> h \<noteq> [] \<and>
      (\<exists>c labels. last h = SawContainer (di_target p) (Inr c) \<and> ci_id c = Some i \<and> ci_labels c = Some labels \<and>
         \<not> platform_managed labels))"
| "removal_allowed p h (RemovedImage ref r) =
     (di_action p = ''DELETE_IMAGE'' \<and> h \<noteq> [] \<and>
      (\<exists>v. last h = SawImage ref (Inr v) \<and> shown_free h (di_target p) (ii_id v)))"
| "removal_allowed p h v = True"

text \<open>A removal that is reported as done was: the image was not found in the end, each of its references was removed.\<close>

definition removal_reported ::
    "'e inventory_docker \<Rightarrow> docker_inventory_payload \<Rightarrow> goerr + details \<Rightarrow> inventory_event list \<Rightarrow> bool" where
  "removal_reported d p r h =
     (case r of
        Inl e \<Rightarrow> True
      | Inr v \<Rightarrow>
          if di_action p = ''DELETE_CONTAINER''
          then (\<exists>i. v = [(''id'', DString i)] \<and> h \<noteq> [] \<and> last h = RemovedContainer i None)
          else if di_action p = ''DELETE_IMAGE''
          then (\<exists>i e. v = [(''id'', DString (ii_id i))] \<and> hd h = SawImage (di_target p) (Inr i) \<and> h \<noteq> []
                  \<and> last h = SawImage (ii_id i) (Inl e) \<and> iv_not_found d e
                  \<and> (\<forall>ref\<in>set (image_refs i). RemovedImage ref None \<in> set h))
          else (\<forall>ref x. RemovedImage ref x \<notin> set h \<and> RemovedContainer ref x \<notin> set h))"

lemma recorded_docker_simps:
  "iv_image (logged_inventory d) r = log_op (SawImage r) (iv_image d r)"
  "iv_list (logged_inventory d) = log_op SawContainers (iv_list d)"
  "iv_container (logged_inventory d) r = log_op (SawContainer r) (iv_container d r)"
  "iv_remove_image (logged_inventory d) r = log_op (RemovedImage r) (iv_remove_image d r)"
  "iv_remove_container (logged_inventory d) r = log_op (RemovedContainer r) (iv_remove_container d r)"
  "iv_not_found (logged_inventory d) = iv_not_found d" "iv_ref_ok (logged_inventory d) = iv_ref_ok d"
  "iv_parse (logged_inventory d) = iv_parse d"
  by (simp_all add: logged_inventory_def)

lemma shown_free_append: "shown_free h t i \<Longrightarrow> shown_free (h @ x) t i"
  by (auto simp: shown_free_def)

lemma untag_all_guards:
  assumes "di_action p = ''DELETE_IMAGE''" "shown_free h (di_target p) i"
  shows "guards (removal_allowed p) h (untag_all (logged_inventory d) i refs)
     (\<lambda>r t. \<exists>u. t = h @ u \<and> (r = Inr () \<longrightarrow> (\<forall>ref\<in>set refs. RemovedImage ref None \<in> set u)))"
  using assms(2)
proof (induction refs arbitrary: h)
  case Nil
  show ?case by (auto intro!: guards_return)
next
  case (Cons ref refs)
  have tail: "guards (removal_allowed p) (h @ [SawImage ref (Inr v)] @ [RemovedImage ref None])
       (untag_all (logged_inventory d) i refs)
       (\<lambda>r t. \<exists>u. t = h @ u \<and> (r = Inr () \<longrightarrow> (\<forall>ref\<in>set (ref # refs). RemovedImage ref None \<in> set u)))" for v
    by (rule guards_conseq [OF Cons.IH]) (use Cons.prems in \<open>auto intro: shown_free_append\<close>)
  show ?case
    unfolding untag_all.simps recorded_docker_simps
    by (intro guards_intros)
       (use Cons.prems assms(1) tail in \<open>auto intro: shown_free_append\<close>)
qed

lemma remove_image_guards:
  assumes "di_action p = ''DELETE_IMAGE''" "ii_id i \<noteq> []"
  shows "guards (removal_allowed p) [SawImage (di_target p) (Inr i)] (remove_image (logged_inventory d) i)
     (removal_reported d p)"
proof -
  have used: "ii_id i \<notin> cs_image_id ` set cs" if "find (\<lambda>c. cs_image_id c = ii_id i) cs = None" for cs
    using that by (auto simp: find_None_iff)
  have free: "shown_free [SawImage (di_target p) (Inr i), SawContainers (Inr cs)] (di_target p) (ii_id i)"
    if "find (\<lambda>c. cs_image_id c = ii_id i) cs = None" for cs
    using used [OF that] assms(2) by (simp add: shown_free_def)
  have confirm: "guards (removal_allowed p) t (confirm_removed (logged_inventory d) (ii_id i)) (removal_reported d p)"
    if "t = [SawImage (di_target p) (Inr i), SawContainers (Inr cs)] @ u" "\<forall>ref\<in>set (image_refs i). RemovedImage ref None \<in> set u"
    for t u cs
    unfolding confirm_removed_def recorded_docker_simps
    by (intro guards_intros)
       (use that assms(1) in \<open>auto simp: removal_reported_def split: sum.split\<close>)
  have loop: "guards (removal_allowed p) [SawImage (di_target p) (Inr i), SawContainers (Inr cs)]
       (need_op (untag_all (logged_inventory d) (ii_id i) (image_refs i)) same (\<lambda>_. confirm_removed (logged_inventory d) (ii_id i)))
       (removal_reported d p)"
    if "find (\<lambda>c. cs_image_id c = ii_id i) cs = None" for cs
    unfolding need_op_def
  proof (rule guards_bind [OF untag_all_guards [OF assms(1) free [OF that]]])
    fix x :: "goerr + unit" and t assume "\<exists>u. t = [SawImage (di_target p) (Inr i), SawContainers (Inr cs)] @ u \<and>
        (x = Inr () \<longrightarrow> (\<forall>ref\<in>set (image_refs i). RemovedImage ref None \<in> set u))"
    then show "guards (removal_allowed p) t (case x of Inl e \<Rightarrow> op_return (Inl (same e))
        | Inr v \<Rightarrow> confirm_removed (logged_inventory d) (ii_id i)) (removal_reported d p)"
      by (cases x) (auto intro!: guards_return confirm simp: removal_reported_def)
  qed
  show ?thesis
    unfolding remove_image_def recorded_docker_simps
    by (intro guards_intros) (use loop in \<open>auto simp: removal_reported_def\<close>)
qed

lemma remove_container_guards:
  assumes "di_action p = ''DELETE_CONTAINER''"
  shows "guards (removal_allowed p) [] (remove_container (logged_inventory d) (di_target p)) (removal_reported d p)"
  unfolding remove_container_def recorded_docker_simps
  by (intro guards_intros) (use assms in \<open>auto simp: removal_reported_def\<close>)

lemma execute_guards: "guards (removal_allowed p) [] (execute_inventory (logged_inventory d) p) (removal_reported d p)"
  unfolding execute_inventory_def recorded_docker_simps
  by (intro guards_intros remove_container_guards)
     (auto simp: removal_reported_def intro: remove_image_guards split: sum.split)

end
