(* ===== verification/GoFiles.thy ===== *)
theory GoFiles
  imports Validator Monitors
begin

text \<open>
  Files, for the components that write them from a download: the contents by path, what \<open>os.Lstat\<close> answers, and
  a list of faults that says of each call whether it fails, and after how many bytes when it writes. A
  download is the bytes that are read and the error they end with, if any.
\<close>

type_synonym files = "string \<rightharpoonup> string"

record file_world =
  fw_files :: files
  fw_lstat :: "string \<Rightarrow> lstat"
  fw_temp :: "string \<Rightarrow> string"
  fw_faults :: "nat option list"

definition io_error :: goerr where "io_error = Plain ''i/o error''"

definition fs_call :: "(files \<Rightarrow> files) \<Rightarrow> (nat \<Rightarrow> files \<Rightarrow> files) \<Rightarrow> file_world err_op" where
  "fs_call done_as failed_as w =
     (case fw_faults w of
        Some n # r \<Rightarrow> (Some io_error, w\<lparr>fw_files := failed_as n (fw_files w), fw_faults := r\<rparr>)
      | None # r \<Rightarrow> (None, w\<lparr>fw_files := done_as (fw_files w), fw_faults := r\<rparr>)
      | [] \<Rightarrow> (None, w\<lparr>fw_files := done_as (fw_files w)\<rparr>))"

text \<open>A call with no effect on the contents of files: making a directory, setting permissions, closing a file.\<close>

definition fs_touch :: "file_world err_op" where
  "fs_touch = fs_call id (\<lambda>n. id)"

definition fs_create :: "string \<Rightarrow> file_world err_op" where
  "fs_create f = fs_call (\<lambda>fs. fs(f \<mapsto> [])) (\<lambda>n. id)"

definition fs_remove :: "string \<Rightarrow> file_world err_op" where
  "fs_remove f = fs_call (\<lambda>fs. fs(f := None)) (\<lambda>n. id)"

definition fs_rename :: "string \<Rightarrow> string \<Rightarrow> file_world err_op" where
  "fs_rename f g = fs_call (\<lambda>fs. if f = g then fs else fs(g := fs f, f := None)) (\<lambda>n. id)"

type_synonym body = "string \<times> goerr option"

text \<open>\<open>io.LimitReader\<close>: the end of the file after \<open>n\<close> bytes.\<close>

definition limit_body :: "nat \<Rightarrow> body \<Rightarrow> body" where
  "limit_body n b = (if n \<le> length (fst b) then (take n (fst b), None) else b)"

text \<open>\<open>io.Copy\<close> into a new file: all the bytes that are read, or as many as were written when a write failed.\<close>

definition copy_body :: "string \<Rightarrow> body \<Rightarrow> file_world err_op" where
  "copy_body f b =
     op_bind (fs_call (\<lambda>fs. fs(f \<mapsto> fst b)) (\<lambda>n fs. fs(f \<mapsto> take n (fst b)))) (\<lambda>r.
       op_return (case r of Some e \<Rightarrow> Some e | None \<Rightarrow> snd b))"

lemma fs_call_cases:
  assumes "fs_call g h w = (r, w')"
  obtains (works) "r = None" "fw_files w' = g (fw_files w)"
  | (fails) n where "r = Some io_error" "fw_files w' = h n (fw_files w)"
  using assms by (auto simp: fs_call_def split: list.splits option.splits)

lemma fs_call_same:
  assumes "fs_call g h w = (r, w')"
  shows "fw_lstat w' = fw_lstat w \<and> fw_temp w' = fw_temp w"
  using assms by (auto simp: fs_call_def split: list.splits option.splits)

text \<open>
  What a call leaves alone: \<open>only_files F\<close> says that a handler changes no file outside \<open>F\<close>.
\<close>

definition only_files :: "string set \<Rightarrow> (file_world, 'a) op \<Rightarrow> bool" where
  "only_files F m \<longleftrightarrow> (\<forall>w r w'. m w = (r, w') \<longrightarrow> fw_temp w' = fw_temp w \<and> (\<forall>f. f \<notin> F \<longrightarrow> fw_files w' f = fw_files w f))"

lemma only_filesD: "only_files F m \<Longrightarrow> m w = (r, w') \<Longrightarrow> f \<notin> F \<Longrightarrow> fw_files w' f = fw_files w f"
  by (simp add: only_files_def)

lemma only_return: "only_files F (op_return x)"
  by (simp add: only_files_def op_return_def)

lemma only_bind: "only_files F m \<Longrightarrow> (\<And>x. only_files F (k x)) \<Longrightarrow> only_files F (op_bind m k)"
  unfolding only_files_def op_bind_def by (auto split: prod.splits)

lemma only_if: "only_files F x \<Longrightarrow> only_files F y \<Longrightarrow> only_files F (if b then x else y)"
  by simp

lemma only_sum: "(\<And>e. only_files F (a e)) \<Longrightarrow> (\<And>v. only_files F (b v)) \<Longrightarrow> only_files F (case x of Inl e \<Rightarrow> a e | Inr v \<Rightarrow> b v)"
  by (cases x) auto

lemma only_option: "only_files F a \<Longrightarrow> (\<And>v. only_files F (b v)) \<Longrightarrow> only_files F (case x of None \<Rightarrow> a | Some v \<Rightarrow> b v)"
  by (cases x) auto

lemma only_try_err: "only_files F m \<Longrightarrow> only_files F k \<Longrightarrow> only_files F (try_err m w k)"
  unfolding try_err_def by (intro only_bind only_option only_return)

lemma only_call:
  "(\<And>fs f. f \<notin> F \<Longrightarrow> g fs f = fs f) \<Longrightarrow> (\<And>n fs f. f \<notin> F \<Longrightarrow> h n fs f = fs f) \<Longrightarrow> only_files F (fs_call g h)"
  unfolding only_files_def by (metis fs_call_cases fs_call_same)

lemma only_calls:
  "only_files F fs_touch" "f \<in> F \<Longrightarrow> only_files F (fs_create f)" "f \<in> F \<Longrightarrow> only_files F (fs_remove f)"
  "f \<in> F \<Longrightarrow> g \<in> F \<Longrightarrow> only_files F (fs_rename f g)" "f \<in> F \<Longrightarrow> only_files F (copy_body f b)"
  unfolding fs_touch_def fs_create_def fs_remove_def fs_rename_def copy_body_def
  by (auto intro!: only_call only_bind only_return)

lemmas only_intros = only_return only_bind only_if only_sum only_option only_try_err only_calls

lemma copy_complete: "copy_body f b w = (None, w') \<Longrightarrow> fw_files w' = (fw_files w)(f \<mapsto> fst b) \<and> snd b = None"
  by (auto simp: copy_body_def op_bind_def op_return_def split: prod.splits option.splits elim!: fs_call_cases)

end
