(* ===== verification/FileTransfer.thy ===== *)
theory FileTransfer
  imports GoFiles
begin

text \<open>
  File transfer (\<open>internal/transfer/manager.go\<close>): the target's path is checked against the root, lexically and for
  symbolic links, the download is written to a temporary file beside the target and hashed on the way, and
  the temporary file replaces the target only when the digest is the announced one. SHA-256 is the parameter \<open>sha\<close>, the
  lower-case hexadecimal digest of a text, and the HTTP client is the parameter \<open>download\<close>.
\<close>

section \<open>The target\<close>

definition invalid_target :: goerr where "invalid_target = Plain ''target path is invalid''"

text \<open>The target and its path relative to the root.\<close>

definition transfer_path :: "string \<Rightarrow> string \<Rightarrow> goerr + string \<times> string" where
  "transfer_path root t =
     (if \<not> path_is_local t \<or> t = dot then Inl invalid_target
      else let target = path_join [root, t] in
        case path_rel root target of
          None \<Rightarrow> Inl invalid_target
        | Some rel \<Rightarrow>
            if rel = dotdot \<or> has_prefix rel ''../'' \<or> is_abs rel then Inl invalid_target
            else Inr (target, rel))"

fun walk_transfer :: "(string \<Rightarrow> lstat) \<Rightarrow> string \<Rightarrow> string list \<Rightarrow> goerr option" where
  "walk_transfer lstat current [] = None"
| "walk_transfer lstat current (s # ss) =
     (case lstat (path_join [current, s]) of
        LstatMissing \<Rightarrow> None
      | LstatError e \<Rightarrow> Some e
      | LstatSymlink \<Rightarrow> Some (Plain ''target path contains a symlink'')
      | LstatOther \<Rightarrow> walk_transfer lstat (path_join [current, s]) ss)"

section \<open>Transfer\<close>

definition removing :: "string \<Rightarrow> file_world err_op \<Rightarrow> file_world err_op" where
  "removing tmp m = op_bind m (\<lambda>r. op_bind (fs_remove tmp) (\<lambda>_. op_return r))"

definition store_download ::
    "(string \<Rightarrow> string) \<Rightarrow> file_transfer_payload \<Rightarrow> body \<Rightarrow> string \<Rightarrow> string \<Rightarrow> file_world err_op" where
  "store_download sha p b tmp target =
     op_bind fs_touch (\<lambda>mode. case mode of
       Some e \<Rightarrow> op_bind fs_touch (\<lambda>_. op_return (Some e))
     | None \<Rightarrow>
         op_bind (copy_body tmp b) (\<lambda>copied. op_bind fs_touch (\<lambda>closed.
           if copied \<noteq> None \<or> closed \<noteq> None
           then op_bind (fs_remove tmp) (\<lambda>_. op_return (Some (Plain ''write transfer failed'')))
           else if sha (fst b) \<noteq> ft_sha256 p
           then op_bind (fs_remove tmp) (\<lambda>_. op_return (Some (Plain ''transfer checksum mismatch'')))
           else fs_rename tmp target)))"

definition fetch_to ::
    "(string \<Rightarrow> string) \<Rightarrow> (string \<Rightarrow> goerr + body) \<Rightarrow> file_transfer_payload \<Rightarrow> string \<Rightarrow> file_world err_op" where
  "fetch_to sha download p target =
     try_err fs_touch same
     (case download (ft_download_path p) of
        Inl e \<Rightarrow> op_return (Some e)
      | Inr b \<Rightarrow>
          op_bind (\<lambda>w. (fw_temp w (path_dir target), w)) (\<lambda>tmp.
            try_err (fs_create tmp) same (removing tmp (store_download sha p b tmp target))))"

definition run_transfer ::
    "(string \<Rightarrow> string) \<Rightarrow> (string \<Rightarrow> goerr + body) \<Rightarrow> string \<Rightarrow> file_transfer_payload \<Rightarrow> file_world err_op" where
  "run_transfer sha download root p =
     (case transfer_path root (ft_target_relative_path p) of
        Inl e \<Rightarrow> op_return (Some e)
      | Inr (target, rel) \<Rightarrow>
          op_bind (\<lambda>w. (fw_lstat w, w)) (\<lambda>lstat.
            case walk_transfer lstat root (split_on (CHR ''/'') rel) of
              Some e \<Rightarrow> op_return (Some e)
            | None \<Rightarrow> fetch_to sha download p target))"

section \<open>The target lies below the root\<close>

lemma clean_fold_source: "e \<in> set (foldl (clean_step rooted) st es) \<Longrightarrow> e \<in> set st \<or> e \<in> set es"
proof (induction es arbitrary: st)
  case (Cons x es)
  from Cons.IH Cons.prems have "e \<in> set (clean_step rooted st x) \<or> e \<in> set es" by simp
  then show ?case by (auto split: if_splits list.splits)
qed simp

lemma local_not_escaping:
  assumes "path_is_local t" "path_clean t \<noteq> dot"
  shows "\<not> is_abs t" "t \<noteq> []" "\<not> escapes (path_clean t)"
proof -
  show t: "\<not> is_abs t" "t \<noteq> []" using assms(1) by (auto simp: path_is_local_def)
  show "\<not> escapes (path_clean t)"
  proof (cases "dot \<in> set (split_on (CHR ''/'') t) \<or> dotdot \<in> set (split_on (CHR ''/'') t)")
    case True
    with assms(1) t show ?thesis by (simp add: path_is_local_def)
  next
    case False
    then have "dotdot \<notin> set (clean_elems t)"
      using clean_fold_source [of dotdot "is_abs t" "[]"] by (auto simp: clean_elems_def)
    moreover have "path_clean t = join_slash (clean_elems t)"
      using t assms(2) by (auto simp: path_clean_def split: if_splits)
    ultimately show ?thesis using clean_elems_elem escapes_join [of "clean_elems t"] by (metis hd_in_set)
  qed
qed

text \<open>Below a directory the elements of a relative path do what they do alone, as long as they do not leave it.\<close>

lemma clean_step_keeps_dotdot: "dotdot \<in> set st \<Longrightarrow> dotdot \<in> set (clean_step False st e)"
  by (cases st) auto

lemma clean_step_below:
  "dotdot \<notin> set (clean_step False st e) \<Longrightarrow> clean_step True (st @ base) e = clean_step False st e @ base"
  by (cases st) (auto simp: dotdot_def)

lemma clean_fold_below:
  "dotdot \<notin> set (foldl (clean_step False) [] es) \<Longrightarrow>
   foldl (clean_step True) base es = foldl (clean_step False) [] es @ base"
proof (induction es rule: rev_induct)
  case (snoc e es)
  let ?st = "foldl (clean_step False) [] es"
  have step: "dotdot \<notin> set (clean_step False ?st e)" using snoc.prems by (simp del: clean_step.simps)
  with clean_step_keeps_dotdot have "dotdot \<notin> set ?st" by blast
  from snoc.IH [OF this] clean_step_below [OF step] show ?case by (simp del: clean_step.simps)
qed simp

lemma transfer_path_below:
  assumes "transfer_path root t = Inr (target, rel)" "is_abs root" "path_clean t \<noteq> dot"
  shows "\<exists>es. es \<noteq> [] \<and> (\<forall>e\<in>set es. clean_elem e \<and> e \<noteq> dotdot) \<and> is_abs target \<and>
    clean_elems target = clean_elems root @ es \<and> split_on (CHR ''/'') rel = es"
proof -
  have t: "path_is_local t" "target = path_join [root, t]" "path_rel root target = Some rel"
    using assms(1) by (auto simp: transfer_path_def Let_def split: if_splits option.splits)
  note l = local_not_escaping [OF t(1) assms(3)]
  note es = clean_relative [OF l(1) assms(3) l(3) l(2)]
  have abs: "is_abs (root @ ''/'' @ s)" for s using assms(2) by (auto simp: is_abs_def has_prefix_iff)
  have ne: "root \<noteq> []" using assms(2) by (auto simp: is_abs_def)
  have "dotdot \<notin> set (clean_elems t)" using es by blast
  then have "clean_elems (root @ ''/'' @ t) = clean_elems root @ clean_elems t"
    using clean_fold_below [of "split_on (CHR ''/'') t"] l(1) assms(2) abs [of t]
    by (simp add: clean_elems_def split_on_append_any)
  moreover have "target = path_clean (root @ ''/'' @ t)"
    using t(2) ne l(2) by (simp add: path_join_def join_slash_def)
  ultimately have w: "clean_elems target = clean_elems root @ clean_elems t" "is_abs target"
    using clean_elems_clean [OF abs [of t]] by simp_all
  with t(3) rel_below [OF assms(2)] es have "rel = join_slash (clean_elems t)" by simp
  with w es show ?thesis by (intro exI [of _ "clean_elems t"]) (simp add: split_join_slash)
qed

text \<open>For a path that is \<open>.\<close> when cleaned, like \<open>./\<close>, the target is the root.\<close>

lemma transfer_path_root:
  assumes "transfer_path root t = Inr (target, rel)" "is_abs root" "path_clean t = dot"
  shows "is_abs target" "clean_elems target = clean_elems root" "split_on (CHR ''/'') rel = [dot]"
proof -
  have t: "path_is_local t" "target = path_join [root, t]" "path_rel root target = Some rel"
    using assms(1) by (auto simp: transfer_path_def Let_def split: if_splits option.splits)
  have l: "\<not> is_abs t" "t \<noteq> []" using t(1) by (auto simp: path_is_local_def)
  have none: "clean_elems t = []"
  proof (rule ccontr)
    assume ne: "clean_elems t \<noteq> []"
    with assms(3) l have d: "join_slash (clean_elems t) = dot" by (auto simp: path_clean_def)
    have "split_on (CHR ''/'') (join_slash (clean_elems t)) = clean_elems t"
      by (rule split_join_slash) (use ne clean_elems_elem [of _ t] in \<open>auto simp: clean_elem_def\<close>)
    then have "clean_elems t = [dot]" unfolding d by (simp add: dot_def)
    then have "clean_elem dot" using clean_elems_elem [of dot t] by simp
    then show False by (simp add: clean_elem_def)
  qed
  have abs: "is_abs (root @ ''/'' @ s)" for s using assms(2) by (auto simp: is_abs_def has_prefix_iff)
  have ne: "root \<noteq> []" using assms(2) by (auto simp: is_abs_def)
  have "clean_elems (root @ ''/'' @ t) = clean_elems root"
    using clean_fold_below [of "split_on (CHR ''/'') t"] l(1) assms(2) abs [of t] none
    by (simp add: clean_elems_def split_on_append_any)
  moreover have w: "target = path_clean (root @ ''/'' @ t)"
    using t(2) ne l(2) by (simp add: path_join_def join_slash_def)
  ultimately show e: "is_abs target" "clean_elems target = clean_elems root"
    using clean_elems_clean [OF abs [of t]] by simp_all
  have "path_clean root = path_clean target"
    using e assms(2) by (auto simp: path_clean_def is_abs_def)
  then show "split_on (CHR ''/'') rel = [dot]" using t(3) by (auto simp: path_rel_def dot_def)
qed

lemma walk_transfer_no_symlink:
  assumes "walk_transfer lstat d es = None" "k < length es" "\<forall>j<k. lstat (below d (take (Suc j) es)) = LstatOther"
  shows "lstat (below d (take (Suc k) es)) \<noteq> LstatSymlink"
  using assms
proof (induction es arbitrary: d k)
  case (Cons e es)
  show ?case
  proof (cases k)
    case 0
    with Cons.prems(1) show ?thesis by (auto simp: below_def split: lstat.splits)
  next
    case (Suc k')
    have first: "lstat (path_join [d, e]) = LstatOther" using Cons.prems(3) Suc by (auto simp: below_def)
    with Cons.prems(1) have "walk_transfer lstat (path_join [d, e]) es = None" by simp
    moreover have "\<forall>j<k'. lstat (below (path_join [d, e]) (take (Suc j) es)) = LstatOther"
      using Cons.prems(3) Suc by (auto simp: below_def)
    ultimately have "lstat (below (path_join [d, e]) (take (Suc k') es)) \<noteq> LstatSymlink"
      using Cons.IH Cons.prems(2) Suc by simp
    then show ?thesis by (simp add: Suc below_def)
  qed
qed simp

section \<open>The target holds the announced bytes\<close>

lemma store_target:
  assumes "store_download sha p b tmp target w = (r, w')" "tmp \<noteq> target"
  shows "(r = None \<and> fw_files w' target = Some (fst b) \<and> snd b = None \<and> sha (fst b) = ft_sha256 p)
     \<or> (r \<noteq> None \<and> fw_files w' target = fw_files w target)"
proof -
  have same: "only_files {tmp} m \<Longrightarrow> m v = (x, v') \<Longrightarrow> fw_files v' target = fw_files v target"
    for m :: "file_world err_op" and v x v'
    using only_filesD [of "{tmp}" m v x v' target] assms(2) by simp
  note touch = same [of fs_touch, OF only_calls(1)]
  note copy = same [of "copy_body tmp b", OF only_calls(5) [of tmp "{tmp}"], simplified]
  note rm = same [of "fs_remove tmp", OF only_calls(3) [of tmp "{tmp}"], simplified]
  obtain x1 w1 where w1: "fs_touch w = (x1, w1)" by (cases "fs_touch w")
  have s1: "fw_files w1 target = fw_files w target" by (rule touch [OF w1])
  show ?thesis
  proof (cases x1)
    case (Some e)
    obtain x2 w2 where w2: "fs_touch w1 = (x2, w2)" by (cases "fs_touch w1")
    have "fw_files w2 target = fw_files w1 target" by (rule touch [OF w2])
    with assms(1) w1 w2 Some s1 show ?thesis by (auto simp: store_download_def op_bind_def op_return_def)
  next
    case None
    obtain x2 w2 where w2: "copy_body tmp b w1 = (x2, w2)" by (cases "copy_body tmp b w1")
    obtain x3 w3 where w3: "fs_touch w2 = (x3, w3)" by (cases "fs_touch w2")
    obtain x4 w4 where w4: "fs_remove tmp w3 = (x4, w4)" by (cases "fs_remove tmp w3")
    have "fw_files w2 target = fw_files w1 target" by (rule copy [OF w2])
    moreover have "fw_files w3 target = fw_files w2 target" by (rule touch [OF w3])
    moreover have "fw_files w4 target = fw_files w3 target" by (rule rm [OF w4])
    ultimately have kept: "fw_files w3 target = fw_files w target" "fw_files w4 target = fw_files w target"
      using s1 by simp_all
    have run: "store_download sha p b tmp target w =
       (if x2 \<noteq> None \<or> x3 \<noteq> None then (Some (Plain ''write transfer failed''), w4)
        else if sha (fst b) \<noteq> ft_sha256 p then (Some (Plain ''transfer checksum mismatch''), w4)
        else fs_rename tmp target w3)"
      using w1 None w2 w3 w4 by (simp add: store_download_def op_bind_def op_return_def)
    show ?thesis
    proof (cases "x2 \<noteq> None \<or> x3 \<noteq> None \<or> sha (fst b) \<noteq> ft_sha256 p")
      case True
      with assms(1) run kept show ?thesis by (auto split: if_splits)
    next
      case False
      then have ok: "x2 = None" "x3 = None" "sha (fst b) = ft_sha256 p" by auto
      with w2 copy_complete [of tmp b w1 w2] have c: "fw_files w2 tmp = Some (fst b)" "snd b = None" by auto
      have "fw_files w3 = fw_files w2" using w3 by (auto simp: fs_touch_def elim: fs_call_cases)
      moreover have "fs_rename tmp target w3 = (r, w')" using ok run assms(1) by simp
      ultimately show ?thesis
        using ok assms(2) c kept unfolding fs_rename_def by (elim fs_call_cases) auto
    qed
  qed
qed

lemma removing_target:
  assumes "removing tmp m w = (r, w')" "tmp \<noteq> f"
  shows "\<exists>w1. m w = (r, w1) \<and> fw_files w' f = fw_files w1 f"
proof -
  obtain x w1 where m: "m w = (x, w1)" by (cases "m w")
  obtain y w2 where y: "fs_remove tmp w1 = (y, w2)" by (cases "fs_remove tmp w1")
  have "fw_files w2 f = fw_files w1 f"
    using only_filesD [OF only_calls(3) [of tmp "{tmp}"] y, of f] assms(2) by simp
  with m y assms(1) show ?thesis by (auto simp: removing_def op_bind_def op_return_def)
qed

lemma fetch_verified:
  assumes "fetch_to sha download p target w = (r, w')" "fw_temp w (path_dir target) \<noteq> target"
  shows "(\<exists>data. r = None \<and> fw_files w' target = Some data \<and> download (ft_download_path p) = Inr (data, None) \<and> sha data = ft_sha256 p)
     \<or> (r \<noteq> None \<and> fw_files w' target = fw_files w target)"
    and "f \<noteq> target \<Longrightarrow> f \<noteq> fw_temp w (path_dir target) \<Longrightarrow> fw_files w' f = fw_files w f"
proof -
  let ?tmp = "fw_temp w (path_dir target)"
  obtain x1 w1 where w1: "fs_touch w = (x1, w1)" by (cases "fs_touch w")
  then have f1: "fw_files w1 = fw_files w" "fw_temp w1 = fw_temp w"
    using fs_call_same by (auto simp: fs_touch_def elim: fs_call_cases)
  have run: "fetch_to sha download p target w = (case x1 of Some e \<Rightarrow> (Some e, w1) | None \<Rightarrow>
     (case download (ft_download_path p) of Inl e \<Rightarrow> (Some e, w1)
      | Inr b \<Rightarrow> (case fs_create ?tmp w1 of (Some e, w2) \<Rightarrow> (Some e, w2)
          | (None, w2) \<Rightarrow> removing ?tmp (store_download sha p b ?tmp target) w2)))"
    using w1 f1 by (simp add: fetch_to_def try_err_def op_bind_def op_return_def same_def split: option.split sum.split prod.split)
  have created: "fw_files w2 h = fw_files w h" if "fs_create ?tmp w1 = (x2, w2)" "h \<noteq> ?tmp" for x2 w2 h
    using only_filesD [OF only_calls(2) [of ?tmp "{?tmp}"] that(1), of h] that(2) f1 by simp
  show "(\<exists>data. r = None \<and> fw_files w' target = Some data \<and> download (ft_download_path p) = Inr (data, None) \<and> sha data = ft_sha256 p)
     \<or> (r \<noteq> None \<and> fw_files w' target = fw_files w target)"
  proof (cases "x1 = None \<and> (\<exists>b w2. download (ft_download_path p) = Inr b \<and> fs_create ?tmp w1 = (None, w2))")
    case True
    then obtain b w2 where b: "x1 = None" "download (ft_download_path p) = Inr b" "fs_create ?tmp w1 = (None, w2)" by blast
    with run assms(1) have "removing ?tmp (store_download sha p b ?tmp target) w2 = (r, w')" by simp
    from removing_target [OF this assms(2)] obtain w3 where
      w3: "store_download sha p b ?tmp target w2 = (r, w3)" "fw_files w' target = fw_files w3 target" by blast
    from store_target [OF w3(1) assms(2)] w3(2) created [OF b(3)] assms(2) b(2) show ?thesis
      by (cases b) auto
  next
    case False
    with run assms(1) f1 created [of _ _ target] assms(2) show ?thesis
      by (auto split: option.splits sum.splits prod.splits)
  qed
  show "fw_files w' f = fw_files w f" if "f \<noteq> target" "f \<noteq> ?tmp"
  proof -
    have st: "only_files {?tmp, target} (removing ?tmp (store_download sha p b ?tmp target))" for b
      unfolding removing_def store_download_def by (intro only_intros; simp)
    show ?thesis
      using run assms(1) f1 created [of _ _ f] only_filesD [OF st, of _ _ r w' f] that
      by (auto split: option.splits sum.splits prod.splits)
  qed
qed

end
