(* ===== verification/ImageDeploy.thy ===== *)
theory ImageDeploy
  imports Dispatcher Guards
begin

text \<open>
  Image deployment (\<open>internal/imagedeploy/manager.go\<close>): the archive of an image is downloaded into a staging
  directory, loaded, tagged and checked. It runs as a \<open>job\<close> of the dispatcher, since it reports its
  progress while it runs. The record \<open>image_tools\<close> holds what it calls: the \<open>docker\<close> command, the HTTP client and the files.

  The copying loop takes fuel, one unit for each read. The reader is limited to one byte more than the largest archive, so that
  a reader that gives at least one byte for each read needs at most \<open>max_archive_bytes + 2\<close> reads.
\<close>

section \<open>What the manager calls\<close>

datatype read_end = ReadMore | ReadEof | ReadFailed goerr

text \<open>\<open>it_read n\<close> reads up to \<open>n\<close> bytes and returns their number; \<open>it_write\<close> returns the number of bytes written.\<close>

record 'e image_tools =
  it_docker :: "string list \<Rightarrow> ('e, string \<times> goerr option) op"
  it_download :: "string \<Rightarrow> int \<Rightarrow> ('e, int) res_op"
  it_read :: "int \<Rightarrow> ('e, int \<times> read_end) op"
  it_close_archive :: "('e, unit) op"
  it_make_dir :: "('e, string) res_op"
  it_remove_dir :: "string \<Rightarrow> ('e, unit) op"
  it_open :: "string \<Rightarrow> 'e err_op"
  it_write :: "int \<Rightarrow> ('e, int \<times> goerr option) op"
  it_close_file :: "'e err_op"
  it_rounds :: nat

definition max_archive_bytes :: int where "max_archive_bytes = 50 * 1024 * 1024 * 1024"

definition job_op :: "('e, 'a) op \<Rightarrow> ('a \<Rightarrow> 'e job) \<Rightarrow> 'e job" where
  "job_op m k = JobStep (\<lambda>e. case m e of (x, e') \<Rightarrow> (k x, e'))"

section \<open>The image that was loaded\<close>

text \<open>
  The matches of the pattern \<open>label\s*([^\r\n]+)\<close>. The blanks after the label are skipped as far as they go, over
  line ends too; when nothing follows them, the last blank that is not a line end is what the group matches.
\<close>

definition rx_blank :: "char \<Rightarrow> bool" where
  "rx_blank c = (c \<in> {CHR 0x09, CHR 0x0A, CHR 0x0C, CHR 0x0D, CHR '' ''})"

definition in_line :: "char \<Rightarrow> bool" where
  "in_line c = (c \<noteq> CHR 0x0D \<and> c \<noteq> CHR 0x0A)"

definition capture_line :: "string \<Rightarrow> (string \<times> string) option" where
  "capture_line s =
     (let r = dropWhile rx_blank s in
      if r \<noteq> [] then Some (takeWhile in_line r, dropWhile in_line r)
      else (case find in_line (rev s) of None \<Rightarrow> None | Some c \<Rightarrow> Some ([c], [])))"

lemma capture_shorter: "capture_line s = Some (c, r) \<Longrightarrow> length r < length s"
proof -
  assume a: "capture_line s = Some (c, r)"
  show ?thesis
  proof (cases "dropWhile rx_blank s")
    case Nil
    with a show ?thesis by (cases s) (auto simp: capture_line_def split: option.splits)
  next
    case (Cons x xs)
    have "length xs < length s" using length_dropWhile_le [of rx_blank s] Cons by simp
    moreover have "in_line x" using hd_dropWhile [of rx_blank s] Cons by (auto simp: rx_blank_def in_line_def)
    ultimately show ?thesis using a Cons length_dropWhile_le [of in_line xs]
      by (auto simp: capture_line_def)
  qed
qed

function captures :: "string \<Rightarrow> string \<Rightarrow> string list" where
  "captures label s =
     (if s = [] then []
      else case (if has_prefix s label then capture_line (drop (length label) s) else None) of
          Some (c, r) \<Rightarrow> c # captures label r
        | None \<Rightarrow> captures label (tl s))"
  by pat_completeness auto
termination
proof (relation "measure (\<lambda>(label, s). length s)", goal_cases)
  case (3 label s x c r)
  then have "capture_line (drop (length label) s) = Some (c, r)" by (auto split: if_splits)
  from capture_shorter [OF this] show ?case by simp
qed auto

declare captures.simps [simp del]

definition parse_loaded_image :: "string \<Rightarrow> string" where
  "parse_loaded_image output =
     (case captures ''Loaded image:'' output @ captures ''Loaded image ID:'' output of
        [m] \<Rightarrow> trim_space m
      | _ \<Rightarrow> [])"

section \<open>Copying\<close>

definition short_write :: goerr where "short_write = Plain ''short write''"
definition out_of_rounds :: goerr where "out_of_rounds = Plain ''no round is left''"
definition copy_buffer :: int where "copy_buffer = 1024 * 1024"
definition progress_step :: int where "progress_step = 64 * 1024 * 1024"

definition limited_read :: "'e image_tools \<Rightarrow> int \<Rightarrow> ('e, int \<times> read_end) op" where
  "limited_read t remaining =
     (if remaining \<le> 0 then op_return (0, ReadEof) else it_read t (min copy_buffer remaining))"

text \<open>\<open>k\<close> goes on with the number of bytes written and the error; \<open>after_read\<close> is the end of a round.\<close>

definition after_read :: "read_end \<Rightarrow> int \<Rightarrow> (int \<times> goerr option \<Rightarrow> 'e job) \<Rightarrow> 'e job \<Rightarrow> 'e job" where
  "after_read fin written k again =
     (case fin of ReadMore \<Rightarrow> again | ReadEof \<Rightarrow> k (written, None) | ReadFailed e \<Rightarrow> k (written, Some e))"

fun copy_with_progress ::
    "'e image_tools \<Rightarrow> int \<Rightarrow> nat \<Rightarrow> int \<Rightarrow> int \<Rightarrow> int \<Rightarrow> (int \<times> goerr option \<Rightarrow> 'e job) \<Rightarrow> 'e job" where
  "copy_with_progress t whole 0 remaining written reported k = k (written, Some out_of_rounds)"
| "copy_with_progress t whole (Suc n) remaining written reported k =
     job_op (limited_read t remaining) (\<lambda>(count, fin).
       if count > 0 then
         job_op (it_write t count) (\<lambda>(m, failure).
           if failure \<noteq> None \<or> m \<noteq> count
           then k (written + m, Some (case failure of Some e \<Rightarrow> e | None \<Rightarrow> short_write))
           else if written + m - reported \<ge> progress_step \<or> written + m = whole
           then JobReport (written + m) whole ''DOWNLOADING'' (\<lambda>r. case r of
                  Some e \<Rightarrow> k (written + m, Some e)
                | None \<Rightarrow> after_read fin (written + m) k
                    (copy_with_progress t whole n (remaining - count) (written + m) (written + m) k))
           else after_read fin (written + m) k
                  (copy_with_progress t whole n (remaining - count) (written + m) reported k))
       else after_read fin written k (copy_with_progress t whole n (remaining - count) written reported k))"

section \<open>Deploy\<close>

definition load_failed_text :: string where
  "load_failed_text = ''Docker '' @ utf8_encode [0x955C, 0x50CF, 0x5BFC, 0x5165, 0x5931, 0x8D25] @ '': ''"

definition check_failed_text :: string where
  "check_failed_text = ''Docker '' @ utf8_encode [0x955C, 0x50CF, 0x68C0, 0x67E5, 0x5931, 0x8D25] @ '': ''"

definition tag_failed_text :: string where
  "tag_failed_text = utf8_encode [0x955C, 0x50CF, 0x6807, 0x7B7E, 0x8F6C, 0x6362, 0x5931, 0x8D25] @ '': ''"

definition ambiguous_text :: string where
  "ambiguous_text = utf8_encode [0x955C, 0x50CF, 0x5F52, 0x6863, 0x5FC5, 0x987B, 0x5305, 0x542B, 0x4E00, 0x4E2A, 0x660E, 0x786E,
     0x7684, 0x955C, 0x50CF, 0xFF0C, 0x5F53, 0x524D, 0x7ED3, 0x679C, 0x4E3A, 0x7A7A, 0x6216, 0x5305, 0x542B, 0x591A, 0x4E2A,
     0x955C, 0x50CF]"

definition unverified_text :: string where
  "unverified_text = utf8_encode [0x955C, 0x50CF, 0x6807, 0x7B7E, 0x8F6C, 0x6362, 0x540E, 0x6821, 0x9A8C, 0x5931, 0x8D25] @ '': ''"

text \<open>An error of the \<open>docker\<close> command, with what the command wrote.\<close>

definition docker_failed :: "string \<Rightarrow> goerr \<Rightarrow> string \<Rightarrow> goerr" where
  "docker_failed text e output = Wrapped text e ('': '' @ trim_space output)"

definition image_present :: "'e image_tools \<Rightarrow> string \<Rightarrow> ('e, bool) res_op" where
  "image_present t target =
     op_bind (it_docker t [''image'', ''inspect'', target]) (\<lambda>(output, failure). op_return (case failure of
        None \<Rightarrow> Inr True
      | Some e \<Rightarrow>
          if contains_str output ''No such image:'' then Inr False
          else Inl (docker_failed check_failed_text e output)))"

definition deploy_target :: "image_deployment_payload \<Rightarrow> string" where
  "deploy_target p = (if im_image_name p = [] then im_registry_digest p else im_image_name p)"

definition deployed_details :: "image_deployment_payload \<Rightarrow> int \<Rightarrow> string \<Rightarrow> string \<Rightarrow> details" where
  "deployed_details p written output identifier =
     [(''deploymentId'', DString (im_deployment_id p)), (''componentType'', DString (im_component_type p)),
      (''registryDigest'', DString (im_registry_digest p)), (''updatePolicy'', DString (im_update_policy p)),
      (''loadedBytes'', DInt written), (''dockerOutput'', DString output), (''imageId'', DString identifier)]"

type_synonym 'e job_end = "details \<Rightarrow> goerr option \<Rightarrow> 'e job"

definition check_image ::
    "'e image_tools \<Rightarrow> image_deployment_payload \<Rightarrow> int \<Rightarrow> string \<Rightarrow> 'e job_end \<Rightarrow> 'e job" where
  "check_image t p written output finish =
     job_op (it_docker t [''image'', ''inspect'', ''--format'', ''{{.Id}}'', deploy_target p]) (\<lambda>(inspected, failure).
       case failure of
         Some e \<Rightarrow> finish [] (Some (docker_failed check_failed_text e inspected))
       | None \<Rightarrow>
           if \<not> rx_match sha256_digest_pattern (trim_space inspected)
           then finish [] (Some (Plain (unverified_text @ deploy_target p)))
           else finish (deployed_details p written output (trim_space inspected)) None)"

definition load_image ::
    "'e image_tools \<Rightarrow> image_deployment_payload \<Rightarrow> string \<Rightarrow> int \<Rightarrow> 'e job_end \<Rightarrow> 'e job" where
  "load_image t p path written finish =
     job_op (it_docker t [''load'', ''--input'', path]) (\<lambda>(output, failure). case failure of
       Some e \<Rightarrow> finish [] (Some (docker_failed load_failed_text e output))
     | None \<Rightarrow>
         let loaded = parse_loaded_image output in
         if loaded = [] then finish [] (Some (Plain ambiguous_text))
         else if loaded \<noteq> deploy_target p
         then job_op (it_docker t [''tag'', loaded, deploy_target p]) (\<lambda>(tag_output, tag_failure). case tag_failure of
                Some e \<Rightarrow> finish [] (Some (docker_failed tag_failed_text e tag_output))
              | None \<Rightarrow> check_image t p written output finish)
         else check_image t p written output finish)"

definition stage_archive ::
    "'e image_tools \<Rightarrow> image_deployment_payload \<Rightarrow> int \<Rightarrow> string \<Rightarrow> 'e job_end \<Rightarrow> 'e job" where
  "stage_archive t p whole path finish =
     job_op (it_open t path) (\<lambda>opened. case opened of
       Some e \<Rightarrow> finish [] (Some (wrap ''create image archive: '' e))
     | None \<Rightarrow>
         copy_with_progress t whole (it_rounds t) (max_archive_bytes + 1) 0 0 (\<lambda>(written, copied).
           job_op (it_close_file t) (\<lambda>closed. case copied of
             Some e \<Rightarrow> finish [] (Some (wrap ''download image archive: '' e))
           | None \<Rightarrow>
               if closed \<noteq> None \<or> written \<le> 0 \<or> written > max_archive_bytes
               then finish [] (Some (Plain ''downloaded image archive size is invalid''))
               else JobReport written whole ''IMPORTING'' (\<lambda>_. load_image t p path written finish))))"

text \<open>The deferred calls: the staging directory is removed, then the archive is closed.\<close>

definition cleaned :: "'e image_tools \<Rightarrow> string \<Rightarrow> 'e job_end" where
  "cleaned t dir details failure =
     job_op (it_remove_dir t dir) (\<lambda>_. job_op (it_close_archive t) (\<lambda>_. JobDone details failure))"

definition deploy_image :: "'e image_tools \<Rightarrow> image_deployment_payload \<Rightarrow> 'e job" where
  "deploy_image t p =
     job_op (image_present t (deploy_target p)) (\<lambda>present. case present of
       Inl e \<Rightarrow> JobDone [] (Some e)
     | Inr found \<Rightarrow>
         if found \<and> \<not> im_overwrite p then JobDone [] (Some ErrImageExists)
         else job_op (it_download t (im_deployment_id p) max_archive_bytes) (\<lambda>download. case download of
           Inl e \<Rightarrow> JobDone [] (Some e)
         | Inr whole \<Rightarrow>
             job_op (it_make_dir t) (\<lambda>made. case made of
               Inl e \<Rightarrow> job_op (it_close_archive t) (\<lambda>_. JobDone [] (Some (wrap ''create image staging directory: '' e)))
             | Inr dir \<Rightarrow> stage_archive t p whole (path_join [dir, ''image.tar'']) (cleaned t dir))))"

text \<open>The manager as the dispatcher calls it.\<close>

definition image_manager :: "'e image_tools \<Rightarrow> image_deployment_payload \<Rightarrow> ('e, 'e job) op" where
  "image_manager t p = op_return (deploy_image t p)"

section \<open>Running the job\<close>

lemma run_job_op [simp]: "run_job (job_op m k) cb = op_bind m (\<lambda>x. run_job (k x) cb)"
  by (rule ext) (simp add: job_op_def op_bind_def split: prod.splits)

lemma run_job_report [simp]: "run_job (JobReport n whole stage k) cb = op_bind (cb n whole stage) (\<lambda>r. run_job (k r) cb)"
  by simp

lemma run_job_done [simp]: "run_job (JobDone d x) cb = op_return (d, x)"
  by simp

declare run_job.simps [simp del]

lemma run_job_cases:
  "run_job (if b then j else j') cb = (if b then run_job j cb else run_job j' cb)"
  "run_job (case x of None \<Rightarrow> j | Some v \<Rightarrow> f v) cb = (case x of None \<Rightarrow> run_job j cb | Some v \<Rightarrow> run_job (f v) cb)"
  "run_job (case y of Inl a \<Rightarrow> g a | Inr c \<Rightarrow> h c) cb = (case y of Inl a \<Rightarrow> run_job (g a) cb | Inr c \<Rightarrow> run_job (h c) cb)"
  "run_job (case z of (a, c) \<Rightarrow> l a c) cb = (case z of (a, c) \<Rightarrow> run_job (l a c) cb)"
  "run_job (case fin of ReadMore \<Rightarrow> j | ReadEof \<Rightarrow> j' | ReadFailed e \<Rightarrow> f' e) cb =
     (case fin of ReadMore \<Rightarrow> run_job j cb | ReadEof \<Rightarrow> run_job j' cb | ReadFailed e \<Rightarrow> run_job (f' e) cb)"
  by (simp_all split: option.split sum.split prod.split read_end.split)

section \<open>The copying ends\<close>

text \<open>A reader that gives at least one byte for a read that is not the last, and no more than it was asked for.\<close>

definition steady_reader :: "'e image_tools \<Rightarrow> bool" where
  "steady_reader t \<longleftrightarrow> (\<forall>n e c fin e'. 0 < n \<longrightarrow> it_read t n e = ((c, fin), e') \<longrightarrow> 0 \<le> c \<and> c \<le> n \<and> (fin = ReadMore \<longrightarrow> 0 < c))"

lemma limited_read_bound:
  assumes "steady_reader t" "limited_read t remaining e = ((c, fin), e')"
  shows "0 \<le> c" "fin = ReadMore \<Longrightarrow> 0 < c \<and> c \<le> remaining"
proof -
  have "0 \<le> c \<and> (fin = ReadMore \<longrightarrow> 0 < c \<and> c \<le> remaining)"
  proof (cases "remaining \<le> 0")
    case True
    with assms(2) show ?thesis by (auto simp: limited_read_def op_return_def)
  next
    case False
    then have n: "0 < min copy_buffer remaining" by (simp add: copy_buffer_def)
    moreover have "it_read t (min copy_buffer remaining) e = ((c, fin), e')"
      using assms(2) False by (simp add: limited_read_def)
    ultimately have "0 \<le> c \<and> c \<le> min copy_buffer remaining \<and> (fin = ReadMore \<longrightarrow> 0 < c)"
      using assms(1) unfolding steady_reader_def by blast
    then show ?thesis by simp
  qed
  then show "0 \<le> c" "fin = ReadMore \<Longrightarrow> 0 < c \<and> c \<le> remaining" by simp_all
qed

lemma copy_enough:
  assumes "steady_reader t" "nat remaining < n" "nat remaining < n'"
  shows "run_job (copy_with_progress t whole n remaining written reported k) cb e
       = run_job (copy_with_progress t whole n' remaining written reported k) cb e"
  using assms(2,3)
proof (induction n arbitrary: n' remaining written reported e)
  case (Suc n)
  obtain m where n': "n' = Suc m" using Suc.prems(2) by (cases n') auto
  obtain c fin e1 where rd: "limited_read t remaining e = ((c, fin), e1)" by (metis prod.collapse)
  note b = limited_read_bound [OF assms(1) rd]
  have again: "run_job (after_read fin w k (copy_with_progress t whole n (remaining - c) w l k)) cb e2
      = run_job (after_read fin w k (copy_with_progress t whole m (remaining - c) w l k)) cb e2" for w l e2
  proof (cases fin)
    case ReadMore
    with b have "nat (remaining - c) < n" "nat (remaining - c) < m" using Suc.prems n' by auto
    from Suc.IH [OF this] ReadMore show ?thesis by (simp add: after_read_def)
  qed (simp_all add: after_read_def)
  show ?case
    unfolding n' copy_with_progress.simps run_job_op op_bind_def [of "limited_read t remaining"] rd prod.case
    by (simp add: run_job_cases op_bind_def again split: prod.splits option.splits)
qed simp

text \<open>Two jobs that run alike.\<close>

lemma op_bind_alike: "(\<And>x e'. f x e' = g x e') \<Longrightarrow> op_bind m f e = op_bind m g e"
  by (simp add: op_bind_def split: prod.split)

lemma copy_rounds: "copy_with_progress (t\<lparr>it_rounds := r\<rparr>) whole n remaining written reported k = copy_with_progress t whole n remaining written reported k"
proof (induction n arbitrary: remaining written reported)
  case (Suc n)
  have same: "limited_read (t\<lparr>it_rounds := r\<rparr>) = limited_read t" "it_write (t\<lparr>it_rounds := r\<rparr>) = it_write t"
    by (simp_all add: limited_read_def fun_eq_iff)
  show ?case unfolding copy_with_progress.simps Suc.IH same ..
qed simp

lemma field_rounds:
  "it_docker (t\<lparr>it_rounds := r\<rparr>) = it_docker t" "it_remove_dir (t\<lparr>it_rounds := r\<rparr>) = it_remove_dir t"
  "it_close_archive (t\<lparr>it_rounds := r\<rparr>) = it_close_archive t" "it_make_dir (t\<lparr>it_rounds := r\<rparr>) = it_make_dir t"
  "it_download (t\<lparr>it_rounds := r\<rparr>) = it_download t"
  by simp_all

lemma check_rounds: "check_image (t\<lparr>it_rounds := r\<rparr>) = check_image t"
  unfolding check_image_def fun_eq_iff field_rounds by blast

lemma tools_rounds:
  "cleaned (t\<lparr>it_rounds := r\<rparr>) = cleaned t" "image_present (t\<lparr>it_rounds := r\<rparr>) = image_present t"
  "load_image (t\<lparr>it_rounds := r\<rparr>) = load_image t"
  unfolding cleaned_def image_present_def load_image_def fun_eq_iff field_rounds check_rounds by blast+

lemma deploy_enough:
  assumes "steady_reader t" "nat (max_archive_bytes + 1) < n" "nat (max_archive_bytes + 1) < n'"
  shows "run_job (deploy_image (t\<lparr>it_rounds := n\<rparr>) p) cb e = run_job (deploy_image (t\<lparr>it_rounds := n'\<rparr>) p) cb e"
proof -
  have copy: "run_job (copy_with_progress t whole n (max_archive_bytes + 1) 0 0 k) cb e
      = run_job (copy_with_progress t whole n' (max_archive_bytes + 1) 0 0 k) cb e" for whole k e
    by (rule copy_enough [OF assms])
  have stage: "run_job (stage_archive (t\<lparr>it_rounds := n\<rparr>) p whole path finish) cb e
      = run_job (stage_archive (t\<lparr>it_rounds := n'\<rparr>) p whole path finish) cb e" for whole path finish e
    unfolding stage_archive_def run_job_op run_job_cases copy_rounds tools_rounds
    by (simp, rule op_bind_alike) (simp add: copy split: option.split)
  then have eq: "run_job (stage_archive (t\<lparr>it_rounds := n\<rparr>) p whole path finish) cb
      = run_job (stage_archive (t\<lparr>it_rounds := n'\<rparr>) p whole path finish) cb" for whole path finish
    by (rule ext)
  show ?thesis
    unfolding deploy_image_def run_job_op run_job_cases tools_rounds field_rounds eq ..
qed

section \<open>What the job does, and in which order\<close>

datatype image_event =
    ImgDocker "string list" "string \<times> goerr option"
  | ImgDownload "goerr + int"
  | ImgRead "int \<times> read_end"
  | ImgMadeDir "goerr + string"
  | ImgOpened string "goerr option"
  | ImgWrote "int \<times> goerr option"
  | ImgReported int int string "goerr option"
  | ImgClosedFile "goerr option"
  | ImgRemovedDir string
  | ImgClosedArchive

definition logged_tools :: "'e image_tools \<Rightarrow> ('e \<times> image_event list) image_tools" where
  "logged_tools t =
     \<lparr>it_docker = (\<lambda>args. log_op (ImgDocker args) (it_docker t args)),
      it_download = (\<lambda>i n. log_op ImgDownload (it_download t i n)),
      it_read = (\<lambda>n. log_op ImgRead (it_read t n)), it_close_archive = log_op (\<lambda>_. ImgClosedArchive) (it_close_archive t),
      it_make_dir = log_op ImgMadeDir (it_make_dir t),
      it_remove_dir = (\<lambda>d. log_op (\<lambda>_. ImgRemovedDir d) (it_remove_dir t d)),
      it_open = (\<lambda>f. log_op (ImgOpened f) (it_open t f)), it_write = (\<lambda>n. log_op ImgWrote (it_write t n)),
      it_close_file = log_op ImgClosedFile (it_close_file t), it_rounds = it_rounds t\<rparr>"

definition logged_report :: "(int \<Rightarrow> int \<Rightarrow> string \<Rightarrow> 'e err_op) \<Rightarrow> int \<Rightarrow> int \<Rightarrow> string \<Rightarrow> ('e \<times> image_event list) err_op" where
  "logged_report cb n whole stage = log_op (ImgReported n whole stage) (cb n whole stage)"

text \<open>The bytes written so far, and the number last reported while downloading.\<close>

fun wrote_event :: "image_event \<Rightarrow> int" where
  "wrote_event (ImgWrote r) = fst r"
| "wrote_event e = 0"

definition wrote :: "image_event list \<Rightarrow> int" where
  "wrote h = sum_list (map wrote_event h)"

definition report_step :: "int \<Rightarrow> image_event \<Rightarrow> int" where
  "report_step n e = (case e of ImgReported m whole stage r \<Rightarrow> if stage = ''DOWNLOADING'' then m else n | _ \<Rightarrow> n)"

definition last_report :: "image_event list \<Rightarrow> int" where
  "last_report h = foldl report_step 0 h"

text \<open>
  The download starts only when the image was absent or may be replaced; progress is what was written, reported in steps of
  \<open>progress_step\<close> bytes or at the announced size; the archive is loaded only when the download was read to its end, no read, write or
  report of progress failed, every byte that was read was written, and the file was closed without an error and is of an allowed size.
\<close>

fun read_event :: "image_event \<Rightarrow> int" where
  "read_event (ImgRead r) = (if fst r > 0 then fst r else 0)"
| "read_event e = 0"

definition received :: "image_event list \<Rightarrow> int" where
  "received h = sum_list (map read_event h)"

fun copy_fine :: "image_event \<Rightarrow> bool" where
  "copy_fine (ImgRead r) = (case snd r of ReadFailed e \<Rightarrow> False | _ \<Rightarrow> True)"
| "copy_fine (ImgWrote r) = (snd r = None)"
| "copy_fine (ImgReported n whole stage r) = (stage = ''DOWNLOADING'' \<longrightarrow> r = None)"
| "copy_fine e = True"

definition read_step :: "read_end option \<Rightarrow> image_event \<Rightarrow> read_end option" where
  "read_step x e = (case e of ImgRead r \<Rightarrow> Some (snd r) | _ \<Rightarrow> x)"

definition last_read :: "image_event list \<Rightarrow> read_end option" where
  "last_read h = foldl read_step None h"

definition copied_whole :: "image_event list \<Rightarrow> bool" where
  "copied_whole h \<longleftrightarrow> list_all copy_fine h \<and> received h = wrote h \<and> last_read h = Some ReadEof"

definition absent :: "image_deployment_payload \<Rightarrow> image_event \<Rightarrow> bool" where
  "absent p e \<longleftrightarrow> (\<exists>output x. e = ImgDocker [''image'', ''inspect'', deploy_target p] (output, Some x) \<and> contains_str output ''No such image:'')"

fun image_allowed :: "image_deployment_payload \<Rightarrow> image_event list \<Rightarrow> image_event \<Rightarrow> bool" where
  "image_allowed p h (ImgDownload r) = (im_overwrite p \<or> (h \<noteq> [] \<and> absent p (hd h)))"
| "image_allowed p h (ImgReported n whole stage r) =
     (stage = ''DOWNLOADING'' \<longrightarrow> n = wrote h \<and> (n - last_report h \<ge> progress_step \<or> n = whole))"
| "image_allowed p h (ImgDocker args r) =
     (args \<noteq> [] \<and> hd args = ''load'' \<longrightarrow> copied_whole h \<and> ImgClosedFile None \<in> set h \<and> 0 < wrote h \<and> wrote h \<le> max_archive_bytes)"
| "image_allowed p h e = True"

definition image_cleaned :: "image_event list \<Rightarrow> bool" where
  "image_cleaned h \<longleftrightarrow>
     (\<forall>n. ImgDownload (Inr n) \<in> set h \<longrightarrow> last h = ImgClosedArchive) \<and>
     (\<forall>d. ImgMadeDir (Inr d) \<in> set h \<longrightarrow> ImgRemovedDir d \<in> set h)"

definition image_deployed :: "image_deployment_payload \<Rightarrow> details \<times> goerr option \<Rightarrow> image_event list \<Rightarrow> bool" where
  "image_deployed p r h \<longleftrightarrow> image_cleaned h \<and>
     (snd r = None \<longrightarrow>
       (\<exists>path output inspected. ImgDocker [''load'', ''--input'', path] (output, None) \<in> set h \<and>
          ImgDocker [''image'', ''inspect'', ''--format'', ''{{.Id}}'', deploy_target p] (inspected, None) \<in> set h \<and>
          rx_match sha256_digest_pattern (trim_space inspected) \<and>
          fst r = deployed_details p (wrote h) output (trim_space inspected)))"

lemma wrote_simps [simp]: "wrote [] = 0" "wrote (h @ h') = wrote h + wrote h'" "wrote (e # h) = wrote_event e + wrote h"
  by (simp_all add: wrote_def)

lemma received_simps [simp]: "received [] = 0" "received (h @ h') = received h + received h'" "received (e # h) = read_event e + received h"
  by (simp_all add: received_def)

lemma last_read_simps [simp]: "last_read [] = None" "last_read (h @ h') = foldl read_step (last_read h) h'"
  by (simp_all add: last_read_def)

lemma last_report_simps [simp]: "last_report [] = 0" "last_report (h @ h') = foldl report_step (last_report h) h'"
  by (simp_all add: last_report_def)

lemma tools_simps:
  "it_docker (logged_tools t) a = log_op (ImgDocker a) (it_docker t a)"
  "it_download (logged_tools t) i n = log_op ImgDownload (it_download t i n)"
  "it_close_archive (logged_tools t) = log_op (\<lambda>_. ImgClosedArchive) (it_close_archive t)"
  "it_make_dir (logged_tools t) = log_op ImgMadeDir (it_make_dir t)"
  "it_remove_dir (logged_tools t) d = log_op (\<lambda>_. ImgRemovedDir d) (it_remove_dir t d)"
  "it_open (logged_tools t) f = log_op (ImgOpened f) (it_open t f)"
  "it_write (logged_tools t) m = log_op ImgWrote (it_write t m)"
  "it_close_file (logged_tools t) = log_op ImgClosedFile (it_close_file t)"
  "it_rounds (logged_tools t) = it_rounds t"
  "limited_read (logged_tools t) m = (if m \<le> 0 then op_return (0, ReadEof) else log_op ImgRead (it_read t (min copy_buffer m)))"
  by (simp_all add: logged_tools_def limited_read_def)

lemma report_bind: "op_bind (logged_report cb n whole stage) f = op_bind (log_op (ImgReported n whole stage) (cb n whole stage)) f"
  by (simp add: logged_report_def)

text \<open>The events of the copying.\<close>

fun copying_event :: "image_event \<Rightarrow> bool" where
  "copying_event (ImgRead r) = True"
| "copying_event (ImgWrote r) = True"
| "copying_event (ImgReported n whole stage r) = True"
| "copying_event e = False"

lemma guards_read_end:
  "(fin = ReadMore \<Longrightarrow> guards ok h j Q) \<Longrightarrow> (fin = ReadEof \<Longrightarrow> guards ok h j' Q) \<Longrightarrow>
   (\<And>e. fin = ReadFailed e \<Longrightarrow> guards ok h (f e) Q) \<Longrightarrow>
   guards ok h (case fin of ReadMore \<Rightarrow> j | ReadEof \<Rightarrow> j' | ReadFailed e \<Rightarrow> f e) Q"
  by (cases fin) auto

text \<open>Between two rounds: nothing has failed, what was read was written, and the limit is what is left to read.\<close>

definition copying_on :: "image_event list \<Rightarrow> int \<Rightarrow> int \<Rightarrow> bool" where
  "copying_on h written remaining \<longleftrightarrow> list_all copy_fine h \<and> received h = written \<and> written + remaining > max_archive_bytes"

lemma copy_guards:
  assumes k: "\<And>u written x. list_all copying_event u \<Longrightarrow> wrote (h @ u) = written \<Longrightarrow>
      x = None \<longrightarrow> copied_whole (h @ u) \<or> written > max_archive_bytes \<Longrightarrow>
      guards (image_allowed p) (h @ u) (run_job (k (written, x)) (logged_report cb)) Q"
    and inv: "list_all copying_event u" "wrote (h @ u) = written" "last_report (h @ u) = reported" "copying_on (h @ u) written remaining"
  shows "guards (image_allowed p) (h @ u)
     (run_job (copy_with_progress (logged_tools t) whole n remaining written reported k) (logged_report cb)) Q"
  using inv
proof (induction n arbitrary: remaining u written reported)
  case 0
  then show ?case using k by simp
next
  case (Suc n)
  have round: "guards (image_allowed p) (h @ v)
      (run_job (after_read fin w k (copy_with_progress (logged_tools t) whole n m w l k)) (logged_report cb)) Q"
    if "list_all copying_event v" "wrote (h @ v) = w" "last_report (h @ v) = l"
      "fin = ReadMore \<longrightarrow> copying_on (h @ v) w m" "fin = ReadEof \<longrightarrow> copied_whole (h @ v) \<or> w > max_archive_bytes" for v fin w m l
    unfolding after_read_def run_job_cases using Suc.IH [OF that(1-3)] k [OF that(1,2)] that(4,5) by (intro guards_read_end) simp_all
  have rest: "guards (image_allowed p) (h @ v)
      (run_job (if count > 0 then
         job_op (it_write (logged_tools t) count) (\<lambda>(m, failure).
           if failure \<noteq> None \<or> m \<noteq> count
           then k (written + m, Some (case failure of Some e \<Rightarrow> e | None \<Rightarrow> short_write))
           else if written + m - reported \<ge> progress_step \<or> written + m = whole
           then JobReport (written + m) whole ''DOWNLOADING'' (\<lambda>r. case r of
                  Some e \<Rightarrow> k (written + m, Some e)
                | None \<Rightarrow> after_read fin (written + m) k
                    (copy_with_progress (logged_tools t) whole n (remaining - count) (written + m) (written + m) k))
           else after_read fin (written + m) k
                  (copy_with_progress (logged_tools t) whole n (remaining - count) (written + m) reported k))
       else after_read fin written k (copy_with_progress (logged_tools t) whole n (remaining - count) written reported k))
       (logged_report cb)) Q"
    if "list_all copying_event v" "wrote (h @ v) = written" "last_report (h @ v) = reported"
      "(\<nexists>e. fin = ReadFailed e) \<longrightarrow> list_all copy_fine (h @ v)" "received (h @ v) = written + (if count > 0 then count else 0)"
      "written + remaining > max_archive_bytes"
      "fin = ReadEof \<longrightarrow> last_read (h @ v) = Some ReadEof \<or> count \<le> 0 \<and> remaining \<le> 0" for v count fin
  proof -
    note v = that
    have k1: "guards (image_allowed p) ((h @ v) @ [e]) (run_job (k (w, Some x)) (logged_report cb)) Q"
      if "copying_event e" "written + wrote_event e = w" for e w x
      using k [of "v @ [e]" w "Some x"] v that by simp
    have k2: "guards (image_allowed p) (((h @ v) @ [d]) @ [e]) (run_job (k (w, Some x)) (logged_report cb)) Q"
      if "copying_event d" "copying_event e" "written + wrote_event d + wrote_event e = w" for d e w x
      using k [of "v @ [d, e]" w "Some x"] v that by simp
    have r1: "guards (image_allowed p) ((h @ v) @ [ImgWrote r])
        (run_job (after_read fin (written + m) k
          (copy_with_progress (logged_tools t) whole n (remaining - count) (written + m) reported k)) (logged_report cb)) Q"
      if "0 < count" "r = (m, failure)" "\<not> (failure \<noteq> None \<or> m \<noteq> count)" for m r failure
      using round [of "v @ [ImgWrote r]" "written + m" reported fin "remaining - count"] v that
      by (auto simp: report_step_def read_step_def copying_on_def copied_whole_def)
    have r2: "guards (image_allowed p) (((h @ v) @ [ImgWrote r]) @ [ImgReported (written + m) whole ''DOWNLOADING'' x])
        (run_job (after_read fin (written + m) k
          (copy_with_progress (logged_tools t) whole n (remaining - count) (written + m) (written + m) k)) (logged_report cb)) Q"
      if "0 < count" "r = (m, failure)" "\<not> (failure \<noteq> None \<or> m \<noteq> count)" "x = None" for m r failure x
      using round [of "v @ [ImgWrote r, ImgReported (written + m) whole ''DOWNLOADING'' x]" "written + m" "written + m" fin "remaining - count"] v that
      by (auto simp: report_step_def read_step_def copying_on_def copied_whole_def)
    have r0: "guards (image_allowed p) (h @ v)
        (run_job (after_read fin written k (copy_with_progress (logged_tools t) whole n (remaining - count) written reported k))
          (logged_report cb)) Q" if "\<not> count > 0"
      using round [of v written reported fin "remaining - count"] v that by (auto simp: copying_on_def copied_whole_def)
    show ?thesis
      unfolding run_job_cases run_job_op run_job_report tools_simps report_bind
      by (intro guards_intros; ((rule r0 | (rule r2 | rule r1), assumption+ | rule k1 k2)?; use v in \<open>simp add: report_step_def\<close>))
  qed
  show ?case
    unfolding copy_with_progress.simps run_job_op tools_simps(10)
  proof (rule guards_bind [where R = "\<lambda>x t. \<exists>v. t = h @ v \<and> list_all copying_event v \<and> wrote (h @ v) = written \<and> last_report (h @ v) = reported \<and>
      ((\<nexists>e. snd x = ReadFailed e) \<longrightarrow> list_all copy_fine (h @ v)) \<and> received (h @ v) = written + (if fst x > 0 then fst x else 0) \<and>
      (snd x = ReadEof \<longrightarrow> last_read (h @ v) = Some ReadEof \<or> fst x \<le> 0 \<and> remaining \<le> 0)"], goal_cases)
    case 1
    show ?case
    proof (intro guards_if guards_return guards_log)
      show "\<exists>v. h @ u = h @ v \<and> list_all copying_event v \<and> wrote (h @ v) = written \<and> last_report (h @ v) = reported \<and>
          ((\<nexists>e. snd (0 :: int, ReadEof) = ReadFailed e) \<longrightarrow> list_all copy_fine (h @ v)) \<and>
          received (h @ v) = written + (if fst (0 :: int, ReadEof) > 0 then fst (0 :: int, ReadEof) else 0) \<and>
          (snd (0 :: int, ReadEof) = ReadEof \<longrightarrow> last_read (h @ v) = Some ReadEof \<or> fst (0 :: int, ReadEof) \<le> 0 \<and> remaining \<le> 0)" if "remaining \<le> 0"
        using Suc.prems that by (intro exI [of _ u]) (simp add: copying_on_def)
      show "image_allowed p (h @ u) (ImgRead x) \<and>
          (\<exists>v. (h @ u) @ [ImgRead x] = h @ v \<and> list_all copying_event v \<and> wrote (h @ v) = written \<and> last_report (h @ v) = reported \<and>
          ((\<nexists>e. snd x = ReadFailed e) \<longrightarrow> list_all copy_fine (h @ v)) \<and> received (h @ v) = written + (if fst x > 0 then fst x else 0) \<and>
          (snd x = ReadEof \<longrightarrow> last_read (h @ v) = Some ReadEof \<or> fst x \<le> 0 \<and> remaining \<le> 0))" for x
        using Suc.prems by (intro conjI exI [of _ "u @ [ImgRead x]"]) (simp_all add: report_step_def read_step_def copying_on_def split: read_end.split)
    qed
  next
    case (2 x t')
    then obtain v where v: "t' = h @ v" "list_all copying_event v" "wrote (h @ v) = written" "last_report (h @ v) = reported"
      "(\<nexists>e. snd x = ReadFailed e) \<longrightarrow> list_all copy_fine (h @ v)" "received (h @ v) = written + (if fst x > 0 then fst x else 0)"
      "snd x = ReadEof \<longrightarrow> last_read (h @ v) = Some ReadEof \<or> fst x \<le> 0 \<and> remaining \<le> 0" by blast
    moreover have "written + remaining > max_archive_bytes" using Suc.prems by (simp add: copying_on_def)
    ultimately show ?case using rest [of v "snd x" "fst x"] by (cases x) (simp only: prod.case prod.sel)
  qed
qed

definition staged :: "string \<Rightarrow> image_event list \<Rightarrow> bool" where
  "staged dir h \<longleftrightarrow> (\<forall>d. ImgMadeDir (Inr d) \<in> set h \<longrightarrow> d = dir)"

definition verified_image :: "image_deployment_payload \<Rightarrow> image_event list \<Rightarrow> details \<Rightarrow> bool" where
  "verified_image p h d \<longleftrightarrow>
     (\<exists>path output inspected. ImgDocker [''load'', ''--input'', path] (output, None) \<in> set h \<and>
        ImgDocker [''image'', ''inspect'', ''--format'', ''{{.Id}}'', deploy_target p] (inspected, None) \<in> set h \<and>
        rx_match sha256_digest_pattern (trim_space inspected) \<and>
        d = deployed_details p (wrote h) output (trim_space inspected))"

lemma staged_copying: "staged dir h \<Longrightarrow> list_all copying_event u \<Longrightarrow> staged dir (h @ u)"
  by (auto simp: staged_def list_all_iff)

lemma staged_add: "staged dir h \<Longrightarrow> (\<And>d. e \<noteq> ImgMadeDir (Inr d)) \<Longrightarrow> staged dir (h @ [e])"
  by (auto simp: staged_def)

lemma cleaned_guards:
  assumes "staged dir h" "failure = None \<Longrightarrow> verified_image p h d"
  shows "guards (image_allowed p) h (run_job (cleaned (logged_tools t) dir d failure) (logged_report cb)) (image_deployed p)"
proof -
  let ?h = "(h @ [ImgRemovedDir dir]) @ [ImgClosedArchive]"
  have "image_cleaned ?h" using assms(1) by (auto simp: image_cleaned_def staged_def)
  moreover have "failure = None \<Longrightarrow> verified_image p ?h d"
    using assms(2) by (auto simp: verified_image_def)
  ultimately have "image_deployed p (d, failure) ?h" by (simp add: image_deployed_def verified_image_def)
  then show ?thesis
    unfolding cleaned_def run_job_op run_job_done tools_simps by (intro guards_intros) simp_all
qed

lemma verified_imageI:
  "ImgDocker [''load'', ''--input'', path] (out, None) \<in> set h \<Longrightarrow>
   ImgDocker [''image'', ''inspect'', ''--format'', ''{{.Id}}'', deploy_target p] (inspected, None) \<in> set h \<Longrightarrow>
   rx_match sha256_digest_pattern (trim_space inspected) \<Longrightarrow> w = wrote h \<Longrightarrow>
   verified_image p h (deployed_details p w out (trim_space inspected))"
  unfolding verified_image_def by blast

lemma check_guards:
  assumes "staged dir h" "ImgDocker [''load'', ''--input'', path] (out, None) \<in> set h"
  shows "guards (image_allowed p) h
    (run_job (check_image (logged_tools t) p (wrote h) out (cleaned (logged_tools t) dir)) (logged_report cb)) (image_deployed p)"
  unfolding check_image_def run_job_op tools_simps run_job_cases
  by (intro guards_intros; (rule cleaned_guards)?; use assms in \<open>auto intro: verified_imageI simp: staged_add\<close>)

lemma load_guards:
  assumes "staged dir h" "copied_whole h" "ImgClosedFile None \<in> set h" "0 < wrote h" "wrote h \<le> max_archive_bytes"
  shows "guards (image_allowed p) h
    (run_job (load_image (logged_tools t) p path (wrote h) (cleaned (logged_tools t) dir)) (logged_report cb)) (image_deployed p)"
proof -
  have c1: "guards (image_allowed p) (h @ [ImgDocker [''load'', ''--input'', path] x])
      (run_job (check_image (logged_tools t) p (wrote h) out (cleaned (logged_tools t) dir)) (logged_report cb)) (image_deployed p)"
    if "x = (out, None)" for out x
    using check_guards [of dir "h @ [ImgDocker [''load'', ''--input'', path] (out, None)]" path out p t cb] assms(1) that
    by (simp add: staged_add)
  have c2: "guards (image_allowed p) ((h @ [ImgDocker [''load'', ''--input'', path] x]) @ [ImgDocker args r])
      (run_job (check_image (logged_tools t) p (wrote h) out (cleaned (logged_tools t) dir)) (logged_report cb)) (image_deployed p)"
    if "x = (out, None)" for out x args r
    using check_guards [of dir "(h @ [ImgDocker [''load'', ''--input'', path] (out, None)]) @ [ImgDocker args r]" path out p t cb] assms(1) that
    by (simp add: staged_def)
  show ?thesis
    unfolding load_image_def run_job_op tools_simps run_job_cases Let_def
    by (intro guards_intros; (rule c2 c1 cleaned_guards)?; use assms in \<open>simp add: staged_def\<close>)
qed

lemma wrote_nonneg_event [simp]: "wrote_event (ImgClosedFile r) = 0" "wrote_event (ImgReported n w s r) = 0"
  by simp_all

lemma stage_guards:
  assumes "staged dir h" "wrote h = 0" "last_report h = 0" "received h = 0" "list_all copy_fine h"
  shows "guards (image_allowed p) h
    (run_job (stage_archive (logged_tools t) p whole path (cleaned (logged_tools t) dir)) (logged_report cb)) (image_deployed p)"
proof -
  define k where "k = (\<lambda>(written, copied).
       job_op (it_close_file (logged_tools t)) (\<lambda>closed. case copied of
         Some e \<Rightarrow> cleaned (logged_tools t) dir [] (Some (wrap ''download image archive: '' e))
       | None \<Rightarrow>
           if closed \<noteq> None \<or> written \<le> 0 \<or> written > max_archive_bytes
           then cleaned (logged_tools t) dir [] (Some (Plain ''downloaded image archive size is invalid''))
           else JobReport written whole ''IMPORTING'' (\<lambda>_. load_image (logged_tools t) p path written (cleaned (logged_tools t) dir))))"
  have "guards (image_allowed p) ((h @ [ImgOpened path None]) @ u) (run_job (k (written, x)) (logged_report cb)) (image_deployed p)"
    if u: "list_all copying_event u" "wrote ((h @ [ImgOpened path None]) @ u) = written"
      "x = None \<longrightarrow> copied_whole ((h @ [ImgOpened path None]) @ u) \<or> written > max_archive_bytes" for u written x
  proof -
    let ?h = "(h @ [ImgOpened path None]) @ u"
    have st: "staged dir ?h" using assms(1) u(1) by (auto simp: staged_def list_all_iff)
    have load: "guards (image_allowed p) ((?h @ [ImgClosedFile None]) @ [ImgReported written whole ''IMPORTING'' r])
        (run_job (load_image (logged_tools t) p path written (cleaned (logged_tools t) dir)) (logged_report cb)) (image_deployed p)"
      if "x = None" "0 < written" "written \<le> max_archive_bytes" for r
      using load_guards [of dir "(?h @ [ImgClosedFile None]) @ [ImgReported written whole ''IMPORTING'' r]" p t path cb]
        st u(2,3) that by (simp add: staged_def copied_whole_def read_step_def)
    show ?thesis
      unfolding k_def prod.case run_job_op run_job_cases run_job_report tools_simps report_bind
      by (intro guards_intros; (rule cleaned_guards)?; use st in \<open>simp add: staged_def\<close>)
        (use load in auto)
  qed
  from copy_guards [of "h @ [ImgOpened path None]" p k cb "image_deployed p" "[]" 0 0 "max_archive_bytes + 1" t whole "it_rounds t", OF this]
  have copy: "guards (image_allowed p) (h @ [ImgOpened path None])
      (run_job (copy_with_progress (logged_tools t) whole (it_rounds t) (max_archive_bytes + 1) 0 0 k) (logged_report cb)) (image_deployed p)"
    using assms(2-5) by (simp add: report_step_def copying_on_def)
  show ?thesis
    unfolding stage_archive_def run_job_op tools_simps(6,9) run_job_cases k_def [symmetric]
    by (intro guards_intros; (rule cleaned_guards)?; use assms in \<open>simp add: staged_def\<close>)
      (use copy in auto)
qed

lemma deploy_guards:
  "guards (image_allowed p) [] (run_job (deploy_image (logged_tools t) p) (logged_report cb)) (image_deployed p)"
proof -
  have stage: "guards (image_allowed p) ((h @ [ImgDownload d]) @ [ImgMadeDir m])
      (run_job (stage_archive (logged_tools t) p whole (path_join [dir, ''image.tar'']) (cleaned (logged_tools t) dir))
        (logged_report cb)) (image_deployed p)" if "h = [ImgDocker a r]" "m = Inr dir" for h a r d m whole dir
    by (rule stage_guards) (use that in \<open>simp_all add: staged_def report_step_def last_report_def\<close>)
  let ?look = "[''image'', ''inspect'', deploy_target p]"
  show ?thesis
    unfolding deploy_image_def run_job_op run_job_cases run_job_done image_present_def tools_simps
  proof (rule guards_bind [where R = "\<lambda>r h. \<exists>x. h = [ImgDocker ?look x] \<and> (r = Inr False \<longrightarrow> absent p (hd h))"], goal_cases)
    case 1
    show ?case
      by (intro guards_intros) (auto simp: absent_def split: option.splits if_splits)
  next
    case (2 r h)
    then obtain x where h: "h = [ImgDocker ?look x]" "r = Inr False \<longrightarrow> absent p (hd h)" by blast
    show ?case
      by (intro guards_intros; (rule stage)?; use h in \<open>force simp: image_deployed_def image_cleaned_def absent_def\<close>)
  qed
qed

end
