(* ===== verification/Upgrade.thy ===== *)
theory Upgrade
  imports GoFiles Dispatcher
begin

text \<open>
  The upgrade of the agent (\<open>internal/upgrade/manager_linux.go\<close>). \<open>Prepare\<close> downloads the new binary and keeps it only when
  its size and digest are right; \<open>Activate\<close> writes a script that exchanges the binaries and starts it through systemd.
  SHA-256 and the HTTP client are parameters, and so is the part of Unicode's table of printable characters above
  ASCII, which the quoting of \<open>fmt\<close> consults.
\<close>

section \<open>Prepare\<close>

definition max_binary_bytes :: nat where "max_binary_bytes = 64 * 1024 * 1024"

definition staged_binary :: string where "staged_binary = ''/etc/xkp-agent/xkp-agent.new''"
definition backup_binary :: string where "backup_binary = ''/etc/xkp-agent/xkp-agent.backup''"
definition upgrade_script :: string where "upgrade_script = path_join [''/etc/xkp-agent'', ''.xkp-agent-upgrade.sh'']"

definition prepare_upgrade ::
    "(string \<Rightarrow> string) \<Rightarrow> (string \<Rightarrow> nat \<Rightarrow> goerr + body) \<Rightarrow> upgrade_payload \<Rightarrow> file_world err_op" where
  "prepare_upgrade sha download p =
     (case download (up_download_path p) max_binary_bytes of
        Inl e \<Rightarrow> op_return (Some e)
      | Inr b \<Rightarrow>
          let read = limit_body (max_binary_bytes + 1) b in
          try_err (fs_create staged_binary) (wrap ''create upgrade binary: '')
          (op_bind (copy_body staged_binary read) (\<lambda>copied. op_bind fs_touch (\<lambda>closed.
            if copied \<noteq> None \<or> closed \<noteq> None \<or> length (fst read) = 0 \<or> length (fst read) > max_binary_bytes
               \<or> sha (fst read) \<noteq> up_sha256 p
            then op_bind (fs_remove staged_binary) (\<lambda>_. op_return (Some (Plain ''upgrade binary verification failed'')))
            else fs_touch))))"

section \<open>Activate\<close>

text \<open>\<open>strconv.Quote\<close>, which is the verb \<open>%q\<close>.\<close>

definition rune_hex_text :: "nat \<Rightarrow> nat \<Rightarrow> string" where
  "rune_hex_text digits r = map (\<lambda>i. ''0123456789abcdef'' ! (r div 16 ^ i mod 16)) (rev [0..<digits])"

definition rune_printable :: "(nat \<Rightarrow> bool) \<Rightarrow> nat \<Rightarrow> bool" where
  "rune_printable table r = (if r < 128 then 32 \<le> r \<and> r \<le> 126 else table r)"

definition named_escapes :: "(nat \<times> char) list" where
  "named_escapes = [(7, CHR ''a''), (8, CHR ''b''), (12, CHR ''f''), (10, CHR ''n''), (13, CHR ''r''), (9, CHR ''t''), (11, CHR ''v'')]"

definition quote_rune :: "(nat \<Rightarrow> bool) \<Rightarrow> nat \<times> nat list \<Rightarrow> string" where
  "quote_rune table rb =
     (case rb of (r, bs) \<Rightarrow>
        if r = rune_error \<and> length bs = 1 then [CHR 0x5C, CHR ''x''] @ rune_hex_text 2 (hd bs)
        else if r = 34 \<or> r = 92 then [CHR 0x5C, char_of r]
        else if rune_printable table r then map char_of bs
        else (case map_of named_escapes r of
            Some c \<Rightarrow> [CHR 0x5C, c]
          | None \<Rightarrow>
              if r < 32 \<or> r = 127 then [CHR 0x5C, CHR ''x''] @ rune_hex_text 2 r
              else if r < 65536 then [CHR 0x5C, CHR ''u''] @ rune_hex_text 4 r
              else [CHR 0x5C, CHR ''U''] @ rune_hex_text 8 r))"

definition go_quote :: "(nat \<Rightarrow> bool) \<Rightarrow> string \<Rightarrow> string" where
  "go_quote table s = [CHR 0x22] @ concat (map (quote_rune table) (utf8_runes (map byte s))) @ [CHR 0x22]"

definition script_line :: "string \<Rightarrow> string" where
  "script_line s = s @ [CHR 0x0A]"

definition upgrade_text :: "(nat \<Rightarrow> bool) \<Rightarrow> string \<Rightarrow> string" where
  "upgrade_text table executable =
     (let q = go_quote table in
      concat (map script_line
        [''#!/bin/sh'', ''set -eu'',
         ''cp '' @ q executable @ '' '' @ q backup_binary,
         ''mv '' @ q staged_binary @ '' '' @ q executable,
         ''chmod 0755 '' @ q executable,
         ''systemctl restart xkp-agent.service'',
         ''sleep 8'',
         ''if ! systemctl is-active --quiet xkp-agent.service; then'',
         ''  cp '' @ q backup_binary @ '' '' @ q executable,
         ''  systemctl restart xkp-agent.service'',
         ''  exit 1'',
         ''fi'',
         ''rm -f '' @ q backup_binary @ '' '' @ q upgrade_script]))"

text \<open>\<open>run\<close> runs a program and waits for it.\<close>

definition activate_upgrade ::
    "(nat \<Rightarrow> bool) \<Rightarrow> (string \<Rightarrow> string list \<Rightarrow> file_world err_op) \<Rightarrow> string \<Rightarrow> file_world err_op" where
  "activate_upgrade table run executable =
     try_err (fs_call (\<lambda>fs. fs(upgrade_script \<mapsto> upgrade_text table executable))
               (\<lambda>n fs. fs(upgrade_script \<mapsto> take n (upgrade_text table executable)))) same
     (run ''/usr/bin/systemd-run'' [''--unit=xkp-agent-upgrade'', ''--on-active=2s'', upgrade_script])"

definition new_upgrade_manager ::
    "(nat \<Rightarrow> bool) \<Rightarrow> (string \<Rightarrow> string) \<Rightarrow> (string \<Rightarrow> nat \<Rightarrow> goerr + body) \<Rightarrow>
     (string \<Rightarrow> string list \<Rightarrow> file_world err_op) \<Rightarrow> string \<Rightarrow> file_world upgrade_manager" where
  "new_upgrade_manager table sha download run executable =
     \<lparr>um_prepare = prepare_upgrade sha download, um_activate = activate_upgrade table run executable\<rparr>"

section \<open>A staged binary is verified\<close>

lemma limit_body_cases:
  assumes "snd (limit_body (Suc n) b) = None" "length (fst (limit_body (Suc n) b)) \<le> n"
  shows "limit_body (Suc n) b = b"
  using assms by (auto simp: limit_body_def split: if_splits)

lemma prepare_outcome:
  assumes "prepare_upgrade sha download p w = (r, w')"
  shows "r = None \<Longrightarrow> \<exists>data. download (up_download_path p) max_binary_bytes = Inr (data, None) \<and> fw_files w' staged_binary = Some data
      \<and> 0 < length data \<and> length data \<le> max_binary_bytes \<and> sha data = up_sha256 p"
    and "f \<noteq> staged_binary \<Longrightarrow> fw_files w' f = fw_files w f"
proof -
  have "only_files {staged_binary} (prepare_upgrade sha download p)"
    unfolding prepare_upgrade_def Let_def by (intro only_intros; simp)
  from only_filesD [OF this assms] show "f \<noteq> staged_binary \<Longrightarrow> fw_files w' f = fw_files w f" by simp
  show "\<exists>data. download (up_download_path p) max_binary_bytes = Inr (data, None) \<and> fw_files w' staged_binary = Some data
      \<and> 0 < length data \<and> length data \<le> max_binary_bytes \<and> sha data = up_sha256 p" if "r = None"
  proof (cases "download (up_download_path p) max_binary_bytes")
    case (Inl e)
    with assms that show ?thesis by (simp add: prepare_upgrade_def op_return_def)
  next
    case (Inr b)
    let ?b = "limit_body (max_binary_bytes + 1) b"
    obtain x1 w1 where w1: "fs_create staged_binary w = (x1, w1)" by (cases "fs_create staged_binary w")
    obtain x2 w2 where w2: "copy_body staged_binary ?b w1 = (x2, w2)" by (cases "copy_body staged_binary ?b w1")
    obtain x3 w3 where w3: "fs_touch w2 = (x3, w3)" by (cases "fs_touch w2")
    have ok: "x1 = None" "x2 = None" "x3 = None" "0 < length (fst ?b)" "length (fst ?b) \<le> max_binary_bytes" "sha (fst ?b) = up_sha256 p"
      and last: "fs_touch w3 = (None, w')"
      using assms that Inr w1 w2 w3
      by (auto simp: prepare_upgrade_def Let_def try_err_def op_bind_def op_return_def split: option.splits if_splits prod.splits)
    have c: "fw_files w2 staged_binary = Some (fst ?b)" "snd ?b = None" using copy_complete w2 ok(2) by auto
    have b: "?b = b" using limit_body_cases [of max_binary_bytes b] c(2) ok(5) by simp
    have "fw_files w' = fw_files w2"
      using w3 last by (auto simp: fs_touch_def elim!: fs_call_cases)
    with c b ok Inr show ?thesis by (cases b) auto
  qed
qed

end
