(* ===== verification/PowerControl.thy ===== *)
theory PowerControl
  imports Dispatcher Guards
begin

text \<open>
  Power control (\<open>internal/power\<close>): on Linux the commands that switch the machine off are tried one after another
  until one succeeds or the context has ended; elsewhere the controller refuses. \<open>run\<close> runs a program with its
  arguments and \<open>ctx\<close> is the error of the context.
\<close>

definition poweroff_commands :: "(string \<times> string list) list" where
  "poweroff_commands =
     [(''/usr/bin/loginctl'', [''poweroff'']), (''/usr/bin/systemctl'', [''poweroff'']),
      (''/usr/sbin/shutdown'', [''-h'', ''now'']), (''/sbin/poweroff'', [])]"

fun try_poweroff ::
    "(string \<Rightarrow> string list \<Rightarrow> 'e err_op) \<Rightarrow> ('e, goerr option) op \<Rightarrow> (string \<times> string list) list \<Rightarrow> string list \<Rightarrow> 'e err_op" where
  "try_poweroff run ctx [] failures =
     op_return (Some (Plain (''all poweroff methods failed: '' @ join_with ''; '' failures)))"
| "try_poweroff run ctx ((name, args) # cs) failures =
     op_bind (run name args) (\<lambda>r. case r of
        None \<Rightarrow> op_return None
      | Some e \<Rightarrow> op_bind ctx (\<lambda>ended. case ended of
            Some x \<Rightarrow> op_return (Some x)
          | None \<Rightarrow> try_poweroff run ctx cs (failures @ [name @ '': '' @ err_text e])))"

definition linux_shutdown :: "(string \<Rightarrow> string list \<Rightarrow> 'e err_op) \<Rightarrow> ('e, goerr option) op \<Rightarrow> 'e err_op" where
  "linux_shutdown run ctx = try_poweroff run ctx poweroff_commands []"

definition unsupported_shutdown :: "'e err_op" where
  "unsupported_shutdown = op_return (Some ErrUnsupportedPlatform)"

section \<open>What was tried\<close>

datatype power_event = PowerRan "string \<times> string list" "goerr option" | PowerContext "goerr option"

definition logged_run :: "(string \<Rightarrow> string list \<Rightarrow> 'e err_op) \<Rightarrow> string \<Rightarrow> string list \<Rightarrow> ('e \<times> power_event list) err_op" where
  "logged_run run name args = log_op (PowerRan (name, args)) (run name args)"

definition logged_ctx :: "('e, goerr option) op \<Rightarrow> ('e \<times> power_event list, goerr option) op" where
  "logged_ctx ctx = log_op PowerContext ctx"

text \<open>A failed attempt: the command failed and the context had not ended.\<close>

definition failed_attempt :: "string \<times> string list \<Rightarrow> goerr \<Rightarrow> power_event list" where
  "failed_attempt c e = [PowerRan c (Some e), PowerContext None]"

fun failed_attempts :: "((string \<times> string list) \<times> goerr) list \<Rightarrow> power_event list" where
  "failed_attempts [] = []"
| "failed_attempts ((c, e) # fs) = failed_attempt c e @ failed_attempts fs"

definition failure_text :: "(string \<times> string list) \<times> goerr \<Rightarrow> string" where
  "failure_text f = fst (fst f) @ '': '' @ err_text (snd f)"

text \<open>
  The result and the calls: some commands from the front of the list fail; then the next one succeeds, or it fails and the
  context has ended, or there is none left.
\<close>

definition poweroff_run :: "(string \<times> string list) list \<Rightarrow> string list \<Rightarrow> goerr option \<Rightarrow> power_event list \<Rightarrow> bool" where
  "poweroff_run cs failures r tr \<longleftrightarrow>
     (\<exists>fs rest. cs = map fst fs @ rest \<and>
        ((\<exists>c cs'. rest = c # cs' \<and> r = None \<and> tr = failed_attempts fs @ [PowerRan c None])
         \<or> (\<exists>c cs' e x. rest = c # cs' \<and> r = Some x \<and> tr = failed_attempts fs @ [PowerRan c (Some e), PowerContext (Some x)])
         \<or> (rest = [] \<and> tr = failed_attempts fs \<and>
            r = Some (Plain (''all poweroff methods failed: '' @ join_with ''; '' (failures @ map failure_text fs))))))"

lemma poweroff_run_cons:
  "poweroff_run cs (failures @ [failure_text (c, e)]) r tr \<Longrightarrow> poweroff_run (c # cs) failures r (failed_attempt c e @ tr)"
  unfolding poweroff_run_def
  by (elim exE conjE disjE; rule exI [of _ "(c, e) # _"]; auto)

lemma try_poweroff_emits:
  "emits (try_poweroff (logged_run run) (logged_ctx ctx) cs failures) (poweroff_run cs failures)"
proof (induction cs arbitrary: failures)
  case Nil
  show ?case unfolding try_poweroff.simps
    by (rule emits_return) (simp add: poweroff_run_def exI [of _ "[]"])
next
  case (Cons c cs)
  obtain name args where c: "c = (name, args)" by (cases c)
  have first: "poweroff_run (c # cs) failures None [PowerRan c None]"
    unfolding poweroff_run_def by (rule exI [of _ "[]"]) simp
  have ended: "poweroff_run (c # cs) failures (Some x) [PowerRan c (Some e), PowerContext (Some x)]" for e x
    unfolding poweroff_run_def by (rule exI [of _ "[]"]) simp
  have later: "emits (try_poweroff (logged_run run) (logged_ctx ctx) cs (failures @ [name @ '': '' @ err_text e]))
      (\<lambda>y u. poweroff_run (c # cs) failures y (PowerRan c (Some e) # PowerContext None # u))" for e
    by (rule emits_conseq [OF Cons.IH]) (use poweroff_run_cons [of cs failures c e] in \<open>simp add: failure_text_def failed_attempt_def c\<close>)
  show ?case
    unfolding c try_poweroff.simps logged_run_def [of run name args] logged_ctx_def
    by (intro emits_intros; use first ended later in \<open>simp add: c logged_ctx_def\<close>)
qed

end
