(* ===== verification/ManagerClaims.thy ===== *)
theory ManagerClaims
  imports ModelDeploy DockerInventory FileTransfer ImageDeploy Upgrade PowerControl
begin

text \<open>
  Properties of the managers the dispatcher calls for a command: the model deployment, the Docker inventory, the file
  transfer, the image deployment, the upgrade and the power control.
\<close>

section \<open>Model deployment\<close>

text \<open>
  C34. A shell reads the deployment as it is meant. For paths that the decoder accepts (\<open>validModelPath\<close>), whatever bytes they
  contain, \<open>Deploy\<close> runs one command in the container of the payload, \<open>sh -lc\<close> with a text that a shell splits into exactly
  these commands and words, with nothing expanded: the directory of the models is made; without \<open>overwrite\<close> both targets are tested
  to be absent; the student's two files of those names are copied, each to its last name in the model's or the program's
  directory, forcibly only with \<open>overwrite\<close> (and a configuration called \<open>object_detector.py\<close> is copied to its place once more). It
  succeeds exactly when that one command does. What \<open>mkdir\<close>, \<open>test\<close> and \<open>cp\<close> do with these words is not modelled.
\<close>

theorem model_deploy_exact:
  assumes "valid_model_path (mw_model_path p)" "valid_model_path (mw_config_path p)"
  defines "model \<equiv> last (split_on (CHR ''/'') (mw_model_path p))" and "config \<equiv> last (split_on (CHR ''/'') (mw_config_path p))"
    and "cp \<equiv> (if mw_overwrite p then [''cp'', ''-f'', ''--''] else [''cp'', ''--''])"
  shows "\<exists>text. model_deploy (\<lambda>c ws ran. (answer, ran @ [(c, ws)])) p [] =
      (case answer of Inl e \<Rightarrow> Some (wrap ''deploy model files: '' e) | Inr out \<Rightarrow> None,
       [(mw_container_name p, [''sh'', ''-lc'', text])]) \<and>
    sh_read text = Some (
      [[''mkdir'', ''-p'', ''/usr/local/zy-T100/utils_x86/models/A'']] @
      (if mw_overwrite p then [] else
        [[''test'', ''!'', ''-e'', ''/usr/local/zy-T100/utils_x86/models/A/'' @ model],
         [''test'', ''!'', ''-e'', ''/usr/local/zy-T100/utils_x86/'' @ config]]) @
      [cp @ [''/home/student/'' @ mw_model_path p, ''/usr/local/zy-T100/utils_x86/models/A/'' @ model],
       cp @ [''/home/student/'' @ mw_config_path p, ''/usr/local/zy-T100/utils_x86/'' @ config]] @
      (if config = ''object_detector.py''
       then [cp @ [''/home/student/'' @ mw_config_path p, ''/usr/local/zy-T100/utils_x86/object_detector.py'']] else []))"
proof (intro exI conjI)
  show "model_deploy (\<lambda>c ws ran. (answer, ran @ [(c, ws)])) p [] =
      (case answer of Inl e \<Rightarrow> Some (wrap ''deploy model files: '' e) | Inr out \<Rightarrow> None,
       [(mw_container_name p, [''sh'', ''-lc'', deploy_command p])])"
    by (simp add: model_deploy_def op_bind_def op_return_def)
  show "sh_read (deploy_command p) = Some (
      [[''mkdir'', ''-p'', ''/usr/local/zy-T100/utils_x86/models/A'']] @
      (if mw_overwrite p then [] else
        [[''test'', ''!'', ''-e'', ''/usr/local/zy-T100/utils_x86/models/A/'' @ model],
         [''test'', ''!'', ''-e'', ''/usr/local/zy-T100/utils_x86/'' @ config]]) @
      [cp @ [''/home/student/'' @ mw_model_path p, ''/usr/local/zy-T100/utils_x86/models/A/'' @ model],
       cp @ [''/home/student/'' @ mw_config_path p, ''/usr/local/zy-T100/utils_x86/'' @ config]] @
      (if config = ''object_detector.py''
       then [cp @ [''/home/student/'' @ mw_config_path p, ''/usr/local/zy-T100/utils_x86/object_detector.py'']] else []))"
    unfolding deploy_command_read [OF deploy_paths_no_nul [OF assms(1,2)]] deploy_commands_def deploy_paths [OF assms(1,2)]
    by (simp add: path_base_valid(1) [OF assms(1)] path_base_valid(1) [OF assms(2)] model_def config_def cp_def cp_words_def
        detector_name_def detector_target_def student_root_def target_root_def config_target_root_def)
qed

definition model_payload :: model_workspace_payload where
  "model_payload = \<lparr>mw_action = ''DEPLOY'', mw_container_name = ''editor'', mw_model_path = ''models/a model.onnx'',
     mw_config_path = ''config/a.json'', mw_overwrite = False\<rparr>"

lemma model_payload_valid: "valid_model_path (mw_model_path model_payload)" "valid_model_path (mw_config_path model_payload)"
  by code_simp+

theorem model_deploy_exact_witness:
  "\<exists>text. snd (model_deploy (\<lambda>c ws ran. (Inr [], ran @ [(c, ws)])) model_payload []) = [(''editor'', [''sh'', ''-lc'', text])] \<and>
     sh_read text = Some
       [[''mkdir'', ''-p'', ''/usr/local/zy-T100/utils_x86/models/A''],
        [''test'', ''!'', ''-e'', ''/usr/local/zy-T100/utils_x86/models/A/a model.onnx''],
        [''test'', ''!'', ''-e'', ''/usr/local/zy-T100/utils_x86/a.json''],
        [''cp'', ''--'', ''/home/student/models/a model.onnx'', ''/usr/local/zy-T100/utils_x86/models/A/a model.onnx''],
        [''cp'', ''--'', ''/home/student/config/a.json'', ''/usr/local/zy-T100/utils_x86/a.json'']]"
  using model_deploy_exact [OF model_payload_valid, of "Inr []"]
  by (fastforce simp: model_payload_def)

text \<open>The list of a student's files: the names below the student's directory, sorted, whatever lines \<open>find\<close> prints in whatever order.\<close>

theorem listed_files_exact:
  assumes "\<forall>f\<in>set fs. CHR 0x0A \<notin> set f"
  shows "listed_files (concat (map (\<lambda>f. student_root @ ''/'' @ f @ [CHR 0x0A]) fs)) = sort fs"
proof -
  have line: "split_on (CHR 0x0A) (student_root @ CHR ''/'' # f @ CHR 0x0A # s) = (student_root @ CHR ''/'' # f) # split_on (CHR 0x0A) s"
    if "CHR 0x0A \<notin> set f" for f s
    using split_on_append [of "CHR 0x0A" "student_root @ ''/'' @ f" s] that by (simp add: student_root_def)
  have "split_on (CHR 0x0A) (concat (map (\<lambda>f. student_root @ ''/'' @ f @ [CHR 0x0A]) fs))
      = map (\<lambda>f. student_root @ ''/'' @ f) fs @ [[]]"
    using assms by (induction fs) (simp_all add: line)
  moreover have "has_prefix (student_root @ ''/'' @ f) (student_root @ ''/'')" for f by (simp add: has_prefix_iff)
  moreover have "\<not> has_prefix [] (student_root @ ''/'')" by (simp add: student_root_def)
  ultimately show ?thesis by (simp add: listed_files_def trim_prefix_def comp_def)
qed

section \<open>Docker inventory\<close>

text \<open>
  C35. Nothing is removed that is in use. Whatever the Docker daemon answers, in every run of \<open>Execute\<close> a container is removed only for
  \<open>DELETE_CONTAINER\<close>, under the identifier the inspection right before showed, and only when its labels are not the platform's; a
  reference of an image is untagged only for \<open>DELETE_IMAGE\<close>, when the inspection right before showed that it still names the
  image of the command, and the list of all containers showed none that uses that image. A removal is reported only when it was done: the
  container was removed, or every reference was untagged and Docker no longer finds the image. An inspection removes nothing.
\<close>

theorem inventory_removals_guarded:
  "guarded (removal_allowed p) (snd (snd (execute_inventory (logged_inventory d) p (e, [])))) \<and>
   removal_reported d p (fst (execute_inventory (logged_inventory d) p (e, [])))
     (snd (snd (execute_inventory (logged_inventory d) p (e, []))))"
  using guards_run [OF execute_guards [of p d], of e] by (metis prod.collapse)

section \<open>File transfer\<close>

text \<open>
  C36. A transfer replaces one file, with the announced bytes. Let the root be absolute (as the configuration requires), and let the fresh name
  that \<open>CreateTemp\<close> chooses not be the target's own. When \<open>Transfer\<close> succeeds, its target lies below the root by the elements of the
  cleaned path, with no \<open>..\<close> among them, and is the root itself exactly for a path that is \<open>.\<close> when cleaned (such as \<open>./\<close>); no
  symbolic link was seen on the way from the root to it; and its content is the whole download, whose SHA-256 digest is the
  announced one. When it fails, whichever call fails, the target is what it was. In both cases no other file changes but the
  temporary one.
\<close>

theorem transfer_verified:
  assumes "run_transfer sha download root p w = (r, w')" "is_abs root"
    "\<forall>target rel. transfer_path root (ft_target_relative_path p) = Inr (target, rel) \<longrightarrow> fw_temp w (path_dir target) \<noteq> target"
  shows "(r = None \<longrightarrow> (\<exists>target es data. is_abs target \<and> (\<forall>e\<in>set es. clean_elem e \<and> e \<noteq> dotdot) \<and>
      clean_elems target = clean_elems root @ es \<and> (es = [] \<longleftrightarrow> path_clean (ft_target_relative_path p) = dot) \<and>
      (\<forall>k<length es. (\<forall>j<k. fw_lstat w (below root (take (Suc j) es)) = LstatOther) \<longrightarrow>
         fw_lstat w (below root (take (Suc k) es)) \<noteq> LstatSymlink) \<and>
      download (ft_download_path p) = Inr (data, None) \<and> sha data = ft_sha256 p \<and> fw_files w' target = Some data \<and>
      (\<forall>f. f \<noteq> target \<and> f \<noteq> fw_temp w (path_dir target) \<longrightarrow> fw_files w' f = fw_files w f))) \<and>
    (r \<noteq> None \<longrightarrow> (\<forall>f. fw_files w' f \<noteq> fw_files w f \<longrightarrow>
      (\<exists>target rel. transfer_path root (ft_target_relative_path p) = Inr (target, rel) \<and> f = fw_temp w (path_dir target) \<and> f \<noteq> target)))"
proof (intro conjI impI)
  let ?t = "ft_target_relative_path p"
  have quiet: "(\<exists>e. r = Some e \<and> w' = w) \<or> (\<exists>target rel. transfer_path root ?t = Inr (target, rel) \<and>
      walk_transfer (fw_lstat w) root (split_on (CHR ''/'') rel) = None \<and> fetch_to sha download p target w = (r, w'))"
    using assms(1) by (auto simp: run_transfer_def op_return_def op_bind_def split: sum.splits option.splits prod.splits)
  show "\<exists>target es data. is_abs target \<and> (\<forall>e\<in>set es. clean_elem e \<and> e \<noteq> dotdot) \<and>
      clean_elems target = clean_elems root @ es \<and> (es = [] \<longleftrightarrow> path_clean (ft_target_relative_path p) = dot) \<and>
      (\<forall>k<length es. (\<forall>j<k. fw_lstat w (below root (take (Suc j) es)) = LstatOther) \<longrightarrow>
         fw_lstat w (below root (take (Suc k) es)) \<noteq> LstatSymlink) \<and>
      download (ft_download_path p) = Inr (data, None) \<and> sha data = ft_sha256 p \<and> fw_files w' target = Some data \<and>
      (\<forall>f. f \<noteq> target \<and> f \<noteq> fw_temp w (path_dir target) \<longrightarrow> fw_files w' f = fw_files w f)" if "r = None"
  proof -
    from quiet that obtain target rel where t: "transfer_path root ?t = Inr (target, rel)"
      "walk_transfer (fw_lstat w) root (split_on (CHR ''/'') rel) = None" "fetch_to sha download p target w = (None, w')" by auto
    obtain es where es: "\<forall>e\<in>set es. clean_elem e \<and> e \<noteq> dotdot" "is_abs target" "clean_elems target = clean_elems root @ es"
      "es = [] \<longleftrightarrow> path_clean ?t = dot" "es \<noteq> [] \<Longrightarrow> split_on (CHR ''/'') rel = es"
    proof (cases "path_clean ?t = dot")
      case True
      with that [of "[]"] transfer_path_root [OF t(1) assms(2) True] show ?thesis by simp
    next
      case False
      with that transfer_path_below [OF t(1) assms(2) False] show ?thesis by blast
    qed
    have link: "fw_lstat w (below root (take (Suc k) es)) \<noteq> LstatSymlink"
      if "k < length es" "\<forall>j<k. fw_lstat w (below root (take (Suc j) es)) = LstatOther" for k
    proof -
      have "split_on (CHR ''/'') rel = es" by (rule es(5)) (use that(1) in auto)
      from walk_transfer_no_symlink [OF t(2) [unfolded this] that] show ?thesis .
    qed
    note f = fetch_verified [OF t(3) assms(3) [rule_format, OF t(1)]]
    from f(1) obtain data where "fw_files w' target = Some data" "download (ft_download_path p) = Inr (data, None)" "sha data = ft_sha256 p"
      by auto
    with es(1-4) f(2) link show ?thesis by blast
  qed
  show "\<forall>f. fw_files w' f \<noteq> fw_files w f \<longrightarrow>
      (\<exists>target rel. transfer_path root (ft_target_relative_path p) = Inr (target, rel) \<and> f = fw_temp w (path_dir target) \<and> f \<noteq> target)" if "r \<noteq> None"
    using quiet
  proof (elim disjE exE conjE)
    fix target rel assume t: "transfer_path root ?t = Inr (target, rel)" "fetch_to sha download p target w = (r, w')"
    from fetch_verified [OF t(2) assms(3) [rule_format, OF t(1)]] assms(3) t(1) that show ?thesis by metis
  qed simp
qed

definition transfer_world :: file_world where
  "transfer_world = \<lparr>fw_files = Map.empty, fw_lstat = (\<lambda>f. LstatMissing), fw_temp = (\<lambda>d. d @ ''/.transfer-1.part''), fw_faults = []\<rparr>"

definition transfer_payload :: "string \<Rightarrow> file_transfer_payload" where
  "transfer_payload target = \<lparr>ft_download_path = ''/agent/v1/files/1'', ft_target_relative_path = target, ft_sha256 = ''digest''\<rparr>"

definition transfer_one :: "string \<Rightarrow> goerr option \<times> file_world" where
  "transfer_one target =
     run_transfer (\<lambda>_. ''digest'') (\<lambda>_. Inr (''data'', None)) ''/srv/env'' (transfer_payload target) transfer_world"

lemma transfer_one_path: "transfer_path ''/srv/env'' ''data/set.zip'' = Inr (''/srv/env/data/set.zip'', ''data/set.zip'')"
  by code_simp

theorem transfer_verified_witness:
  "fst (transfer_one ''data/set.zip'') = None \<and> (\<exists>target. fw_files (snd (transfer_one ''data/set.zip'')) target = Some ''data'')"
proof -
  let ?p = "transfer_payload ''data/set.zip''"
  have run: "run_transfer (\<lambda>_. ''digest'') (\<lambda>_. Inr (''data'', None)) ''/srv/env'' ?p transfer_world
      = (fst (transfer_one ''data/set.zip''), snd (transfer_one ''data/set.zip''))" by (simp add: transfer_one_def)
  have target: "transfer_path ''/srv/env'' (ft_target_relative_path ?p) = Inr (''/srv/env/data/set.zip'', ''data/set.zip'')"
    using transfer_one_path by (simp add: transfer_payload_def)
  have temp: "fw_temp transfer_world (path_dir t) \<noteq> t"
    if "transfer_path ''/srv/env'' (ft_target_relative_path ?p) = Inr (t, rel)" for t rel
  proof -
    have "t = ''/srv/env/data/set.zip''" using that unfolding target by blast
    moreover have "fw_temp transfer_world (path_dir ''/srv/env/data/set.zip'') \<noteq> ''/srv/env/data/set.zip''" by code_simp
    ultimately show ?thesis by simp
  qed
  have temps: "\<forall>t rel. transfer_path ''/srv/env'' (ft_target_relative_path ?p) = Inr (t, rel) \<longrightarrow> fw_temp transfer_world (path_dir t) \<noteq> t"
    using temp by blast
  have "is_abs ''/srv/env''" by code_simp
  note facts = transfer_verified [OF run this temps]
  have "fst (transfer_one ''data/set.zip'') = None"
    unfolding transfer_one_def run_transfer_def target by code_simp
  with facts show ?thesis by auto
qed

text \<open>
  The check of the target does not refuse the root itself: for the path \<open>./\<close>, which the decoder accepts, the target is the root, and when
  the root does not exist yet it becomes a file.
\<close>

theorem transfer_replaces_root:
  "\<not> contains_str ''./'' ''..'' \<and> \<not> is_abs ''./'' \<and> fst (transfer_one ''./'') = None \<and>
   fw_files (snd (transfer_one ''./'')) ''/srv/env'' = Some ''data''"
  by code_simp

section \<open>Image deployment\<close>

text \<open>
  C37. An image is replaced only as asked, loaded only from a complete archive, and nothing is left behind. In every run of
  \<open>Deploy\<close>, whatever Docker, the network, the files and the reports of progress answer: the download starts only when Docker did not have
  the image, or \<open>overwrite\<close> is set; progress is the number of bytes written, reported in steps of at least 64 MiB or at the
  announced size; \<open>docker load\<close> runs only after the download was read to its end with no failed read, as many bytes were written as were read with
  no failed write, no report of the download's progress failed, and the file, with between one byte and 50 GiB in it, was
  closed without an error; the staging directory
  that was made is removed, and the archive that was opened is closed last; and success means that the load succeeded and that an inspection of
  the image showed the digest in the details.
\<close>

theorem image_deployment_guarded:
  "guarded (image_allowed p) (snd (snd (run_job (deploy_image (logged_tools t) p) (logged_report cb) (e, [])))) \<and>
   image_deployed p (fst (run_job (deploy_image (logged_tools t) p) (logged_report cb) (e, [])))
     (snd (snd (run_job (deploy_image (logged_tools t) p) (logged_report cb) (e, []))))"
  using guards_run [OF deploy_guards [of p t cb], of e] by (metis prod.collapse)

text \<open>
  The copying of an archive ends. For a reader that gives at least one byte for each read before the last, and no more than it was asked for, the limit of the
  reader bounds the copying: with a number of rounds above 50 GiB and one byte the whole deployment is the same for every such
  number, whatever the download announces or contains.
\<close>

theorem image_copy_ends:
  assumes "steady_reader t" "nat (max_archive_bytes + 1) < n" "nat (max_archive_bytes + 1) < n'"
  shows "run_job (deploy_image (t\<lparr>it_rounds := n\<rparr>) p) cb e = run_job (deploy_image (t\<lparr>it_rounds := n'\<rparr>) p) cb e"
  by (rule deploy_enough [OF assms])

definition endless_tools :: "unit image_tools" where
  "endless_tools =
     \<lparr>it_docker = (\<lambda>args e. ((''No such image: x'', if length args = 3 then Some (Plain ''exit status 1'') else None), e)),
      it_download = (\<lambda>i n e. (Inr 7, e)), it_read = (\<lambda>n e. ((n, ReadMore), e)), it_close_archive = (\<lambda>e. ((), e)),
      it_make_dir = (\<lambda>e. (Inr ''/tmp/xkp-image-deployment-1'', e)), it_remove_dir = (\<lambda>d e. ((), e)),
      it_open = (\<lambda>f e. (None, e)), it_write = (\<lambda>n e. ((n, None), e)), it_close_file = (\<lambda>e. (None, e)), it_rounds = 0\<rparr>"

theorem image_copy_ends_witness:
  "run_job (deploy_image (endless_tools\<lparr>it_rounds := nat (max_archive_bytes + 2)\<rparr>) p) cb ()
     = run_job (deploy_image (endless_tools\<lparr>it_rounds := nat (max_archive_bytes + 3)\<rparr>) p) cb ()"
proof -
  have "steady_reader endless_tools" by (simp add: steady_reader_def endless_tools_def)
  then show ?thesis by (rule image_copy_ends) (simp_all add: max_archive_bytes_def)
qed

section \<open>Upgrade and power\<close>

text \<open>
  C38. A binary is staged for the upgrade only when it is the announced one. When \<open>Prepare\<close> succeeds, the file
  \<open>xkp-agent.new\<close> holds the whole download, which has between one byte and 64 MiB and the announced SHA-256 digest; and whether it
  succeeds or not no other file changes, so the running binary is untouched.
\<close>

theorem staged_binary_verified:
  assumes "prepare_upgrade sha download p w = (r, w')"
  shows "(r = None \<longrightarrow> (\<exists>data. download (up_download_path p) max_binary_bytes = Inr (data, None) \<and> fw_files w' staged_binary = Some data
      \<and> 0 < length data \<and> length data \<le> max_binary_bytes \<and> sha data = up_sha256 p)) \<and>
    (\<forall>f. f \<noteq> staged_binary \<longrightarrow> fw_files w' f = fw_files w f)"
  using prepare_outcome [OF assms] by blast

definition upgrade_payload1 :: upgrade_payload where
  "upgrade_payload1 = \<lparr>up_target_version = ''0.3.0'', up_download_path = ''/agent/v1/upgrade-binary'', up_sha256 = ''digest''\<rparr>"

theorem staged_binary_verified_witness:
  "\<exists>w. prepare_upgrade (\<lambda>_. ''digest'') (\<lambda>_ _. Inr (''binary'', None)) upgrade_payload1 transfer_world = (None, w) \<and>
     fw_files w staged_binary = Some ''binary''"
proof -
  obtain r w where run: "prepare_upgrade (\<lambda>_. ''digest'') (\<lambda>_ _. Inr (''binary'', None)) upgrade_payload1 transfer_world = (r, w)"
    by (metis prod.collapse)
  moreover have "fst (prepare_upgrade (\<lambda>_. ''digest'') (\<lambda>_ _. Inr (''binary'', None)) upgrade_payload1 transfer_world) = None"
    by (simp add: prepare_upgrade_def limit_body_def max_binary_bytes_def try_err_def op_bind_def op_return_def fs_create_def
        copy_body_def fs_touch_def fs_call_def transfer_world_def upgrade_payload1_def)
  ultimately have "r = None" by simp
  with staged_binary_verified [OF run] run show ?thesis by auto
qed

text \<open>
  The machine is switched off by the first command that works. \<open>Shutdown\<close> tries \<open>loginctl\<close>, \<open>systemctl\<close>, \<open>shutdown\<close> and \<open>poweroff\<close> in
  this order, each once; it succeeds exactly when one of them did, and tries none after it; a context that has ended stops it with the
  context's error; and when all have failed the error names each command with its failure.
\<close>

theorem poweroff_in_order:
  "poweroff_run poweroff_commands [] (fst (linux_shutdown (logged_run run) (logged_ctx ctx) (e, [])))
     (snd (snd (linux_shutdown (logged_run run) (logged_ctx ctx) (e, []))))"
  using emitsD [OF try_poweroff_emits [of run ctx poweroff_commands "[]"], of e "[]"] unfolding linux_shutdown_def
  by (metis append_Nil prod.collapse)

end
