(* ===== verification/Config.thy ===== *)
theory Config
  imports CommandStore GoPath
begin

text \<open>
  The configuration (\<open>internal/config/config.go\<close>): reading and validating the file, and replacing it after the
  enrollment. The YAML library is a pair of parameters, as is the reading of the CA certificate; the file has its
  permission bits, and a list of faults says which file operations fail, and a write after how many bytes.
\<close>

record config =
  cf_management_url :: string
  cf_ca :: string
  cf_workspace :: string
  cf_environment_root :: string
  cf_tls_dir :: string
  cf_agent_id :: string
  cf_credential :: string
  cf_development :: bool

section \<open>Validation\<close>

definition default_tls_dir :: string where
  "default_tls_dir = ''/etc/xkp-agent/code-server-tls''"

definition validate_config :: "(string \<Rightarrow> goerr option) \<Rightarrow> config \<Rightarrow> goerr option" where
  "validate_config read_ca cfg =
     (let c = (if cf_tls_dir cfg = [] then cfg\<lparr>cf_tls_dir := default_tls_dir\<rparr> else cfg) in
      case url_parse (cf_management_url c) of
        None \<Rightarrow> Some (Plain ''invalid management URL'')
      | Some u \<Rightarrow>
          if u_host u = [] then Some (Plain ''invalid management URL'')
          else if \<not> cf_development c \<and> u_scheme u \<noteq> ''https'' then Some (Plain ''production management URL must use HTTPS'')
          else if cf_development c \<and> u_scheme u \<noteq> ''https'' \<and> u_scheme u \<noteq> ''http'' then Some (Plain ''invalid management URL scheme'')
          else if \<not> is_abs (cf_workspace c) then Some (Plain ''workspace path must be absolute'')
          else if \<not> is_abs (cf_environment_root c) then Some (Plain ''environment workspace root must be absolute'')
          else if cf_tls_dir c \<noteq> [] \<and> \<not> is_abs (cf_tls_dir c) \<and> \<not> has_prefix (cf_tls_dir c) ''/''
          then Some (Plain ''code-server TLS directory must be absolute'')
          else if \<not> cf_development c \<and> cf_ca c = [] then Some (Plain ''CA certificate is required'')
          else (case if cf_development c then None else read_ca (cf_ca c) of
              Some e \<Rightarrow> Some (wrap ''read CA certificate: '' e)
            | None \<Rightarrow>
                if (cf_agent_id c = []) \<noteq> (cf_credential c = [])
                then Some (Plain ''agent ID and credential must be stored together'') else None))"

section \<open>Files\<close>

record config_world =
  cw_file :: "(nat \<times> string) option"
  cw_temp :: "(nat \<times> string) option"
  cw_faults :: "nat option list"

definition cw_call :: "(config_world \<Rightarrow> config_world) \<Rightarrow> (nat \<Rightarrow> config_world \<Rightarrow> config_world) \<Rightarrow> config_world err_op" where
  "cw_call works fails w =
     (let w' = w\<lparr>cw_faults := tl (cw_faults w)\<rparr> in
      case cw_faults w of
        Some n # r \<Rightarrow> (Some (Plain ''i/o error''), fails n w')
      | _ \<Rightarrow> (None, works w'))"

definition cw_try :: "(config_world \<Rightarrow> config_world) \<Rightarrow> config_world err_op" where
  "cw_try works = cw_call works (\<lambda>n. id)"

section \<open>Load\<close>

definition join_ca :: "string \<Rightarrow> config \<Rightarrow> config" where
  "join_ca path c =
     (if cf_ca c \<noteq> [] \<and> \<not> is_abs (cf_ca c) then c\<lparr>cf_ca := path_join [path_dir path, cf_ca c]\<rparr> else c)"

definition default_config :: "config \<Rightarrow> config" where
  "default_config c =
     (let c1 = (if cf_environment_root c = [] then c\<lparr>cf_environment_root := path_join [cf_workspace c, ''environments'']\<rparr> else c)
      in if cf_tls_dir c1 = [] then c1\<lparr>cf_tls_dir := default_tls_dir\<rparr> else c1)"

definition load_config ::
    "(string \<Rightarrow> goerr + config) \<Rightarrow> (string \<Rightarrow> goerr option) \<Rightarrow> string \<Rightarrow> (config_world, config) res_op" where
  "load_config decode read_ca path w =
     (case cw_try id w of
        (Some e, w1) \<Rightarrow> (Inl (wrap ''open configuration: '' e), w1)
      | (None, w1) \<Rightarrow>
          (case cw_file w of
             None \<Rightarrow> (Inl (wrap ''open configuration: '' (Plain ''file does not exist'')), w1)
           | Some (mode, text) \<Rightarrow>
               (case decode text of
                  Inl e \<Rightarrow> (Inl (wrap ''decode configuration: '' e), w1)
                | Inr raw \<Rightarrow>
                    (let cfg = default_config (join_ca path raw) in
                     case validate_config read_ca cfg of
                       Some e \<Rightarrow> (Inl e, w1)
                     | None \<Rightarrow>
                         if cf_credential cfg = [] then (Inr cfg, w1)
                         else (case cw_try id w1 of
                             (Some e, w2) \<Rightarrow> (Inl e, w2)
                           | (None, w2) \<Rightarrow>
                               if mode mod 64 \<noteq> 0 then (Inl (Plain ''credential file permissions must be 0600''), w2)
                               else (Inr cfg, w2))))))"

section \<open>Save\<close>

definition private_mode :: nat where "private_mode = 6 * 64"

text \<open>What follows the creation of the temporary file, and runs before its deferred removal.\<close>

definition fill_temp :: "string \<Rightarrow> config_world err_op" where
  "fill_temp data =
     try_err (cw_try (\<lambda>w. w\<lparr>cw_temp := map_option (\<lambda>t. (private_mode, snd t)) (cw_temp w)\<rparr>)) same
     (try_err (cw_call (\<lambda>w. w\<lparr>cw_temp := map_option (\<lambda>t. (fst t, data)) (cw_temp w)\<rparr>)
                       (\<lambda>n w. w\<lparr>cw_temp := map_option (\<lambda>t. (fst t, take n data)) (cw_temp w)\<rparr>)) same
     (try_err (cw_try id) same
     (try_err (cw_try id) same
     (try_err (cw_try (\<lambda>w. w\<lparr>cw_file := cw_temp w, cw_temp := None\<rparr>)) same
     (cw_try (\<lambda>w. w\<lparr>cw_file := map_option (\<lambda>t. (private_mode, snd t)) (cw_file w)\<rparr>))))))"

definition save_config :: "(config \<Rightarrow> goerr + string) \<Rightarrow> config \<Rightarrow> config_world err_op" where
  "save_config encode cfg =
     (case encode cfg of
        Inl e \<Rightarrow> op_return (Some e)
      | Inr data \<Rightarrow>
          try_err (cw_try id) same
          (try_err (cw_try (\<lambda>w. w\<lparr>cw_temp := Some (private_mode, [])\<rparr>)) same
          (op_bind (fill_temp data) (\<lambda>r. op_bind (cw_try (\<lambda>w. w\<lparr>cw_temp := None\<rparr>)) (\<lambda>_. op_return r)))))"

section \<open>What a load and a save do\<close>

lemma cw_cases:
  assumes "cw_call f g w = (r, w')"
  obtains (works) "r = None" "w' = f (w\<lparr>cw_faults := tl (cw_faults w)\<rparr>)"
  | (fails) n where "r = Some (Plain ''i/o error'')" "w' = g n (w\<lparr>cw_faults := tl (cw_faults w)\<rparr>)"
  using assms by (auto simp: cw_call_def Let_def split: list.splits option.splits)

lemma cw_try_file:
  assumes "cw_try f w = (r, w')" "\<And>w. cw_file (f w) = cw_file w"
  shows "cw_file w' = cw_file w"
  using assms(1) unfolding cw_try_def by (cases rule: cw_cases) (simp_all add: assms(2))

text \<open>A successful load has a validated configuration; with a credential, from a file only its owner can read.\<close>

lemma load_ok:
  assumes "load_config decode read_ca path w = (Inr c, w')"
  shows "\<exists>mode text raw. cw_file w = Some (mode, text) \<and> decode text = Inr raw \<and> c = default_config (join_ca path raw) \<and>
    validate_config read_ca c = None \<and> (cf_credential c \<noteq> [] \<longrightarrow> mode mod 64 = 0)"
  using assms by (auto simp: load_config_def Let_def split: prod.splits option.splits sum.splits if_splits)

lemma default_tls_abs: "is_abs default_tls_dir"
  by (simp add: default_tls_dir_def is_abs_def)

lemma validate_ok:
  "validate_config read_ca c = None \<longleftrightarrow>
     (\<exists>u. url_parse (cf_management_url c) = Some u \<and> u_host u \<noteq> [] \<and>
       (u_scheme u = ''https'' \<or> cf_development c \<and> u_scheme u = ''http'')) \<and>
     is_abs (cf_workspace c) \<and> is_abs (cf_environment_root c) \<and> (cf_tls_dir c \<noteq> [] \<longrightarrow> is_abs (cf_tls_dir c)) \<and>
     (\<not> cf_development c \<longrightarrow> cf_ca c \<noteq> [] \<and> read_ca (cf_ca c) = None) \<and> (cf_agent_id c = []) = (cf_credential c = [])"
proof -
  let ?d = "if cf_tls_dir c = [] then c\<lparr>cf_tls_dir := default_tls_dir\<rparr> else c"
  have d: "cf_management_url ?d = cf_management_url c" "cf_workspace ?d = cf_workspace c" "cf_development ?d = cf_development c"
    "cf_environment_root ?d = cf_environment_root c" "cf_ca ?d = cf_ca c" "cf_agent_id ?d = cf_agent_id c" "cf_credential ?d = cf_credential c"
    "(cf_tls_dir ?d \<noteq> [] \<and> \<not> is_abs (cf_tls_dir ?d) \<and> \<not> has_prefix (cf_tls_dir ?d) ''/'') = (cf_tls_dir c \<noteq> [] \<and> \<not> is_abs (cf_tls_dir c))"
    by (simp_all add: is_abs_def default_tls_abs [unfolded is_abs_def])
  show ?thesis
    unfolding validate_config_def Let_def guards d
    by (cases "cf_development c") (simp_all only: if_True if_False simp_thms option.distinct, blast+)
qed

section \<open>Enrollment: what is saved is loaded\<close>

lemma clean_abs: "is_abs p \<Longrightarrow> is_abs (path_clean p)"
  by (auto simp: path_clean_def is_abs_def)

lemma dir_abs: "is_abs p \<Longrightarrow> is_abs (path_dir p)"
proof -
  assume "is_abs p"
  then obtain r where p: "p = CHR ''/'' # r" by (auto simp: is_abs_def has_prefix_iff)
  obtain ys where "dropWhile (\<lambda>x. x \<noteq> CHR ''/'') (rev p) = ys @ [CHR ''/'']"
    using dropWhile_append3 [of "\<lambda>x. x \<noteq> CHR ''/''" "CHR ''/''" "rev r"] by (auto simp: p dropWhile_append)
  then show "is_abs (path_dir p)"
    unfolding path_dir_def by (intro clean_abs) (simp add: is_abs_def)
qed

lemma join_abs: "is_abs d \<Longrightarrow> is_abs (path_join [d, x])"
proof -
  assume d: "is_abs d"
  then have ne: "d \<noteq> []" by (auto simp: is_abs_def)
  from d obtain r where "d = CHR ''/'' # r" by (auto simp: is_abs_def has_prefix_iff)
  then have "is_abs (join_slash (filter (\<lambda>e. e \<noteq> []) [d, x]))" by (simp add: join_slash_def is_abs_def)
  then show "is_abs (path_join [d, x])" using ne by (simp add: path_join_def Let_def clean_abs)
qed

lemma join_ca_abs: "is_abs path \<Longrightarrow> cf_ca (join_ca path c) = [] \<or> is_abs (cf_ca (join_ca path c))"
  by (auto simp: join_ca_def intro: join_abs dir_abs)

lemma default_ca [simp]: "cf_ca (default_config c) = cf_ca c"
  by (simp add: default_config_def Let_def)

lemma default_tls: "cf_tls_dir (default_config c) \<noteq> []"
  by (simp add: default_config_def default_tls_dir_def Let_def)

definition with_enrollment :: "string \<Rightarrow> string \<Rightarrow> config \<Rightarrow> config" where
  "with_enrollment i cred c = c\<lparr>cf_agent_id := i, cf_credential := cred\<rparr>"

lemma enrolled_valid:
  "validate_config read_ca c = None \<Longrightarrow> i \<noteq> [] \<Longrightarrow> cred \<noteq> [] \<Longrightarrow> validate_config read_ca (with_enrollment i cred c) = None"
  by (simp add: validate_ok with_enrollment_def)

lemma enrolled_fixed:
  assumes "load_config decode read_ca path w = (Inr c, w')" "is_abs path"
  shows "default_config (join_ca path (with_enrollment i cred c)) = with_enrollment i cred c"
proof -
  from load_ok [OF assms(1)] obtain raw where raw: "c = default_config (join_ca path raw)" "validate_config read_ca c = None" by blast
  have "cf_ca c = [] \<or> is_abs (cf_ca c)" using join_ca_abs [OF assms(2), of raw] by (simp add: raw(1))
  then have "join_ca path (with_enrollment i cred c) = with_enrollment i cred c" by (auto simp: join_ca_def with_enrollment_def)
  moreover have "cf_environment_root c \<noteq> []" using raw(2) by (auto simp: validate_ok is_abs_def)
  ultimately show ?thesis using default_tls [of "join_ca path raw"] unfolding raw(1) [symmetric] by (simp add: default_config_def with_enrollment_def Let_def)
qed

abbreviation popped :: "config_world \<Rightarrow> config_world" where
  "popped w \<equiv> w\<lparr>cw_faults := tl (cw_faults w)\<rparr>"

lemma cw_seq:
  assumes "try_err (cw_call f g) same k w = (r, w')"
  obtains (fails) n where "r = Some (Plain ''i/o error'')" "w' = g n (popped w)" | (goes_on) "k (f (popped w)) = (r, w')"
proof -
  obtain x w1 where x: "cw_call f g w = (x, w1)" by (metis prod.collapse)
  from x show thesis
    by (cases rule: cw_cases) (use assms x fails goes_on in \<open>auto simp: try_err_def op_bind_def op_return_def same_def\<close>)
qed

lemma fill_file:
  assumes "fill_temp data w = (r, w')" "cw_temp w = Some t"
  shows "(r \<noteq> None \<and> cw_file w' = cw_file w) \<or> cw_file w' = Some (private_mode, data)"
  using assms unfolding fill_temp_def cw_try_def
  by (elim cw_seq cw_cases) auto

lemma save_file:
  assumes "save_config encode c w = (r, w')"
  shows "(r \<noteq> None \<and> cw_file w' = cw_file w) \<or> (\<exists>data. encode c = Inr data \<and> cw_file w' = Some (private_mode, data))"
proof (cases "encode c")
  case (Inl e)
  with assms show ?thesis by (auto simp: save_config_def op_return_def)
next
  case (Inr data)
  have tail: "(r \<noteq> None \<and> cw_file w' = cw_file v) \<or> cw_file w' = Some (private_mode, data)"
    if run: "op_bind (fill_temp data) (\<lambda>r. op_bind (cw_try (\<lambda>w. w\<lparr>cw_temp := None\<rparr>)) (\<lambda>_. op_return r)) v = (r, w')"
      and v: "cw_temp v = Some t" for v t
  proof -
    obtain r1 w1 x w2 where f: "fill_temp data v = (r1, w1)" "cw_try (\<lambda>w. w\<lparr>cw_temp := None\<rparr>) w1 = (x, w2)"
      by (metis prod.collapse)
    with run have "r1 = r" "w2 = w'" by (simp_all add: op_bind_def op_return_def)
    moreover have "cw_file w2 = cw_file w1" by (rule cw_try_file [OF f(2)]) simp
    ultimately show ?thesis using fill_file [OF f(1) v] by simp
  qed
  show ?thesis
    using assms unfolding save_config_def Inr sum.case cw_try_def [of id] cw_try_def [of "\<lambda>w. w\<lparr>cw_temp := Some _\<rparr>"]
    by (elim cw_seq) (use tail in fastforce)+
qed

end
