(* ===== verification/Client.thy ===== *)
theory Client
  imports Config Agent GoFiles GoTimeProps Guards
begin

text \<open>
  The HTTP client of the management server (\<open>internal/client/client.go\<close>). A request and a response are records of
  what the code sets and reads; \<open>http.Client.Do\<close>, which does not follow redirects, is a field of the client,
  and so is the clock. A call returns what the code returns; responses are decoded by \<open>encoding/json\<close> as in
  \<open>GoJson\<close>, here without \<open>DisallowUnknownFields\<close>. A raw message of a poll is kept as its document.
\<close>

section \<open>Requests and responses\<close>

record http_request =
  hq_method :: string
  hq_url :: string
  hq_authorization :: "string option"
  hq_content_type :: "string option"
  hq_body :: "string option"

record http_response =
  hr_status :: int
  hr_length :: int
  hr_body :: body

record 'w client =
  cl_base :: string
  cl_agent_id :: string
  cl_credential :: string
  cl_http :: "http_request \<Rightarrow> ('w, http_response) res_op"
  cl_now :: "('w, gotime) op"

text \<open>\<open>http.NewRequestWithContext\<close> fails when the URL does not parse.\<close>

definition new_request :: "string \<Rightarrow> string \<Rightarrow> string option \<Rightarrow> http_request option" where
  "new_request method u content =
     (if url_parse u = None then None
      else Some \<lparr>hq_method = method, hq_url = u, hq_authorization = None, hq_content_type = None, hq_body = content\<rparr>)"

definition bearer :: "'w client \<Rightarrow> http_request \<Rightarrow> http_request" where
  "bearer c q = q\<lparr>hq_authorization := Some (''Bearer '' @ cl_credential c)\<rparr>"

definition as_json :: "http_request \<Rightarrow> http_request" where
  "as_json q = q\<lparr>hq_content_type := Some ''application/json''\<rparr>"

definition enrolled :: "'w client \<Rightarrow> bool" where
  "enrolled c \<longleftrightarrow> cl_agent_id c \<noteq> [] \<and> cl_credential c \<noteq> []"

definition accepted_status :: "http_response \<Rightarrow> bool" where
  "accepted_status a \<longleftrightarrow> hr_status a sdiv 100 = 2"

definition trim_slashes :: "string \<Rightarrow> string" where
  "trim_slashes s = strip_trailing (CHR ''/'') s"

text \<open>The parameter \<open>connect\<close> makes a client over the certificates of a PEM file, or the system's in development.\<close>

definition new_client ::
    "(string \<Rightarrow> goerr + string) \<Rightarrow> (string \<Rightarrow> bool) \<Rightarrow> (string option \<Rightarrow> http_request \<Rightarrow> ('w, http_response) res_op) \<Rightarrow>
     ('w, gotime) op \<Rightarrow> config \<Rightarrow> goerr + 'w client" where
  "new_client read_ca pem_ok connect clock cfg =
     (let make = (\<lambda>pool. \<lparr>cl_base = trim_slashes (cf_management_url cfg), cl_agent_id = cf_agent_id cfg,
                    cl_credential = cf_credential cfg, cl_http = connect pool, cl_now = clock\<rparr>) in
      if cf_development cfg then Inr (make None)
      else case read_ca (cf_ca cfg) of
          Inl e \<Rightarrow> Inl (wrap ''read CA certificate: '' e)
        | Inr pem \<Rightarrow> if \<not> pem_ok pem then Inl (Plain ''CA certificate is invalid'') else Inr (make (Some pem)))"

section \<open>Decoding responses\<close>

text \<open>A struct without \<open>DisallowUnknownFields\<close>: an unknown field is skipped.\<close>

fun dec_known_fields :: "string list \<Rightarrow> (string \<Rightarrow> 'a json_dec) \<Rightarrow> (string \<times> json) list \<Rightarrow> 'a \<Rightarrow> goerr + 'a" where
  "dec_known_fields names set_field [] x = Inr x"
| "dec_known_fields names set_field ((k, v) # kvs) x =
     (case match_field names k of
        None \<Rightarrow> dec_known_fields names set_field kvs x
      | Some n \<Rightarrow> (case set_field n v x of
            Inl e \<Rightarrow> Inl e
          | Inr x' \<Rightarrow> dec_known_fields names set_field kvs x'))"

fun dec_known :: "string list \<Rightarrow> (string \<Rightarrow> 'a json_dec) \<Rightarrow> 'a json_dec" where
  "dec_known names set_field JNull x = Inr x"
| "dec_known names set_field (JObj kvs) x = dec_known_fields names set_field kvs x"
| "dec_known names set_field v x = Inl unmarshal_error"

text \<open>
  \<open>json.Decoder.Decode\<close> on a stream: an object or an array is complete with its last byte; a scalar only when
  a byte follows it or the stream ends without an error.
\<close>

fun container :: "json \<Rightarrow> bool" where
  "container (JObj kvs) = True"
| "container (JArr vs) = True"
| "container v = False"

definition json_stream :: "body \<Rightarrow> json option" where
  "json_stream b =
     (case json_first (fst b) of
        None \<Rightarrow> None
      | Some v \<Rightarrow>
          if snd b \<noteq> None \<and> \<not> container v \<and> json_document (fst b) \<noteq> None \<and> \<not> json_space (last (fst b)) then None
          else Some v)"

definition max_response_bytes :: nat where "max_response_bytes = 2 ^ 20"

text \<open>A number in a \<open>map[string]interface{}\<close> becomes a \<open>float64\<close>, or an error when it is too large for one.\<close>

definition split_exponent :: "string \<Rightarrow> string \<times> int" where
  "split_exponent n =
     (let m = takeWhile (\<lambda>c. c \<noteq> CHR ''e'' \<and> c \<noteq> CHR ''E'') n; x = drop (Suc (length m)) n in
      (m, if has_prefix x ''-'' then - int (val_of (tl x)) else if has_prefix x ''+'' then int (val_of (tl x)) else int (val_of x)))"

definition float_fits :: "string \<Rightarrow> bool" where
  "float_fits n =
     (let (m, e) = split_exponent (if has_prefix n ''-'' then tl n else n);
          whole = takeWhile is_digit m; frac = drop (Suc (length whole)) m;
          digits = val_of (whole @ frac); e' = e - int (length frac); limit = 2 ^ 1024 - 2 ^ 970 :: nat in
      if digits = 0 then True
      else if 0 \<le> e' then digits * 10 ^ nat e' < limit else digits < limit * 10 ^ nat (- e'))"

fun floats_fit :: "json \<Rightarrow> bool" where
  "floats_fit (JNum n) = float_fits n"
| "floats_fit (JArr vs) = list_all floats_fit vs"
| "floats_fit (JObj kvs) = list_all floats_fit (map snd kvs)"
| "floats_fit v = True"

definition dec_any_object :: "json \<Rightarrow> goerr + unit" where
  "dec_any_object v =
     (case v of JNull \<Rightarrow> Inr () | JObj kvs \<Rightarrow> if floats_fit v then Inr () else Inl unmarshal_error
      | _ \<Rightarrow> Inl unmarshal_error)"

section \<open>Calls with the credential\<close>

text \<open>
  \<open>authenticatedJSON\<close>. The payload is absent, or the result of \<open>json.Marshal\<close>, which may fail.
\<close>

definition authenticated_json ::
    "'w client \<Rightarrow> string \<Rightarrow> string \<Rightarrow> string option option \<Rightarrow> (json \<Rightarrow> goerr + 'a) \<Rightarrow> ('w, 'a) res_op" where
  "authenticated_json c method path payload decode =
     (if \<not> enrolled c then op_return (Inl (Plain ''agent is not enrolled''))
      else if payload = Some None then op_return (Inl (Plain ''encode agent request''))
      else case new_request method (cl_base c @ path) (Option.bind payload id) of
          None \<Rightarrow> op_return (Inl (Plain ''create agent request''))
        | Some q \<Rightarrow>
            need_op (cl_http c ((if payload = None then id else as_json) (bearer c q)))
              (\<lambda>_. Plain ''agent request failed'') (\<lambda>a. op_return (
              if \<not> accepted_status a then Inl (StatusError (hr_status a))
              else case json_stream (limit_body max_response_bytes (hr_body a)) of
                  None \<Rightarrow> Inl (Plain ''decode agent response'')
                | Some v \<Rightarrow> (case decode v of Inl e \<Rightarrow> Inl (Plain ''decode agent response'') | Inr x \<Rightarrow> Inr x))))"

subsection \<open>Heartbeats\<close>

text \<open>\<open>time.Time.MarshalJSON\<close> of a time in UTC: RFC 3339 with the digits of the fraction that count.\<close>

definition fraction_text :: "int \<Rightarrow> string" where
  "fraction_text ns = (if ns = 0 then [] else CHR ''.'' # strip_trailing (CHR ''0'') (pad 9 ns))"

definition time_text :: "gotime \<Rightarrow> string option" where
  "time_text t =
     (if year_of t < 0 \<or> 9999 < year_of t then None
      else Some (butlast (format_seconds_z t) @ fraction_text (nanosecond t) @ ''Z''))"

definition heartbeat_json :: "('s \<Rightarrow> json option) \<Rightarrow> 's heartbeat_request \<Rightarrow> json option" where
  "heartbeat_json metrics h =
     (case time_text (hb_timestamp h) of None \<Rightarrow> None
      | Some t \<Rightarrow> (case metrics (hb_metrics h) of None \<Rightarrow> None
        | Some m \<Rightarrow> Some (JObj [(''agentId'', JStr (hb_agent_id h)), (''bootId'', JStr (hb_boot_id h)),
             (''sequence'', JNum (int_str (hb_sequence h))), (''timestamp'', JStr t),
             (''agentVersion'', JStr (hb_version h)), (''metrics'', m)])))"

definition dec_grant :: "operation_grant json_dec" where
  "dec_grant = dec_known [''allowed'', ''expiresAt'']
     (\<lambda>n v x. if n = ''allowed'' then map_sum id (\<lambda>b. x\<lparr>og_allowed := b\<rparr>) (dec_bool v (og_allowed x))
              else map_sum id (\<lambda>t. x\<lparr>og_expires_at := t\<rparr>) (dec_time v (og_expires_at x)))"

definition zero_ack :: heartbeat_ack where
  "zero_ack = \<lparr>ack_accepted = False, ack_sequence = 0, ack_server_time = 0, ack_grant = no_grant\<rparr>"

definition dec_ack :: "heartbeat_ack json_dec" where
  "dec_ack = dec_known [''accepted'', ''sequence'', ''serverTime'', ''operationGrant'']
     (\<lambda>n v x. if n = ''accepted'' then map_sum id (\<lambda>b. x\<lparr>ack_accepted := b\<rparr>) (dec_bool v (ack_accepted x))
              else if n = ''sequence'' then map_sum id (\<lambda>i. x\<lparr>ack_sequence := i\<rparr>) (dec_int v (ack_sequence x))
              else if n = ''serverTime'' then map_sum id (\<lambda>i. x\<lparr>ack_server_time := i\<rparr>) (dec_int v (ack_server_time x))
              else map_sum id (\<lambda>g. x\<lparr>ack_grant := g\<rparr>) (dec_grant v (ack_grant x)))"

definition heartbeat ::
    "('s \<Rightarrow> json option) \<Rightarrow> 'w client \<Rightarrow> 's heartbeat_request \<Rightarrow> ('w, heartbeat_ack) res_op" where
  "heartbeat metrics c h =
     authenticated_json c ''POST'' ''/agent/v1/heartbeat'' (Some (map_option json_text (heartbeat_json metrics h)))
       (\<lambda>v. dec_ack v zero_ack)"

subsection \<open>Commands\<close>

fun dec_raw_list :: "json list json_dec" where
  "dec_raw_list JNull old = Inr []"
| "dec_raw_list (JArr vs) old = Inr vs"
| "dec_raw_list v old = Inl unmarshal_error"

definition dec_commands :: "json list json_dec" where
  "dec_commands = dec_known [''commands''] (\<lambda>n v x. dec_raw_list v x)"

definition poll_path :: "int \<Rightarrow> string" where
  "poll_path seconds = ''/agent/v1/commands/poll?waitSeconds='' @ int_str seconds"

definition poll_commands :: "'w client \<Rightarrow> int \<Rightarrow> ('w, json list) res_op" where
  "poll_commands c seconds =
     (if seconds < 0 \<or> 25 < seconds then op_return (Inl (Plain ''invalid command poll wait''))
      else authenticated_json c ''GET'' (poll_path seconds) None (\<lambda>v. dec_commands v []))"

definition generic_command_uuid :: rx where
  "generic_command_uuid =
     rx_cat [rx_rep 8 (RxCls is_hex), dash, rx_rep 4 (RxCls is_hex), dash,
             RxCls (in_range (CHR ''1'') (CHR ''5'')), rx_rep 3 (RxCls is_hex), dash,
             RxCls (\<lambda>c. one_of ''89'' c \<or> in_range (CHR ''A'') (CHR ''F'') c \<or> in_range (CHR ''a'') (CHR ''f'') c),
             rx_rep 3 (RxCls is_hex), dash, rx_rep 12 (RxCls is_hex)]"

record start_response =
  sr_command_id :: string
  sr_agent_id :: string
  sr_state :: string

definition dec_start_response :: "start_response json_dec" where
  "dec_start_response = dec_known [''commandId'', ''agentId'', ''state'']
     (\<lambda>n v x. if n = ''commandId'' then map_sum id (\<lambda>s. x\<lparr>sr_command_id := s\<rparr>) (dec_string v (sr_command_id x))
              else if n = ''agentId'' then map_sum id (\<lambda>s. x\<lparr>sr_agent_id := s\<rparr>) (dec_string v (sr_agent_id x))
              else map_sum id (\<lambda>s. x\<lparr>sr_state := s\<rparr>) (dec_string v (sr_state x)))"

definition command_path :: "string \<Rightarrow> string \<Rightarrow> string" where
  "command_path i action = ''/agent/v1/commands/'' @ i @ action"

definition start_command :: "'w client \<Rightarrow> string \<Rightarrow> string \<Rightarrow> 'w err_op" where
  "start_command c i lease =
     (if \<not> rx_match generic_command_uuid i \<or> \<not> rx_match generic_command_uuid lease
      then op_return (Some (Plain ''command identifiers are invalid''))
      else try_res (authenticated_json c ''POST'' (command_path i ''/start'')
                     (Some (Some (json_text (JObj [(''leaseToken'', JStr lease)]))))
                     (\<lambda>v. dec_start_response v \<lparr>sr_command_id = [], sr_agent_id = [], sr_state = []\<rparr>)) same (\<lambda>r.
        op_return (if sr_command_id r \<noteq> i \<or> sr_agent_id r \<noteq> cl_agent_id c \<or> sr_state r \<noteq> ''RUNNING''
                   then Some (Plain ''command acknowledgement is invalid'') else None)))"

definition conflict_status :: int where "conflict_status = 409"

definition finish_command :: "'w client \<Rightarrow> string \<Rightarrow> command_result \<Rightarrow> 'w err_op" where
  "finish_command c i result =
     (if \<not> rx_match generic_command_uuid i \<or> \<not> rx_match generic_command_uuid (cr_lease_token result)
      then op_return (Some (Plain ''command identifiers are invalid''))
      else op_bind (authenticated_json c ''POST'' (command_path i ''/result'')
                     (Some (Some (json_text (result_json result)))) dec_any_object) (\<lambda>r.
        op_return (case r of
            Inl e \<Rightarrow> if err_as_status e = Some conflict_status then None else Some e
          | Inr _ \<Rightarrow> None)))"

section \<open>Downloads\<close>

definition download_file :: "'w client \<Rightarrow> string \<Rightarrow> ('w, body) res_op" where
  "download_file c path =
     (case new_request ''GET'' (cl_base c @ path) None of
        None \<Rightarrow> op_return (Inl (Plain ''parse url''))
      | Some q \<Rightarrow> need_op (cl_http c (bearer c q)) same (\<lambda>a. op_return (
            if \<not> accepted_status a then Inl (Plain (''download rejected with status '' @ int_str (hr_status a)))
            else Inr (hr_body a))))"

definition upgrade_path :: string where "upgrade_path = ''/agent/v1/upgrade-binary''"

definition rejected_length :: "int \<Rightarrow> http_response \<Rightarrow> bool" where
  "rejected_length maximum a \<longleftrightarrow> \<not> accepted_status a \<or> hr_length a \<le> 0 \<or> hr_length a > maximum"

definition download_upgrade_binary :: "'w client \<Rightarrow> string \<Rightarrow> int \<Rightarrow> ('w, body) res_op" where
  "download_upgrade_binary c path maximum =
     (if \<not> enrolled c \<or> path \<noteq> upgrade_path then op_return (Inl (Plain ''upgrade download request is invalid''))
      else case new_request ''GET'' (cl_base c @ path) None of
          None \<Rightarrow> op_return (Inl (Plain ''create upgrade download request''))
        | Some q \<Rightarrow> need_op (cl_http c (bearer c q)) (\<lambda>_. Plain ''upgrade download failed'') (\<lambda>a. op_return (
              if rejected_length maximum a then Inl (Plain ''upgrade download rejected'') else Inr (hr_body a))))"

definition archive_path :: "string \<Rightarrow> string" where
  "archive_path i = ''/agent/v1/image-deployments/'' @ i @ ''/archive''"

definition download_image_archive :: "'w client \<Rightarrow> string \<Rightarrow> int \<Rightarrow> ('w, body \<times> int) res_op" where
  "download_image_archive c i maximum =
     (if \<not> enrolled c \<or> \<not> rx_match generic_command_uuid i then op_return (Inl (Plain ''image archive request is invalid''))
      else case new_request ''GET'' (cl_base c @ archive_path i) None of
          None \<Rightarrow> op_return (Inl (Plain ''create image archive request''))
        | Some q \<Rightarrow> need_op (cl_http c (bearer c q)) (wrap ''image archive download failed: '') (\<lambda>a. op_return (
              if rejected_length maximum a
              then Inl (Plain (''image archive download rejected with status '' @ int_str (hr_status a)))
              else Inr (hr_body a, hr_length a))))"

section \<open>Terminal tickets\<close>

record terminal_ticket =
  tt_ticket :: string
  tt_expires_at :: gotime

record raw_ticket =
  rt_ticket :: string
  rt_expires_at :: string

definition dec_ticket :: "raw_ticket json_dec" where
  "dec_ticket = dec_struct [''ticket'', ''expiresAt'']
     (\<lambda>n v x. if n = ''ticket'' then map_sum id (\<lambda>s. x\<lparr>rt_ticket := s\<rparr>) (dec_string v (rt_ticket x))
              else map_sum id (\<lambda>s. x\<lparr>rt_expires_at := s\<rparr>) (dec_string v (rt_expires_at x)))"

definition terminal_ticket_pattern :: rx where
  "terminal_ticket_pattern = rx_rep 43 (RxCls (\<lambda>c. is_alnum c \<or> one_of ''_-'' c))"

definition max_ticket_bytes :: nat where "max_ticket_bytes = 4096"

definition invalid_ticket :: "goerr + 'a" where
  "invalid_ticket = Inl (Plain ''terminal ticket response is invalid'')"

definition read_ticket :: "string \<Rightarrow> goerr + terminal_ticket" where
  "read_ticket data =
     (case json_document data of
        None \<Rightarrow> invalid_ticket
      | Some v \<Rightarrow>
          if \<not> dup_free v then invalid_ticket
          else (case dec_ticket v \<lparr>rt_ticket = [], rt_expires_at = []\<rparr> of
              Inl e \<Rightarrow> invalid_ticket
            | Inr raw \<Rightarrow>
                if \<not> rx_match terminal_ticket_pattern (rt_ticket raw) \<or> length (rt_expires_at raw) \<noteq> 20 then invalid_ticket
                else (case parse_rfc3339 (rt_expires_at raw) of
                    None \<Rightarrow> invalid_ticket
                  | Some t \<Rightarrow>
                      if format_seconds_z t \<noteq> rt_expires_at raw then invalid_ticket
                      else Inr \<lparr>tt_ticket = rt_ticket raw, tt_expires_at = t\<rparr>)))"

definition minute :: int where "minute = 60 * second_ns"

definition ticket_request :: "string \<Rightarrow> string \<Rightarrow> string" where
  "ticket_request i lease = json_text (JObj [(''commandId'', JStr i), (''leaseToken'', JStr lease)])"

definition ticket_path :: "string \<Rightarrow> string" where
  "ticket_path session = ''/agent/v1/terminal-sessions/'' @ session @ ''/agent-ticket''"

definition exchange_terminal_ticket ::
    "'w client \<Rightarrow> string \<Rightarrow> string \<Rightarrow> string \<Rightarrow> ('w, terminal_ticket) res_op" where
  "exchange_terminal_ticket c session i lease =
     (if \<not> is_canonical_uuid session \<or> \<not> is_canonical_uuid i \<or> \<not> is_canonical_uuid lease
      then op_return (Inl (Plain ''terminal ticket identifiers are invalid''))
      else case new_request ''POST'' (cl_base c @ ticket_path session) (Some (ticket_request i lease)) of
          None \<Rightarrow> op_return (Inl (Plain ''create terminal ticket request''))
        | Some q \<Rightarrow>
            if \<not> enrolled c then op_return (Inl (Plain ''agent is not enrolled''))
            else need_op (cl_http c (as_json (bearer c q))) (\<lambda>_. Plain ''terminal ticket request failed'') (\<lambda>a.
              if \<not> accepted_status a
              then op_return (Inl (Plain (''terminal ticket request rejected with status '' @ int_str (hr_status a))))
              else let b = limit_body (max_ticket_bytes + 1) (hr_body a) in
                if snd b \<noteq> None \<or> length (fst b) = 0 \<or> length (fst b) > max_ticket_bytes
                then op_return (Inl (Plain ''terminal ticket response size is invalid''))
                else (case read_ticket (fst b) of
                    Inl e \<Rightarrow> op_return (Inl e)
                  | Inr t \<Rightarrow> op_bind (cl_now c) (\<lambda>now. op_return (
                      if \<not> after (tt_expires_at t) now \<or> after (tt_expires_at t) (add_dur now minute)
                      then Inl (Plain ''terminal ticket response expiry is invalid'') else Inr t)))))"

section \<open>Enrollment\<close>

record identity_info =
  id_machine_digest :: string
  id_hostname :: string
  id_primary_ip :: string
  id_mac_address :: string

record enrollment =
  en_agent_id :: string
  en_credential :: string

definition dec_enrollment :: "enrollment json_dec" where
  "dec_enrollment = dec_known [''agentId'', ''credential'']
     (\<lambda>n v x. if n = ''agentId'' then map_sum id (\<lambda>s. x\<lparr>en_agent_id := s\<rparr>) (dec_string v (en_agent_id x))
              else map_sum id (\<lambda>s. x\<lparr>en_credential := s\<rparr>) (dec_string v (en_credential x)))"

definition client_version :: string where "client_version = ''0.2.28''"

definition enrollment_request :: "string \<Rightarrow> string \<Rightarrow> identity_info \<Rightarrow> string" where
  "enrollment_request token display i =
     json_text (JObj [(''token'', JStr token), (''displayName'', JStr display),
       (''machineDigest'', JStr (id_machine_digest i)), (''hostname'', JStr (id_hostname i)),
       (''primaryIp'', JStr (id_primary_ip i)), (''macAddress'', JStr (id_mac_address i)),
       (''agentVersion'', JStr client_version)])"

definition enroll_with_display_name ::
    "'w client \<Rightarrow> string \<Rightarrow> string \<Rightarrow> identity_info \<Rightarrow> ('w, enrollment) res_op" where
  "enroll_with_display_name c token display i =
     (case new_request ''POST'' (cl_base c @ ''/agent/v1/register'') (Some (enrollment_request token display i)) of
        None \<Rightarrow> op_return (Inl (Plain ''create enrollment request''))
      | Some q \<Rightarrow> need_op (cl_http c (as_json q)) (\<lambda>_. Plain ''enrollment request failed'') (\<lambda>a. op_return (
            if \<not> accepted_status a then Inl (Plain (''enrollment rejected with status '' @ int_str (hr_status a)))
            else case json_stream (limit_body max_response_bytes (hr_body a)) of
                None \<Rightarrow> Inl (Plain ''decode enrollment response'')
              | Some v \<Rightarrow>
                  (case dec_enrollment v \<lparr>en_agent_id = [], en_credential = []\<rparr> of
                     Inl e \<Rightarrow> Inl (Plain ''decode enrollment response'')
                   | Inr r \<Rightarrow>
                       if en_agent_id r = [] \<or> en_credential r = [] then Inl (Plain ''enrollment response is incomplete'')
                       else Inr r))))"

definition enroll :: "'w client \<Rightarrow> string \<Rightarrow> identity_info \<Rightarrow> ('w, enrollment) res_op" where
  "enroll c token i = enroll_with_display_name c token (id_hostname i) i"

end
