(* ===== verification/UrlHost.thy ===== *)
theory UrlHost
  imports GoUrl GoPath
begin

text \<open>
  Which host a URL names: only what stands between the scheme and the first slash after the authority decides it.
  So whatever path, query or fragment is appended to a URL, behind a slash, it still names the same host.
\<close>

definition scheme_char :: "char \<Rightarrow> bool" where
  "scheme_char c \<longleftrightarrow> is_letter c \<or> is_digit c \<or> one_of ''+-.'' c"

definition scheme_prefix :: "string \<Rightarrow> string \<Rightarrow> bool" where
  "scheme_prefix p w \<longleftrightarrow> (p = [] \<and> w = []) \<or> (p = w @ '':'' \<and> w \<noteq> [] \<and> is_letter (hd w) \<and> list_all scheme_char w)"

definition delimiter :: "char \<Rightarrow> bool" where
  "delimiter c \<longleftrightarrow> c = CHR ''/'' \<or> c = CHR ''?'' \<or> c = CHR ''#''"

definition url_tail :: "string \<Rightarrow> bool" where
  "url_tail t \<longleftrightarrow> t = [] \<or> delimiter (hd t)"

definition url_form :: "string \<Rightarrow> string \<Rightarrow> string \<Rightarrow> string \<Rightarrow> bool" where
  "url_form s w a t \<longleftrightarrow> (\<exists>p. scheme_prefix p w \<and> s = p @ ''//'' @ a @ t) \<and> a \<noteq> [] \<and> list_all (\<lambda>c. \<not> delimiter c) a \<and> url_tail t"

lemma not_scheme_char: "\<not> scheme_char (CHR '':'')" "\<not> scheme_char (CHR ''/'')" "\<not> scheme_char (CHR ''#'')" "\<not> scheme_char (CHR ''?'')"
  by (simp_all add: scheme_char_def is_letter_def byte_class_defs)

lemma get_scheme_prefix:
  assumes "scheme_prefix p w"
  shows "get_scheme (p @ ''//'' @ s) = Some (w, ''//'' @ s)"
proof (cases "p = []")
  case True
  with assms have "w = []" by (auto simp: scheme_prefix_def)
  with True show ?thesis using not_scheme_char by (simp add: get_scheme_def scheme_char_def)
next
  case False
  with assms have w: "p = w @ '':''" "w \<noteq> []" "is_letter (hd w)" "list_all scheme_char w" by (auto simp: scheme_prefix_def)
  have "takeWhile scheme_char (w @ '':'' @ x) = w" "dropWhile scheme_char (w @ '':'' @ x) = '':'' @ x" for x
    using w(4) not_scheme_char by (simp_all add: takeWhile_append list_all_iff)
  with w show ?thesis by (simp add: get_scheme_def scheme_char_def [abs_def])
qed

lemma get_scheme_parts:
  assumes "get_scheme s = Some (w, r)"
  obtains p where "scheme_prefix p w" "s = p @ r"
proof -
  let ?w = "takeWhile scheme_char s" and ?r = "dropWhile scheme_char s"
  from assms have "(w = [] \<and> r = s) \<or> (?w \<noteq> [] \<and> is_letter (hd ?w) \<and> ?r \<noteq> [] \<and> hd ?r = CHR '':'' \<and> w = ?w \<and> r = tl ?r)"
    unfolding get_scheme_def scheme_char_def [symmetric, abs_def] Let_def by (auto split: if_splits)
  then show thesis
  proof
    assume "w = [] \<and> r = s"
    then show thesis using that [of "[]"] by (simp add: scheme_prefix_def)
  next
    assume c: "?w \<noteq> [] \<and> is_letter (hd ?w) \<and> ?r \<noteq> [] \<and> hd ?r = CHR '':'' \<and> w = ?w \<and> r = tl ?r"
    have "scheme_prefix (w @ '':'') w" using c by (auto simp: scheme_prefix_def list_all_iff dest: set_takeWhileD)
    moreover have "s = (w @ '':'') @ r" using c takeWhile_dropWhile_id [of scheme_char s] by (cases ?r) auto
    ultimately show thesis by (rule that)
  qed
qed

lemma cut_append: "d \<notin> set x \<Longrightarrow> fst (cut_at d (x @ t)) = x @ fst (cut_at d t)"
  by (induction x) (auto simp: cut_at_def)

text \<open>The parts of a successful parse.\<close>

lemma parse_parts:
  assumes "url_parse s = Some v"
  obtains w r u where "get_scheme (fst (cut_at (CHR ''#'') s)) = Some (w, r)"
    "parse_rest u (fst (cut_at (CHR ''?'') r)) = Some (v\<lparr>u_fragment := []\<rparr>)" "u_scheme u = to_lower w" "u_host u = []"
    | "s = ''*'' \<or> hd s = CHR ''*''" "u_host v = []"
proof -
  obtain t f where t: "cut_at (CHR ''#'') s = (t, f)" by (metis prod.collapse)
  from assms t obtain v0 where v0: "url_parse_nofrag t = Some v0" "v = v0 \<or> (\<exists>f. v = v0\<lparr>u_fragment := f\<rparr>)"
    by (auto simp: url_parse_def split: option.splits if_splits)
  have butlast_cut: "butlast r = fst (cut_at (CHR ''?'') r)" if "r \<noteq> []" "last r = CHR ''?''" "CHR ''?'' \<notin> set (butlast r)" for r
  proof -
    from that(1,2) have r: "r = butlast r @ ''?''" by (metis append_butlast_last_id)
    have "fst (cut_at (CHR ''?'') (butlast r @ ''?'')) = butlast r"
      unfolding cut_append [OF that(3)] by (simp add: cut_at_def)
    with r show ?thesis by simp
  qed
  show thesis
  proof (cases "t = ''*''")
    case True
    from v0 True have "u_host v = []" by (auto simp: url_parse_nofrag_def empty_url_def)
    moreover have "hd s = CHR ''*''" using t True by (cases s) (auto simp: cut_at_def split: if_splits)
    ultimately show thesis using that(2) by simp
  next
    case False
    with v0(1) obtain w r where wr: "get_scheme t = Some (w, r)"
      by (auto simp: url_parse_nofrag_def split: option.splits if_splits)
    define u where "u = (empty_url\<lparr>u_scheme := to_lower w\<rparr>)"
    from v0(1) False wr have "\<exists>u. parse_rest u (fst (cut_at (CHR ''?'') r)) = Some v0 \<and> u_scheme u = to_lower w \<and> u_host u = [] \<and> u_fragment u = []"
      unfolding url_parse_nofrag_def using butlast_cut
      by (auto simp: Let_def empty_url_def split: if_splits)
    then obtain u where u: "parse_rest u (fst (cut_at (CHR ''?'') r)) = Some v0" "u_scheme u = to_lower w" "u_host u = []" "u_fragment u = []"
      by blast
    have "u_fragment v0 = []" using u(1,4) by (auto simp: parse_rest_def set_path_def split: if_splits option.splits)
    with v0(2) have "v\<lparr>u_fragment := []\<rparr> = v0" by auto
    with u wr t that(1) show thesis by simp
  qed
qed

lemma case_Some_pair:
  "(case x of None \<Rightarrow> None | Some (a, b) \<Rightarrow> f a b) = Some v \<Longrightarrow> (\<And>a b. x = Some (a, b) \<Longrightarrow> f a b = Some v \<Longrightarrow> P) \<Longrightarrow> P"
  by (auto split: option.splits)

lemma set_path_host: "set_path q u = Some v \<Longrightarrow> u_host v = u_host u"
  by (auto simp: set_path_def split: option.splits)

lemma two_slashes: "has_prefix (''//'' @ q) ''//''" "has_prefix (''//'' @ q) ''/''" "drop 2 (''//'' @ q) = q"
  by simp_all

lemma parse_rest_authority:
  assumes "u_scheme u \<noteq> [] \<or> \<not> has_prefix (''//'' @ q) ''///''" "parse_rest u (''//'' @ q) = Some v"
  shows "\<exists>user. parse_authority (takeWhile (\<lambda>c. c \<noteq> CHR ''/'') q) = Some (user, u_host v)"
proof -
  let ?a = "parse_authority (takeWhile (\<lambda>c. c \<noteq> CHR ''/'') q)"
  have "(case ?a of None \<Rightarrow> None
      | Some (user, host) \<Rightarrow> set_path (dropWhile (\<lambda>c. c \<noteq> CHR ''/'') q) (u\<lparr>u_user := user, u_host := host\<rparr>)) = Some v"
    using assms by (simp only: parse_rest_def two_slashes simp_thms if_True if_False)
  then obtain user host where "?a = Some (user, host)"
    "set_path (dropWhile (\<lambda>c. c \<noteq> CHR ''/'') q) (u\<lparr>u_user := user, u_host := host\<rparr>) = Some v"
    by (rule case_Some_pair)
  then show ?thesis using set_path_host [of _ "u\<lparr>u_user := user, u_host := host\<rparr>" v] by simp
qed

lemma parse_rest_host:
  assumes "parse_rest u r = Some v" "u_host u = []"
  shows "u_scheme v = u_scheme u"
    "u_host v \<noteq> [] \<Longrightarrow> \<exists>a t user. r = ''//'' @ a @ t \<and> CHR ''/'' \<notin> set a \<and> (t = [] \<or> hd t = CHR ''/'') \<and>
       parse_authority a = Some (user, u_host v)"
proof -
  show "u_scheme v = u_scheme u"
    using assms by (auto simp: parse_rest_def set_path_def split: if_splits option.splits)
  assume h: "u_host v \<noteq> []"
  have *: "has_prefix r ''//''" "\<exists>user. parse_authority (takeWhile (\<lambda>c. c \<noteq> CHR ''/'') (drop 2 r)) = Some (user, u_host v)"
  proof -
    have path: "u_host v = u_host u'" if "set_path q u' = Some v" for q u'
      using that by (auto simp: set_path_def split: option.splits)
    show "has_prefix r ''//''"
    proof (rule ccontr)
      assume "\<not> has_prefix r ''//''"
      with assms(1) have "u_host v = u_host u"
        unfolding parse_rest_def by (simp only: simp_thms if_False split: if_split_asm) (auto dest: path)
      with h assms(2) show False by simp
    qed
    then have r: "r = ''//'' @ drop 2 r" by (auto simp: has_prefix_iff)
    have "u_scheme u \<noteq> [] \<or> \<not> has_prefix r ''///''"
    proof (rule ccontr)
      assume c: "\<not> (u_scheme u \<noteq> [] \<or> \<not> has_prefix r ''///'')"
      have "set_path r u = Some v"
        using assms(1) c two_slashes(2) [of "drop 2 r"] unfolding r [symmetric]
        by (simp only: parse_rest_def simp_thms if_True if_False)
      with path [of r u] h assms(2) show False by auto
    qed
    then show "\<exists>user. parse_authority (takeWhile (\<lambda>c. c \<noteq> CHR ''/'') (drop 2 r)) = Some (user, u_host v)"
      using parse_rest_authority [of u "drop 2 r" v] assms(1) unfolding r [symmetric] by blast
  qed
  from *(1) have r: "r = ''//'' @ drop 2 r" by (auto simp: has_prefix_iff)
  let ?a = "takeWhile (\<lambda>c. c \<noteq> CHR ''/'') (drop 2 r)" and ?t = "dropWhile (\<lambda>c. c \<noteq> CHR ''/'') (drop 2 r)"
  have "r = ''//'' @ ?a @ ?t" using r by simp
  moreover have "CHR ''/'' \<notin> set ?a" by (auto dest: set_takeWhileD)
  moreover have "?t = [] \<or> hd ?t = CHR ''/''" using hd_dropWhile [of "\<lambda>c. c \<noteq> CHR ''/''" "drop 2 r"] by auto
  ultimately show "\<exists>a t user. r = ''//'' @ a @ t \<and> CHR ''/'' \<notin> set a \<and> (t = [] \<or> hd t = CHR ''/'') \<and>
       parse_authority a = Some (user, u_host v)"
    using *(2) by blast
qed

lemma cut_at_parts:
  obtains t where "s = fst (cut_at d s) @ t" "t = [] \<or> hd t = d" "d \<notin> set (fst (cut_at d s))"
proof -
  have "s = fst (cut_at d s) @ dropWhile (\<lambda>c. c \<noteq> d) s" by (simp add: cut_at_def)
  moreover have "dropWhile (\<lambda>c. c \<noteq> d) s = [] \<or> hd (dropWhile (\<lambda>c. c \<noteq> d) s) = d"
    using hd_dropWhile [of "\<lambda>c. c \<noteq> d" s] by auto
  moreover have "d \<notin> set (fst (cut_at d s))" by (auto simp: cut_at_def dest: set_takeWhileD)
  ultimately show thesis by (rule that)
qed

lemma authority_empty: "parse_authority [] = Some (user, h) \<Longrightarrow> h = []"
  by (simp add: parse_authority_def cut_last_def parse_host_def)

lemma url_has_form:
  assumes "url_parse s = Some v" "u_host v \<noteq> []"
  obtains w a t user where "url_form s w a t" "u_scheme v = to_lower w" "parse_authority a = Some (user, u_host v)"
proof -
  from assms(1) show thesis
  proof (cases rule: parse_parts)
    case (1 w r u)
    from get_scheme_parts [OF 1(1)] obtain p where p: "scheme_prefix p w" "fst (cut_at (CHR ''#'') s) = p @ r" by blast
    from parse_rest_host(2) [OF 1(2,4)] assms(2) obtain a t user where a: "fst (cut_at (CHR ''?'') r) = ''//'' @ a @ t"
        "CHR ''/'' \<notin> set a" "t = [] \<or> hd t = CHR ''/''" "parse_authority a = Some (user, u_host v)" by auto
    obtain t1 where t1: "s = (p @ r) @ t1" "t1 = [] \<or> hd t1 = CHR ''#''" "CHR ''#'' \<notin> set (p @ r)"
      using cut_at_parts [of s "CHR ''#''"] p(2) by metis
    obtain t2 where t2: "r = (''//'' @ a @ t) @ t2" "t2 = [] \<or> hd t2 = CHR ''?''" "CHR ''?'' \<notin> set (''//'' @ a @ t)"
      using cut_at_parts [of r "CHR ''?''"] a(1) by metis
    have "a \<noteq> []" using a(4) assms(2) authority_empty by auto
    moreover have "list_all (\<lambda>c. \<not> delimiter c) a"
      using a(2) t1(3) t2(1,3) by (auto simp: list_all_iff delimiter_def)
    moreover have "url_tail (t @ t2 @ t1)"
      using a(3) t1(2) t2(2) by (cases t; cases t2; cases t1) (auto simp: url_tail_def delimiter_def)
    moreover have "s = p @ ''//'' @ a @ (t @ t2 @ t1)" using t1(1) t2(1) by simp
    ultimately have "url_form s w a (t @ t2 @ t1)" using p(1) by (auto simp: url_form_def)
    moreover have "u_scheme v = to_lower w" using parse_rest_host(1) [OF 1(2,4)] 1(3) by simp
    ultimately show thesis using a(4) that by blast
  next
    case 2
    with assms(2) show thesis by simp
  qed
qed

lemma form_has_host:
  assumes "url_form s w a t" "url_parse s = Some v"
  shows "u_scheme v = to_lower w \<and> (\<exists>user. parse_authority a = Some (user, u_host v))"
proof -
  from assms(1) obtain p where s: "scheme_prefix p w" "s = p @ ''//'' @ a @ t" "a \<noteq> []" "list_all (\<lambda>c. \<not> delimiter c) a" "url_tail t"
    by (auto simp: url_form_def)
  have p_free: "CHR ''#'' \<notin> set p" "hd s \<noteq> CHR ''*''"
    using s(1) not_scheme_char by (auto simp: scheme_prefix_def list_all_iff s(2) is_letter_def byte_class_defs hd_append)
  have a_free: "CHR ''#'' \<notin> set a" "CHR ''?'' \<notin> set a" "CHR ''/'' \<notin> set a" using s(4) by (auto simp: list_all_iff delimiter_def)
  let ?t1 = "fst (cut_at (CHR ''#'') t)" let ?t2 = "fst (cut_at (CHR ''?'') ?t1)"
  have c1: "fst (cut_at (CHR ''#'') s) = p @ ''//'' @ a @ ?t1"
    using cut_append [of "CHR ''#''" "p @ ''//'' @ a" t] p_free(1) a_free(1) by (simp add: s(2))
  have c2: "fst (cut_at (CHR ''?'') (''//'' @ a @ ?t1)) = ''//'' @ a @ ?t2"
    using cut_append [of "CHR ''?''" "''//'' @ a" ?t1] a_free(2) by simp
  have t2: "?t2 = [] \<or> hd ?t2 = CHR ''/''" using s(5) by (cases t) (auto simp: cut_at_def url_tail_def delimiter_def)
  from assms(2) show ?thesis
  proof (cases rule: parse_parts)
    case (1 w' r u)
    then have r: "w' = w" "r = ''//'' @ a @ ?t1" using get_scheme_prefix [OF s(1), of "a @ ?t1"] by (simp_all add: c1)
    have tw: "takeWhile (\<lambda>c. c \<noteq> CHR ''/'') (a @ ?t2) = a" using a_free(3) t2
      by (cases ?t2) (auto simp: takeWhile_append)
    have np: "\<not> has_prefix (''//'' @ a @ ?t2) ''///''" using a_free(3) s(3) by (cases a) auto
    have "\<exists>user. parse_authority a = Some (user, u_host v)"
      using parse_rest_authority [OF disjI2 [OF np] 1(2) [unfolded r(2) c2]] by (simp add: tw)
    moreover have "u_scheme v = to_lower w" using parse_rest_host(1) [OF 1(2,4)] 1(3) r(1) by simp
    ultimately show ?thesis by auto
  next
    case 2
    with p_free(2) show ?thesis by auto
  qed
qed

lemma strip_keeps:
  assumes "x \<noteq> []" "last x \<noteq> c"
  shows "strip_trailing c (x @ t) = x @ strip_trailing c t"
proof -
  have "dropWhile (\<lambda>y. y = c) (rev t @ rev x) = dropWhile (\<lambda>y. y = c) (rev t) @ rev x"
    using assms by (cases "rev x") (auto simp: dropWhile_append hd_rev [symmetric] dest: dropWhile_eq_Nil_conv [THEN iffD1])
  then show ?thesis by (simp add: strip_trailing_def)
qed

lemma strip_prefix: "\<exists>y. t = strip_trailing c t @ y"
proof -
  have "rev t = takeWhile (\<lambda>x. x = c) (rev t) @ dropWhile (\<lambda>x. x = c) (rev t)" by simp
  then have "t = rev (dropWhile (\<lambda>x. x = c) (rev t)) @ rev (takeWhile (\<lambda>x. x = c) (rev t))" by (metis rev_append rev_rev_ident)
  then show ?thesis unfolding strip_trailing_def by blast
qed

theorem host_stays:
  assumes "url_parse m = Some u" "u_host u \<noteq> []" "has_prefix path ''/''"
    "url_parse (strip_trailing (CHR ''/'') m @ path) = Some v"
  shows "u_host v = u_host u \<and> u_scheme v = u_scheme u"
proof -
  from url_has_form [OF assms(1,2)] obtain w a t user where f: "url_form m w a t" "u_scheme u = to_lower w"
    "parse_authority a = Some (user, u_host u)" by blast
  from f(1) obtain p where m: "scheme_prefix p w" "m = p @ ''//'' @ a @ t" "a \<noteq> []" "list_all (\<lambda>c. \<not> delimiter c) a" "url_tail t"
    by (auto simp: url_form_def)
  have "last a \<noteq> CHR ''/''" using m(3,4) by (auto simp: list_all_iff delimiter_def dest: last_in_set)
  then have "strip_trailing (CHR ''/'') m = p @ ''//'' @ a @ strip_trailing (CHR ''/'') t"
    using strip_keeps [of "p @ ''//'' @ a" "CHR ''/''" t] m(3) by (simp add: m(2))
  moreover have "url_tail (strip_trailing (CHR ''/'') t @ path)"
    using m(5) strip_prefix [of t "CHR ''/''"] assms(3)
    by (cases "strip_trailing (CHR ''/'') t") (auto simp: url_tail_def delimiter_def has_prefix_iff)
  ultimately have "url_form (strip_trailing (CHR ''/'') m @ path) w a (strip_trailing (CHR ''/'') t @ path)"
    using m by (auto simp: url_form_def)
  from form_has_host [OF this assms(4)] f show ?thesis by auto
qed

end
