(* ===== verification/ClientClaims.thy ===== *)
theory ClientClaims
  imports Client UrlHost CommandProps DispatchProps
begin

text \<open>
  What the client of the management server promises: where its requests go and what they carry, which tickets and
  acknowledgements it accepts, and how its checks of identifiers fit the decoder's.
\<close>

section \<open>Every call, with what it sends\<close>

datatype client_event =
    Exchange http_request "goerr + http_response"
  | Clock gotime

definition logged_client :: "'w client \<Rightarrow> ('w \<times> client_event list) client" where
  "logged_client c = \<lparr>cl_base = cl_base c, cl_agent_id = cl_agent_id c, cl_credential = cl_credential c,
     cl_http = (\<lambda>q. log_op (Exchange q) (cl_http c q)), cl_now = log_op Clock (cl_now c)\<rparr>"

lemma logged_client_simps [simp]:
  "cl_base (logged_client c) = cl_base c" "cl_agent_id (logged_client c) = cl_agent_id c"
  "cl_credential (logged_client c) = cl_credential c" "cl_http (logged_client c) q = log_op (Exchange q) (cl_http c q)"
  "cl_now (logged_client c) = log_op Clock (cl_now c)" "enrolled (logged_client c) = enrolled c"
  "bearer (logged_client c) = bearer c"
  by (simp_all add: logged_client_def enrolled_def bearer_def [abs_def])

datatype 's client_call =
    CallEnroll string string identity_info
  | CallHeartbeat "'s heartbeat_request"
  | CallPoll int
  | CallStart string string
  | CallFinish string command_result
  | CallDownload string
  | CallUpgrade string int
  | CallArchive string int
  | CallTicket string string string

definition ignore :: "('w, 'a) op \<Rightarrow> ('w, unit) op" where
  "ignore m = op_bind m (\<lambda>_. op_return ())"

fun run_call :: "('s \<Rightarrow> json option) \<Rightarrow> 'w client \<Rightarrow> 's client_call \<Rightarrow> ('w, unit) op" where
  "run_call ms c (CallEnroll token display i) = ignore (enroll_with_display_name c token display i)"
| "run_call ms c (CallHeartbeat h) = ignore (heartbeat ms c h)"
| "run_call ms c (CallPoll n) = ignore (poll_commands c n)"
| "run_call ms c (CallStart i l) = ignore (start_command c i l)"
| "run_call ms c (CallFinish i r) = ignore (finish_command c i r)"
| "run_call ms c (CallDownload p) = ignore (download_file c p)"
| "run_call ms c (CallUpgrade p n) = ignore (download_upgrade_binary c p n)"
| "run_call ms c (CallArchive i n) = ignore (download_image_archive c i n)"
| "run_call ms c (CallTicket s i l) = ignore (exchange_terminal_ticket c s i l)"

text \<open>The path of a file transfer comes from the server; the decoder has checked how it begins.\<close>

fun well_addressed :: "'s client_call \<Rightarrow> bool" where
  "well_addressed (CallDownload p) = has_prefix p ''/agent/v1/files/''"
| "well_addressed c = True"

fun without_credential :: "'s client_call \<Rightarrow> bool" where
  "without_credential (CallEnroll t d i) = True"
| "without_credential c = False"

text \<open>A call sends at most one request, below the base URL, and with the client's credential unless it enrolls.\<close>

definition sent_by :: "'w client \<Rightarrow> bool \<Rightarrow> http_request \<Rightarrow> bool" where
  "sent_by c anonymous q \<longleftrightarrow> (\<exists>path. hq_url q = cl_base c @ path \<and> has_prefix path ''/'') \<and> url_parse (hq_url q) \<noteq> None \<and>
     hq_authorization q = (if anonymous then None else Some (''Bearer '' @ cl_credential c))"

fun may_send :: "'w client \<Rightarrow> bool \<Rightarrow> client_event list \<Rightarrow> client_event \<Rightarrow> bool" where
  "may_send c anonymous h (Exchange q x) = (h = [] \<and> sent_by c anonymous q)"
| "may_send c anonymous h (Clock t) = True"

abbreviation anything :: "'a \<Rightarrow> 'b \<Rightarrow> bool" where
  "anything \<equiv> \<lambda>x y. True"

lemma new_request_ok:
  assumes "new_request m (cl_base c @ path) b = Some q" "has_prefix path ''/''"
  shows "sent_by c False (bearer c q)" "sent_by c False (as_json (bearer c q))" "sent_by c True (as_json q)"
  using assms by (auto simp: new_request_def sent_by_def bearer_def as_json_def split: if_splits)

lemma guards_ignore: "guards ok h m anything \<Longrightarrow> guards ok h (ignore m) anything"
  unfolding ignore_def by (rule guards_bind [where R = anything]) (auto intro: guards_return)

lemma guards_authenticated:
  "has_prefix path ''/'' \<Longrightarrow> guards (may_send c False) [] (authenticated_json (logged_client c) m path p d) anything"
  unfolding authenticated_json_def logged_client_simps
  by (intro guards_intros) (auto intro: new_request_ok)

lemma guards_start: "guards (may_send c False) [] (start_command (logged_client c) i l) anything"
  unfolding start_command_def try_res_def
  by (intro guards_if guards_return guards_bind [OF guards_authenticated] guards_sum TrueI) (simp add: command_path_def)

lemma guards_finish: "guards (may_send c False) [] (finish_command (logged_client c) i r) anything"
  unfolding finish_command_def
  by (intro guards_if guards_return guards_bind [OF guards_authenticated] TrueI) (simp add: command_path_def)

lemma guards_poll: "guards (may_send c False) [] (poll_commands (logged_client c) n) anything"
  unfolding poll_commands_def
  by (intro guards_if guards_return guards_authenticated TrueI) (simp add: poll_path_def)

lemma guards_heartbeat: "guards (may_send c False) [] (heartbeat ms (logged_client c) h) anything"
  unfolding heartbeat_def by (rule guards_authenticated) simp

lemma guards_download:
  assumes "has_prefix p ''/''"
  shows "guards (may_send c False) [] (download_file (logged_client c) p) anything"
  unfolding download_file_def logged_client_simps
  by (intro guards_intros) (auto intro: new_request_ok assms)

lemma guards_upgrade: "guards (may_send c False) [] (download_upgrade_binary (logged_client c) p n) anything"
  unfolding download_upgrade_binary_def logged_client_simps
  by (intro guards_intros) (auto intro: new_request_ok simp: upgrade_path_def)

lemma archive_slash: "has_prefix (archive_path i) ''/''" and ticket_slash: "has_prefix (ticket_path i) ''/''"
  by (simp_all add: archive_path_def ticket_path_def)

lemma guards_archive: "guards (may_send c False) [] (download_image_archive (logged_client c) i n) anything"
  unfolding download_image_archive_def logged_client_simps
  by (intro guards_intros) (auto intro: new_request_ok archive_slash)

lemma guards_enroll: "guards (may_send c True) [] (enroll_with_display_name (logged_client c) t d i) anything"
  unfolding enroll_with_display_name_def logged_client_simps
  by (intro guards_intros) (auto intro: new_request_ok)

lemma guards_ticket: "guards (may_send c False) [] (exchange_terminal_ticket (logged_client c) s i l) anything"
  unfolding exchange_terminal_ticket_def logged_client_simps
  by (intro guards_intros) (auto intro: new_request_ok ticket_slash)

lemma call_guarded:
  "well_addressed call \<Longrightarrow> guards (may_send c (without_credential call)) [] (run_call ms (logged_client c) call) anything"
  by (cases call)
    (auto intro!: guards_ignore guards_enroll guards_heartbeat guards_poll guards_start guards_finish guards_upgrade
      guards_archive guards_ticket guards_download simp: has_prefix_iff)

lemma call_sends:
  assumes "well_addressed call" "run_call ms (logged_client c) call (w, []) = (u, (w', tr))" "Exchange q x \<in> set tr"
  shows "sent_by c (without_credential call) q"
proof -
  have g: "guarded (may_send c (without_credential call)) tr"
    using guards_run [OF call_guarded [OF assms(1)] assms(2)] by simp
  from assms(3) obtain i where "i < length tr" "tr ! i = Exchange q x" by (auto simp: in_set_conv_nth)
  with g have "may_send c (without_credential call) (take i tr) (Exchange q x)" unfolding guarded_def by metis
  then show ?thesis by simp
qed

section \<open>Where requests go\<close>

lemma new_client_base:
  "new_client read_ca pem_ok connect clock cfg = Inr c \<Longrightarrow>
   cl_base c = trim_slashes (cf_management_url cfg) \<and> cl_credential c = cf_credential cfg \<and> cl_agent_id c = cf_agent_id cfg"
  by (auto simp: new_client_def Let_def split: if_splits sum.splits)

text \<open>
  C28. With a configuration that was loaded, whatever the agent asks of its client, the request goes to the host and
  scheme of the management URL, over HTTPS unless the agent is in development mode, and carries the credential
  unless it is the enrollment. For a file transfer this rests on how the decoder says the path begins.
\<close>

theorem requests_stay_home:
  assumes "load_config decode check_ca path w0 = (Inr cfg, w1)" "new_client read_ca pem_ok connect clock cfg = Inr c"
    "well_addressed call" "run_call ms (logged_client c) call (w, []) = (u, (w', tr))" "Exchange q x \<in> set tr"
  shows "\<exists>m v. url_parse (cf_management_url cfg) = Some m \<and> url_parse (hq_url q) = Some v \<and>
    u_host v = u_host m \<and> u_scheme v = u_scheme m \<and> (cf_development cfg \<or> u_scheme v = ''https'') \<and>
    hq_authorization q = (if without_credential call then None else Some (''Bearer '' @ cf_credential cfg))"
proof -
  from load_ok [OF assms(1)] have "validate_config check_ca cfg = None" by blast
  then obtain m where m: "url_parse (cf_management_url cfg) = Some m" "u_host m \<noteq> []"
    "cf_development cfg \<or> u_scheme m = ''https''" by (auto simp: validate_ok)
  note base = new_client_base [OF assms(2)]
  from call_sends [OF assms(3-5)] obtain p v where q: "hq_url q = cl_base c @ p" "has_prefix p ''/''" "url_parse (hq_url q) = Some v"
    "hq_authorization q = (if without_credential call then None else Some (''Bearer '' @ cl_credential c))"
    by (auto simp: sent_by_def)
  have "u_host v = u_host m \<and> u_scheme v = u_scheme m"
    by (rule host_stays [OF m(1,2) q(2)]) (use q(1,3) base in \<open>simp add: trim_slashes_def\<close>)
  with m q base show ?thesis by auto
qed

definition home_config :: config where
  "home_config = \<lparr>cf_management_url = ''https://m.example/'', cf_ca = ''/ca.pem'', cf_workspace = ''/w'',
     cf_environment_root = ''/w/environments'', cf_tls_dir = ''/t'', cf_agent_id = ''a'', cf_credential = ''k'', cf_development = False\<rparr>"

definition home_world :: config_world where
  "home_world = \<lparr>cw_file = Some (private_mode, []), cw_temp = None, cw_faults = []\<rparr>"

definition home_client :: "unit client" where
  "home_client = \<lparr>cl_base = ''https://m.example'', cl_agent_id = ''a'', cl_credential = ''k'',
     cl_http = (\<lambda>q w. (Inl ContextCanceled, w)), cl_now = (\<lambda>w. (zero_time, w))\<rparr>"

definition home_request :: http_request where
  "home_request = \<lparr>hq_method = ''GET'', hq_url = ''https://m.example'' @ poll_path 3,
     hq_authorization = Some ''Bearer k'', hq_content_type = None, hq_body = None\<rparr>"

lemma home_url: "url_parse ''https://m.example/'' = Some (empty_url\<lparr>u_scheme := ''https'', u_host := ''m.example'', u_path := ''/''\<rparr>)"
  by code_simp

lemma home_loads: "load_config (\<lambda>s. Inr home_config) (\<lambda>s. None) ''/etc/c'' home_world = (Inr home_config, home_world)"
proof -
  have "default_config (join_ca ''/etc/c'' home_config) = home_config"
    by (simp add: home_config_def default_config_def join_ca_def is_abs_def)
  moreover have "validate_config (\<lambda>s. None) home_config = None"
    unfolding validate_ok by (simp add: home_config_def home_url is_abs_def empty_url_def)
  ultimately show ?thesis
    by (simp add: load_config_def home_world_def cw_try_def cw_call_def private_mode_def Let_def)
qed

lemma home_made:
  "new_client (\<lambda>s. Inr []) (\<lambda>s. True) (\<lambda>p q w. (Inl ContextCanceled, w)) (\<lambda>w. (zero_time, w)) home_config = Inr home_client"
  by (simp add: new_client_def home_config_def home_client_def trim_slashes_def strip_trailing_def)

lemma home_parses: "url_parse (hq_url home_request) = Some (empty_url\<lparr>u_scheme := ''https'', u_host := ''m.example'',
    u_path := ''/agent/v1/commands/poll'', u_raw_query := ''waitSeconds=3''\<rparr>)"
  by code_simp

lemma home_runs: "run_call (\<lambda>m. None) (logged_client home_client) (CallPoll 3) ((), []) = ((), ((), [Exchange home_request (Inl ContextCanceled)]))"
  using home_parses
  by (simp add: ignore_def poll_commands_def authenticated_json_def new_request_def home_client_def logged_client_def enrolled_def
      home_request_def bearer_def need_op_def op_bind_def op_return_def log_op_def)

theorem requests_stay_home_witness:
  "\<exists>m v. url_parse (cf_management_url home_config) = Some m \<and> url_parse (hq_url home_request) = Some v \<and>
    u_host v = u_host m \<and> u_scheme v = ''https'' \<and> hq_authorization home_request = Some ''Bearer k''"
  using requests_stay_home [OF home_loads home_made _ home_runs, of home_request "Inl ContextCanceled"]
  by (simp add: home_config_def) blast

section \<open>Terminal tickets\<close>

lemma limit_small: "length (fst (limit_body (n + 1) b)) \<le> n \<Longrightarrow> limit_body (n + 1) b = b"
  by (auto simp: limit_body_def split: if_splits)

text \<open>The value a document gives a field of the answer: the last one under its name that is not \<open>null\<close>.\<close>

definition ticket_fields :: "string list" where
  "ticket_fields = [''ticket'', ''expiresAt'']"

definition given_field :: "string \<Rightarrow> (string \<times> json) list \<Rightarrow> json option" where
  "given_field n kvs = raw_field ticket_fields n (filter (\<lambda>kv. snd kv \<noteq> JNull) kvs)"

lemma given_field_Nil [simp]: "given_field n [] = None"
  by (simp add: given_field_def raw_field_def)

lemma find_append: "find p (xs @ ys) = (case find p xs of Some x \<Rightarrow> Some x | None \<Rightarrow> find p ys)"
  by (induction xs) auto

lemma given_field_Cons:
  "given_field n (kv # kvs) = (case given_field n kvs of Some v \<Rightarrow> Some v
     | None \<Rightarrow> if snd kv \<noteq> JNull \<and> match_field ticket_fields (fst kv) = Some n then Some (snd kv) else None)"
  by (auto simp: given_field_def raw_field_def find_append split: option.splits)

text \<open>A decoded answer has only known fields, and its two strings are the document's.\<close>

lemma dec_ticket_fields:
  assumes "dec_ticket (JObj kvs) x = Inr y"
  shows "list_all (\<lambda>kv. match_field ticket_fields (fst kv) \<noteq> None) kvs \<and>
    (given_field ''ticket'' kvs = Some (JStr (rt_ticket y)) \<or> given_field ''ticket'' kvs = None \<and> rt_ticket y = rt_ticket x) \<and>
    (given_field ''expiresAt'' kvs = Some (JStr (rt_expires_at y)) \<or>
      given_field ''expiresAt'' kvs = None \<and> rt_expires_at y = rt_expires_at x)"
  using assms
proof (induction kvs arbitrary: x)
  case Nil
  then show ?case by (simp add: dec_ticket_def)
next
  case (Cons kv kvs)
  obtain k v where kv: "kv = (k, v)" by (cases kv)
  from Cons.prems obtain n z where n: "match_field ticket_fields k = Some n" "dec_ticket (JObj kvs) z = Inr y"
    "n = ''ticket'' \<and> (\<exists>s. dec_string v (rt_ticket x) = Inr s \<and> z = x\<lparr>rt_ticket := s\<rparr>) \<or>
     n = ''expiresAt'' \<and> (\<exists>s. dec_string v (rt_expires_at x) = Inr s \<and> z = x\<lparr>rt_expires_at := s\<rparr>)"
    using match_field_in [of ticket_fields k]
    by (fastforce simp: kv dec_ticket_def ticket_fields_def map_sum_Inr split: option.splits sum.splits if_splits)
  from Cons.IH [OF n(2)] n(1,3) show ?case
    by (cases v) (auto simp: kv given_field_Cons)
qed

lemma read_ticket_ok:
  assumes "read_ticket data = Inr t"
  shows "rx_match terminal_ticket_pattern (tt_ticket t) \<and>
    (\<exists>kvs. json_document data = Some (JObj kvs) \<and> dup_free (JObj kvs) \<and>
      list_all (\<lambda>kv. match_field ticket_fields (fst kv) \<noteq> None) kvs \<and>
      given_field ''ticket'' kvs = Some (JStr (tt_ticket t)) \<and>
      given_field ''expiresAt'' kvs = Some (JStr (format_seconds_z (tt_expires_at t)))) \<and>
    parse_rfc3339 (format_seconds_z (tt_expires_at t)) = Some (tt_expires_at t)"
proof -
  let ?zero = "\<lparr>rt_ticket = [], rt_expires_at = []\<rparr>"
  from assms obtain v raw where v: "json_document data = Some v" "dup_free v" "dec_ticket v ?zero = Inr raw"
    "rx_match terminal_ticket_pattern (rt_ticket raw)" "length (rt_expires_at raw) = 20"
    "parse_rfc3339 (rt_expires_at raw) = Some (tt_expires_at t)" "format_seconds_z (tt_expires_at t) = rt_expires_at raw"
    "tt_ticket t = rt_ticket raw"
    unfolding read_ticket_def invalid_ticket_def guards by auto
  have "rt_expires_at raw \<noteq> []" using v(5) by auto
  with v(3) obtain kvs where kvs: "v = JObj kvs" by (cases v) (auto simp: dec_ticket_def)
  have "rt_ticket raw \<noteq> []"
  proof
    assume "rt_ticket raw = []"
    with v(4) have "rx_match terminal_ticket_pattern []" by simp
    moreover have "\<not> rx_match terminal_ticket_pattern []" by code_simp
    ultimately show False by simp
  qed
  with dec_ticket_fields [of kvs ?zero raw] v kvs \<open>rt_expires_at raw \<noteq> []\<close> show ?thesis by auto
qed

text \<open>
  C29. A terminal ticket is accepted only as the answer to one request, for canonical identifiers and with the
  credential: an object of at most 4096 bytes, without duplicate fields and with no field but \<open>ticket\<close> and
  \<open>expiresAt\<close>. The ticket returned is the string that the object gives for \<open>ticket\<close> and has the pattern; the expiry returned
  is the one whose canonical text the object gives for \<open>expiresAt\<close>, and is later than the clock after the answer by
  at most a minute.
\<close>

theorem ticket_checked:
  assumes "exchange_terminal_ticket (logged_client c) session i lease (w, []) = (Inr t, (w', tr))"
  shows "\<exists>q a now kvs. tr = [Exchange q (Inr a), Clock now] \<and> hq_url q = cl_base c @ ticket_path session \<and>
    hq_body q = Some (ticket_request i lease) \<and> hq_authorization q = Some (''Bearer '' @ cl_credential c) \<and> enrolled c \<and>
    is_canonical_uuid session \<and> is_canonical_uuid i \<and> is_canonical_uuid lease \<and>
    accepted_status a \<and> snd (hr_body a) = None \<and> length (fst (hr_body a)) \<le> 4096 \<and>
    json_document (fst (hr_body a)) = Some (JObj kvs) \<and> dup_free (JObj kvs) \<and>
    list_all (\<lambda>kv. match_field ticket_fields (fst kv) \<noteq> None) kvs \<and>
    given_field ''ticket'' kvs = Some (JStr (tt_ticket t)) \<and> rx_match terminal_ticket_pattern (tt_ticket t) \<and>
    given_field ''expiresAt'' kvs = Some (JStr (format_seconds_z (tt_expires_at t))) \<and>
    parse_rfc3339 (format_seconds_z (tt_expires_at t)) = Some (tt_expires_at t) \<and>
    instant now < instant (tt_expires_at t) \<and> instant (tt_expires_at t) \<le> instant now + 60 * second_ns"
proof -
  let ?ok = "is_canonical_uuid session \<and> is_canonical_uuid i \<and> is_canonical_uuid lease \<and> enrolled c"
  from assms have ids: ?ok
    by (auto simp: exchange_terminal_ticket_def op_return_def split: if_splits option.splits)
  from assms ids obtain q0 where q0: "new_request ''POST'' (cl_base c @ ticket_path session) (Some (ticket_request i lease)) = Some q0"
    by (auto simp: exchange_terminal_ticket_def op_return_def split: if_splits option.splits)
  let ?q = "as_json (bearer c q0)"
  obtain x w1 where x: "cl_http c ?q w = (x, w1)" by (metis prod.collapse)
  from assms ids q0 x obtain a where a: "x = Inr a" "accepted_status a"
    by (auto simp: exchange_terminal_ticket_def need_op_def op_bind_def op_return_def log_op_def split: sum.splits if_splits)
  let ?b = "limit_body (max_ticket_bytes + 1) (hr_body a)"
  from assms ids q0 x a have b: "snd ?b = None" "length (fst ?b) \<le> max_ticket_bytes"
    by (auto simp: exchange_terminal_ticket_def need_op_def op_bind_def op_return_def log_op_def Let_def split: if_splits)
  from assms ids q0 x a b obtain t' where t': "read_ticket (fst ?b) = Inr t'"
    by (auto simp: exchange_terminal_ticket_def need_op_def op_bind_def op_return_def log_op_def Let_def split: if_splits sum.splits)
  obtain now w2 where now: "cl_now c w1 = (now, w2)" by (metis prod.collapse)
  from assms ids q0 x a b t' now have finish: "tr = [Exchange ?q (Inr a), Clock now] \<and> t' = t \<and> after (tt_expires_at t) now \<and>
      \<not> after (tt_expires_at t) (add_dur now minute)"
    by (auto simp: exchange_terminal_ticket_def need_op_def op_bind_def op_return_def log_op_def Let_def split: if_splits)
  have same: "?b = hr_body a" using limit_small [of max_ticket_bytes] b(2) by simp
  have "hq_url ?q = cl_base c @ ticket_path session \<and> hq_body ?q = Some (ticket_request i lease) \<and>
      hq_authorization ?q = Some (''Bearer '' @ cl_credential c)"
    using q0 by (auto simp: new_request_def as_json_def bearer_def split: if_splits)
  with finish ids a(2) b same read_ticket_ok [OF t'] show ?thesis
    by (auto simp: after_def add_dur_def minute_def max_ticket_bytes_def)
qed

definition ticket_letters :: string where "ticket_letters = replicate 43 (CHR ''A'')"

definition ticket_document :: json where
  "ticket_document = JObj [(''ticket'', JStr ticket_letters), (''expiresAt'', JStr ''2026-01-01T00:00:30Z'')]"

definition ticket_text :: string where
  "ticket_text = json_text ticket_document"

definition ticket_time :: gotime where
  "ticket_time = \<lparr>instant = day_number 2026 1 1 * 86400 * second_ns, utc_loc = True\<rparr>"

definition ticket_response :: http_response where
  "ticket_response = \<lparr>hr_status = 200, hr_length = 89, hr_body = (ticket_text, None)\<rparr>"

definition ticket_client :: "unit client" where
  "ticket_client = home_client\<lparr>cl_http := (\<lambda>q w. (Inr ticket_response, w)),
     cl_now := (\<lambda>w. (ticket_time, w))\<rparr>"

definition ticket_uuid :: string where "ticket_uuid = ''00000000-0000-1000-8000-000000000000''"

definition ticket_answer :: terminal_ticket where
  "ticket_answer = \<lparr>tt_ticket = ticket_letters, tt_expires_at = add_dur ticket_time (30 * second_ns)\<rparr>"

lemma ticket_printable: "printable_json ticket_document" "numbers_ok ticket_document" "nested_within 0 ticket_document"
    "dup_free ticket_document" "rx_match terminal_ticket_pattern ticket_letters"
  by code_simp+

lemma ticket_decodes:
  "dec_ticket ticket_document \<lparr>rt_ticket = [], rt_expires_at = []\<rparr> = Inr \<lparr>rt_ticket = ticket_letters, rt_expires_at = ''2026-01-01T00:00:30Z''\<rparr>"
  by code_simp

lemma ticket_times: "parse_rfc3339 ''2026-01-01T00:00:30Z'' = Some (tt_expires_at ticket_answer)"
    "format_seconds_z (tt_expires_at ticket_answer) = ''2026-01-01T00:00:30Z''"
  by code_simp+

lemma ticket_reads: "read_ticket ticket_text = Inr ticket_answer"
proof -
  have "json_document ticket_text = Some ticket_document"
    unfolding ticket_text_def using ticket_printable by (simp add: json_round_trip clean_fixed printable_clean)
  then show ?thesis
    using ticket_printable ticket_times unfolding read_ticket_def
    by (simp add: ticket_decodes del: rx_match.simps) (simp add: ticket_answer_def)
qed

lemma ticket_ids: "is_canonical_uuid ticket_uuid"
  by code_simp

lemma ticket_url: "\<exists>u. url_parse (''https://m.example'' @ ticket_path ticket_uuid) = Some u"
proof -
  have "case url_parse (''https://m.example'' @ ticket_path ticket_uuid) of None \<Rightarrow> False | Some u \<Rightarrow> True" by code_simp
  then show ?thesis by (simp split: option.splits)
qed

lemma ticket_size: "0 < length ticket_text" "length ticket_text < 100"
  unfolding ticket_text_def printable_length [OF ticket_printable(1)] by code_simp+

lemma ticket_client_simps: "cl_base ticket_client = ''https://m.example''" "enrolled ticket_client"
    "cl_http ticket_client q w = (Inr ticket_response, w)" "cl_now ticket_client w = (ticket_time, w)"
  by (simp_all add: ticket_client_def home_client_def enrolled_def)

lemma ticket_accepted: "accepted_status ticket_response" "limit_body (max_ticket_bytes + 1) (hr_body ticket_response) = (ticket_text, None)"
    "ticket_text \<noteq> []" "length ticket_text \<le> max_ticket_bytes"
proof -
  show "ticket_text \<noteq> []" using ticket_size(1) by auto
  show "accepted_status ticket_response" by (simp add: accepted_status_def ticket_response_def)
  show "limit_body (max_ticket_bytes + 1) (hr_body ticket_response) = (ticket_text, None)" "length ticket_text \<le> max_ticket_bytes"
    using ticket_size(2) by (simp_all add: ticket_response_def limit_body_def max_ticket_bytes_def)
qed

lemma ticket_fresh: "after (tt_expires_at ticket_answer) ticket_time" "\<not> after (tt_expires_at ticket_answer) (add_dur ticket_time minute)"
  by (simp_all add: ticket_answer_def after_def add_dur_def minute_def second_ns_def)

lemma ticket_exchanged:
  "fst (exchange_terminal_ticket (logged_client ticket_client) ticket_uuid ticket_uuid ticket_uuid ((), [])) = Inr ticket_answer"
proof -
  obtain q where q: "new_request ''POST'' (''https://m.example'' @ ticket_path ticket_uuid) (Some (ticket_request ticket_uuid ticket_uuid)) = Some q"
    using ticket_url by (auto simp: new_request_def)
  show ?thesis
    unfolding exchange_terminal_ticket_def logged_client_simps ticket_client_simps(1) q
    using ticket_ids ticket_client_simps ticket_accepted ticket_reads ticket_fresh
    by (simp add: need_op_def op_bind_def op_return_def log_op_def Let_def del: rx_match.simps)
qed

theorem ticket_checked_witness:
  "rx_match terminal_ticket_pattern (tt_ticket ticket_answer)"
  using ticket_checked [of ticket_client ticket_uuid ticket_uuid ticket_uuid "()" ticket_answer]
    ticket_exchanged by (metis prod.collapse)

section \<open>Acknowledgements and reports\<close>

text \<open>A call with the credential ends without a request, with one that failed, or with one that was answered.\<close>

definition json_result :: "(json \<Rightarrow> goerr + 'a) \<Rightarrow> http_response \<Rightarrow> goerr + 'a" where
  "json_result d a =
     (if \<not> accepted_status a then Inl (StatusError (hr_status a))
      else case json_stream (limit_body max_response_bytes (hr_body a)) of
          None \<Rightarrow> Inl (Plain ''decode agent response'')
        | Some v \<Rightarrow> (case d v of Inl e \<Rightarrow> Inl (Plain ''decode agent response'') | Inr x \<Rightarrow> Inr x))"

lemma authenticated_cases:
  fixes c :: "'w client"
  defines "run \<equiv> \<lambda>m path p d w. authenticated_json (logged_client c) m path p d (w, [])"
  obtains (unsent) s where "fst (run m path p d w) = Inl (Plain s)" "snd (snd (run m path p d w)) = []"
  | (failed) q e s where "fst (run m path p d w) = Inl (Plain s)" "snd (snd (run m path p d w)) = [Exchange q (Inl e)]"
  | (answered) q a where "fst (run m path p d w) = json_result d a" "snd (snd (run m path p d w)) = [Exchange q (Inr a)]"
proof (cases "new_request m (cl_base c @ path) (Option.bind p id)")
  case None
  then have "\<exists>s. fst (run m path p d w) = Inl (Plain s) \<and> snd (snd (run m path p d w)) = []"
    unfolding run_def authenticated_json_def logged_client_simps by (simp add: op_return_def)
  then show thesis using unsent by blast
next
  case (Some q0)
  let ?q = "(if p = None then id else as_json) (bearer c q0)"
  obtain x w' where x: "cl_http c ?q w = (x, w')" by (metis prod.collapse)
  have send: "need_op (log_op (Exchange ?q) (cl_http c ?q)) f (\<lambda>a. op_return (json_result d a)) (w, []) =
      (case x of Inl e \<Rightarrow> Inl (f e) | Inr a \<Rightarrow> json_result d a, (w', [Exchange ?q x]))" for f
    using x by (simp add: need_op_def op_bind_def op_return_def log_op_def split: sum.split)
  show thesis
  proof (cases "\<not> enrolled c \<or> p = Some None")
    case True
    then have "\<exists>s. fst (run m path p d w) = Inl (Plain s) \<and> snd (snd (run m path p d w)) = []"
      unfolding run_def authenticated_json_def logged_client_simps by (auto simp: op_return_def)
    then show thesis using unsent by blast
  next
    case False
    then have "run m path p d w = need_op (log_op (Exchange ?q) (cl_http c ?q)) (\<lambda>_. Plain ''agent request failed'')
        (\<lambda>a. op_return (json_result d a)) (w, [])"
      unfolding run_def authenticated_json_def logged_client_simps json_result_def [abs_def] using Some by simp
    then show thesis using send failed answered by (cases x) simp_all
  qed
qed

text \<open>An accepted answer: 2xx, with a document the caller can decode in its first mebibyte.\<close>

definition decodes :: "(json \<Rightarrow> goerr + 'a) \<Rightarrow> http_response \<Rightarrow> 'a \<Rightarrow> bool" where
  "decodes d a x \<longleftrightarrow> accepted_status a \<and>
     (\<exists>v. json_stream (limit_body max_response_bytes (hr_body a)) = Some v \<and> d v = Inr x)"

lemma json_result_ok: "json_result d a = Inr x \<longleftrightarrow> decodes d a x"
  unfolding json_result_def decodes_def guards by (auto split: sum.splits)

lemma json_result_status: "json_result d a = Inl e \<Longrightarrow> err_as_status e = Some n \<longleftrightarrow> \<not> accepted_status a \<and> hr_status a = n"
  unfolding json_result_def by (auto split: if_split_asm option.split_asm sum.split_asm)

lemma authenticated_ok:
  "fst (authenticated_json (logged_client c) m path p d (w, [])) = Inr x \<longleftrightarrow>
     (\<exists>q a. snd (snd (authenticated_json (logged_client c) m path p d (w, []))) = [Exchange q (Inr a)] \<and> decodes d a x)"
  by (rule authenticated_cases [of c m path p d w]) (auto simp: json_result_ok)

lemma authenticated_status:
  "fst (authenticated_json (logged_client c) m path p d (w, [])) = Inl e \<Longrightarrow> err_as_status e = Some n \<longleftrightarrow>
     (\<exists>q a. snd (snd (authenticated_json (logged_client c) m path p d (w, []))) = [Exchange q (Inr a)] \<and>
        \<not> accepted_status a \<and> hr_status a = n)"
  by (rule authenticated_cases [of c m path p d w]) (auto simp: json_result_status)

lemma object_answer:
  "decodes dec_any_object a () \<longleftrightarrow> accepted_status a \<and>
     (\<exists>v. json_stream (limit_body max_response_bytes (hr_body a)) = Some v \<and> (v = JNull \<or> (\<exists>kvs. v = JObj kvs) \<and> floats_fit v))"
proof -
  have "dec_any_object v = Inr () \<longleftrightarrow> v = JNull \<or> (\<exists>kvs. v = JObj kvs) \<and> floats_fit v" for v
    by (cases v) (simp_all add: dec_any_object_def)
  then show ?thesis by (simp add: decodes_def)
qed

lemma finish_delivered:
  "fst (finish_command (logged_client c) i r (w, [])) = None \<longleftrightarrow>
     (\<exists>q a. snd (snd (finish_command (logged_client c) i r (w, []))) = [Exchange q (Inr a)] \<and>
        (decodes dec_any_object a () \<or> hr_status a = 409))"
proof (cases "rx_match generic_command_uuid i \<and> rx_match generic_command_uuid (cr_lease_token r)")
  case False
  then show ?thesis by (auto simp: finish_command_def op_return_def)
next
  case True
  let ?m = "authenticated_json (logged_client c) ''POST'' (command_path i ''/result'') (Some (Some (json_text (result_json r)))) dec_any_object (w, [])"
  have tr: "snd (finish_command (logged_client c) i r (w, [])) = snd ?m"
    and r: "fst (finish_command (logged_client c) i r (w, [])) =
      (case fst ?m of Inl e \<Rightarrow> if err_as_status e = Some conflict_status then None else Some e | Inr _ \<Rightarrow> None)"
    using True by (simp_all add: finish_command_def op_bind_def op_return_def split: prod.split)
  show ?thesis
  proof (cases "fst ?m")
    case (Inl e)
    have n: "\<not> (\<exists>q a. snd (snd ?m) = [Exchange q (Inr a)] \<and> decodes dec_any_object a ())"
      using Inl authenticated_ok [of c "''POST''" "command_path i ''/result''" "Some (Some (json_text (result_json r)))" dec_any_object w "()"]
      by auto
    have "hr_status a = 409 \<Longrightarrow> \<not> accepted_status a" for a by (simp add: accepted_status_def)
    with n show ?thesis
      unfolding tr r Inl using authenticated_status [OF Inl, of conflict_status]
      by (auto simp: conflict_status_def)
  next
    case (Inr u)
    with authenticated_ok [of c "''POST''" "command_path i ''/result''" "Some (Some (json_text (result_json r)))" dec_any_object w u]
    show ?thesis unfolding tr r by auto
  qed
qed

text \<open>
  C30. A report counts as delivered exactly when the server answered its one request with a conflict, which says that
  the command has already ended there, or with a 2xx status whose body begins, in its first mebibyte, with
  the JSON value \<open>null\<close> or with a JSON object all of whose numbers fit a float64.
\<close>

theorem report_delivered_iff:
  "fst (finish_command (logged_client c) i r (w, [])) = None \<longleftrightarrow>
     (\<exists>q a. snd (snd (finish_command (logged_client c) i r (w, []))) = [Exchange q (Inr a)] \<and>
        (hr_status a = 409 \<or> accepted_status a \<and>
          (\<exists>v. json_stream (limit_body max_response_bytes (hr_body a)) = Some v \<and>
            (v = JNull \<or> (\<exists>kvs. v = JObj kvs) \<and> floats_fit v))))"
  unfolding finish_delivered object_answer by blast

text \<open>
  A start is acknowledged only by an answer that names this command and this agent and says that it runs.
\<close>

theorem start_acknowledged:
  assumes "start_command (logged_client c) i lease (w, []) = (None, (w', tr))"
  shows "\<exists>q a r. tr = [Exchange q (Inr a)] \<and> decodes (\<lambda>v. dec_start_response v \<lparr>sr_command_id = [], sr_agent_id = [], sr_state = []\<rparr>) a r \<and>
    sr_command_id r = i \<and> sr_agent_id r = cl_agent_id c \<and> sr_state r = ''RUNNING''"
proof -
  let ?d = "\<lambda>v. dec_start_response v \<lparr>sr_command_id = [], sr_agent_id = [], sr_state = []\<rparr>"
  let ?m = "authenticated_json (logged_client c) ''POST'' (command_path i ''/start'')
      (Some (Some (json_text (JObj [(''leaseToken'', JStr lease)])))) ?d (w, [])"
  have "rx_match generic_command_uuid i \<and> rx_match generic_command_uuid lease"
    using assms by (auto simp: start_command_def op_return_def split: if_splits)
  with assms obtain r where r: "?m = (Inr r, (w', tr))" "sr_command_id r = i" "sr_agent_id r = cl_agent_id c" "sr_state r = ''RUNNING''"
    by (auto simp: start_command_def try_res_def op_bind_def op_return_def split: prod.splits sum.splits if_split_asm)
  have "fst ?m = Inr r" "snd (snd ?m) = tr" using r(1) by simp_all
  with authenticated_ok [of c "''POST''" "command_path i ''/start''" "Some (Some (json_text (JObj [(''leaseToken'', JStr lease)])))" ?d w r] r
  show ?thesis by auto
qed

section \<open>Identifiers\<close>

lemma rx_fixed_weaken:
  assumes "rx_fixed r = Some ps" "rx_fixed r' = Some qs" "list_all2 (\<lambda>p q. \<forall>c. p c \<longrightarrow> q c) ps qs" "rx_match r s"
  shows "rx_match r' s"
proof -
  from assms(1,4) have s: "list_all2 (\<lambda>p c. p c) ps s" by (simp add: rx_match_fixed)
  from assms(3) s have "list_all2 (\<lambda>q c. q c) qs s"
  proof (induction arbitrary: s rule: list_all2_induct)
    case (Cons p ps q qs)
    then show ?case by (cases s) auto
  qed simp
  with assms(2) show ?thesis by (simp add: rx_match_fixed)
qed

lemmas rx_fixed_eval = rx_cat_def rx_fixed_rep rx_fixed_lit

lemma weaken_replicate: "(\<forall>c. p c \<longrightarrow> q c) \<Longrightarrow> list_all2 (\<lambda>p q. \<forall>c. p c \<longrightarrow> q c) (replicate n p) (replicate n q)"
  by (simp add: list_all2_conv_all_nth)

lemma generic_accepts_uuid: "is_uuid s \<Longrightarrow> rx_match generic_command_uuid s"
  unfolding uuid_pattern_def generic_command_uuid_def
  by (rule rx_fixed_weaken [rotated 3], assumption)
    (simp_all add: rx_fixed_eval weaken_replicate list_all2_appendI, auto simp: list_all2_conv_all_nth nth_append nth_Cons' byte_class_defs)

lemma generic_accepts_canonical: "is_canonical_uuid s \<Longrightarrow> rx_match generic_command_uuid s"
  unfolding canonical_uuid_pattern_def generic_command_uuid_def
  by (rule rx_fixed_weaken [rotated 3], assumption)
    (simp_all add: rx_fixed_eval weaken_replicate list_all2_appendI, auto simp: list_all2_conv_all_nth nth_append nth_Cons' byte_class_defs)

text \<open>
  C31. The client's own check of identifiers never stands between an accepted command and the server, except for the
  two types the decoder lets through without one: for those, an identifier that is not a UUID ends the dispatch at
  the acknowledgement, before any effect and without a request.
\<close>

theorem identifiers_checked:
  assumes "decode_command ref_ok data now allow = Inr c" "d_start d = start_command cl"
  shows "(cmd_type c \<notin> {UpgradeAgent, ExecuteTerminalInput} \<longrightarrow>
      rx_match generic_command_uuid (cmd_id c) \<and> rx_match generic_command_uuid (cmd_lease_token c)) \<and>
    (\<not> rx_match generic_command_uuid (cmd_id c) \<or> \<not> rx_match generic_command_uuid (cmd_lease_token c) \<longrightarrow>
      (\<exists>e. dispatch d c w = (Some e, w)))"
proof -
  have ids: "rx_match generic_command_uuid (cmd_id c) \<and> rx_match generic_command_uuid (cmd_lease_token c)"
    if "cmd_type c \<notin> {UpgradeAgent, ExecuteTerminalInput}"
    using accepted_ident [OF assms(1) that]
    by (auto simp: ident_ok_def Let_def generic_accepts_uuid generic_accepts_canonical split: if_splits)
  moreover have "\<exists>e. dispatch d c w = (Some e, w)"
    if bad: "\<not> rx_match generic_command_uuid (cmd_id c) \<or> \<not> rx_match generic_command_uuid (cmd_lease_token c)"
  proof -
    have start: "d_start d (cmd_id c) (cmd_lease_token c) w = (Some (Plain ''command identifiers are invalid''), w)"
      using bad by (auto simp: assms(2) start_command_def op_return_def)
    from ids bad have "cmd_type c = UpgradeAgent \<or> cmd_type c = ExecuteTerminalInput" by auto
    then show ?thesis
      using start by (auto simp: dispatch_def dispatch_upgrade_def dispatch_terminal_input_def try_err_def op_bind_def op_return_def same_def
        split: option.splits)
  qed
  ultimately show ?thesis by blast
qed

definition quiet_client :: "stored_command option client" where
  "quiet_client = \<lparr>cl_base = ''https://m.example'', cl_agent_id = ''a'', cl_credential = ''k'',
     cl_http = (\<lambda>q w. (Inl ContextCanceled, w)), cl_now = (\<lambda>w. (zero_time, w))\<rparr>"

lemma empty_identifier: "\<not> rx_match generic_command_uuid []"
  by code_simp

theorem identifiers_checked_witness:
  "\<exists>c e. cmd_type c = UpgradeAgent \<and>
     dispatch (memory_dispatcher\<lparr>d_start := start_command quiet_client\<rparr>) c None = (Some e, None)"
proof -
  obtain c where c: "decode_command (\<lambda>s. None) (json_text upgrade_document) zero_time False = Inr c" "cmd_type c = UpgradeAgent" "cmd_id c = []"
    using upgrade_needs_no_identity by blast
  with identifiers_checked [OF c(1), of "memory_dispatcher\<lparr>d_start := start_command quiet_client\<rparr>" quiet_client None]
    empty_identifier show ?thesis by auto
qed

end
