(* ===== verification/Startup.thy ===== *)
theory Startup
  imports Client Guards
begin

text \<open>
  The process (\<open>cmd/xkp-agent/main.go\<close>): it loads its configuration, enrolls when it has no identity yet, and starts the
  runtime. What \<open>main\<close> calls is a record of operations; a call of \<open>fail\<close> ends the process with the message and
  the error, without running the deferred calls.
\<close>

section \<open>The process\<close>

definition agent_version :: string where "agent_version = ''0.2.35''"

record arguments =
  ar_config :: string
  ar_token_file :: string
  ar_display_name :: string
  ar_enroll_only :: bool

record ('w, 'api) host =
  mn_load :: "string \<Rightarrow> ('w, config) res_op"
  mn_connect :: "config \<Rightarrow> ('w, 'api) res_op"
  mn_identify :: "string \<Rightarrow> string \<Rightarrow> ('w, identity_info) res_op"
  mn_read :: "string \<Rightarrow> ('w, string) res_op"
  mn_enroll :: "'api \<Rightarrow> string \<Rightarrow> string \<Rightarrow> identity_info \<Rightarrow> ('w, enrollment) res_op"
  mn_save :: "string \<Rightarrow> config \<Rightarrow> 'w err_op"
  mn_remove :: "string \<Rightarrow> 'w err_op"
  mn_docker :: "'w err_op"
  mn_terminal :: "string \<Rightarrow> 'api \<Rightarrow> 'w err_op"
  mn_recover :: "'w err_op"
  mn_upgrade :: "'api \<Rightarrow> 'w err_op"
  mn_run :: "string \<Rightarrow> string \<Rightarrow> string \<Rightarrow> 'api \<Rightarrow> 'w err_op"
  mn_close_terminal :: "string \<Rightarrow> 'w err_op"
  mn_close_docker :: "'w err_op"

definition display_name :: "arguments \<Rightarrow> identity_info \<Rightarrow> string" where
  "display_name a info = (let name = trim_space (ar_display_name a) in if name = [] then id_hostname info else name)"

definition enrolled_config :: "enrollment \<Rightarrow> config \<Rightarrow> config" where
  "enrolled_config e = with_enrollment (en_agent_id e) (en_credential e)"

definition enroll_once ::
    "('w, 'api) host \<Rightarrow> arguments \<Rightarrow> config \<Rightarrow> 'api \<Rightarrow> identity_info \<Rightarrow> ('w, config \<times> 'api) res_op" where
  "enroll_once g a cfg api info =
     (if cf_agent_id cfg \<noteq> [] then op_return (Inr (cfg, api))
      else if ar_token_file a = []
      then op_return (Inl (wrap ''agent is not enrolled: '' (Plain ''enrollment token file is required'')))
      else need_op (mn_read g (ar_token_file a)) (wrap ''read enrollment token file: '') (\<lambda>token.
           need_op (mn_enroll g api (trim_space token) (display_name a info) info) (wrap ''enrollment failed: '') (\<lambda>e.
           check_op (mn_save g (ar_config a) (enrolled_config e cfg)) (wrap ''save enrollment credential: '')
           (check_op (mn_remove g (ar_token_file a)) (wrap ''remove enrollment token file: '')
           (need_op (mn_connect g (enrolled_config e cfg)) (wrap ''client initialization failed: '') (\<lambda>api'.
              op_return (Inr (enrolled_config e cfg, api'))))))))"

definition command_state_path :: "string \<Rightarrow> string" where
  "command_state_path config_path = path_join [path_dir config_path, ''pending-command.json'']"

definition recovery_path :: "string \<Rightarrow> string" where
  "recovery_path config_path = path_join [path_dir config_path, ''terminal-recovery.json'']"

definition run_agent :: "('w, 'api) host \<Rightarrow> arguments \<Rightarrow> config \<Rightarrow> 'api \<Rightarrow> 'w err_op" where
  "run_agent g a cfg api =
     try_err (mn_docker g) (wrap ''Docker client initialization failed: '')
     (try_err (mn_terminal g (recovery_path (ar_config a)) api) (wrap ''terminal manager initialization failed: '')
     (try_err (mn_recover g) (wrap ''terminal recovery failed: '')
     (try_err (mn_upgrade g api) (wrap ''upgrade manager initialization failed: '')
     (try_err (mn_run g (cf_agent_id cfg) agent_version (command_state_path (ar_config a)) api) (wrap ''agent runtime stopped: '')
     (op_bind (mn_close_terminal g ''agent-shutdown'') (\<lambda>_. op_bind (mn_close_docker g) (\<lambda>_. op_return None)))))))"

definition main_process :: "('w, 'api) host \<Rightarrow> arguments \<Rightarrow> 'w err_op" where
  "main_process g a =
     try_res (mn_load g (ar_config a)) (wrap ''xkp-agent configuration error: '') (\<lambda>cfg.
     try_res (mn_connect g cfg) (wrap ''client initialization failed: '') (\<lambda>api.
     try_res (mn_identify g ''/etc/machine-id'' (cf_management_url cfg)) (wrap ''identity discovery failed: '') (\<lambda>info.
     try_res (enroll_once g a cfg api info) same (\<lambda>(cfg', api').
       if ar_enroll_only a then op_return None else run_agent g a cfg' api'))))"

section \<open>Its calls\<close>

datatype main_event =
    MainLoad "goerr + config"
  | MainToken string "goerr + string"
  | MainEnroll string "goerr + enrollment"
  | MainSave string config "goerr option"
  | MainRemove string "goerr option"
  | MainRecover "goerr option"
  | MainRun string "goerr option"
  | MainClose "goerr option"
  | MainOther bool

definition logged_host :: "('w, 'api) host \<Rightarrow> ('w \<times> main_event list, 'api) host" where
  "logged_host g = \<lparr>mn_load = (\<lambda>p. log_op MainLoad (mn_load g p)),
     mn_connect = (\<lambda>c. log_op (\<lambda>r. MainOther (isl r)) (mn_connect g c)),
     mn_identify = (\<lambda>p u. log_op (\<lambda>r. MainOther (isl r)) (mn_identify g p u)),
     mn_read = (\<lambda>f. log_op (MainToken f) (mn_read g f)),
     mn_enroll = (\<lambda>c t n i. log_op (MainEnroll t) (mn_enroll g c t n i)),
     mn_save = (\<lambda>p c. log_op (MainSave p c) (mn_save g p c)),
     mn_remove = (\<lambda>f. log_op (MainRemove f) (mn_remove g f)),
     mn_docker = log_op (\<lambda>r. MainOther (r \<noteq> None)) (mn_docker g),
     mn_terminal = (\<lambda>p c. log_op (\<lambda>r. MainOther (r \<noteq> None)) (mn_terminal g p c)),
     mn_recover = log_op MainRecover (mn_recover g),
     mn_upgrade = (\<lambda>c. log_op (\<lambda>r. MainOther (r \<noteq> None)) (mn_upgrade g c)),
     mn_run = (\<lambda>i v s c. log_op (MainRun i) (mn_run g i v s c)),
     mn_close_terminal = (\<lambda>r. log_op MainClose (mn_close_terminal g r)),
     mn_close_docker = log_op (\<lambda>r. MainOther (r \<noteq> None)) (mn_close_docker g)\<rparr>"

lemma logged_host_simps:
  "mn_load (logged_host g) p = log_op MainLoad (mn_load g p)"
  "mn_connect (logged_host g) c = log_op (\<lambda>r. MainOther (isl r)) (mn_connect g c)"
  "mn_identify (logged_host g) p u = log_op (\<lambda>r. MainOther (isl r)) (mn_identify g p u)"
  "mn_read (logged_host g) f = log_op (MainToken f) (mn_read g f)"
  "mn_enroll (logged_host g) api t n i = log_op (MainEnroll t) (mn_enroll g api t n i)"
  "mn_save (logged_host g) p c = log_op (MainSave p c) (mn_save g p c)"
  "mn_remove (logged_host g) f = log_op (MainRemove f) (mn_remove g f)"
  "mn_docker (logged_host g) = log_op (\<lambda>r. MainOther (r \<noteq> None)) (mn_docker g)"
  "mn_terminal (logged_host g) p api = log_op (\<lambda>r. MainOther (r \<noteq> None)) (mn_terminal g p api)"
  "mn_recover (logged_host g) = log_op MainRecover (mn_recover g)"
  "mn_upgrade (logged_host g) api = log_op (\<lambda>r. MainOther (r \<noteq> None)) (mn_upgrade g api)"
  "mn_run (logged_host g) ident v s api = log_op (MainRun ident) (mn_run g ident v s api)"
  "mn_close_terminal (logged_host g) r = log_op MainClose (mn_close_terminal g r)"
  "mn_close_docker (logged_host g) = log_op (\<lambda>r. MainOther (r \<noteq> None)) (mn_close_docker g)"
  by (simp_all add: logged_host_def)

text \<open>
  What must have happened before a call: the token is read when the loaded configuration has no identity, and used
  once; the new identity is saved before the token is removed; the runtime starts with an identity that is in the file,
  after the recovery of the last terminal session was settled.
\<close>

definition enrolls_now :: "main_event list \<Rightarrow> bool" where
  "enrolls_now h \<longleftrightarrow> (\<exists>cfg. MainLoad (Inr cfg) \<in> set h \<and> cf_agent_id cfg = []) \<and> (\<forall>t r. MainEnroll t r \<notin> set h)"

fun main_allowed :: "arguments \<Rightarrow> main_event list \<Rightarrow> main_event \<Rightarrow> bool" where
  "main_allowed a h (MainToken f r) = (f = ar_token_file a \<and> f \<noteq> [] \<and> enrolls_now h)"
| "main_allowed a h (MainEnroll t r) =
     (enrolls_now h \<and> (\<exists>token. MainToken (ar_token_file a) (Inr token) \<in> set h \<and> t = trim_space token))"
| "main_allowed a h (MainSave p c r) =
     (p = ar_config a \<and> (\<exists>t e cfg. MainEnroll t (Inr e) \<in> set h \<and> MainLoad (Inr cfg) \<in> set h \<and> c = enrolled_config e cfg))"
| "main_allowed a h (MainRemove f r) = (f = ar_token_file a \<and> (\<exists>c. MainSave (ar_config a) c None \<in> set h))"
| "main_allowed a h (MainRun i r) =
     (\<not> ar_enroll_only a \<and> MainRecover None \<in> set h \<and>
      ((\<exists>cfg. MainLoad (Inr cfg) \<in> set h \<and> cf_agent_id cfg = i \<and> i \<noteq> []) \<or>
       (\<exists>c. MainSave (ar_config a) c None \<in> set h \<and> cf_agent_id c = i \<and> MainRemove (ar_token_file a) None \<in> set h)))"
| "main_allowed a h (MainClose r) = (\<exists>i. MainRun i None \<in> set h)"
| "main_allowed a h ev = True"

definition main_trace :: "('w, 'api) host \<Rightarrow> arguments \<Rightarrow> 'w \<Rightarrow> main_event list" where
  "main_trace g a w = snd (snd (main_process (logged_host g) a (w, [])))"

text \<open>Whom the runtime may start for, once the configuration is settled.\<close>

definition identified :: "arguments \<Rightarrow> config \<Rightarrow> main_event list \<Rightarrow> bool" where
  "identified a cfg h \<longleftrightarrow>
     (MainLoad (Inr cfg) \<in> set h \<and> cf_agent_id cfg \<noteq> []) \<or>
     (MainSave (ar_config a) cfg None \<in> set h \<and> MainRemove (ar_token_file a) None \<in> set h)"

lemma run_allowed:
  assumes "identified a cfg h" "\<not> ar_enroll_only a"
  shows "guards (main_allowed a) h (run_agent (logged_host g) a cfg api) (\<lambda>r t. True)"
  unfolding run_agent_def logged_host_simps
  by (intro guards_intros) (use assms in \<open>auto simp: identified_def\<close>)

lemma enroll_allowed:
  assumes "MainLoad (Inr cfg) \<in> set h" "\<forall>t r. MainEnroll t r \<notin> set h"
  shows "guards (main_allowed a) h (enroll_once (logged_host g) a cfg api info)
    (\<lambda>r t. \<forall>cfg' api'. r = Inr (cfg', api') \<longrightarrow> identified a cfg' t)"
  unfolding enroll_once_def logged_host_simps
  by (intro guards_intros) (use assms in \<open>auto simp: identified_def enrolls_now_def\<close>)

lemma main_guarded: "guards (main_allowed a) [] (main_process (logged_host g) a) (\<lambda>r t. True)"
  unfolding main_process_def logged_host_simps try_res_def [of "enroll_once _ _ _ _ _"]
proof (intro guards_intros, goal_cases)
  case (7 cfg api info)
  show ?case
    by (rule guards_bind [OF enroll_allowed]) (auto intro!: guards_return guards_if run_allowed split: sum.split)
qed simp_all

section \<open>Properties\<close>

text \<open>
  C32. The process does its calls in order, whatever fails: the enrollment token is read and used only while there is
  no identity, and once; it is removed only after the new identity is in the configuration file; and the runtime
  starts only with an identity that is in that file, after the recovery of the last terminal session was settled.
\<close>

theorem startup_in_order: "guarded (main_allowed a) (main_trace g a w)"
proof -
  obtain r w' tr where run: "main_process (logged_host g) a (w, []) = (r, (w', tr))" by (metis prod.collapse)
  from guards_run [OF main_guarded run] run show ?thesis by (simp add: main_trace_def)
qed

text \<open>
  C33. An enrollment survives a restart: with a configuration file named by an absolute path, what the process saves
  after enrolling is what the next start loads, permissions included. The hypothesis on the YAML library is that it
  reads what it has written.
\<close>

theorem enrollment_persists:
  assumes "load_config decode read_ca path w = (Inr cfg, w1)" "is_abs path" "en_agent_id e \<noteq> []" "en_credential e \<noteq> []"
    "save_config encode (enrolled_config e cfg) w2 = (None, w3)"
    "\<And>data. encode (enrolled_config e cfg) = Inr data \<Longrightarrow> decode data = Inr (enrolled_config e cfg)"
    "cw_file w4 = cw_file w3" "cw_faults w4 = []"
  shows "fst (load_config decode read_ca path w4) = Inr (enrolled_config e cfg)"
proof -
  let ?c = "enrolled_config e cfg"
  from load_ok [OF assms(1)] have "validate_config read_ca cfg = None" by blast
  then have v: "validate_config read_ca ?c = None"
    using assms(3,4) enrolled_valid unfolding enrolled_config_def by blast
  have j: "default_config (join_ca path ?c) = ?c"
    using enrolled_fixed [OF assms(1,2)] unfolding enrolled_config_def .
  from save_file [OF assms(5)] obtain data where d: "encode ?c = Inr data" "cw_file w3 = Some (private_mode, data)" by auto
  have "private_mode mod 64 = 0" by (simp add: private_mode_def)
  with v j d assms(6) [OF d(1)] assms(7,8) show ?thesis
    by (simp add: load_config_def cw_try_def cw_call_def Let_def)
qed

definition fresh_config :: config where
  "fresh_config = \<lparr>cf_management_url = ''http://m'', cf_ca = ''ca.pem'', cf_workspace = ''/w'', cf_environment_root = [],
     cf_tls_dir = [], cf_agent_id = [], cf_credential = [], cf_development = True\<rparr>"

definition first_config :: config where
  "first_config = default_config (join_ca ''/etc/x/c.yaml'' fresh_config)"

definition some_enrollment :: enrollment where
  "some_enrollment = \<lparr>en_agent_id = ''a'', en_credential = ''k''\<rparr>"

definition sample_decode :: "string \<Rightarrow> goerr + config" where
  "sample_decode data = (if data = ''new'' then Inr (enrolled_config some_enrollment first_config) else Inr fresh_config)"

definition fresh_world :: config_world where
  "fresh_world = \<lparr>cw_file = Some (0, ''old''), cw_temp = None, cw_faults = []\<rparr>"

definition saved_world :: config_world where
  "saved_world = \<lparr>cw_file = Some (private_mode, ''new''), cw_temp = None, cw_faults = []\<rparr>"

lemma first_loads: "load_config sample_decode (\<lambda>s. None) ''/etc/x/c.yaml'' fresh_world = (Inr first_config, fresh_world)"
proof -
  have url: "url_parse ''http://m'' = Some (empty_url\<lparr>u_scheme := ''http'', u_host := ''m''\<rparr>)" by code_simp
  have f: "cf_management_url first_config = ''http://m''" "cf_development first_config" "cf_workspace first_config = ''/w''"
    "is_abs (cf_environment_root first_config)" "is_abs (cf_tls_dir first_config)" "cf_agent_id first_config = []"
    "cf_credential first_config = []" by code_simp+
  have "validate_config (\<lambda>s. None) first_config = None"
    unfolding validate_ok using url f by (simp add: empty_url_def is_abs_def)
  then show ?thesis
    using f(7) by (simp add: load_config_def fresh_world_def cw_try_def cw_call_def sample_decode_def first_config_def [symmetric])
qed

lemma first_saved:
  "save_config (\<lambda>c. Inr ''new'') (enrolled_config some_enrollment first_config) fresh_world = (None, saved_world)"
  by (simp add: save_config_def fill_temp_def fresh_world_def saved_world_def cw_try_def cw_call_def op_defs same_def private_mode_def)

theorem enrollment_persists_witness:
  "fst (load_config sample_decode (\<lambda>s. None) ''/etc/x/c.yaml'' saved_world) = Inr (enrolled_config some_enrollment first_config)"
  by (rule enrollment_persists [OF first_loads _ _ _ first_saved])
    (simp_all add: is_abs_def some_enrollment_def sample_decode_def saved_world_def)

text \<open>
  With a relative path it does not: the certificate's path is joined with the directory at every load, and the joined
  path is what was saved, so the next start looks in a directory of the directory.
\<close>

theorem relative_ca_is_joined_again:
  "cf_ca (join_ca ''conf/c.yaml'' fresh_config) = ''conf/ca.pem'' \<and>
   cf_ca (join_ca ''conf/c.yaml'' (enrolled_config some_enrollment (join_ca ''conf/c.yaml'' fresh_config))) = ''conf/conf/ca.pem''"
  by code_simp

end
