(* ===== verification/Spec2Isabelle.thy ===== *)
theory Spec2Isabelle
  imports AgentClaims ValidatorClaims TerminalClaims RelayClaims ManagerClaims ClientClaims Startup
begin

text \<open>
  A verification development for xkp-agent, the agent that runs on a training server. Its process
  (\<open>cmd/xkp-agent/main.go\<close>) loads the configuration, enrolls once with the management server, settles the terminal session
  a crash may have left, and runs two loops. The heartbeat loop reports metrics and receives the operation grant. The command loop
  delivers the pending report, sends a heartbeat for a fresh grant, polls for commands, decodes each one strictly and dispatches
  it. The dispatcher acknowledges the start, records it on disk, carries out the effect through a manager (containers, images,
  files, models, power, upgrade, terminal), records the result, reports it and clears the record.

  \<^bold>\<open>How the code is written here.\<close> A Go string is a list of bytes, a struct a record, a union of payloads a record of options, as in the
  code. An operation that calls something outside (the network, Docker, a file, the clock) is a function from a world to a result
  and a world, \<open>('w, 'a) op\<close>; what it calls are the fields of a record (\<open>dispatcher\<close>, \<open>docker\<close>, \<open>'w client\<close>, \<open>image_tools\<close>, ...), so
  that a theorem over every such record holds whatever those calls answer. An error is a value of \<open>goerr\<close> with its chain of wrapped errors;
  a fallible operation returns \<open>goerr + 'a\<close>, one without a result \<open>goerr option\<close>. \<open>int64\<close> arithmetic that can overflow is
  written with \<open>wrap64\<close>. Goroutines that share state are \<open>inductive\<close> step relations, one step for each critical section, atomic operation or
  call. \<open>logged\<close> versions of the records append every call to a trace, which is what the safety properties speak of.

  \<^bold>\<open>Shared theories.\<close>
  \<^item> \<open>Prelude\<close>: errors, operations and their combinators, the collections \<open>step_splits\<close>, \<open>step_defs\<close> and \<open>guards\<close>.
  \<^item> \<open>Traces\<close>, \<open>Monitors\<close>, \<open>Guards\<close>: traces of logged operations; automata over them; the rules that execute a
    handler and leave one condition for each call.
  \<^item> \<open>GoText\<close>, \<open>GoUtf8\<close>, \<open>GoErrors\<close>, \<open>GoTime\<close> and \<open>GoTimeProps\<close>, \<open>GoPath\<close>, \<open>GoUrl\<close> and \<open>UrlHost\<close>, \<open>GoFiles\<close>: what the source uses of Go's strings,
    runes, errors, times, paths, URLs and files. A regular expression is a term of \<open>rx\<close>.
  \<^item> \<open>GoJson\<close>, \<open>GoJsonText\<close>, \<open>GoJsonPrint\<close>: decoding into Go values, parsing and printing, and that what is printed is read
    back. The parser takes fuel, twice the number of the tokens, and \<open>parse_value_enough\<close> shows that this is enough.

  \<^bold>\<open>Commands\<close> (\<open>internal/protocol\<close>). \<open>Protocol\<close> has the envelope, the payloads and their checks; \<open>Decode\<close> has \<open>DecodeCommandAt\<close>;
  \<open>EnvironmentSpec\<close> states what an accepted environment payload is, without loops, and proves \<open>validateEnvironment\<close> equivalent to
  it; \<open>CommandSpec\<close> and \<open>CommandProps\<close> hold what is known of every accepted command: its payload, its identifiers,
  the deadlines and the relay URL of a terminal.

  \<^bold>\<open>Dispatcher and store\<close> (\<open>internal/runtime\<close>). \<open>Dispatcher\<close> has \<open>Dispatch\<close> with every handler and \<open>RetryPending\<close>. \<open>Journal\<close> and \<open>JournalSteps\<close>
  give the abstract specification, a command's phases as a step relation, and the refinement: every trace of a dispatch is a run
  of it. \<open>JournalSafety\<close> and \<open>CrashSafety\<close> follow it over crashes and restarts. \<open>CommandStore\<close> has the file store, \<open>Save\<close> as its sequence of
  file operations each of which may fail; the locale \<open>command_store\<close> is the contract the dispatcher relies on, interpreted on the
  memory store and on the file store. \<open>DispatchProps\<close> and \<open>StoreClaims\<close> are the properties. A write that fails is
  taken to leave the temporary file empty, where the code can leave a part of the text in it: nothing reads that file.

  \<^bold>\<open>Agent loops\<close> (\<open>internal/runtime/agent.go\<close>). \<open>Agent\<close> has \<open>SendOnce\<close> in its two steps under the mutex, a round of commands, the back-off and the
  jitter; \<open>AgentClaims\<close> the interleaving of the two loops, and the crash safety and the progress of whole rounds.

  \<^bold>\<open>Containers\<close> (\<open>internal/container\<close>). \<open>Executor\<close> has the interface and \<open>FakeExec\<close> its contract as locales (\<open>executor_contract\<close>,
  \<open>atomic_executor\<close>), interpreted on the in-memory executor; \<open>Validator\<close> the checks made before anything is touched; \<open>Mps\<close> the MPS daemon;
  \<open>DockerExec\<close> the executor that acts on Docker, call by call. \<open>DockerProps\<close> (ownership, compensation), \<open>DockerWait\<close>
  (the polling loops), \<open>DockerClaims\<close> and \<open>ValidatorClaims\<close> hold the proofs. The polling loops take a number of rounds;
  \<open>enough_rounds\<close> = 452 covers the longest of them, and more rounds change nothing when the clock advances by the time waited.

  \<^bold>\<open>Terminal\<close> (\<open>internal/terminal\<close>). \<open>RecoveryPath\<close> and \<open>RecoveryStore\<close> have the recovery record on disk (locale \<open>recovery_store\<close>, interpreted on the file);
  \<open>TerminalManager\<close> the manager; \<open>TerminalSteps\<close> the manager with all its goroutines as steps, with their invariant, for both
  ways a failed save can end (\<open>dirty\<close>); \<open>TerminalRefine\<close> that the code takes these steps. \<open>Relay\<close>, \<open>RelayRate\<close> and \<open>RelaySession\<close>
  have the control frames, the token bucket (its floating-point rounding is a parameter) and \<open>relaySession\<close> with its three goroutines, its main
  loop and the deferred \<open>terminateProcess\<close>; \<open>TerminalRunner\<close> has the Linux runner's \<open>Start\<close>. A session's goroutine ends in at most 7 steps, a
  stopped relay in at most 559. \<open>TerminalClaims\<close> and \<open>RelayClaims\<close> are the properties.

  \<^bold>\<open>Managers.\<close> \<open>ModelDeploy\<close> (\<open>internal/modeldeploy\<close>; with the part of the shell's grammar that tells words and commands of its text, and
  nothing of what \<open>cp\<close> does with them), \<open>DockerInventory\<close> (\<open>internal/dockerinventory\<close>), \<open>FileTransfer\<close> (\<open>internal/transfer\<close>), \<open>ImageDeploy\<close>
  (\<open>internal/imagedeploy\<close>; its copying takes at most \<open>max_archive_bytes + 2\<close> reads), \<open>Upgrade\<close> (\<open>internal/upgrade\<close>), \<open>PowerControl\<close>
  (\<open>internal/power\<close>), and \<open>ManagerClaims\<close>.

  \<^bold>\<open>Client, configuration, process.\<close> \<open>Client\<close> (\<open>internal/client\<close>) has every call with its request and the decoding of its answer; \<open>Config\<close>
  (\<open>internal/config\<close>) has \<open>Load\<close>, \<open>Validate\<close> and \<open>Save\<close>; \<open>Startup\<close> has \<open>main\<close> from the loaded configuration on. \<open>ClientClaims\<close> and
  \<open>Startup\<close> hold the properties.

  \<^bold>\<open>Parameters.\<close> The Docker daemon, the management server and the HTTP transport, the operating system's file calls, the clock, random bytes, SHA-256, YAML,
  the websocket and the terminal device, \<open>reference.Parse\<close> and NVIDIA's library are not part of the program: they are the fields and
  arguments named above. Where a property needs something of one of them (a clock that advances, a YAML library that reads what it has
  written, a rounding within one part in \<open>2\<^sup>5\<^sup>3\<close>, a file store that answers what it holds), it is a hypothesis of the property, with a
  witness that meets it.

  \<^bold>\<open>Not modelled.\<close> The collectors of metrics (\<open>internal/collect\<close>), whose values the agent only passes on; the machine's identity
  (\<open>internal/identity\<close>), which asks the operating system; the migration tool \<open>cmd/xkp-editor-tls-migrate\<close>, which is no part of the
  agent's process; and the runner for other platforms. Real time is modelled only as what clocks answer: a context's deadline is an answer, not a
  duration. What a script or a shell does once it runs is outside.
\<close>

end
